(* ===== verification/Prelude.thy ===== *)
theory Prelude
  imports Main "HOL-Library.List_Lexorder" "HOL-Library.Char_ord"
begin

text \<open>
  Shared vocabulary of the development: Python values and the few pieces of the Python
  standard library the modelled code calls (string stripping and splitting, decimal
  rendering of integers, joining, \<open>max\<close> with a key, sorted sets of strings), JSON
  documents, the result type of fallible code, and the generic lemmas about them.
  A Python \<open>str\<close> is a HOL \<open>string\<close>; one \<open>char\<close> stands for one code point
  (so the model covers texts over the first 256 code points), and \<open>length\<close> is \<open>len\<close>.
\<close>

named_theorems session_simps
  \<open>what the operations on a database session do to its committed and pending state\<close>
named_theorems frame_simps
  \<open>the tables an operation leaves alone\<close>

section \<open>Strings\<close>

type_synonym uuid = string

definition py_isspace :: "char \<Rightarrow> bool" where
  "py_isspace c \<longleftrightarrow>
     (let n = (of_char c :: nat)
      in 9 \<le> n \<and> n \<le> 13 \<or> 28 \<le> n \<and> n \<le> 32 \<or> n = 133 \<or> n = 160)"

definition py_lstrip :: "string \<Rightarrow> string" where
  "py_lstrip s = dropWhile py_isspace s"

definition py_strip :: "string \<Rightarrow> string" where
  "py_strip s = rev (py_lstrip (rev (py_lstrip s)))"

text \<open>\<open>str.lower\<close> over the first 256 code points.\<close>

definition py_lower :: "string \<Rightarrow> string" where
  "py_lower = map (\<lambda>c. let n = (of_char c :: nat) in
     if 65 \<le> n \<and> n \<le> 90 \<or> 192 \<le> n \<and> n \<le> 222 \<and> n \<noteq> 215 then char_of (n + 32) else c)"

definition py_rstrip :: "string \<Rightarrow> string" where
  "py_rstrip s = rev (py_lstrip (rev s))"

text \<open>\<open>str.split()\<close> without arguments: the maximal runs of non-space characters.\<close>

fun py_split_aux :: "string \<Rightarrow> string \<Rightarrow> string list" where
  "py_split_aux acc [] = (if acc = [] then [] else [acc])"
| "py_split_aux acc (c # cs) =
     (if py_isspace c then (if acc = [] then py_split_aux [] cs else acc # py_split_aux [] cs)
      else py_split_aux (acc @ [c]) cs)"

definition py_split :: "string \<Rightarrow> string list" where
  "py_split s = py_split_aux [] s"

text \<open>\<open>(x or "").strip()\<close>, the idiom every optional note goes through.\<close>

definition clean_note :: "string option \<Rightarrow> string" where
  "clean_note n = py_strip (case n of None \<Rightarrow> [] | Some s \<Rightarrow> s)"

text \<open>\<open>x or None\<close> for a string.\<close>

definition or_none :: "string \<Rightarrow> string option" where
  "or_none s = (if s = [] then None else Some s)"

lemma or_none_simps [simp]: "or_none [] = None" "or_none (c # cs) = Some (c # cs)" "or_none s = None \<longleftrightarrow> s = []"
  by (simp_all add: or_none_def)

text \<open>\<open>a or b\<close> on texts that may be missing or empty.\<close>

definition or_text :: "string option \<Rightarrow> string \<Rightarrow> string" where
  "or_text a b = (case a of Some (c # cs) \<Rightarrow> c # cs | _ \<Rightarrow> b)"

lemma or_text_Some: "x \<noteq> [] \<Longrightarrow> or_text (Some x) y = x"
  by (cases x) (simp_all add: or_text_def)

fun py_join :: "string \<Rightarrow> string list \<Rightarrow> string" where
  "py_join sep [] = []"
| "py_join sep [x] = x"
| "py_join sep (x # y # zs) = x @ sep @ py_join sep (y # zs)"

fun starts_with :: "string \<Rightarrow> string \<Rightarrow> bool" where
  "starts_with [] s = True"
| "starts_with (p # ps) [] = False"
| "starts_with (p # ps) (c # cs) = (p = c \<and> starts_with ps cs)"

lemma starts_with_iff: "starts_with p s \<longleftrightarrow> (\<exists>r. s = p @ r)"
  by (induction p s rule: starts_with.induct) auto

text \<open>\<open>str.split(c)\<close> with a one-character separator.\<close>

fun split_on :: "char \<Rightarrow> string \<Rightarrow> string list" where
  "split_on c [] = [[]]"
| "split_on c (x # xs) =
     (if x = c then [] # split_on c xs
      else (case split_on c xs of [] \<Rightarrow> [[x]] | s # ss \<Rightarrow> (x # s) # ss))"

lemma split_on_nonempty [simp]: "split_on c s \<noteq> []"
  by (induction c s rule: split_on.induct) (auto split: list.splits)

lemma join_split_on: "py_join [c] (split_on c s) = s"
proof (induction c s rule: split_on.induct)
  case (2 c x xs)
  then show ?case
    by (cases "split_on c xs"; cases "tl (split_on c xs)") auto
qed simp

lemma split_on_segments: "seg \<in> set (split_on c s) \<Longrightarrow> c \<notin> set seg"
proof (induction c s arbitrary: seg rule: split_on.induct)
  case (2 c x xs)
  then show ?case by (cases "split_on c xs") (auto split: if_splits)
qed simp

lemma split_on_append: "c \<notin> set x \<Longrightarrow> split_on c (x @ c # y) = x # split_on c y"
  by (induction x) auto

lemma split_on_no_sep: "c \<notin> set x \<Longrightarrow> split_on c x = [x]"
  by (induction x) auto

lemma split_on_join:
  assumes "\<And>seg. seg \<in> set segs \<Longrightarrow> c \<notin> set seg" and "segs \<noteq> []"
  shows "split_on c (py_join [c] segs) = segs"
  using assms
  by (induction "[c]" segs rule: py_join.induct) (simp_all add: split_on_no_sep split_on_append)

subsection \<open>Decimal rendering of integers\<close>

definition digit :: "nat \<Rightarrow> char" where
  "digit d = char_of (48 + d)"

fun nat_str :: "nat \<Rightarrow> string" where
  "nat_str n = (if n < 10 then [digit n] else nat_str (n div 10) @ [digit (n mod 10)])"

declare nat_str.simps [simp del]

definition int_str :: "int \<Rightarrow> string" where
  "int_str i = (if i < 0 then CHR ''-'' # nat_str (nat (- i)) else nat_str (nat i))"

definition digits_val :: "string \<Rightarrow> nat" where
  "digits_val s = foldl (\<lambda>v c. 10 * v + (of_char c - 48)) 0 s"

lemma of_char_digit: "d < 10 \<Longrightarrow> (of_char (digit d) :: nat) = 48 + d"
  by (simp add: digit_def)

lemma digits_val_nat_str: "digits_val (nat_str n) = n"
proof (induction n rule: nat_str.induct)
  case (1 n)
  show ?case
  proof (cases "n < 10")
    case True
    then show ?thesis
      by (simp add: nat_str.simps [of n] digits_val_def of_char_digit)
  next
    case False
    with 1 have "digits_val (nat_str (n div 10)) = n div 10" by simp
    with False show ?thesis
      by (simp add: nat_str.simps [of n] digits_val_def of_char_digit)
  qed
qed

lemma nat_str_inject [simp]: "nat_str m = nat_str n \<longleftrightarrow> m = n"
  by (metis digits_val_nat_str)

lemma nat_str_digits: "c \<in> set (nat_str n) \<Longrightarrow> 48 \<le> (of_char c :: nat) \<and> (of_char c :: nat) < 58"
proof (induction n rule: nat_str.induct)
  case (1 n)
  show ?case
  proof (cases "n < 10")
    case True
    with 1 show ?thesis
      by (simp add: nat_str.simps [of n] of_char_digit)
  next
    case False
    with 1 consider "c \<in> set (nat_str (n div 10))" | "c = digit (n mod 10)"
      by (auto simp: nat_str.simps [of n])
    then show ?thesis
      using 1 False by cases (auto simp: of_char_digit)
  qed
qed

lemma nat_str_nonempty [simp]: "nat_str n \<noteq> []"
  by (subst nat_str.simps) simp

lemma int_str_inject [simp]: "int_str i = int_str j \<longleftrightarrow> i = j"
proof -
  have "CHR ''-'' \<notin> set (nat_str n)" for n
    using nat_str_digits [of "CHR ''-''" n] by auto
  then have "CHR ''-'' # xs \<noteq> nat_str n" for xs n
    by (metis list.set_intros(1))
  then show ?thesis
    by (auto simp: int_str_def) (metis)+
qed

subsection \<open>Parsing integers\<close>

text \<open>\<open>int(value)\<close>: optional white space and sign, digits, single underscores between digits.\<close>

fun int_digits :: "bool \<Rightarrow> nat \<Rightarrow> string \<Rightarrow> nat option" where
  "int_digits seen v [] = (if seen then Some v else None)"
| "int_digits seen v (c # cs) =
     (let n = (of_char c :: nat) in
      if 48 \<le> n \<and> n \<le> 57 then int_digits True (10 * v + (n - 48)) cs
      else if c = CHR ''_'' \<and> seen then int_digits False v cs else None)"

definition py_int :: "string \<Rightarrow> int option" where
  "py_int s = (case py_strip s of
      c # cs \<Rightarrow> if c = CHR ''-'' then map_option (\<lambda>n. - int n) (int_digits False 0 cs)
               else if c = CHR ''+'' then map_option int (int_digits False 0 cs)
               else map_option int (int_digits False 0 (c # cs))
    | [] \<Rightarrow> None)"

section \<open>Length-prefixed fields\<close>

text \<open>
  A field is rendered as its length, a colon and its value; a missing value is \<open>-1:\<close>.
  The rendering is uniquely decodable even when the value holds digits, colons or line
  breaks, which is what makes the joined text a faithful stand-in for the list of fields.
\<close>

definition field_text :: "string option \<Rightarrow> string" where
  "field_text v = (case v of None \<Rightarrow> ''-1:'' | Some s \<Rightarrow> nat_str (length s) @ '':'' @ s)"

lemma colon_free_nat_str: "CHR '':'' \<notin> set (nat_str n)"
  using nat_str_digits [of "CHR '':''" n] by auto

lemma split_at_first:
  assumes "x @ c # y = x' @ c # y'" and "c \<notin> set x" and "c \<notin> set x'"
  shows "x = x' \<and> y = y'"
  using assms
proof (induction x arbitrary: x')
  case Nil
  then show ?case by (cases x') auto
next
  case (Cons a x)
  then show ?case by (cases x') auto
qed

lemma field_text_decode:
  assumes "field_text v @ r = field_text w @ s"
  shows "v = w \<and> r = s"
proof -
  have minus: "nat_str n @ x \<noteq> ''-1:'' @ y" for n x y
  proof
    assume eq: "nat_str n @ x = ''-1:'' @ y"
    obtain c cs where c: "nat_str n = c # cs" by (cases "nat_str n") auto
    with nat_str_digits [of c n] eq show False by auto
  qed
  show ?thesis
  proof (cases v)
    case None
    with assms minus show ?thesis
      by (cases w) (auto simp: field_text_def dest: sym)
  next
    case (Some a)
    note va = this
    show ?thesis
    proof (cases w)
      case None
      with assms va minus show ?thesis by (auto simp: field_text_def)
    next
      case (Some b)
      from assms va Some have "nat_str (length a) @ CHR '':'' # (a @ r) = nat_str (length b) @ CHR '':'' # (b @ s)"
        by (simp add: field_text_def)
      then have "nat_str (length a) = nat_str (length b) \<and> a @ r = b @ s"
        by (rule split_at_first) (rule colon_free_nat_str)+
      with va Some show ?thesis by auto
    qed
  qed
qed

definition newline :: string where
  "newline = [CHR 0x0A]"

lemma join_fields_inject:
  assumes "length vs = length ws"
    and "py_join newline (p # map field_text vs) = py_join newline (p # map field_text ws)"
  shows "vs = ws"
  using assms
proof (induction vs ws arbitrary: p rule: list_induct2)
  case Nil
  then show ?case by simp
next
  case (Cons v vs w ws)
  from Cons.prems have eq:
    "py_join newline (field_text v # map field_text vs) = py_join newline (field_text w # map field_text ws)"
    by simp
  show ?case
  proof (cases vs)
    case Nil
    with Cons.hyps have "ws = []" by simp
    with Nil eq field_text_decode [of v "[]" w "[]"] show ?thesis by simp
  next
    case (Cons v' vs')
    with \<open>length vs = length ws\<close> obtain w' ws' where ws: "ws = w' # ws'" by (cases ws) auto
    from eq Cons ws have vw: "v = w" and rest:
      "newline @ py_join newline (map field_text vs) = newline @ py_join newline (map field_text ws)"
      by (auto dest: field_text_decode)
    from rest Cons ws have
      "py_join newline ([] # map field_text vs) = py_join newline ([] # map field_text ws)"
      by simp
    from Cons.IH [OF this] vw show ?thesis by simp
  qed
qed

section \<open>JSON documents\<close>

text \<open>
  The values of a parsed JSON document (floats are not used by the modelled code). An
  object is an association list in document order, with each key once.
\<close>

datatype json =
    JNull
  | JBool bool
  | JInt int
  | JStr string
  | JList "json list"
  | JObj "(string \<times> json) list"

text \<open>\<open>d.get(k)\<close> on a dictionary; anything else has no keys.\<close>

definition jget :: "string \<Rightarrow> json \<Rightarrow> json option" where
  "jget k j = (case j of JObj kvs \<Rightarrow> map_of kvs k | _ \<Rightarrow> None)"

definition py_truthy :: "json \<Rightarrow> bool" where
  "py_truthy j = (case j of JNull \<Rightarrow> False | JBool b \<Rightarrow> b | JInt i \<Rightarrow> i \<noteq> 0 | JStr s \<Rightarrow> s \<noteq> []
     | JList xs \<Rightarrow> xs \<noteq> [] | JObj kvs \<Rightarrow> kvs \<noteq> [])"

definition jstr_opt :: "string option \<Rightarrow> json" where
  "jstr_opt v = (case v of None \<Rightarrow> JNull | Some s \<Rightarrow> JStr s)"

definition jint_opt :: "int option \<Rightarrow> json" where
  "jint_opt v = (case v of None \<Rightarrow> JNull | Some i \<Rightarrow> JInt i)"

lemma jstr_opt_inject [simp]: "jstr_opt a = jstr_opt b \<longleftrightarrow> a = b"
  by (cases a; cases b) (auto simp: jstr_opt_def)

text \<open>\<open>repr\<close> and \<open>str\<close> of these values.\<close>

definition hex_digit :: "nat \<Rightarrow> char" where
  "hex_digit n = (if n < 10 then char_of (48 + n) else char_of (87 + n))"

text \<open>\<open>repr\<close> of a string: the quote, and the escapes of non-printable characters.\<close>

definition repr_char :: "char \<Rightarrow> char \<Rightarrow> string" where
  "repr_char q c =
     (let n = (of_char c :: nat) in
      if c = q \<or> n = 92 then [CHR 0x5C, c]
      else if n = 9 then [CHR 0x5C, CHR ''t''] else if n = 10 then [CHR 0x5C, CHR ''n'']
      else if n = 13 then [CHR 0x5C, CHR ''r'']
      else if n < 32 \<or> 127 \<le> n \<and> n \<le> 160 \<or> n = 173
        then [CHR 0x5C, CHR ''x'', hex_digit (n div 16), hex_digit (n mod 16)]
      else [c])"

definition repr_str :: "string \<Rightarrow> string" where
  "repr_str s =
     (let q = (if CHR 0x27 \<in> set s \<and> CHR 0x22 \<notin> set s then CHR 0x22 else CHR 0x27)
      in q # concat (map (repr_char q) s) @ [q])"

primrec py_repr :: "json \<Rightarrow> string" where
  "py_repr JNull = ''None''"
| "py_repr (JBool b) = (if b then ''True'' else ''False'')"
| "py_repr (JInt i) = int_str i"
| "py_repr (JStr s) = repr_str s"
| "py_repr (JList xs) = ''['' @ py_join '', '' (map py_repr xs) @ '']''"
| "py_repr (JObj kvs) = ''{'' @ py_join '', ''
     (map (\<lambda>(k, v). repr_str k @ '': '' @ v) (map (map_prod id py_repr) kvs)) @ ''}''"

definition py_str :: "json \<Rightarrow> string" where
  "py_str j = (case j of JStr s \<Rightarrow> s | _ \<Rightarrow> py_repr j)"

text \<open>\<open>d.get(k)\<close> with Python's default \<open>None\<close>.\<close>

definition jget0 :: "string \<Rightarrow> json \<Rightarrow> json" where
  "jget0 k j = (case jget k j of None \<Rightarrow> JNull | Some v \<Rightarrow> v)"

text \<open>\<open>d.get(k, default)\<close>, and the elements of \<open>d.get(k) or []\<close> where the value, if any, is a list.\<close>

definition jget_or :: "string \<Rightarrow> json \<Rightarrow> json \<Rightarrow> json" where
  "jget_or k dflt j = (case jget k j of None \<Rightarrow> dflt | Some v \<Rightarrow> v)"

definition jlist :: "string \<Rightarrow> json \<Rightarrow> json list" where
  "jlist k j = (case jget k j of Some (JList xs) \<Rightarrow> xs | _ \<Rightarrow> [])"

text \<open>
  \<open>json.dumps(j, sort_keys=True, separators=(",", ":"))\<close>: keys in order; the flag is
  \<open>ensure_ascii\<close>.
\<close>

definition json_escape :: "bool \<Rightarrow> char \<Rightarrow> string" where
  "json_escape ascii c =
     (let n = (of_char c :: nat) in
      if n = 34 \<or> n = 92 then [CHR 0x5C, c]
      else if n = 8 then [CHR 0x5C, CHR ''b''] else if n = 12 then [CHR 0x5C, CHR ''f'']
      else if n = 10 then [CHR 0x5C, CHR ''n''] else if n = 13 then [CHR 0x5C, CHR ''r'']
      else if n = 9 then [CHR 0x5C, CHR ''t'']
      else if n < 32 \<or> ascii \<and> 126 < n then [CHR 0x5C, CHR ''u'', CHR ''0'', CHR ''0'', hex_digit (n div 16), hex_digit (n mod 16)]
      else [c])"

definition json_string :: "bool \<Rightarrow> string \<Rightarrow> string" where
  "json_string ascii s = CHR 0x22 # concat (map (json_escape ascii) s) @ [CHR 0x22]"

primrec json_dumps :: "bool \<Rightarrow> json \<Rightarrow> string" where
  "json_dumps ascii JNull = ''null''"
| "json_dumps ascii (JBool b) = (if b then ''true'' else ''false'')"
| "json_dumps ascii (JInt i) = int_str i"
| "json_dumps ascii (JStr s) = json_string ascii s"
| "json_dumps ascii (JList xs) = ''['' @ py_join '','' (map (json_dumps ascii) xs) @ '']''"
| "json_dumps ascii (JObj kvs) = ''{'' @ py_join '',''
     (map (\<lambda>(k, v). json_string ascii k @ '':'' @ v) (sort_key fst (map (map_prod id (json_dumps ascii)) kvs))) @ ''}''"

text \<open>\<open>[x for x in xs if isinstance(x, str)]\<close>\<close>

definition only_strings :: "json list \<Rightarrow> string list" where
  "only_strings xs = List.map_filter (\<lambda>x. case x of JStr s \<Rightarrow> Some s | _ \<Rightarrow> None) xs"

lemma only_strings_simps [simp]:
  "only_strings [] = []"
  "only_strings (JStr s # xs) = s # only_strings xs"
  "(\<And>s. x \<noteq> JStr s) \<Longrightarrow> only_strings (x # xs) = only_strings xs"
  by (auto simp: only_strings_def List.map_filter_simps split: json.splits)

lemma set_only_strings: "set (only_strings xs) = {s. JStr s \<in> set xs}"
proof (induction xs)
  case (Cons x xs)
  then show ?case by (cases x) auto
qed simp

text \<open>\<open>sorted\<close> of a set of strings.\<close>

definition sorted_strings :: "json list \<Rightarrow> string list" where
  "sorted_strings xs = sort (remdups (only_strings xs))"

text \<open>\<open>dict.update\<close>: an overwritten key keeps its place, a new one goes to the end.\<close>

fun dict_set :: "string \<Rightarrow> 'v \<Rightarrow> (string \<times> 'v) list \<Rightarrow> (string \<times> 'v) list" where
  "dict_set k v [] = [(k, v)]"
| "dict_set k v ((k', v') # kvs) = (if k = k' then (k, v) # kvs else (k', v') # dict_set k v kvs)"

definition dict_update :: "(string \<times> 'v) list \<Rightarrow> (string \<times> 'v) list \<Rightarrow> (string \<times> 'v) list" where
  "dict_update d e = foldl (\<lambda>acc (k, v). dict_set k v acc) d e"

lemma map_of_dict_set [simp]: "map_of (dict_set k v d) = (map_of d)(k \<mapsto> v)"
  by (induction k v d rule: dict_set.induct) (auto simp: fun_eq_iff)

lemma dom_dict_set: "fst ` set (dict_set k v d) = insert k (fst ` set d)"
  by (induction k v d rule: dict_set.induct) auto

lemma distinct_dict_set: "distinct (map fst d) \<Longrightarrow> distinct (map fst (dict_set k v d))"
  by (induction k v d rule: dict_set.induct) (auto simp: dom_dict_set)

section \<open>Choosing a maximum\<close>

text \<open>\<open>max(xs, key=f)\<close>: the first element whose key no other element exceeds.\<close>

definition max_by :: "('a \<Rightarrow> 'b::linorder) \<Rightarrow> 'a \<Rightarrow> 'a list \<Rightarrow> 'a" where
  "max_by key x xs = foldl (\<lambda>best y. if key best < key y then y else best) x xs"

lemma max_by_simps [simp]:
  "max_by key x [] = x"
  "max_by key x (y # ys) = max_by key (if key x < key y then y else x) ys"
  by (simp_all add: max_by_def)

lemma max_by_in: "max_by key x xs \<in> set (x # xs)"
proof (induction xs arbitrary: x)
  case (Cons y ys)
  then show ?case
    using Cons [of x] Cons [of y] by auto
qed simp

lemma max_by_ge: "y \<in> set (x # xs) \<Longrightarrow> key y \<le> key (max_by key x xs)"
proof (induction xs arbitrary: x y)
  case (Cons z zs)
  let ?w = "if key x < key z then z else x"
  have "key ?w \<le> key (max_by key ?w zs)" by (rule Cons.IH) simp
  moreover have "key x \<le> key ?w" "key z \<le> key ?w" by auto
  moreover have "y \<in> set zs \<Longrightarrow> key y \<le> key (max_by key ?w zs)" by (rule Cons.IH) simp
  ultimately show ?case using Cons.prems by (fastforce dest: order_trans)
qed simp

lemma max_by_key_eq_Max: "key (max_by key x xs) = Max (key ` set (x # xs))"
  by (rule sym, rule Max_eqI) (use max_by_in [of key x xs] max_by_ge [of _ x xs key] in auto)

section \<open>Tables\<close>

text \<open>
  A table is the list of its rows in insertion order. \<open>select ... limit 1\<close> on a key is
  \<open>find\<close>; an \<open>UPDATE\<close> maps over the rows.
\<close>

definition update_where :: "('r \<Rightarrow> bool) \<Rightarrow> ('r \<Rightarrow> 'r) \<Rightarrow> 'r list \<Rightarrow> 'r list" where
  "update_where P f rows = map (\<lambda>r. if P r then f r else r) rows"

lemma length_update_where [simp]: "length (update_where P f rows) = length rows"
  by (simp add: update_where_def)

lemma set_update_where: "set (update_where P f rows) = f ` {r \<in> set rows. P r} \<union> {r \<in> set rows. \<not> P r}"
  by (auto simp: update_where_def)

lemma update_where_simps [simp]:
  "update_where P f [] = []"
  "update_where P f (r # rows) = (if P r then f r else r) # update_where P f rows"
  by (simp_all add: update_where_def)

text \<open>\<open>d[k] = v\<close>: a dictionary keeps the place of a key it has and appends a new one.\<close>

fun assoc_put :: "'k \<Rightarrow> 'v \<Rightarrow> ('k \<times> 'v) list \<Rightarrow> ('k \<times> 'v) list" where
  "assoc_put k v [] = [(k, v)]"
| "assoc_put k v ((k', v') # kvs) = (if k' = k then (k, v) # kvs else (k', v') # assoc_put k v kvs)"

lemma assoc_put_keys: "fst ` set (assoc_put k v kvs) = insert k (fst ` set kvs)"
  by (induction k v kvs rule: assoc_put.induct) (simp_all add: insert_commute)

lemma assoc_put_distinct: "distinct (map fst kvs) \<Longrightarrow> distinct (map fst (assoc_put k v kvs))"
proof (induction kvs)
  case (Cons kv kvs)
  then show ?case using assoc_put_keys [of k v kvs] by (cases kv) auto
qed simp

lemma assoc_put_in: "x \<in> set (assoc_put k v kvs) \<Longrightarrow> x = (k, v) \<or> x \<in> set kvs"
  by (induction kvs) (auto split: if_splits)

text \<open>\<open>{**base, **more}\<close>\<close>

definition dict_merge :: "('k \<times> 'v) list \<Rightarrow> ('k \<times> 'v) list \<Rightarrow> ('k \<times> 'v) list" where
  "dict_merge base more = foldl (\<lambda>d (k, v). assoc_put k v d) base more"

lemma find_SomeD: "find P xs = Some x \<Longrightarrow> x \<in> set xs \<and> P x"
  by (auto simp: find_Some_iff)

lemma find_NoneD: "find P xs = None \<Longrightarrow> x \<in> set xs \<Longrightarrow> \<not> P x"
  by (auto simp: find_None_iff)

lemma find_append: "find P (xs @ ys) = (case find P xs of None \<Rightarrow> find P ys | Some x \<Rightarrow> Some x)"
  by (induction xs) simp_all

lemma find_unique:
  assumes "x \<in> set xs" and "P x" and "\<And>y. y \<in> set xs \<Longrightarrow> P y \<Longrightarrow> y = x"
  shows "find P xs = Some x"
proof (cases "find P xs")
  case None
  from find_NoneD [OF this assms(1)] assms(2) show ?thesis by simp
next
  case (Some y)
  from find_SomeD [OF this] assms(3) have "y = x" by blast
  with Some show ?thesis by simp
qed

section \<open>Invariants of step systems\<close>

locale invariant_system =
  fixes step :: "'s \<Rightarrow> 's \<Rightarrow> bool"
    and inv :: "'s \<Rightarrow> bool"
  assumes preserved: "inv s \<Longrightarrow> step s s' \<Longrightarrow> inv s'"
begin

lemma reachable_inv: "step\<^sup>*\<^sup>* s s' \<Longrightarrow> inv s \<Longrightarrow> inv s'"
  by (induction rule: rtranclp_induct) (auto intro: preserved)

end

end
