(* ===== verification/Database.thy ===== *)
theory Database
  imports Prelude
begin

text \<open>
  The rows of the ORM tables (\<open>app/models\<close>), the database they form, and the request
  session through which every service works. A session holds the committed database and the
  view of the open transaction; \<open>audit.log\<close> writes into the transaction,
  \<open>audit_failure\<close> commits on a connection of its own, \<open>commit\<close> and \<open>rollback\<close> move
  between the two. Clock reads take the session's clock; identifiers drawn by \<open>uuid4()\<close>
  are arguments of the operations that draw them. Instants are microseconds since 1970 UTC.
\<close>

section \<open>Rows\<close>

record audit_event =
  ae_timestamp :: int
  ae_actor_id :: "uuid option"
  ae_matter_id :: "uuid option"
  ae_action :: string
  ae_module :: "string option"
  ae_resource_type :: "string option"
  ae_resource_id :: "string option"
  ae_model_used :: "string option"
  ae_prompt_hash :: "string option"
  ae_response_hash :: "string option"
  ae_token_count :: "int option"
  ae_latency_ms :: "int option"
  ae_tokens_in :: "int option"
  ae_tokens_out :: "int option"
  ae_cost_micros :: "int option"
  ae_currency :: "string option"
  ae_provider :: "string option"
  ae_model_id :: "string option"
  ae_payload :: json

text \<open>The keyword defaults of \<open>audit.log\<close>: everything but the action is left out.\<close>

definition event0 :: "string \<Rightarrow> audit_event" where
  "event0 act = \<lparr>ae_timestamp = 0, ae_actor_id = None, ae_matter_id = None, ae_action = act,
     ae_module = None, ae_resource_type = None, ae_resource_id = None, ae_model_used = None,
     ae_prompt_hash = None, ae_response_hash = None, ae_token_count = None,
     ae_latency_ms = None, ae_tokens_in = None, ae_tokens_out = None, ae_cost_micros = None,
     ae_currency = None, ae_provider = None, ae_model_id = None, ae_payload = JObj []\<rparr>"

text \<open>A date: year, month and day.\<close>

type_synonym date = "int \<times> int \<times> int"

record matter =
  m_id :: uuid
  m_slug :: string
  m_title :: string
  m_status :: string
  m_privilege_posture :: string
  m_created_by_id :: uuid
  m_retention_until :: "date option"
  m_default_model_id :: string
  m_matter_type :: string
  m_cause :: "string option"
  m_case_theory :: "string option"
  m_pivot_fact :: "string option"
  m_facts :: json
  m_opened_at :: int
  m_closed_at :: "int option"

record user =
  u_id :: uuid
  u_is_superuser :: bool

record grant =
  g_id :: uuid
  g_user_id :: uuid
  g_plugin :: string
  g_skill :: string
  g_capability :: string
  g_granted_by_user_id :: "uuid option"
  g_capability_version :: "string option"
  g_granted_at_module_version :: "string option"
  g_permissions_snapshot :: "json option"
  g_scope_type :: string
  g_scope_id :: "uuid option"

record artifact =
  a_id :: uuid
  a_matter_id :: uuid
  a_module_id :: string
  a_capability_id :: string
  a_invocation_id :: uuid
  a_kind :: string
  a_storage_path :: string
  a_created_by_id :: "uuid option"
  a_created_at :: int
  a_size_bytes :: int

record review =
  r_id :: uuid
  r_matter_id :: uuid
  r_artifact_id :: uuid
  r_invocation_id :: uuid
  r_module_id :: string
  r_capability_id :: string
  r_kind :: string
  r_artifact_hash :: string
  r_state :: string
  r_requested_by_id :: uuid
  r_requested_at :: int
  r_decided_by_id :: "uuid option"
  r_decided_at :: "int option"
  r_note :: "string option"

record signoff =
  s_id :: uuid
  s_matter_id :: uuid
  s_artifact_id :: uuid
  s_invocation_id :: uuid
  s_module_id :: string
  s_capability_id :: string
  s_kind :: string
  s_artifact_hash :: string
  s_decision :: string
  s_reasoning :: "string option"
  s_signer_id :: uuid
  s_signed_at :: int

record decision =
  d_id :: uuid
  d_output_id :: string
  d_from_tier :: "string option"
  d_to_tier :: string
  d_actor_user_id :: "uuid option"
  d_actor_role :: "string option"
  d_module_id :: "string option"
  d_capability_id :: "string option"
  d_declared_tier_max :: "string option"
  d_gate_state :: "(string \<times> json) list"
  d_status :: string

record transition_def =
  td_from :: string
  td_to :: string
  td_gates :: "string list"
  td_required_capabilities :: "string list"

record sm_definition =
  sd_id :: uuid
  sd_module_id :: string
  sd_definition_key :: string
  sd_version :: string
  sd_states :: "string list"
  sd_initial_state :: string
  sd_terminal_states :: "string list"
  sd_transitions :: "transition_def list"

record sm_instance =
  si_id :: uuid
  si_definition_id :: uuid
  si_definition_version :: string
  si_owner_scope :: string
  si_owner_id :: string
  si_current_state :: string
  si_updated_at :: int

record sm_transition =
  st_id :: uuid
  st_instance_id :: uuid
  st_from_state :: string
  st_to_state :: string
  st_actor_id :: "uuid option"
  st_module_id :: "string option"
  st_capability_id :: "string option"
  st_reason :: "string option"
  st_extra_metadata :: json
  st_gate_state :: json
  st_status :: string

record doc_version =
  v_id :: uuid
  v_document_id :: uuid
  v_version_number :: int
  v_kind :: string
  v_created_by_id :: uuid
  v_notes :: "string option"
  v_resolved_text :: "string option"
  v_storage_uri :: "string option"
  v_filename :: "string option"
  v_mime_type :: "string option"
  v_size_bytes :: "int option"
  v_sha256 :: "string option"
  v_resolved_json :: "json option"

record document =
  doc_id :: uuid
  doc_matter_id :: uuid
  doc_index_status :: string
  doc_indexed_at :: "int option"
  doc_filename :: string
  doc_mime_type :: string
  doc_size_bytes :: int
  doc_sha256 :: string
  doc_storage_uri :: "string option"
  doc_uploaded_at :: int
  doc_uploaded_by_id :: uuid
  doc_tag :: "string option"
  doc_from_disclosure :: bool
  doc_disclosure_ref :: "string option"

record doc_body =
  b_document_id :: uuid
  b_kind :: string
  b_extracted_text :: string
  b_extraction_method :: string
  b_extracted_at :: int
  b_char_count :: int
  b_page_count :: "int option"
  b_error_reason :: "string option"
  b_mapping :: "json option"
  b_engine :: "string option"
  b_anonymised_at :: "int option"

text \<open>A vector of floats: each float is its mantissa and its binary exponent.\<close>

type_synonym vector = "(int \<times> int) list"

record doc_chunk =
  dc_id :: uuid
  dc_document_id :: uuid
  dc_matter_id :: uuid
  dc_chunk_index :: nat
  dc_text :: string
  dc_char_start :: nat
  dc_char_end :: nat
  dc_embedding :: "vector option"

record doc_edit =
  e_id :: uuid
  e_version_id :: uuid
  e_change_id :: string
  e_deleted_text :: string
  e_inserted_text :: string
  e_context_before :: string
  e_context_after :: string
  e_status :: string
  e_resolved_at :: "int option"
  e_resolved_by_id :: "uuid option"

record throttle_event =
  t_ip :: string
  t_route :: string
  t_created_at :: int

record job =
  j_id :: uuid
  j_matter_id :: uuid
  j_created_by_id :: uuid
  j_kind :: string
  j_status :: string
  j_stage :: "string option"
  j_progress :: "int option"
  j_input_payload :: json
  j_result_payload :: "json option"
  j_error_code :: "string option"
  j_error_message :: "string option"
  j_started_at :: "int option"
  j_finished_at :: "int option"

record working_draft =
  wd_document_id :: uuid
  wd_updated_by_id :: "uuid option"
  wd_updated_at :: int
  wd_plain_text :: string
  wd_editor_json :: "json option"
  wd_base_version_id :: "uuid option"
  wd_version_counter :: int
  wd_client_id :: "string option"

record context_schema =
  cs_id :: uuid
  cs_namespace :: string
  cs_module_id :: string
  cs_version :: string
  cs_json_schema :: json
  cs_registered_at :: int
  cs_registered_by_module_id :: "string option"

record context_item =
  ci_id :: uuid
  ci_matter_id :: uuid
  ci_namespace :: string
  ci_schema_id :: uuid
  ci_schema_version :: string
  ci_payload :: json
  ci_source_type :: "string option"
  ci_source_id :: "string option"
  ci_created_by_user_id :: "uuid option"
  ci_created_by_module_id :: "string option"
  ci_created_at :: int
  ci_superseded_by_id :: "uuid option"

record chron_event =
  ev_id :: uuid
  ev_matter_id :: uuid
  ev_event_date :: date
  ev_description :: string
  ev_significance :: int
  ev_source_doc_ids :: "uuid list"
  ev_priv_flag :: bool
  ev_status :: string
  ev_created_at :: int
  ev_created_by_id :: uuid

record doc_comment =
  cm_id :: uuid
  cm_document_id :: uuid
  cm_author_id :: uuid
  cm_quote_text :: "string option"
  cm_body_sha256 :: "string option"
  cm_anchor_start :: "int option"
  cm_anchor_end :: "int option"
  cm_body :: string
  cm_status :: string
  cm_created_at :: int
  cm_resolved_at :: "int option"
  cm_resolved_by_id :: "uuid option"

record assistant_thread =
  th_id :: uuid
  th_matter_id :: uuid
  th_title :: "string option"
  th_rolling_summary :: "string option"
  th_summary_updated_at :: "int option"
  th_created_at :: int
  th_created_by_id :: "uuid option"

record assistant_message =
  am_id :: uuid
  am_matter_id :: uuid
  am_thread_id :: "uuid option"
  am_actor_id :: uuid
  am_role :: string
  am_content :: string
  am_suggested_actions :: json
  am_sources :: json
  am_model_used :: "string option"
  am_prompt_hash :: "string option"
  am_response_hash :: "string option"
  am_token_count :: "int option"
  am_created_at :: int

definition STATUS_ARCHIVED :: string where "STATUS_ARCHIVED = ''archived''"
definition BODY_KIND_EXTRACTED :: string where "BODY_KIND_EXTRACTED = ''extracted''"
definition BODY_KIND_REDACTED :: string where "BODY_KIND_REDACTED = ''redacted''"

section \<open>The database and the session\<close>

record db =
  audit_rows :: "audit_event list"
  matters :: "matter list"
  grants :: "grant list"
  artifacts :: "artifact list"
  reviews :: "review list"
  signoffs :: "signoff list"
  decisions :: "decision list"
  sm_definitions :: "sm_definition list"
  sm_instances :: "sm_instance list"
  sm_transitions :: "sm_transition list"
  documents :: "document list"
  doc_versions :: "doc_version list"
  doc_edits :: "doc_edit list"
  throttle_events :: "throttle_event list"
  doc_bodies :: "doc_body list"
  doc_chunks :: "doc_chunk list"
  jobs :: "job list"
  working_drafts :: "working_draft list"
  context_schemas :: "context_schema list"
  context_items :: "context_item list"
  assistant_threads :: "assistant_thread list"
  assistant_messages :: "assistant_message list"
  chron_events :: "chron_event list"
  doc_comments :: "doc_comment list"

definition empty_db :: db where
  "empty_db = \<lparr>audit_rows = [], matters = [], grants = [], artifacts = [], reviews = [],
     signoffs = [], decisions = [], sm_definitions = [], sm_instances = [], sm_transitions = [],
     documents = [], doc_versions = [], doc_edits = [], throttle_events = [],
     doc_bodies = [], doc_chunks = [], jobs = [],
     working_drafts = [], context_schemas = [], context_items = [], assistant_threads = [], assistant_messages = [],
     chron_events = [], doc_comments = []\<rparr>"

record session =
  durable :: db
  working :: db
  bound :: bool
  clock :: int

text \<open>\<open>extracted_body_for\<close>: the key of a body is its document and kind.\<close>

definition body_of :: "uuid \<Rightarrow> string \<Rightarrow> db \<Rightarrow> doc_body option" where
  "body_of did kind d = find (\<lambda>b. b_document_id b = did \<and> b_kind b = kind) (doc_bodies d)"

definition extracted_body_for :: "uuid \<Rightarrow> db \<Rightarrow> doc_body option" where
  "extracted_body_for did d = body_of did BODY_KIND_EXTRACTED d"

text \<open>A request session on a committed database.\<close>

definition open_session :: "db \<Rightarrow> int \<Rightarrow> session" where
  "open_session d t = \<lparr>durable = d, working = d, bound = True, clock = t\<rparr>"

definition on_working :: "(db \<Rightarrow> db) \<Rightarrow> session \<Rightarrow> session" where
  "on_working f s = s\<lparr>working := f (working s)\<rparr>"

definition commit :: "session \<Rightarrow> session" where
  "commit s = s\<lparr>durable := working s\<rparr>"

definition rollback :: "session \<Rightarrow> session" where
  "rollback s = s\<lparr>working := durable s\<rparr>"

definition add_event :: "audit_event \<Rightarrow> db \<Rightarrow> db" where
  "add_event e d = d\<lparr>audit_rows := audit_rows d @ [e]\<rparr>"

text \<open>\<open>payload or {}\<close>, and the row's timestamp default.\<close>

definition stamp :: "session \<Rightarrow> audit_event \<Rightarrow> audit_event" where
  "stamp s e = e\<lparr>ae_timestamp := clock s,
     ae_payload := (if py_truthy (ae_payload e) then ae_payload e else JObj [])\<rparr>"

definition audit_log :: "audit_event \<Rightarrow> session \<Rightarrow> session" where
  "audit_log e s = on_working (add_event (stamp s e)) s"

text \<open>
  The independent transaction of \<open>audit_failure\<close>: the row is committed at once, and the
  open transaction sees it too. An unbound session drops the row.
\<close>

definition audit_failure :: "audit_event \<Rightarrow> session \<Rightarrow> session" where
  "audit_failure e s =
     (if \<not> bound s then s
      else s\<lparr>durable := add_event (stamp s e) (durable s),
             working := add_event (stamp s e) (working s)\<rparr>)"

subsection \<open>What the session operations change\<close>

lemma stamp_simps [simp]:
  "ae_action (stamp s e) = ae_action e"
  "ae_actor_id (stamp s e) = ae_actor_id e"
  "ae_matter_id (stamp s e) = ae_matter_id e"
  "ae_resource_type (stamp s e) = ae_resource_type e"
  "ae_resource_id (stamp s e) = ae_resource_id e"
  "ae_timestamp (stamp s e) = clock s"
  "ae_module (stamp s e) = ae_module e"
  by (simp_all add: stamp_def)

lemma session_ops [simp, session_simps]:
  "durable (on_working f s) = durable s"
  "working (on_working f s) = f (working s)"
  "clock (on_working f s) = clock s"
  "bound (on_working f s) = bound s"
  "durable (commit s) = working s"
  "working (commit s) = working s"
  "clock (commit s) = clock s"
  "bound (commit s) = bound s"
  "durable (rollback s) = durable s"
  "working (rollback s) = durable s"
  "durable (audit_log e s) = durable s"
  "working (audit_log e s) = add_event (stamp s e) (working s)"
  "clock (audit_log e s) = clock s"
  "bound (audit_log e s) = bound s"
  "clock (audit_failure e s) = clock s"
  "bound (audit_failure e s) = bound s"
  by (simp_all add: on_working_def commit_def rollback_def audit_log_def audit_failure_def)

lemma audit_failure_bound [simp, session_simps]:
  "bound s \<Longrightarrow> durable (audit_failure e s) = add_event (stamp s e) (durable s)"
  "bound s \<Longrightarrow> working (audit_failure e s) = add_event (stamp s e) (working s)"
  by (simp_all add: audit_failure_def)

lemma add_event_frame [simp, frame_simps]:
  "audit_rows (add_event e d) = audit_rows d @ [e]"
  "matters (add_event e d) = matters d"
  "grants (add_event e d) = grants d"
  "artifacts (add_event e d) = artifacts d"
  "reviews (add_event e d) = reviews d"
  "signoffs (add_event e d) = signoffs d"
  "decisions (add_event e d) = decisions d"
  "sm_definitions (add_event e d) = sm_definitions d"
  "sm_instances (add_event e d) = sm_instances d"
  "sm_transitions (add_event e d) = sm_transitions d"
  "documents (add_event e d) = documents d"
  "doc_versions (add_event e d) = doc_versions d"
  "doc_edits (add_event e d) = doc_edits d"
  "throttle_events (add_event e d) = throttle_events d"
  "doc_bodies (add_event e d) = doc_bodies d"
  "doc_chunks (add_event e d) = doc_chunks d"
  "jobs (add_event e d) = jobs d"
  "working_drafts (add_event e d) = working_drafts d"
  "context_schemas (add_event e d) = context_schemas d"
  "context_items (add_event e d) = context_items d"
  "assistant_threads (add_event e d) = assistant_threads d"
  "assistant_messages (add_event e d) = assistant_messages d"
  "chron_events (add_event e d) = chron_events d"
  "doc_comments (add_event e d) = doc_comments d"
  by (simp_all add: add_event_def)

lemma audit_failure_frame [simp, frame_simps]:
  "matters (working (audit_failure e s)) = matters (working s)"
  "grants (working (audit_failure e s)) = grants (working s)"
  "artifacts (working (audit_failure e s)) = artifacts (working s)"
  "decisions (working (audit_failure e s)) = decisions (working s)"
  "sm_definitions (working (audit_failure e s)) = sm_definitions (working s)"
  "sm_instances (working (audit_failure e s)) = sm_instances (working s)"
  "sm_transitions (working (audit_failure e s)) = sm_transitions (working s)"
  by (simp_all add: audit_failure_def)

subsection \<open>Steps that only append to the audit log\<close>

definition audit_only :: "db \<Rightarrow> db \<Rightarrow> bool" where
  "audit_only d d' \<longleftrightarrow> (\<exists>es. d' = d\<lparr>audit_rows := audit_rows d @ es\<rparr>)"

lemma audit_only_refl [simp]: "audit_only d d"
  unfolding audit_only_def by (rule exI [where x = "[]"]) simp

lemma audit_only_add_event [simp]: "audit_only d (add_event e d)"
  unfolding audit_only_def add_event_def by blast

lemma audit_only_trans [trans]:
  assumes "audit_only d d'" and "audit_only d' d''"
  shows "audit_only d d''"
proof -
  from assms obtain es es' where "d' = d\<lparr>audit_rows := audit_rows d @ es\<rparr>"
    and "d'' = d'\<lparr>audit_rows := audit_rows d' @ es'\<rparr>" by (auto simp: audit_only_def)
  then have "d'' = d\<lparr>audit_rows := audit_rows d @ es @ es'\<rparr>" by simp
  then show ?thesis unfolding audit_only_def by blast
qed

lemma audit_only_audit_failure [simp]: "audit_only (working s) (working (audit_failure e s))"
  by (cases "bound s") (simp_all add: audit_failure_def)

lemma audit_only_frame:
  assumes "audit_only d d'"
  shows "matters d' = matters d" "grants d' = grants d" "artifacts d' = artifacts d"
    "reviews d' = reviews d" "signoffs d' = signoffs d" "decisions d' = decisions d"
    "sm_definitions d' = sm_definitions d" "sm_instances d' = sm_instances d"
    "sm_transitions d' = sm_transitions d" "documents d' = documents d"
    "doc_versions d' = doc_versions d" "doc_edits d' = doc_edits d"
    "throttle_events d' = throttle_events d" "doc_bodies d' = doc_bodies d"
    "doc_chunks d' = doc_chunks d" "jobs d' = jobs d"
    "working_drafts d' = working_drafts d"
    "context_schemas d' = context_schemas d"
    "context_items d' = context_items d"
    "assistant_threads d' = assistant_threads d"
    "assistant_messages d' = assistant_messages d"
    "chron_events d' = chron_events d"
    "doc_comments d' = doc_comments d"
  using assms by (auto simp: audit_only_def)

end
