(* ===== verification/AuditChain.thy ===== *)
theory AuditChain
  imports Database "HOL-Library.Product_Lexorder"
begin

text \<open>
  The audit hash chain: the canonical text of an audit entry and of a chain link
  (\<open>app/core/audit_chain.py\<close>), the database trigger that appends a link for every inserted
  entry (migration \<open>0030_audit_hash_chain\<close>), and the verifier \<open>verify_audit_chain\<close>.
  \<open>H\<close> stands for the hexadecimal SHA-256 of a text's UTF-8 bytes, and \<open>PT\<close> for
  Postgres's rendering of a JSON payload as text; nothing is assumed of \<open>H\<close>.
\<close>

section \<open>Timestamps\<close>

text \<open>A Python datetime: microseconds of the local clock, with the offset of its zone if it has one.\<close>

datatype py_datetime = Naive int | Aware int int

definition utc_instant :: "py_datetime \<Rightarrow> int" where
  "utc_instant v = (case v of Naive l \<Rightarrow> l | Aware l off \<Rightarrow> l - off)"

text \<open>Proleptic Gregorian date of a day number counted from 1970-01-01.\<close>

definition civil_from_days :: "int \<Rightarrow> int \<times> int \<times> int" where
  "civil_from_days d =
     (let z = d + 719468; era = z div 146097; doe = z - era * 146097;
          yoe = (doe - doe div 1460 + doe div 36524 - doe div 146096) div 365;
          doy = doe - (365 * yoe + yoe div 4 - yoe div 100);
          mp = (5 * doy + 2) div 153; dd = doy - (153 * mp + 2) div 5 + 1;
          mm = (if mp < 10 then mp + 3 else mp - 9); y = yoe + era * 400
      in (if mm \<le> 2 then y + 1 else y, mm, dd))"

definition pad :: "nat \<Rightarrow> int \<Rightarrow> string" where
  "pad w i = (let s = int_str i in replicate (w - length s) CHR ''0'' @ s)"

definition render_instant :: "int \<Rightarrow> string" where
  "render_instant t =
     (let (y, mo, d) = civil_from_days (t div 86400000000); r = t mod 86400000000
      in pad 4 y @ ''-'' @ pad 2 mo @ ''-'' @ pad 2 d @ ''T'' @ pad 2 (r div 3600000000) @ '':''
         @ pad 2 (r div 60000000 mod 60) @ '':'' @ pad 2 (r div 1000000 mod 60) @ ''.''
         @ pad 6 (r mod 1000000) @ ''Z'')"

definition timestamp_utc :: "py_datetime \<Rightarrow> string" where
  "timestamp_utc v = render_instant (utc_instant (case v of Naive l \<Rightarrow> Aware l 0 | _ \<Rightarrow> v))"

section \<open>Canonical entry and link texts\<close>

record audit_entry = audit_event +
  ae_id :: uuid

record audit_canonical =
  c_id :: uuid
  c_timestamp :: py_datetime
  c_actor_id :: "uuid option"
  c_matter_id :: "uuid option"
  c_action :: string
  c_module :: "string option"
  c_resource_type :: "string option"
  c_resource_id :: "string option"
  c_model_used :: "string option"
  c_prompt_hash :: "string option"
  c_response_hash :: "string option"
  c_token_count :: "int option"
  c_latency_ms :: "int option"
  c_tokens_in :: "int option"
  c_tokens_out :: "int option"
  c_cost_micros :: "int option"
  c_currency :: "string option"
  c_provider :: "string option"
  c_model_id :: "string option"
  c_payload_text :: string

definition from_row :: "audit_entry \<Rightarrow> string \<Rightarrow> audit_canonical" where
  "from_row row text = \<lparr>c_id = ae_id row, c_timestamp = Aware (ae_timestamp row) 0,
     c_actor_id = ae_actor_id row, c_matter_id = ae_matter_id row, c_action = ae_action row,
     c_module = ae_module row, c_resource_type = ae_resource_type row,
     c_resource_id = ae_resource_id row, c_model_used = ae_model_used row,
     c_prompt_hash = ae_prompt_hash row, c_response_hash = ae_response_hash row,
     c_token_count = ae_token_count row, c_latency_ms = ae_latency_ms row,
     c_tokens_in = ae_tokens_in row, c_tokens_out = ae_tokens_out row,
     c_cost_micros = ae_cost_micros row, c_currency = ae_currency row,
     c_provider = ae_provider row, c_model_id = ae_model_id row, c_payload_text = text\<rparr>"

definition canonical_fields :: "audit_canonical \<Rightarrow> (string \<times> string option) list" where
  "canonical_fields c =
    [(''id'', Some (c_id c)), (''timestamp'', Some (timestamp_utc (c_timestamp c))),
     (''actor_id'', c_actor_id c), (''matter_id'', c_matter_id c), (''action'', Some (c_action c)),
     (''module'', c_module c), (''resource_type'', c_resource_type c),
     (''resource_id'', c_resource_id c), (''model_used'', c_model_used c),
     (''prompt_hash'', c_prompt_hash c), (''response_hash'', c_response_hash c),
     (''token_count'', map_option int_str (c_token_count c)),
     (''latency_ms'', map_option int_str (c_latency_ms c)),
     (''tokens_in'', map_option int_str (c_tokens_in c)),
     (''tokens_out'', map_option int_str (c_tokens_out c)),
     (''cost_micros'', map_option int_str (c_cost_micros c)),
     (''currency'', c_currency c), (''provider'', c_provider c), (''model_id'', c_model_id c),
     (''payload_text'', Some (c_payload_text c))]"

definition ENTRY_PREFIX :: string where "ENTRY_PREFIX = ''audit-chain-entry-v1''"
definition LINK_PREFIX :: string where "LINK_PREFIX = ''audit-chain-link-v1''"

definition canonical :: "audit_canonical \<Rightarrow> string" where
  "canonical c = py_join newline (ENTRY_PREFIX # map field_text (map snd (canonical_fields c)))"

definition entry_hash :: "(string \<Rightarrow> string) \<Rightarrow> audit_canonical \<Rightarrow> string" where
  "entry_hash H c = H (canonical c)"

definition chain_link_canonical ::
  "int \<Rightarrow> string \<Rightarrow> uuid option \<Rightarrow> int \<Rightarrow> uuid \<Rightarrow> string option \<Rightarrow> string \<Rightarrow> string" where
  "chain_link_canonical ver scope mid sq aid prev eh =
     py_join newline (LINK_PREFIX # map field_text
       [Some (int_str ver), Some scope, mid, Some (int_str sq), Some aid, prev, Some eh])"

definition chain_link_hash ::
  "(string \<Rightarrow> string) \<Rightarrow> int \<Rightarrow> string \<Rightarrow> uuid option \<Rightarrow> int \<Rightarrow> uuid \<Rightarrow> string option \<Rightarrow> string \<Rightarrow> string" where
  "chain_link_hash H ver scope mid sq aid prev eh =
     H (chain_link_canonical ver scope mid sq aid prev eh)"

section \<open>The trigger's recipe\<close>

text \<open>\<open>concat_ws\<close> joins its non-null arguments.\<close>

definition concat_ws :: "string \<Rightarrow> string option list \<Rightarrow> string" where
  "concat_ws sep xs = py_join sep (List.map_filter id xs)"

definition sql_field :: "string option \<Rightarrow> string option" where
  "sql_field v = (case v of None \<Rightarrow> Some ''-1:'' | Some s \<Rightarrow> Some (nat_str (length s) @ '':'' @ s))"

definition sql_entry_canonical :: "(json \<Rightarrow> string) \<Rightarrow> audit_entry \<Rightarrow> string" where
  "sql_entry_canonical PT e = concat_ws newline
     [Some ''audit-chain-entry-v1'', sql_field (Some (ae_id e)),
      sql_field (Some (render_instant (ae_timestamp e))), sql_field (ae_actor_id e),
      sql_field (ae_matter_id e), sql_field (Some (ae_action e)), sql_field (ae_module e),
      sql_field (ae_resource_type e), sql_field (ae_resource_id e), sql_field (ae_model_used e),
      sql_field (ae_prompt_hash e), sql_field (ae_response_hash e),
      sql_field (map_option int_str (ae_token_count e)),
      sql_field (map_option int_str (ae_latency_ms e)),
      sql_field (map_option int_str (ae_tokens_in e)),
      sql_field (map_option int_str (ae_tokens_out e)),
      sql_field (map_option int_str (ae_cost_micros e)),
      sql_field (ae_currency e), sql_field (ae_provider e), sql_field (ae_model_id e),
      sql_field (Some (PT (ae_payload e)))]"

definition sql_link_canonical ::
  "int \<Rightarrow> string \<Rightarrow> uuid option \<Rightarrow> int \<Rightarrow> uuid \<Rightarrow> string option \<Rightarrow> string \<Rightarrow> string" where
  "sql_link_canonical ver scope mid sq aid prev eh = concat_ws newline
     [Some ''audit-chain-link-v1'', sql_field (Some (int_str ver)), sql_field (Some scope),
      sql_field mid, sql_field (Some (int_str sq)), sql_field (Some aid), sql_field prev,
      sql_field (Some eh)]"

record chain_row =
  cr_id :: int
  cr_audit_entry_id :: uuid
  cr_scope_type :: string
  cr_matter_id :: "uuid option"
  cr_scope_sequence :: int
  cr_previous_chain_hash :: "string option"
  cr_entry_hash :: string
  cr_chain_hash :: string
  cr_chain_version :: int

type_synonym scope = "string \<times> uuid option"

definition scope_of :: "chain_row \<Rightarrow> scope" where
  "scope_of c = (cr_scope_type c, cr_matter_id c)"

definition scope_for :: "audit_entry \<Rightarrow> scope" where
  "scope_for e = (case ae_matter_id e of None \<Rightarrow> (''system'', None) | Some m \<Rightarrow> (''matter'', Some m))"

text \<open>\<open>ORDER BY scope_sequence DESC LIMIT 1\<close> within one scope.\<close>

definition latest_in_scope :: "scope \<Rightarrow> chain_row list \<Rightarrow> chain_row option" where
  "latest_in_scope sc chain =
     (case filter (\<lambda>c. scope_of c = sc) chain of [] \<Rightarrow> None
      | c # cs \<Rightarrow> Some (max_by cr_scope_sequence c cs))"

definition append_for_entry ::
  "(string \<Rightarrow> string) \<Rightarrow> (json \<Rightarrow> string) \<Rightarrow> chain_row list \<Rightarrow> audit_entry \<Rightarrow> chain_row list" where
  "append_for_entry H PT chain e =
     (let (st, mid) = (case ae_matter_id e of None \<Rightarrow> (''system'', None) | Some m \<Rightarrow> (''matter'', Some m));
          latest = latest_in_scope (st, mid) chain;
          prev = map_option cr_chain_hash latest;
          sq = (case latest of None \<Rightarrow> 0 | Some c \<Rightarrow> cr_scope_sequence c) + 1;
          eh = H (sql_entry_canonical PT e);
          ch = H (sql_link_canonical 1 st mid sq (ae_id e) prev eh)
      in chain @ [\<lparr>cr_id = int (length chain) + 1, cr_audit_entry_id = ae_id e, cr_scope_type = st,
           cr_matter_id = mid, cr_scope_sequence = sq, cr_previous_chain_hash = prev,
           cr_entry_hash = eh, cr_chain_hash = ch, cr_chain_version = 1\<rparr>])"

text \<open>The chain after the entries were inserted in this order.\<close>

definition build_chain ::
  "(string \<Rightarrow> string) \<Rightarrow> (json \<Rightarrow> string) \<Rightarrow> audit_entry list \<Rightarrow> chain_row list" where
  "build_chain H PT es = foldl (append_for_entry H PT) [] es"

section \<open>Verification\<close>

datatype issue_code =
    CountMismatch nat nat
  | UnsupportedChainVersion int int
  | SequenceGap int int
  | PreviousHashMismatch "string option" "string option"
  | MissingAuditEntry
  | ScopeMismatch scope scope
  | EntryHashMismatch string string
  | ChainHashMismatch string string

record chain_issue =
  i_code :: issue_code
  i_audit_entry_id :: "uuid option"
  i_chain_id :: "int option"

record verification =
  av_ok :: bool
  av_audit_entry_count :: nat
  av_chain_entry_count :: nat
  av_scopes_verified :: nat
  av_issues :: "chain_issue list"

definition AUDIT_CHAIN_VERSION :: int where "AUDIT_CHAIN_VERSION = 1"

definition entry_payload_text :: "(json \<Rightarrow> string) \<Rightarrow> audit_entry \<Rightarrow> string" where
  "entry_payload_text PT e = (if PT (ae_payload e) = [] then ''{}'' else PT (ae_payload e))"

definition row_issue :: "chain_row \<Rightarrow> issue_code \<Rightarrow> chain_issue" where
  "row_issue c code =
     \<lparr>i_code = code, i_audit_entry_id = Some (cr_audit_entry_id c), i_chain_id = Some (cr_id c)\<rparr>"

text \<open>One iteration of the loop: the checks on a link, given the previous link of its scope.\<close>

definition check_row ::
  "(string \<Rightarrow> string) \<Rightarrow> (json \<Rightarrow> string) \<Rightarrow> chain_row option \<Rightarrow> chain_row \<Rightarrow> audit_entry option
    \<Rightarrow> chain_issue list" where
  "check_row H PT previous c entry =
    (let expected_sequence = (case previous of None \<Rightarrow> 1 | Some p \<Rightarrow> cr_scope_sequence p + 1);
         expected_previous = map_option cr_chain_hash previous;
         i1 = (if cr_chain_version c \<noteq> AUDIT_CHAIN_VERSION
               then [row_issue c (UnsupportedChainVersion AUDIT_CHAIN_VERSION (cr_chain_version c))] else []);
         i2 = (if cr_scope_sequence c \<noteq> expected_sequence
               then [row_issue c (SequenceGap expected_sequence (cr_scope_sequence c))] else []);
         i3 = (if cr_previous_chain_hash c \<noteq> expected_previous
               then [row_issue c (PreviousHashMismatch expected_previous (cr_previous_chain_hash c))] else [])
     in i1 @ i2 @ i3 @
       (case entry of
          None \<Rightarrow> [row_issue c MissingAuditEntry]
        | Some e \<Rightarrow>
            (let expected_entry_hash = entry_hash H (from_row e (entry_payload_text PT e));
                 expected_chain_hash = chain_link_hash H (cr_chain_version c) (cr_scope_type c)
                   (cr_matter_id c) (cr_scope_sequence c) (cr_audit_entry_id c)
                   (cr_previous_chain_hash c) (cr_entry_hash c)
             in (if scope_of c \<noteq> scope_for e
                 then [row_issue c (ScopeMismatch (scope_for e) (scope_of c))] else [])
              @ (if cr_entry_hash c \<noteq> expected_entry_hash
                 then [row_issue c (EntryHashMismatch expected_entry_hash (cr_entry_hash c))] else [])
              @ (if cr_chain_hash c \<noteq> expected_chain_hash
                 then [row_issue c (ChainHashMismatch expected_chain_hash (cr_chain_hash c))] else []))))"

fun verify_rows ::
  "(string \<Rightarrow> string) \<Rightarrow> (json \<Rightarrow> string) \<Rightarrow> (scope \<rightharpoonup> chain_row)
    \<Rightarrow> (chain_row \<times> audit_entry option) list \<Rightarrow> chain_issue list" where
  "verify_rows H PT prevs [] = []"
| "verify_rows H PT prevs ((c, e) # rows) =
     check_row H PT (prevs (scope_of c)) c e @ verify_rows H PT (prevs(scope_of c \<mapsto> c)) rows"

text \<open>\<open>ORDER BY scope_type, matter_id, scope_sequence\<close>; Postgres puts NULL last.\<close>

definition row_order :: "chain_row \<Rightarrow> string \<times> (nat \<times> string) \<times> int" where
  "row_order c = (cr_scope_type c, (case cr_matter_id c of Some m \<Rightarrow> (0, m) | None \<Rightarrow> (1, [])),
                  cr_scope_sequence c)"

definition find_entry :: "audit_entry list \<Rightarrow> uuid \<Rightarrow> audit_entry option" where
  "find_entry es i = find (\<lambda>e. ae_id e = i) es"

definition chain_rows ::
  "audit_entry list \<Rightarrow> chain_row list \<Rightarrow> uuid option \<Rightarrow> (chain_row \<times> audit_entry option) list" where
  "chain_rows es chain mid =
     map (\<lambda>c. (c, find_entry es (cr_audit_entry_id c)))
       (sort_key row_order (filter (\<lambda>c. mid = None \<or> cr_matter_id c = mid) chain))"

definition verify_audit_chain ::
  "(string \<Rightarrow> string) \<Rightarrow> (json \<Rightarrow> string) \<Rightarrow> audit_entry list \<Rightarrow> chain_row list \<Rightarrow> uuid option
    \<Rightarrow> verification" where
  "verify_audit_chain H PT es chain mid =
    (let audit_count = length (filter (\<lambda>e. mid = None \<or> ae_matter_id e = mid) es);
         chain_count = length (filter (\<lambda>c. mid = None \<or> cr_matter_id c = mid) chain);
         rows = chain_rows es chain mid;
         issues = (if audit_count \<noteq> chain_count
                   then [\<lparr>i_code = CountMismatch audit_count chain_count,
                          i_audit_entry_id = None, i_chain_id = None\<rparr>] else [])
                  @ verify_rows H PT Map.empty rows
     in \<lparr>av_ok = (issues = []), av_audit_entry_count = audit_count,
         av_chain_entry_count = chain_count,
         av_scopes_verified = card (set (map (scope_of \<circ> fst) rows)),
         av_issues = issues\<rparr>)"

section \<open>The recipes agree\<close>

lemma sql_field_eq [simp]: "sql_field v = Some (field_text v)"
  by (simp add: sql_field_def field_text_def split: option.splits)

lemma concat_ws_Some: "concat_ws sep (map Some xs) = py_join sep xs"
  by (simp add: concat_ws_def List.map_filter_def comp_def)

lemma sql_entry_canonical_eq:
  "sql_entry_canonical PT e = canonical (from_row e (PT (ae_payload e)))"
  using concat_ws_Some [of newline]
  by (simp add: sql_entry_canonical_def canonical_def canonical_fields_def from_row_def
      ENTRY_PREFIX_def timestamp_utc_def utc_instant_def concat_ws_def List.map_filter_simps)

lemma sql_link_canonical_eq:
  "sql_link_canonical ver scope mid sq aid prev eh = chain_link_canonical ver scope mid sq aid prev eh"
  by (simp add: sql_link_canonical_def chain_link_canonical_def LINK_PREFIX_def concat_ws_def
      List.map_filter_simps)

section \<open>Canonical texts are uniquely decodable\<close>

lemma length_canonical_fields [simp]: "length (canonical_fields c) = 20"
  by (simp add: canonical_fields_def)

lemma canonical_inject:
  assumes "canonical c = canonical d"
  shows "map snd (canonical_fields c) = map snd (canonical_fields d)"
  by (rule join_fields_inject [where p = ENTRY_PREFIX]) (use assms in \<open>simp_all add: canonical_def\<close>)

lemma chain_link_canonical_inject:
  assumes "chain_link_canonical ver scope mid sq aid prev eh = chain_link_canonical ver' scope' mid' sq' aid' prev' eh'"
  shows "ver = ver' \<and> scope = scope' \<and> mid = mid' \<and> sq = sq' \<and> aid = aid' \<and> prev = prev' \<and> eh = eh'"
proof -
  have "[Some (int_str ver), Some scope, mid, Some (int_str sq), Some aid, prev, Some eh]
      = [Some (int_str ver'), Some scope', mid', Some (int_str sq'), Some aid', prev', Some eh']"
    by (rule join_fields_inject [where p = LINK_PREFIX]) (use assms in \<open>simp_all add: chain_link_canonical_def\<close>)
  then show ?thesis by simp
qed

section \<open>Hash chains over an arbitrary hash\<close>

text \<open>
  The value a chain of items ends in, and the texts hashed on the way. An item's link text
  may depend on the item, its position, the previous value and the hash of the item's text.
\<close>

definition link_value ::
  "(string \<Rightarrow> string) \<Rightarrow> ('e \<Rightarrow> string) \<Rightarrow> ('e \<Rightarrow> int \<Rightarrow> string option \<Rightarrow> string \<Rightarrow> string)
    \<Rightarrow> int \<Rightarrow> string option \<Rightarrow> 'e \<Rightarrow> string" where
  "link_value H et lt i p e = H (lt e i p (H (et e)))"

fun chain_end ::
  "(string \<Rightarrow> string) \<Rightarrow> ('e \<Rightarrow> string) \<Rightarrow> ('e \<Rightarrow> int \<Rightarrow> string option \<Rightarrow> string \<Rightarrow> string)
    \<Rightarrow> int \<Rightarrow> string option \<Rightarrow> 'e list \<Rightarrow> string option" where
  "chain_end H et lt i p [] = p"
| "chain_end H et lt i p (e # es) = chain_end H et lt (i + 1) (Some (link_value H et lt i p e)) es"

fun hashed_texts ::
  "(string \<Rightarrow> string) \<Rightarrow> ('e \<Rightarrow> string) \<Rightarrow> ('e \<Rightarrow> int \<Rightarrow> string option \<Rightarrow> string \<Rightarrow> string)
    \<Rightarrow> int \<Rightarrow> string option \<Rightarrow> 'e list \<Rightarrow> string set" where
  "hashed_texts H et lt i p [] = {}"
| "hashed_texts H et lt i p (e # es) =
     {et e, lt e i p (H (et e))} \<union> hashed_texts H et lt (i + 1) (Some (link_value H et lt i p e)) es"

text \<open>Two different texts of the two given sets that the hash cannot tell apart.\<close>

definition collides :: "(string \<Rightarrow> string) \<Rightarrow> string set \<Rightarrow> string set \<Rightarrow> bool" where
  "collides H A B \<longleftrightarrow> (\<exists>x\<in>A. \<exists>y\<in>B. x \<noteq> y \<and> H x = H y)"

lemma collides_mono: "collides H A B \<Longrightarrow> A \<subseteq> A' \<Longrightarrow> B \<subseteq> B' \<Longrightarrow> collides H A' B'"
  by (auto simp: collides_def)

lemma chain_end_snoc:
  "chain_end H et lt i p (es @ [e]) =
     Some (link_value H et lt (i + int (length es)) (chain_end H et lt i p es) e)"
  by (induction es arbitrary: i p) (simp_all add: algebra_simps)

lemma hashed_texts_snoc:
  "hashed_texts H et lt i p (es @ [e]) = hashed_texts H et lt i p es
     \<union> {et e, lt e (i + int (length es)) (chain_end H et lt i p es) (H (et e))}"
  by (induction es arbitrary: i p) (auto simp: algebra_simps)

locale hash_chain =
  fixes H :: "string \<Rightarrow> string"
    and et :: "'e \<Rightarrow> string"
    and lt :: "'e \<Rightarrow> int \<Rightarrow> string option \<Rightarrow> string \<Rightarrow> string"
  assumes link_inject: "lt e i p h = lt e' i' p' h' \<Longrightarrow> i = i' \<and> p = p' \<and> h = h'"
begin

theorem same_end_same_items:
  assumes "chain_end H et lt i None es = chain_end H et lt i None es'"
  shows "map et es = map et es'
    \<or> collides H (hashed_texts H et lt i None es) (hashed_texts H et lt i None es')"
  using assms
proof (induction es arbitrary: es' rule: rev_induct)
  case Nil
  then show ?case by (cases es' rule: rev_exhaust) (auto simp: chain_end_snoc)
next
  case (snoc e es)
  show ?case
  proof (cases es' rule: rev_exhaust)
    case Nil
    with snoc.prems show ?thesis by (simp add: chain_end_snoc)
  next
    case (snoc ds d)
    let ?x = "lt e (i + int (length es)) (chain_end H et lt i None es) (H (et e))"
    let ?y = "lt d (i + int (length ds)) (chain_end H et lt i None ds) (H (et d))"
    let ?A = "hashed_texts H et lt i None (es @ [e])" and ?B = "hashed_texts H et lt i None es'"
    have mem: "?x \<in> ?A" "et e \<in> ?A" "?y \<in> ?B" "et d \<in> ?B"
      by (simp_all add: hashed_texts_snoc snoc)
    from snoc.prems snoc have HH: "H ?x = H ?y" by (simp add: chain_end_snoc link_value_def)
    show ?thesis
    proof (cases "?x = ?y")
      case False
      with HH mem show ?thesis by (auto simp: collides_def)
    next
      case True
      then have ends: "chain_end H et lt i None es = chain_end H et lt i None ds"
        and heads: "H (et e) = H (et d)" by (auto dest: link_inject)
      show ?thesis
      proof (cases "et e = et d")
        case False
        with heads mem show ?thesis by (auto simp: collides_def)
      next
        case True
        from snoc.IH [OF ends] show ?thesis
        proof
          assume "map et es = map et ds"
          with True snoc show ?thesis by simp
        next
          assume "collides H (hashed_texts H et lt i None es) (hashed_texts H et lt i None ds)"
          then have "collides H ?A ?B"
            by (rule collides_mono) (auto simp: hashed_texts_snoc snoc)
          then show ?thesis ..
        qed
      qed
    qed
  qed
qed

end

section \<open>Chains the trigger wrote\<close>

text \<open>
  The links of one scope, read in order, against the entries they were written for.
\<close>

definition link_for ::
  "(string \<Rightarrow> string) \<Rightarrow> (json \<Rightarrow> string) \<Rightarrow> int \<Rightarrow> string option \<Rightarrow> chain_row \<Rightarrow> audit_entry \<Rightarrow> bool" where
  "link_for H PT n p c e \<longleftrightarrow>
     cr_audit_entry_id c = ae_id e \<and> cr_chain_version c = 1 \<and> scope_of c = scope_for e
     \<and> cr_scope_sequence c = n \<and> cr_previous_chain_hash c = p
     \<and> cr_entry_hash c = H (sql_entry_canonical PT e)
     \<and> cr_chain_hash c = H (sql_link_canonical 1 (fst (scope_for e)) (snd (scope_for e)) n (ae_id e) p
                              (cr_entry_hash c))"

fun linked ::
  "(string \<Rightarrow> string) \<Rightarrow> (json \<Rightarrow> string) \<Rightarrow> int \<Rightarrow> string option \<Rightarrow> chain_row list
    \<Rightarrow> audit_entry list \<Rightarrow> bool" where
  "linked H PT n p [] [] = True"
| "linked H PT n p (c # cs) (e # es) =
     (link_for H PT n p c e \<and> linked H PT (n + 1) (Some (cr_chain_hash c)) cs es)"
| "linked H PT n p _ _ = False"

definition last_hash :: "string option \<Rightarrow> chain_row list \<Rightarrow> string option" where
  "last_hash p cs = (if cs = [] then p else Some (cr_chain_hash (last cs)))"

lemma linked_length: "linked H PT n p cs es \<Longrightarrow> length cs = length es"
  by (induction H PT n p cs es rule: linked.induct) auto

lemma linked_snoc:
  "linked H PT n p (cs @ [c]) (es @ [e]) \<longleftrightarrow>
     linked H PT n p cs es \<and> link_for H PT (n + int (length cs)) (last_hash p cs) c e"
proof (induction cs arbitrary: n p es)
  case Nil
  then show ?case by (cases es; cases "tl es") (auto simp: last_hash_def)
next
  case (Cons c' cs)
  then show ?case by (cases es; cases cs) (auto simp: last_hash_def algebra_simps)
qed

lemma linked_sequences: "linked H PT n p cs es \<Longrightarrow> map cr_scope_sequence cs = map (\<lambda>i. n + int i) [0..<length cs]"
proof (induction H PT n p cs es rule: linked.induct)
  case (2 H PT n p c cs e es)
  from "2.prems" have "linked H PT (n + 1) (Some (cr_chain_hash c)) cs es" by simp
  moreover from "2.prems" have n: "cr_scope_sequence c = n" by (simp add: link_for_def)
  ultimately show ?case using "2.IH" by (simp add: map_upt_Suc add.assoc del: upt_Suc)
qed auto

lemma max_by_increasing:
  "sorted_wrt (<) (map key (x # xs)) \<Longrightarrow> max_by key x xs = last (x # xs)"
  by (induction xs arbitrary: x) auto

lemma linked_increasing: "linked H PT n p cs es \<Longrightarrow> sorted_wrt (<) (map cr_scope_sequence cs)"
  by (simp add: linked_sequences sorted_wrt_map sorted_wrt_upt)

lemma latest_linked:
  assumes "linked H PT 1 None (filter (\<lambda>c. scope_of c = sc) chain) es"
  shows "map_option cr_chain_hash (latest_in_scope sc chain)
           = last_hash None (filter (\<lambda>c. scope_of c = sc) chain)"
    and "(case latest_in_scope sc chain of None \<Rightarrow> 0 | Some c \<Rightarrow> cr_scope_sequence c)
           = int (length (filter (\<lambda>c. scope_of c = sc) chain))"
proof -
  let ?cs = "filter (\<lambda>c. scope_of c = sc) chain"
  have "latest_in_scope sc chain = (if ?cs = [] then None else Some (last ?cs))"
    using linked_increasing [OF assms]
    by (cases ?cs) (auto simp: latest_in_scope_def max_by_increasing simp del: max_by_simps)
  moreover have "?cs \<noteq> [] \<Longrightarrow> cr_scope_sequence (last ?cs) = int (length ?cs)"
  proof -
    assume ne: "?cs \<noteq> []"
    have "last (map cr_scope_sequence ?cs) = last (map (\<lambda>i. 1 + int i) [0..<length ?cs])"
      by (simp only: linked_sequences [OF assms])
    with ne show "cr_scope_sequence (last ?cs) = int (length ?cs)"
      by (cases "length ?cs") (auto simp: last_map)
  qed
  ultimately show "map_option cr_chain_hash (latest_in_scope sc chain) = last_hash None ?cs"
    and "(case latest_in_scope sc chain of None \<Rightarrow> 0 | Some c \<Rightarrow> cr_scope_sequence c) = int (length ?cs)"
    by (auto simp: last_hash_def)
qed

text \<open>Every scope of a chain the trigger built is linked to the scope's entries.\<close>

lemma append_linked:
  assumes "\<And>sc. linked H PT 1 None (filter (\<lambda>c. scope_of c = sc) chain) (filter (\<lambda>e. scope_for e = sc) es)"
  shows "linked H PT 1 None (filter (\<lambda>c. scope_of c = sc) (append_for_entry H PT chain e))
           (filter (\<lambda>e. scope_for e = sc) (es @ [e]))"
proof -
  let ?sc = "scope_for e"
  let ?cs = "filter (\<lambda>c. scope_of c = ?sc) chain"
  obtain c where app: "append_for_entry H PT chain e = chain @ [c]"
    and c: "cr_audit_entry_id c = ae_id e" "cr_chain_version c = 1" "scope_of c = ?sc"
      "cr_scope_sequence c = (case latest_in_scope ?sc chain of None \<Rightarrow> 0 | Some c \<Rightarrow> cr_scope_sequence c) + 1"
      "cr_previous_chain_hash c = map_option cr_chain_hash (latest_in_scope ?sc chain)"
      "cr_entry_hash c = H (sql_entry_canonical PT e)"
      "cr_chain_hash c = H (sql_link_canonical 1 (fst ?sc) (snd ?sc) (cr_scope_sequence c) (ae_id e)
         (cr_previous_chain_hash c) (cr_entry_hash c))"
    by (cases "ae_matter_id e") (auto simp: append_for_entry_def scope_for_def scope_of_def Let_def)
  have "link_for H PT (1 + int (length ?cs)) (last_hash None ?cs) c e"
    using c by (simp add: link_for_def latest_linked [OF assms] add.commute)
  then show ?thesis
    using assms [of sc] c(3) by (auto simp: app linked_snoc)
qed

lemma build_chain_linked:
  "linked H PT 1 None (filter (\<lambda>c. scope_of c = sc) (build_chain H PT es)) (filter (\<lambda>e. scope_for e = sc) es)"
proof (induction es arbitrary: sc rule: rev_induct)
  case Nil
  then show ?case by (simp add: build_chain_def)
next
  case (snoc e es)
  show ?case
    using append_linked [OF snoc.IH] by (simp add: build_chain_def)
qed

lemma length_build_chain: "length (build_chain H PT es) = length es"
  by (induction es rule: rev_induct)
    (auto simp: build_chain_def append_for_entry_def Let_def split: option.splits prod.splits)
section \<open>The verifier accepts what the trigger wrote\<close>

fun verify_scope ::
  "(string \<Rightarrow> string) \<Rightarrow> (json \<Rightarrow> string) \<Rightarrow> chain_row option
    \<Rightarrow> (chain_row \<times> audit_entry option) list \<Rightarrow> chain_issue list" where
  "verify_scope H PT p [] = []"
| "verify_scope H PT p ((c, e) # rows) = check_row H PT p c e @ verify_scope H PT (Some c) rows"

text \<open>The loop's dictionary of previous links splits the verification by scope.\<close>

lemma verify_rows_by_scope:
  "verify_rows H PT prevs rows = [] \<longleftrightarrow>
     (\<forall>sc. verify_scope H PT (prevs sc) (filter (\<lambda>(c, e). scope_of c = sc) rows) = [])"
proof (induction rows arbitrary: prevs)
  case Nil
  then show ?case by simp
next
  case (Cons r rows)
  obtain c e where r: "r = (c, e)" by (cases r)
  let ?F = "\<lambda>sc. filter (\<lambda>(c, e). scope_of c = sc) rows"
  let ?prevs = "prevs(scope_of c \<mapsto> c)"
  have step: "verify_scope H PT (prevs sc) (filter (\<lambda>(c, e). scope_of c = sc) (r # rows))
      = (if sc = scope_of c then check_row H PT (prevs (scope_of c)) c e else []) @ verify_scope H PT (?prevs sc) (?F sc)" for sc
    by (auto simp: r)
  show ?case
    unfolding step append_is_Nil_conv
    unfolding r verify_rows.simps append_is_Nil_conv Cons.IH by metis
qed

lemma link_for_checks:
  assumes "link_for H PT n (map_option cr_chain_hash prev) c e"
    and "n = (case prev of None \<Rightarrow> 1 | Some p \<Rightarrow> cr_scope_sequence p + 1)"
    and "PT (ae_payload e) \<noteq> []"
  shows "check_row H PT prev c (Some e) = []"
proof -
  have "cr_scope_type c = fst (scope_for e)" "cr_matter_id c = snd (scope_for e)"
    using assms(1) by (metis link_for_def scope_of_def fst_conv, metis link_for_def scope_of_def snd_conv)
  then show ?thesis
    using assms
    by (auto simp: link_for_def check_row_def AUDIT_CHAIN_VERSION_def entry_hash_def
        entry_payload_text_def sql_entry_canonical_eq chain_link_hash_def sql_link_canonical_eq)
qed

lemma linked_verifies:
  assumes "linked H PT n (map_option cr_chain_hash prev) cs es"
    and "n = (case prev of None \<Rightarrow> 1 | Some p \<Rightarrow> cr_scope_sequence p + 1)"
    and "\<And>p. PT p \<noteq> []"
  shows "verify_scope H PT prev (zip cs (map Some es)) = []"
  using assms(1,2)
proof (induction cs es arbitrary: n prev rule: list_induct2')
  case (4 c cs e es)
  have "check_row H PT prev c (Some e) = []"
    by (rule link_for_checks) (use 4 assms(3) in auto)
  moreover have "cr_scope_sequence c = n"
    using "4.prems" by (simp add: link_for_def)
  then have "verify_scope H PT (Some c) (zip cs (map Some es)) = []"
    using "4.prems" by (intro "4.IH" [of "n + 1"]) auto
  ultimately show ?case by simp
qed auto

lemma linked_join:
  assumes "linked H PT n p cs es" and "set es \<subseteq> set all" and "distinct (map ae_id all)"
  shows "map (\<lambda>c. (c, find_entry all (cr_audit_entry_id c))) cs = zip cs (map Some es)"
  using assms(1,2)
proof (induction cs es arbitrary: n p rule: list_induct2')
  case (4 c cs e es)
  have "find_entry all (ae_id e) = Some e"
    unfolding find_entry_def
    by (rule find_unique) (use 4 assms(3) in \<open>auto simp: distinct_map dest: inj_onD\<close>)
  moreover have "cr_audit_entry_id c = ae_id e"
    using "4.prems" by (simp add: link_for_def)
  ultimately show ?case using 4 by auto
qed auto

lemma linked_scope_sorted:
  assumes "linked H PT n p cs es" and "\<And>c. c \<in> set cs \<Longrightarrow> scope_of c = sc"
  shows "sort_key row_order cs = cs"
proof (rule sort_key_id_if_sorted)
  have "sorted_wrt (<) (map cr_scope_sequence cs)" by (rule linked_increasing [OF assms(1)])
  moreover have "row_order c \<le> row_order d" if "c \<in> set cs" "d \<in> set cs" "cr_scope_sequence c < cr_scope_sequence d" for c d
    using assms(2) [OF that(1)] assms(2) [OF that(2)] that(3)
    by (auto simp: row_order_def scope_of_def split: option.splits)
  ultimately show "sorted (map row_order cs)"
    unfolding sorted_map sorted_wrt_map by (rule sorted_wrt_mono_rel [rotated]) blast
qed

lemma trigger_rows_verify:
  assumes PT: "\<And>p. PT p \<noteq> []" and ids: "distinct (map ae_id es)"
  shows "verify_rows H PT Map.empty (chain_rows es (build_chain H PT es) mid) = []"
  unfolding verify_rows_by_scope
proof
  fix sc
  let ?chain = "build_chain H PT es"
  let ?cs = "filter (\<lambda>c. scope_of c = sc) ?chain" and ?es = "filter (\<lambda>e. scope_for e = sc) es"
  let ?join = "\<lambda>c. (c, find_entry es (cr_audit_entry_id c))"
  have linked: "linked H PT 1 None ?cs ?es" by (rule build_chain_linked)
  have sel: "filter (\<lambda>c. (mid = None \<or> cr_matter_id c = mid) \<and> scope_of c = sc) ?chain
      = (if mid = None \<or> snd sc = mid then ?cs else [])"
    by (cases sc) (auto simp: scope_of_def intro!: filter_cong filter_False)
  have "filter (\<lambda>(c, e). scope_of c = sc) (chain_rows es ?chain mid)
      = map ?join (sort_key row_order (if mid = None \<or> snd sc = mid then ?cs else []))"
    by (simp add: chain_rows_def filter_map comp_def filter_sort sel split del: if_split)
  also have "\<dots> = (if mid = None \<or> snd sc = mid then zip ?cs (map Some ?es) else [])"
    using linked_scope_sorted [OF linked] linked_join [OF linked _ ids] by auto
  finally show "verify_scope H PT (Map.empty sc) (filter (\<lambda>(c, e). scope_of c = sc) (chain_rows es ?chain mid)) = []"
    using linked_verifies [of H PT 1 None ?cs ?es] linked PT by simp
qed

lemma trigger_counts:
  "length (filter (\<lambda>c. mid = None \<or> cr_matter_id c = mid) (build_chain H PT es))
     = length (filter (\<lambda>e. mid = None \<or> ae_matter_id e = mid) es)"
proof (cases mid)
  case None
  then show ?thesis by (simp add: length_build_chain)
next
  case (Some m)
  have "cr_matter_id c = Some m \<longleftrightarrow> scope_of c = (''matter'', Some m)" if "c \<in> set (build_chain H PT es)" for c
  proof -
    have "c \<in> set (filter (\<lambda>d. scope_of d = scope_of c) (build_chain H PT es))" using that by simp
    moreover have "linked H PT 1 None (filter (\<lambda>d. scope_of d = scope_of c) (build_chain H PT es))
        (filter (\<lambda>e. scope_for e = scope_of c) es)" by (rule build_chain_linked)
    ultimately have "filter (\<lambda>e. scope_for e = scope_of c) es \<noteq> []"
      by (metis length_0_conv linked_length list.set(1) empty_iff)
    then obtain e where "scope_for e = scope_of c" by (meson filter_False)
    then show ?thesis by (auto simp: scope_for_def scope_of_def split: option.splits)
  qed
  then have "filter (\<lambda>c. cr_matter_id c = Some m) (build_chain H PT es)
      = filter (\<lambda>c. scope_of c = (''matter'', Some m)) (build_chain H PT es)" by (rule filter_cong [OF refl])
  moreover have "filter (\<lambda>e. ae_matter_id e = Some m) es = filter (\<lambda>e. scope_for e = (''matter'', Some m)) es"
    by (rule filter_cong) (auto simp: scope_for_def split: option.splits)
  ultimately show ?thesis
    using linked_length [OF build_chain_linked] Some by simp
qed

lemma trigger_chain_ok:
  assumes "\<And>p. PT p \<noteq> []" and "distinct (map ae_id es)"
  shows "av_ok (verify_audit_chain H PT es (build_chain H PT es) mid)"
  by (simp add: verify_audit_chain_def trigger_rows_verify [OF assms] trigger_counts Let_def)

text \<open>C2. Whatever entries are inserted, in whatever order and mix of matters and of the system
  scope, the chain the trigger writes for them passes \<open>verify_audit_chain\<close> with no issue, for
  the whole log and for every single matter. Postgres never renders a JSON value as the
  empty text, and entry ids are a primary key.\<close>

theorem trigger_chain_verifies:
  assumes "\<And>p. PT p \<noteq> []" and "distinct (map ae_id es)"
  shows "av_ok (verify_audit_chain H PT es (build_chain H PT es) mid)"
  using assms by (rule trigger_chain_ok)

section \<open>What a verified chain pins\<close>

text \<open>The texts of a verified row: of its entry, and of its link.\<close>

type_synonym chain_item = "chain_row \<times> audit_entry"

definition item_text :: "(json \<Rightarrow> string) \<Rightarrow> chain_item \<Rightarrow> string" where
  "item_text PT i = canonical (from_row (snd i) (entry_payload_text PT (snd i)))"

definition item_link :: "chain_item \<Rightarrow> int \<Rightarrow> string option \<Rightarrow> string \<Rightarrow> string" where
  "item_link i n p h = chain_link_canonical (cr_chain_version (fst i)) (cr_scope_type (fst i))
     (cr_matter_id (fst i)) n (cr_audit_entry_id (fst i)) p h"

interpretation db_chain: hash_chain H "item_text PT" item_link for H PT
  by unfold_locales (auto simp: item_link_def dest: chain_link_canonical_inject)

text \<open>The verified rows of a matter, in chain order, each with its entry, and the chain's head.\<close>

definition matter_items :: "audit_entry list \<Rightarrow> chain_row list \<Rightarrow> uuid \<Rightarrow> chain_item list" where
  "matter_items es chain m =
     List.map_filter (\<lambda>(c, e). map_option (Pair c) e) (chain_rows es chain (Some m))"

definition head_hash :: "audit_entry list \<Rightarrow> chain_row list \<Rightarrow> uuid \<Rightarrow> string option" where
  "head_hash es chain m = last_hash None (map fst (chain_rows es chain (Some m)))"

definition hashed_fields :: "(json \<Rightarrow> string) \<Rightarrow> chain_item \<Rightarrow> string option list" where
  "hashed_fields PT i = map snd (canonical_fields (from_row (snd i) (entry_payload_text PT (snd i))))"

lemma check_row_ok:
  assumes "check_row H PT prev c eo = []"
  obtains e where "eo = Some e" and "scope_of c = scope_for e"
    and "cr_scope_sequence c = (case prev of None \<Rightarrow> 1 | Some p \<Rightarrow> cr_scope_sequence p + 1)"
    and "cr_chain_hash c = link_value H (item_text PT) item_link (cr_scope_sequence c)
           (map_option cr_chain_hash prev) (c, e)"
  using assms
  by (cases eo) (auto simp: check_row_def Let_def link_value_def item_text_def item_link_def
      entry_hash_def chain_link_hash_def split: if_splits)

lemma verified_scope_chain:
  assumes "verify_scope H PT prev rows = []"
    and "n = (case prev of None \<Rightarrow> 1 | Some p \<Rightarrow> cr_scope_sequence p + 1)"
  shows "chain_end H (item_text PT) item_link n (map_option cr_chain_hash prev)
           (List.map_filter (\<lambda>(c, e). map_option (Pair c) e) rows)
         = last_hash (map_option cr_chain_hash prev) (map fst rows)"
  using assms
proof (induction rows arbitrary: prev n)
  case Nil
  then show ?case by (simp add: last_hash_def List.map_filter_simps)
next
  case (Cons r rows)
  obtain c eo where r: "r = (c, eo)" by (cases r)
  with Cons.prems have ok: "check_row H PT prev c eo = []" and rest: "verify_scope H PT (Some c) rows = []"
    by simp_all
  from ok obtain e where e: "eo = Some e" "cr_scope_sequence c = n"
    "cr_chain_hash c = link_value H (item_text PT) item_link n (map_option cr_chain_hash prev) (c, e)"
    using Cons.prems(2) by (elim check_row_ok) auto
  with Cons.IH [OF rest] r show ?case
    by (auto simp: List.map_filter_simps last_hash_def)
qed

lemma verified_rows_in_scope:
  assumes "verify_rows H PT prevs rows = []" and "(c, eo) \<in> set rows"
  shows "\<exists>e. eo = Some e \<and> scope_of c = scope_for e"
  using assms
proof (induction rows arbitrary: prevs)
  case (Cons r rows)
  then show ?case by (cases r) (auto elim: check_row_ok simp del: fun_upd_apply)
qed simp

lemma verified_matter_chain:
  assumes "av_ok (verify_audit_chain H PT es chain (Some m))"
  shows "chain_end H (item_text PT) item_link 1 None (matter_items es chain m) = head_hash es chain m"
proof -
  let ?rows = "chain_rows es chain (Some m)" and ?sc = "(''matter'', Some m)"
  from assms have ok: "verify_rows H PT Map.empty ?rows = []"
    by (simp add: verify_audit_chain_def Let_def)
  have "scope_of c = ?sc" if "(c, eo) \<in> set ?rows" for c eo
  proof -
    from verified_rows_in_scope [OF ok that] obtain e where "scope_of c = scope_for e" by blast
    moreover have "cr_matter_id c = Some m" using that by (auto simp: chain_rows_def)
    ultimately show ?thesis by (auto simp: scope_for_def scope_of_def split: option.splits)
  qed
  then have all: "filter (\<lambda>(c, e). scope_of c = ?sc) ?rows = ?rows" by (auto simp: filter_id_conv)
  have "verify_scope H PT (Map.empty ?sc) (filter (\<lambda>(c, e). scope_of c = ?sc) ?rows) = []"
    using ok [unfolded verify_rows_by_scope, THEN spec [where x = ?sc]] by simp
  then have "verify_scope H PT None ?rows = []" by (simp only: all)
  from verified_scope_chain [OF this refl] show ?thesis
    by (simp add: matter_items_def head_hash_def)
qed

text \<open>C1. Two audit databases that both verify for a matter and end in the same head hash hold the same
  log for that matter: the same number of entries, in the same order, with the same twenty hashed
  fields each. Otherwise two different texts occur among those hashed for the two chains
  that the hash function maps to the same value.\<close>

theorem verified_head_pins_log:
  assumes "av_ok (verify_audit_chain H PT es chain (Some m))"
    and "av_ok (verify_audit_chain H PT es' chain' (Some m))"
    and "head_hash es chain m = head_hash es' chain' m"
  shows "map (hashed_fields PT) (matter_items es chain m) = map (hashed_fields PT) (matter_items es' chain' m)
    \<or> collides H (hashed_texts H (item_text PT) item_link 1 None (matter_items es chain m))
        (hashed_texts H (item_text PT) item_link 1 None (matter_items es' chain' m))"
proof -
  have "map (item_text PT) xs = map (item_text PT) ys \<Longrightarrow> map (hashed_fields PT) xs = map (hashed_fields PT) ys" for xs ys
    by (induction xs ys rule: list_induct2') (auto simp: item_text_def hashed_fields_def dest: canonical_inject)
  moreover have "chain_end H (item_text PT) item_link 1 None (matter_items es chain m)
      = chain_end H (item_text PT) item_link 1 None (matter_items es' chain' m)"
    using assms by (simp add: verified_matter_chain)
  ultimately show ?thesis using db_chain.same_end_same_items by blast
qed
section \<open>Concrete logs\<close>

definition sample_entry :: "uuid \<Rightarrow> uuid option \<Rightarrow> string \<Rightarrow> audit_entry" where
  "sample_entry i m act = audit_event.extend ((event0 act)\<lparr>ae_matter_id := m\<rparr>) (audit_entry.fields i)"

definition sample_log :: "audit_entry list" where
  "sample_log = [sample_entry ''a'' (Some ''m'') ''matter.create'', sample_entry ''b'' None ''auth.login'',
     sample_entry ''c'' (Some ''m'') ''model.call'']"

definition plain_text :: "json \<Rightarrow> string" where
  "plain_text p = ''{}''"

lemma trigger_chain_verifies_witness:
  "av_ok (verify_audit_chain id plain_text sample_log (build_chain id plain_text sample_log) (Some ''m''))"
  by (rule trigger_chain_verifies) (simp_all add: plain_text_def sample_log_def sample_entry_def audit_event.defs audit_entry.defs)

lemma sample_heads:
  "head_hash [sample_log ! 0] (build_chain H PT [sample_log ! 0]) ''m''
   = head_hash [sample_log ! 1, sample_log ! 0] (build_chain H PT [sample_log ! 1, sample_log ! 0]) ''m''"
  by (simp add: head_hash_def chain_rows_def build_chain_def append_for_entry_def latest_in_scope_def
      sample_log_def sample_entry_def audit_event.defs audit_entry.defs event0_def scope_of_def last_hash_def Let_def)

lemma verified_head_pins_log_witness:
  "let es = [sample_log ! 0]; es' = [sample_log ! 1, sample_log ! 0];
       chain = build_chain id plain_text es; chain' = build_chain id plain_text es'
   in map (hashed_fields plain_text) (matter_items es chain ''m'')
          = map (hashed_fields plain_text) (matter_items es' chain' ''m'')
        \<or> collides id (hashed_texts id (item_text plain_text) item_link 1 None (matter_items es chain ''m''))
            (hashed_texts id (item_text plain_text) item_link 1 None (matter_items es' chain' ''m''))"
  unfolding Let_def
proof (rule verified_head_pins_log)
  show "av_ok (verify_audit_chain id plain_text [sample_log ! 0] (build_chain id plain_text [sample_log ! 0]) (Some ''m''))"
    "av_ok (verify_audit_chain id plain_text [sample_log ! 1, sample_log ! 0]
       (build_chain id plain_text [sample_log ! 1, sample_log ! 0]) (Some ''m''))"
    by (rule trigger_chain_ok; simp add: plain_text_def sample_log_def sample_entry_def audit_event.defs audit_entry.defs)+
qed (rule sample_heads)

section \<open>The backfill\<close>

text \<open>
  The migration's one-off loop: the entries without a chain row, oldest first, each appended
  by the same rules as the trigger's.
\<close>

definition backfill ::
  "(string \<Rightarrow> string) \<Rightarrow> (json \<Rightarrow> string) \<Rightarrow> audit_entry list \<Rightarrow> chain_row list \<Rightarrow> chain_row list" where
  "backfill H PT es chain =
     foldl (append_for_entry H PT) chain
       (sort_key (\<lambda>e. (ae_timestamp e, ae_id e))
          (filter (\<lambda>e. ae_id e \<notin> set (map cr_audit_entry_id chain)) es))"

lemma build_chain_ids: "map cr_audit_entry_id (build_chain H PT es) = map ae_id es"
  by (induction es rule: rev_induct)
    (auto simp: build_chain_def append_for_entry_def Let_def split: option.splits prod.splits)

lemma find_entry_same:
  assumes "distinct (map ae_id es)" and "distinct (map ae_id es')" and "set es = set es'"
  shows "find_entry es i = find_entry es' i"
proof (cases "find_entry es i")
  case None
  then have "find_entry es' i = None" using assms(3) by (simp add: find_entry_def find_None_iff)
  with None show ?thesis by simp
next
  case (Some e)
  then have "e \<in> set es" "ae_id e = i" by (auto simp: find_entry_def dest!: find_SomeD)
  then have "find_entry es' i = Some e"
    unfolding find_entry_def
    by (intro find_unique) (use assms in \<open>auto simp: distinct_map dest: inj_onD\<close>)
  with Some show ?thesis by simp
qed

lemma verify_audit_chain_perm:
  assumes "distinct (map ae_id es)" and "distinct (map ae_id es')" and "set es = set es'"
  shows "verify_audit_chain H PT es chain mid = verify_audit_chain H PT es' chain mid"
proof -
  have "distinct es" "distinct es'" using assms by (auto simp: distinct_map)
  then have "length (filter P es) = length (filter P es')" for P
    by (metis assms(3) distinct_card distinct_filter set_filter)
  moreover have "chain_rows es chain mid = chain_rows es' chain mid"
    by (simp add: chain_rows_def find_entry_same [OF assms])
  ultimately show ?thesis by (simp add: verify_audit_chain_def)
qed

lemma backfill_ok:
  assumes "\<And>p. PT p \<noteq> []" and "distinct (map ae_id es)"
    and "distinct (map ae_id chained)" and "set chained \<subseteq> set es"
  shows "av_ok (verify_audit_chain H PT es (backfill H PT es (build_chain H PT chained)) mid)"
proof -
  let ?rest = "sort_key (\<lambda>e. (ae_timestamp e, ae_id e)) (filter (\<lambda>e. ae_id e \<notin> ae_id ` set chained) es)"
  let ?all = "chained @ ?rest"
  have chain: "backfill H PT es (build_chain H PT chained) = build_chain H PT ?all"
    by (simp add: backfill_def build_chain_ids) (simp add: build_chain_def)
  have inj: "inj_on ae_id (set es)" "distinct es" using assms(2) by (simp_all add: distinct_map)
  then have same: "set ?all = set es" using assms(4) by (auto dest: inj_onD)
  moreover have "distinct ?all" using assms(3) inj(2) by (auto simp: distinct_map)
  then have "distinct (map ae_id ?all)" using inj(1) same by (simp only: distinct_map)
  ultimately have "verify_audit_chain H PT es (build_chain H PT ?all) mid
      = verify_audit_chain H PT ?all (build_chain H PT ?all) mid"
    and "av_ok (verify_audit_chain H PT ?all (build_chain H PT ?all) mid)"
    by (intro verify_audit_chain_perm trigger_chain_ok; use assms in blast)+
  then show ?thesis unfolding chain by (rule arg_cong [where f = av_ok, THEN iffD2])
qed

text \<open>The migration's backfill completes a partial chain: if the trigger wrote the chain of some of
  the entries, in any order, then after the backfill the chain of the whole log verifies, for
  every scope (with no chain at all to start from as the special case).\<close>

theorem backfill_verifies:
  assumes "\<And>p. PT p \<noteq> []" and "distinct (map ae_id es)"
    and "distinct (map ae_id chained)" and "set chained \<subseteq> set es"
  shows "av_ok (verify_audit_chain H PT es (backfill H PT es (build_chain H PT chained)) mid)"
  using assms by (rule backfill_ok)

lemma backfill_verifies_witness:
  "av_ok (verify_audit_chain id plain_text sample_log
     (backfill id plain_text sample_log (build_chain id plain_text [sample_log ! 2])) (Some ''m''))"
  by (rule backfill_verifies) (simp_all add: plain_text_def sample_log_def sample_entry_def audit_event.defs audit_entry.defs)

end
