(* ===== verification/ExportVerifier.thy ===== *)
theory ExportVerifier
  imports AuditChain
begin

text \<open>
  The audit chain in a matter export (\<open>app/core/exports.py\<close>) and the stand-alone verifier that
  travels with it (\<open>app/core/export_chain_verifier.py\<close>). The verifier reads two JSON files; a
  file is modelled by the outcome of reading and parsing it. Uncaught Python exceptions are
  values of \<open>py_error\<close>.
\<close>

section \<open>Python values of a JSON document\<close>

text \<open>\<open>==\<close>: booleans are the integers 0 and 1; dictionaries compare as mappings.\<close>

primrec py_eq :: "json \<Rightarrow> json \<Rightarrow> bool" where
  "py_eq JNull y = (y = JNull)"
| "py_eq (JBool b) y = (case y of JBool c \<Rightarrow> b = c | JInt i \<Rightarrow> i = of_bool b | _ \<Rightarrow> False)"
| "py_eq (JInt i) y = (case y of JBool c \<Rightarrow> i = of_bool c | JInt k \<Rightarrow> i = k | _ \<Rightarrow> False)"
| "py_eq (JStr s) y = (y = JStr s)"
| "py_eq (JList xs) y = (case y of
      JList ys \<Rightarrow> length xs = length ys \<and> list_all (\<lambda>(f, z). f z) (zip (map py_eq xs) ys) | _ \<Rightarrow> False)"
| "py_eq (JObj kvs) y = (case y of
      JObj kws \<Rightarrow> length kvs = length kws
        \<and> list_all (\<lambda>(k, f). case map_of kws k of None \<Rightarrow> False | Some z \<Rightarrow> f z) (map (map_prod id py_eq) kvs)
    | _ \<Rightarrow> False)"

definition str_or_none :: "json \<Rightarrow> string option" where
  "str_or_none v = (if v = JNull then None else Some (py_str v))"

section \<open>The export\<close>

text \<open>
  The chain rows of the matter joined with their entries (an inner join), by sequence.
\<close>

definition export_rows :: "audit_entry list \<Rightarrow> chain_row list \<Rightarrow> uuid \<Rightarrow> chain_item list" where
  "export_rows es chain m =
     List.map_filter (\<lambda>c. map_option (Pair c) (find_entry es (cr_audit_entry_id c)))
       (sort_key cr_scope_sequence (filter (\<lambda>c. cr_matter_id c = Some m) chain))"

definition export_entry :: "(json \<Rightarrow> string) \<Rightarrow> chain_item \<Rightarrow> json" where
  "export_entry PT = (\<lambda>(c, e). JObj
     (map (\<lambda>(k, v). (k, jstr_opt v)) (canonical_fields (from_row e (entry_payload_text PT e)))
      @ [(''scope_type'', JStr (cr_scope_type c)), (''scope_sequence'', JInt (cr_scope_sequence c)),
         (''chain_version'', JInt (cr_chain_version c)),
         (''previous_chain_hash'', jstr_opt (cr_previous_chain_hash c)),
         (''entry_hash'', JStr (cr_entry_hash c)), (''chain_hash'', JStr (cr_chain_hash c))]))"

text \<open>\<open>audit.json\<close>: the entries of the matter in time order; \<open>isoformat\<close> leaves zero microseconds out.\<close>

definition isoformat :: "int \<Rightarrow> string" where
  "isoformat t =
     (let s = butlast (render_instant t)
      in (if t mod 1000000 = 0 then take (length s - 7) s else s) @ ''+00:00'')"

definition audit_list_row :: "audit_entry \<Rightarrow> json" where
  "audit_list_row a = JObj [(''id'', JStr (ae_id a)), (''timestamp'', JStr (isoformat (ae_timestamp a))),
     (''actor_id'', jstr_opt (ae_actor_id a)), (''action'', JStr (ae_action a)),
     (''module'', jstr_opt (ae_module a)), (''resource_type'', jstr_opt (ae_resource_type a)),
     (''resource_id'', jstr_opt (ae_resource_id a)), (''model_used'', jstr_opt (ae_model_used a)),
     (''token_count'', jint_opt (ae_token_count a)), (''payload'', ae_payload a)]"

definition audit_list :: "audit_entry list \<Rightarrow> uuid \<Rightarrow> json" where
  "audit_list es m =
     JList (map audit_list_row (sort_key ae_timestamp (filter (\<lambda>e. ae_matter_id e = Some m) es)))"

definition SUPPORTED_FORMAT :: string where
  "SUPPORTED_FORMAT = ''legalise-audit-chain-export-v1''"

definition export_head :: "json list \<Rightarrow> json" where
  "export_head entries =
     (if entries = [] then JNull
      else JObj [(''chain_hash'', jget0 ''chain_hash'' (last entries)),
                 (''scope_sequence'', jget0 ''scope_sequence'' (last entries)),
                 (''entry_count'', JInt (int (length entries))),
                 (''timestamp'', jget0 ''timestamp'' (last entries))])"

definition export_chain ::
  "(json \<Rightarrow> string) \<Rightarrow> audit_entry list \<Rightarrow> chain_row list \<Rightarrow> uuid \<Rightarrow> string \<Rightarrow> json" where
  "export_chain PT es chain m exported_at =
     (let entries = map (export_entry PT) (export_rows es chain m)
      in JObj [(''format'', JStr SUPPORTED_FORMAT), (''scope_type'', JStr ''matter''),
               (''matter_id'', JStr m), (''exported_at'', JStr exported_at),
               (''entry_count'', JInt (int (length entries))), (''head'', export_head entries),
               (''how_to_verify'', JStr (''Run `python verify_chain.py` from the unpacked export. ''
                  @ ''It needs only a standard Python 3 install.'')),
               (''entries'', JList entries)])"

section \<open>The offline verifier\<close>

datatype py_error = AttributeError | KeyError string | TypeError

datatype problem =
    CouldNotRead string
  | UnsupportedFormat json
  | HeadWithoutEntries
  | EntriesWithoutHead
  | SequenceMismatch nat json
  | PreviousLinkMismatch nat
  | EntryHashAltered nat
  | ChainHashWrong nat
  | HeadMismatch json json
  | EntryCountMismatch json nat
  | CouldNotReadAudit string
  | MissingFromChain nat "string list"
  | MissingFromAudit nat "string list"

definition ENTRY_HASH_FIELDS :: "string list" where
  "ENTRY_HASH_FIELDS =
     [''id'', ''timestamp'', ''actor_id'', ''matter_id'', ''action'', ''module'', ''resource_type'',
      ''resource_id'', ''model_used'', ''prompt_hash'', ''response_hash'', ''token_count'',
      ''latency_ms'', ''tokens_in'', ''tokens_out'', ''cost_micros'', ''currency'', ''provider'',
      ''model_id'', ''payload_text'']"

definition file_fields :: "json \<Rightarrow> string option list" where
  "file_fields entry = map (\<lambda>name. str_or_none (jget0 name entry)) ENTRY_HASH_FIELDS"

definition file_entry_text :: "json \<Rightarrow> string" where
  "file_entry_text entry = py_join newline (ENTRY_PREFIX # map field_text (file_fields entry))"

definition file_entry_hash :: "(string \<Rightarrow> string) \<Rightarrow> json \<Rightarrow> string" where
  "file_entry_hash H entry = H (file_entry_text entry)"

definition link_text_of :: "string \<Rightarrow> string \<Rightarrow> string option \<Rightarrow> string \<Rightarrow> string \<Rightarrow> string option \<Rightarrow> string \<Rightarrow> string" where
  "link_text_of ver scope mid sq i prev eh =
     py_join newline (LINK_PREFIX # map field_text
       [Some ver, Some scope, mid, Some sq, Some i, prev, Some eh])"

text \<open>\<open>entry[k]\<close>: a missing key is a \<open>KeyError\<close>; the first one in evaluation order is raised.\<close>

definition file_link_hash :: "(string \<Rightarrow> string) \<Rightarrow> json \<Rightarrow> string \<Rightarrow> py_error + string" where
  "file_link_hash H entry computed =
     (case jget ''chain_version'' entry of None \<Rightarrow> Inl (KeyError ''chain_version'') | Some ver \<Rightarrow>
      case jget ''scope_type'' entry of None \<Rightarrow> Inl (KeyError ''scope_type'') | Some scope \<Rightarrow>
      case jget ''scope_sequence'' entry of None \<Rightarrow> Inl (KeyError ''scope_sequence'') | Some sq \<Rightarrow>
      case jget ''id'' entry of None \<Rightarrow> Inl (KeyError ''id'') | Some i \<Rightarrow>
        Inr (H (link_text_of (py_str ver) (py_str scope) (str_or_none (jget0 ''matter_id'' entry))
                  (py_str sq) (py_str i) (str_or_none (jget0 ''previous_chain_hash'' entry)) computed)))"

text \<open>The loop over the entries: the problems found, and the hash the chain ends in.\<close>

fun check_entries ::
  "(string \<Rightarrow> string) \<Rightarrow> nat \<Rightarrow> json \<Rightarrow> json list \<Rightarrow> py_error + (problem list \<times> json)" where
  "check_entries H pos prev [] = Inr ([], prev)"
| "check_entries H pos prev (entry # rest) =
     (case entry of
        JObj _ \<Rightarrow>
          (let p1 = (if \<not> py_eq (jget0 ''scope_sequence'' entry) (JInt (int pos))
                     then [SequenceMismatch pos (jget0 ''scope_sequence'' entry)] else []);
               p2 = (if \<not> py_eq (jget0 ''previous_chain_hash'' entry) prev
                     then [PreviousLinkMismatch pos] else []);
               computed_entry = file_entry_hash H entry;
               p3 = (if jget0 ''entry_hash'' entry \<noteq> JStr computed_entry
                     then [EntryHashAltered pos] else [])
           in case file_link_hash H entry computed_entry of
                Inl err \<Rightarrow> Inl err
              | Inr computed_chain \<Rightarrow>
                  (let p4 = (if jget0 ''chain_hash'' entry \<noteq> JStr computed_chain
                             then [ChainHashWrong pos] else [])
                   in case check_entries H (Suc pos) (jget0 ''chain_hash'' entry) rest of
                        Inl err \<Rightarrow> Inl err
                      | Inr (ps, final) \<Rightarrow> Inr (p1 @ p2 @ p3 @ p4 @ ps, final)))
      | _ \<Rightarrow> Inl AttributeError)"

text \<open>The rows of \<open>audit.json\<close>: iterating them, each must be a dictionary.\<close>

definition row_ids :: "json \<Rightarrow> py_error + string set" where
  "row_ids rows =
     (case rows of
        JList rs \<Rightarrow> (if list_all (\<lambda>r. case r of JObj _ \<Rightarrow> True | _ \<Rightarrow> False) rs
                    then Inr ((\<lambda>r. py_str (jget0 ''id'' r)) ` set rs) else Inl AttributeError)
      | JStr s \<Rightarrow> if s = [] then Inr {} else Inl AttributeError
      | JObj kvs \<Rightarrow> if kvs = [] then Inr {} else Inl AttributeError
      | _ \<Rightarrow> Inl TypeError)"

definition cross_check :: "json list \<Rightarrow> (string + json) option \<Rightarrow> py_error + problem list" where
  "cross_check entries audit_file =
     (case audit_file of
        None \<Rightarrow> Inr []
      | Some (Inl msg) \<Rightarrow> Inr [CouldNotReadAudit msg]
      | Some (Inr rows) \<Rightarrow>
          (case row_ids rows of
             Inl err \<Rightarrow> Inl err
           | Inr audit_ids \<Rightarrow>
               (let chain_ids = (\<lambda>e. py_str (jget0 ''id'' e)) ` set entries;
                    missing = sorted_list_of_set (audit_ids - chain_ids);
                    extra = sorted_list_of_set (chain_ids - audit_ids)
                in Inr ((if missing \<noteq> [] then [MissingFromChain (length missing) (take 5 missing)] else [])
                      @ (if extra \<noteq> [] then [MissingFromAudit (length extra) (take 5 extra)] else [])))))"

definition verify_file ::
  "(string \<Rightarrow> string) \<Rightarrow> string + json \<Rightarrow> (string + json) option \<Rightarrow> py_error + problem list" where
  "verify_file H chain_file audit_file =
     (case chain_file of
        Inl msg \<Rightarrow> Inr [CouldNotRead msg]
      | Inr (JObj kvs) \<Rightarrow>
          (let data = JObj kvs; head = jget0 ''head'' data;
               entries = (case jget ''entries'' data of None \<Rightarrow> JList [] | Some e \<Rightarrow> e)
           in if jget0 ''format'' data \<noteq> JStr SUPPORTED_FORMAT
              then Inr [UnsupportedFormat (jget0 ''format'' data)]
              else if \<not> py_truthy entries
              then Inr (if head \<noteq> JNull then [HeadWithoutEntries] else [])
              else if head = JNull then Inr [EntriesWithoutHead]
              else (case entries of
                 JList es \<Rightarrow>
                   (case check_entries H 1 JNull es of
                      Inl err \<Rightarrow> Inl err
                    | Inr (ps, final) \<Rightarrow>
                        (case head of
                           JObj _ \<Rightarrow>
                             (let p5 = (if \<not> py_eq (jget0 ''chain_hash'' head) final
                                        then [HeadMismatch (jget0 ''chain_hash'' head) final] else []);
                                  p6 = (if \<not> py_eq (jget0 ''entry_count'' head) (JInt (int (length es)))
                                        then [EntryCountMismatch (jget0 ''entry_count'' head) (length es)] else [])
                              in case cross_check es audit_file of
                                   Inl err \<Rightarrow> Inl err | Inr p7 \<Rightarrow> Inr (ps @ p5 @ p6 @ p7))
                         | _ \<Rightarrow> Inl AttributeError))
               | JObj _ \<Rightarrow> Inl AttributeError
               | JStr _ \<Rightarrow> Inl AttributeError
               | _ \<Rightarrow> Inl TypeError))
      | Inr _ \<Rightarrow> Inl AttributeError)"

text \<open>
  The process's exit status: an uncaught exception ends it with 1, also the one of
  \<open>len(entries)\<close> when the summary line is printed.
\<close>

definition verifier_main ::
  "(string \<Rightarrow> string) \<Rightarrow> string + json \<Rightarrow> (string + json) option \<Rightarrow> nat" where
  "verifier_main H chain_file audit_file =
     (case verify_file H chain_file audit_file of
        Inl _ \<Rightarrow> 1
      | Inr (p # ps) \<Rightarrow> 1
      | Inr [] \<Rightarrow>
          (case chain_file of
             Inr data \<Rightarrow> (case (case jget ''entries'' data of None \<Rightarrow> JList [] | Some e \<Rightarrow> e) of
                 JNull \<Rightarrow> 1 | JBool _ \<Rightarrow> 1 | JInt _ \<Rightarrow> 1 | _ \<Rightarrow> 0)
           | Inl _ \<Rightarrow> 1))"

section \<open>The export verifies\<close>

lemma sort_key_cong_order:
  assumes "\<And>x y. x \<in> set xs \<Longrightarrow> y \<in> set xs \<Longrightarrow> f x \<le> f y \<longleftrightarrow> g x \<le> g y"
  shows "sort_key f xs = sort_key g xs"
proof -
  have ins: "insort_key f x ys = insort_key g x ys"
    if "\<And>y. y \<in> set ys \<Longrightarrow> f x \<le> f y \<longleftrightarrow> g x \<le> g y" for x ys
    using that by (induction ys) auto
  show ?thesis
    using assms
  proof (induction xs)
    case (Cons x xs)
    then have "sort_key f xs = sort_key g xs" by simp
    with Cons.prems ins [of "sort_key g xs" x] show ?case by simp
  qed simp
qed

lemma py_eq_JStr [simp]: "py_eq j (JStr s) \<longleftrightarrow> j = JStr s"
  by (cases j) (auto split: json.splits)

lemma py_eq_JNull [simp]: "py_eq j JNull \<longleftrightarrow> j = JNull"
  by (cases j) (auto split: json.splits)

lemma py_eq_refl_scalar [simp]: "py_eq (JInt i) (JInt k) \<longleftrightarrow> i = k" "py_eq (jstr_opt v) (jstr_opt w) \<longleftrightarrow> v = w"
  by (auto simp: jstr_opt_def split: option.splits)

lemma str_or_none_jstr_opt [simp]: "str_or_none (jstr_opt v) = v"
  by (cases v) (auto simp: str_or_none_def jstr_opt_def py_str_def)

lemma py_str_simps [simp]: "py_str (JStr s) = s" "py_str (JInt i) = int_str i"
  by (simp_all add: py_str_def)

text \<open>Reading an exported entry gives back what was written.\<close>

lemma file_fields_export:
  "file_fields (export_entry PT (c, e)) = map snd (canonical_fields (from_row e (entry_payload_text PT e)))"
  by (simp add: file_fields_def ENTRY_HASH_FIELDS_def export_entry_def canonical_fields_def jget0_def jget_def)

lemma export_entry_keys:
  "jget0 ''scope_sequence'' (export_entry PT (c, e)) = JInt (cr_scope_sequence c)"
  "jget0 ''previous_chain_hash'' (export_entry PT (c, e)) = jstr_opt (cr_previous_chain_hash c)"
  "jget0 ''entry_hash'' (export_entry PT (c, e)) = JStr (cr_entry_hash c)"
  "jget0 ''chain_hash'' (export_entry PT (c, e)) = JStr (cr_chain_hash c)"
  "jget0 ''matter_id'' (export_entry PT (c, e)) = jstr_opt (ae_matter_id e)"
  "jget0 ''id'' (export_entry PT (c, e)) = JStr (ae_id e)"
  "jget ''chain_version'' (export_entry PT (c, e)) = Some (JInt (cr_chain_version c))"
  "jget ''scope_type'' (export_entry PT (c, e)) = Some (JStr (cr_scope_type c))"
  "jget ''scope_sequence'' (export_entry PT (c, e)) = Some (JInt (cr_scope_sequence c))"
  "jget ''id'' (export_entry PT (c, e)) = Some (JStr (ae_id e))"
  by (simp_all add: export_entry_def canonical_fields_def from_row_def jget0_def jget_def)
    (simp_all add: jstr_opt_def)

lemma export_entry_JObj: "\<exists>kvs. export_entry PT i = JObj kvs"
  by (cases i) (simp add: export_entry_def)

lemma file_entry_hash_export:
  "file_entry_hash H (export_entry PT (c, e)) = entry_hash H (from_row e (entry_payload_text PT e))"
  by (simp add: file_entry_hash_def file_entry_text_def file_fields_export entry_hash_def canonical_def)

text \<open>When an entry passes every check of the loop.\<close>

lemma check_entries_pass:
  "check_entries H pos prev (JObj kvs # rest) = Inr ([], final) \<longleftrightarrow>
     py_eq (jget0 ''scope_sequence'' (JObj kvs)) (JInt (int pos))
     \<and> py_eq (jget0 ''previous_chain_hash'' (JObj kvs)) prev
     \<and> jget0 ''entry_hash'' (JObj kvs) = JStr (file_entry_hash H (JObj kvs))
     \<and> (\<exists>ch. file_link_hash H (JObj kvs) (file_entry_hash H (JObj kvs)) = Inr ch
            \<and> jget0 ''chain_hash'' (JObj kvs) = JStr ch
            \<and> check_entries H (Suc pos) (JStr ch) rest = Inr ([], final))"
  by (auto simp: Let_def split: sum.splits if_splits)

text \<open>A row without issues, seen by the offline verifier.\<close>

lemma check_row_export:
  assumes "check_row H PT prev c (Some e) = []" and "cr_audit_entry_id c = ae_id e"
  shows "cr_entry_hash c = file_entry_hash H (export_entry PT (c, e))"
    and "file_link_hash H (export_entry PT (c, e)) (cr_entry_hash c) = Inr (cr_chain_hash c)"
    and "cr_previous_chain_hash c = map_option cr_chain_hash prev"
    and "cr_scope_sequence c = (case prev of None \<Rightarrow> 1 | Some p \<Rightarrow> cr_scope_sequence p + 1)"
proof -
  from assms(1) have all: "cr_entry_hash c = entry_hash H (from_row e (entry_payload_text PT e))"
    "scope_of c = scope_for e"
    "cr_chain_hash c = chain_link_hash H (cr_chain_version c) (cr_scope_type c) (cr_matter_id c)
       (cr_scope_sequence c) (cr_audit_entry_id c) (cr_previous_chain_hash c) (cr_entry_hash c)"
    "cr_previous_chain_hash c = map_option cr_chain_hash prev"
    "cr_scope_sequence c = (case prev of None \<Rightarrow> 1 | Some p \<Rightarrow> cr_scope_sequence p + 1)"
    by (auto simp: check_row_def Let_def split: if_splits)
  then have "cr_matter_id c = ae_matter_id e"
    by (auto simp: scope_of_def scope_for_def split: option.splits)
  with all assms(2) show "cr_entry_hash c = file_entry_hash H (export_entry PT (c, e))"
    and "file_link_hash H (export_entry PT (c, e)) (cr_entry_hash c) = Inr (cr_chain_hash c)"
    and "cr_previous_chain_hash c = map_option cr_chain_hash prev"
    and "cr_scope_sequence c = (case prev of None \<Rightarrow> 1 | Some p \<Rightarrow> cr_scope_sequence p + 1)"
    by (simp_all add: file_entry_hash_export file_link_hash_def export_entry_keys link_text_of_def
        chain_link_hash_def chain_link_canonical_def)
qed

lemma verified_scope_exports:
  assumes "verify_scope H PT prev (map (\<lambda>(c, e). (c, Some e)) items) = []"
    and "\<And>c e. (c, e) \<in> set items \<Longrightarrow> cr_audit_entry_id c = ae_id e"
    and "int pos = (case prev of None \<Rightarrow> 1 | Some p \<Rightarrow> cr_scope_sequence p + 1)"
  shows "check_entries H pos (jstr_opt (map_option cr_chain_hash prev)) (map (export_entry PT) items)
           = Inr ([], jstr_opt (last_hash (map_option cr_chain_hash prev) (map fst items)))"
  using assms
proof (induction items arbitrary: prev pos)
  case Nil
  then show ?case by (simp add: last_hash_def)
next
  case (Cons i items)
  obtain c e where i: "i = (c, e)" by (cases i)
  with Cons.prems have ok: "check_row H PT prev c (Some e) = []" "cr_audit_entry_id c = ae_id e" by auto
  have IH: "check_entries H (Suc pos) (JStr (cr_chain_hash c)) (map (export_entry PT) items)
      = Inr ([], jstr_opt (last_hash (Some (cr_chain_hash c)) (map fst items)))"
    using Cons.IH [of "Some c" "Suc pos"] Cons.prems i check_row_export(4) [OF ok]
    by (simp add: jstr_opt_def)
  obtain kvs where obj: "export_entry PT (c, e) = JObj kvs" using export_entry_JObj by blast
  have "check_entries H pos (jstr_opt (map_option cr_chain_hash prev)) (export_entry PT (c, e) # map (export_entry PT) items)
      = Inr ([], jstr_opt (last_hash (Some (cr_chain_hash c)) (map fst items)))"
    unfolding obj check_entries_pass
    using check_row_export [OF ok, unfolded obj] Cons.prems(3) IH export_entry_keys [of PT c e, unfolded obj]
    by simp
  then show ?case by (simp add: i last_hash_def)
qed

lemma verified_rows_items:
  assumes "verify_rows H PT prevs rows = []"
  shows "rows = map (\<lambda>(c, e). (c, Some e)) (List.map_filter (\<lambda>(c, e). map_option (Pair c) e) rows)"
  using assms
proof (induction rows arbitrary: prevs)
  case (Cons r rows)
  then show ?case by (cases r) (auto simp: List.map_filter_simps elim: check_row_ok simp del: fun_upd_apply)
qed (simp add: List.map_filter_simps)

text \<open>For a verified matter the export's rows are the verified ones, in the same order.\<close>

lemma verified_export_rows:
  assumes "av_ok (verify_audit_chain H PT es chain (Some m))"
  shows "export_rows es chain m = matter_items es chain m"
    and "verify_scope H PT None (map (\<lambda>(c, e). (c, Some e)) (matter_items es chain m)) = []"
    and "map fst (matter_items es chain m) = map fst (chain_rows es chain (Some m))"
proof -
  let ?rows = "chain_rows es chain (Some m)" and ?cs = "filter (\<lambda>c. cr_matter_id c = Some m) chain"
  from assms have ok: "verify_rows H PT Map.empty ?rows = []"
    by (simp add: verify_audit_chain_def Let_def)
  have scope: "scope_of c = (''matter'', Some m)" if c: "c \<in> set ?cs" for c
  proof -
    from c have "(c, find_entry es (cr_audit_entry_id c)) \<in> set ?rows" by (auto simp: chain_rows_def)
    from verified_rows_in_scope [OF ok this] obtain e where "scope_of c = scope_for e" by blast
    moreover have "cr_matter_id c = Some m" using c by simp
    ultimately show ?thesis by (auto simp: scope_for_def scope_of_def split: option.splits)
  qed
  have "row_order c \<le> row_order d \<longleftrightarrow> cr_scope_sequence c \<le> cr_scope_sequence d"
    if "c \<in> set ?cs" "d \<in> set ?cs" for c d
    using scope [OF that(1)] scope [OF that(2)] by (simp add: row_order_def scope_of_def)
  then have "sort_key row_order ?cs = sort_key cr_scope_sequence ?cs" by (rule sort_key_cong_order)
  then have rows: "?rows = map (\<lambda>c. (c, find_entry es (cr_audit_entry_id c))) (sort_key cr_scope_sequence ?cs)"
    by (simp add: chain_rows_def)
  then show "export_rows es chain m = matter_items es chain m"
    by (simp add: export_rows_def matter_items_def List.map_filter_def filter_map comp_def)
  have items: "?rows = map (\<lambda>(c, e). (c, Some e)) (matter_items es chain m)"
    using verified_rows_items [OF ok] by (simp add: matter_items_def)
  then show "map fst (matter_items es chain m) = map fst ?rows"
    by (simp add: comp_def case_prod_unfold)
  have "filter (\<lambda>(c, e). scope_of c = (''matter'', Some m)) ?rows = ?rows"
    using scope by (auto simp: filter_id_conv rows)
  with ok [unfolded verify_rows_by_scope, THEN spec [where x = "(''matter'', Some m)"]]
  show "verify_scope H PT None (map (\<lambda>(c, e). (c, Some e)) (matter_items es chain m)) = []"
    by (simp add: items)
qed

lemma map_filter_mem: "y \<in> set (List.map_filter f xs) \<longleftrightarrow> (\<exists>x\<in>set xs. f x = Some y)"
  by (force simp: List.map_filter_def)

lemma matter_items_ids: "(c, e) \<in> set (matter_items es chain m) \<Longrightarrow> cr_audit_entry_id c = ae_id e"
  by (auto simp: matter_items_def chain_rows_def map_filter_mem find_entry_def dest!: find_SomeD)

lemma jget_doc:
  "jget0 ''format'' (export_chain PT es chain m t) = JStr SUPPORTED_FORMAT"
  "jget0 ''head'' (export_chain PT es chain m t) = export_head (map (export_entry PT) (export_rows es chain m))"
  "jget ''entries'' (export_chain PT es chain m t) = Some (JList (map (export_entry PT) (export_rows es chain m)))"
  "\<exists>kvs. export_chain PT es chain m t = JObj kvs"
  by (simp_all add: export_chain_def Let_def jget0_def jget_def)

text \<open>The exported rows of a verified matter are all of its entries.\<close>

lemma row_ids_audit_list: "row_ids (audit_list es m) = Inr (ae_id ` {e \<in> set es. ae_matter_id e = Some m})"
  by (auto simp: row_ids_def audit_list_def audit_list_row_def list_all_iff jget0_def jget_def image_iff)

lemma verified_ids:
  assumes "av_ok (verify_audit_chain H PT es chain (Some m))"
    and "distinct (map ae_id es)" and "distinct (map cr_audit_entry_id chain)"
  shows "(\<lambda>i. ae_id (snd i)) ` set (matter_items es chain m) = ae_id ` {e \<in> set es. ae_matter_id e = Some m}"
proof -
  let ?items = "matter_items es chain m" and ?rows = "chain_rows es chain (Some m)"
  let ?es = "filter (\<lambda>e. ae_matter_id e = Some m) es" and ?cs = "filter (\<lambda>c. cr_matter_id c = Some m) chain"
  from assms(1) have ok: "verify_rows H PT Map.empty ?rows = []" and count: "length ?es = length ?cs"
    by (simp_all add: verify_audit_chain_def Let_def split: if_splits)
  have ids: "map (\<lambda>i. ae_id (snd i)) ?items = map (\<lambda>i. cr_audit_entry_id (fst i)) ?items"
    using matter_items_ids by (auto simp: case_prod_unfold)
  have fsts: "map fst ?items = sort_key row_order ?cs"
    using verified_export_rows(3) [OF assms(1)] by (simp add: chain_rows_def comp_def)
  then have len: "length ?items = length ?cs" by (metis length_map length_sort)
  have "distinct (map (\<lambda>i. cr_audit_entry_id (fst i)) ?items)"
  proof -
    have "distinct (map cr_audit_entry_id (map fst ?items))"
      using assms(3) unfolding fsts by (auto simp: distinct_map inj_on_def)
    then show ?thesis by (simp only: list.map_comp comp_def)
  qed
  then have dist: "distinct (map (\<lambda>i. ae_id (snd i)) ?items)" by (simp only: ids)
  have sub: "(\<lambda>i. ae_id (snd i)) ` set ?items \<subseteq> ae_id ` set ?es"
  proof clarify
    fix c e
    assume "(c, e) \<in> set ?items"
    then have row: "(c, Some e) \<in> set ?rows" by (auto simp: matter_items_def map_filter_mem)
    from verified_rows_in_scope [OF ok row] row have "ae_matter_id e = Some m" "e \<in> set es"
      by (auto simp: chain_rows_def scope_of_def scope_for_def find_entry_def dest!: find_SomeD dest: sym split: option.splits)
    then show "ae_id (snd (c, e)) \<in> ae_id ` set ?es" by auto
  qed
  have "card (ae_id ` set ?es) = length ?es" "card ((\<lambda>i. ae_id (snd i)) ` set ?items) = length ?items"
    using distinct_card [OF distinct_map_filter [OF assms(2)]] distinct_card [OF dist] by simp_all
  with sub count len have "(\<lambda>i. ae_id (snd i)) ` set ?items = ae_id ` set ?es"
    by (intro card_subset_eq) auto
  then show ?thesis by simp
qed

lemma cross_check_export:
  assumes "ae_id ` {e \<in> set es. ae_matter_id e = Some m} = (\<lambda>i. ae_id (snd i)) ` set items"
  shows "cross_check (map (export_entry PT) items) (Some (Inr (audit_list es m))) = Inr []"
proof -
  have "(\<lambda>e. py_str (jget0 ''id'' e)) ` export_entry PT ` set items = (\<lambda>i. ae_id (snd i)) ` set items"
    by (force simp: export_entry_keys image_iff)
  with assms show ?thesis
    by (simp add: cross_check_def row_ids_audit_list Let_def)
qed

lemma export_verifies:
  assumes "av_ok (verify_audit_chain H PT es chain (Some m))"
    and "distinct (map ae_id es)" and "distinct (map cr_audit_entry_id chain)"
    and "audit_file = None \<or> audit_file = Some (Inr (audit_list es m))"
  shows "verify_file H (Inr (export_chain PT es chain m t)) audit_file = Inr []
    \<and> verifier_main H (Inr (export_chain PT es chain m t)) audit_file = 0"
proof -
  let ?items = "matter_items es chain m" and ?doc = "export_chain PT es chain m t"
  note rows = verified_export_rows [OF assms(1)]
  have cross: "cross_check (map (export_entry PT) ?items) audit_file = Inr []"
    using assms(4) cross_check_export verified_ids [OF assms(1-3)] by (auto simp: cross_check_def)
  have chk: "check_entries H 1 JNull (map (export_entry PT) ?items)
      = Inr ([], jstr_opt (last_hash None (map fst ?items)))"
    using verified_scope_exports [OF rows(2) matter_items_ids, where pos = 1] by (simp add: jstr_opt_def)
  obtain kvs where doc: "?doc = JObj kvs" using jget_doc(4) by blast
  have "verify_file H (Inr ?doc) audit_file = Inr []"
  proof (cases "?items = []")
    case True
    with jget_doc(1-3) [of PT es chain m t] doc show ?thesis
      by (simp add: verify_file_def rows(1) py_truthy_def export_head_def)
  next
    case False
    then have "jget0 ''chain_hash'' (last (map (export_entry PT) ?items)) = jstr_opt (last_hash None (map fst ?items))"
      by (cases "last ?items") (simp add: last_map export_entry_keys last_hash_def jstr_opt_def)
    with False jget_doc(1-3) [of PT es chain m t] doc chk cross show ?thesis
      by (simp add: verify_file_def rows(1) py_truthy_def export_head_def Let_def)
        (simp add: jget0_def jget_def)
  qed
  then show ?thesis
    using jget_doc(3) [of PT es chain m t] by (simp add: verifier_main_def)
qed

text \<open>C4. If the database verifier accepts a matter's chain, the exported pack passes the offline
  verifier, with the pack's own \<open>audit.json\<close> beside it or without: no problem is reported and
  the process exits with 0. Entry ids are a primary key, and a chain row's entry is unique.\<close>

theorem export_passes_offline_verifier:
  assumes "av_ok (verify_audit_chain H PT es chain (Some m))"
    and "distinct (map ae_id es)" and "distinct (map cr_audit_entry_id chain)"
    and "audit_file = None \<or> audit_file = Some (Inr (audit_list es m))"
  shows "verify_file H (Inr (export_chain PT es chain m t)) audit_file = Inr []
    \<and> verifier_main H (Inr (export_chain PT es chain m t)) audit_file = 0"
  using assms by (rule export_verifies)

section \<open>What an accepted file pins\<close>

text \<open>
  The link text of an entry the loop accepted at position \<open>i\<close>. Python compares \<open>True\<close> equal to
  1, so the first entry may state its sequence as \<open>true\<close>, which then is hashed as \<open>True\<close>.
\<close>

definition sequence_text :: "json \<Rightarrow> int \<Rightarrow> string" where
  "sequence_text e i =
     (if i = 1 \<and> jget0 ''scope_sequence'' e = JBool True then ''True'' else int_str i)"

definition file_link_text :: "json \<Rightarrow> int \<Rightarrow> string option \<Rightarrow> string \<Rightarrow> string" where
  "file_link_text e i p h =
     link_text_of (py_str (jget0 ''chain_version'' e)) (py_str (jget0 ''scope_type'' e))
       (str_or_none (jget0 ''matter_id'' e)) (sequence_text e i) (py_str (jget0 ''id'' e)) p h"

lemma int_str_not_True: "int_str i \<noteq> ''True''"
proof
  assume eq: "int_str i = ''True''"
  then have "CHR ''T'' \<in> set (nat_str (nat \<bar>i\<bar>))"
    by (auto simp: int_str_def split: if_splits)
  from nat_str_digits [OF this] show False by simp
qed

lemma sequence_text_inject: "sequence_text e i = sequence_text e' i' \<Longrightarrow> i = i'"
  using int_str_not_True by (auto simp: sequence_text_def split: if_splits dest: sym)

lemma link_text_inject:
  assumes "link_text_of ver scope mid sq i p h = link_text_of ver' scope' mid' sq' i' p' h'"
  shows "sq = sq' \<and> p = p' \<and> h = h'"
proof -
  have "[Some ver, Some scope, mid, Some sq, Some i, p, Some h]
      = [Some ver', Some scope', mid', Some sq', Some i', p', Some h']"
    by (rule join_fields_inject [where p = LINK_PREFIX]) (use assms in \<open>simp_all add: link_text_of_def\<close>)
  then show ?thesis by simp
qed

interpretation file_chain: hash_chain H file_entry_text file_link_text for H
  by unfold_locales (auto simp: file_link_text_def dest: link_text_inject sequence_text_inject)

lemma file_link_hash_text:
  assumes "file_link_hash H e computed = Inr ch"
  shows "ch = H (link_text_of (py_str (jget0 ''chain_version'' e)) (py_str (jget0 ''scope_type'' e))
    (str_or_none (jget0 ''matter_id'' e)) (py_str (jget0 ''scope_sequence'' e)) (py_str (jget0 ''id'' e))
    (str_or_none (jget0 ''previous_chain_hash'' e)) computed)"
  using assms by (auto simp: file_link_hash_def jget0_def split: option.splits)

lemma py_eq_JInt: "py_eq j (JInt i) \<longleftrightarrow> j = JInt i \<or> (\<exists>b. j = JBool b \<and> i = of_bool b)"
  by (cases j) (auto split: json.splits)

lemma accepted_sequence:
  assumes "py_eq (jget0 ''scope_sequence'' e) (JInt (int pos))" and "0 < pos"
  shows "py_str (jget0 ''scope_sequence'' e) = sequence_text e (int pos)"
  using assms by (auto simp: py_eq_JInt sequence_text_def py_str_def)

lemma accepted_entries_chain:
  assumes "check_entries H pos (jstr_opt p) es = Inr ([], final)" and "0 < pos"
  shows "final = jstr_opt (chain_end H file_entry_text file_link_text (int pos) p es)"
  using assms
proof (induction es arbitrary: pos p)
  case (Cons e es)
  from Cons.prems obtain kvs where e: "e = JObj kvs" by (cases e) auto
  from Cons.prems(1) [unfolded e check_entries_pass] obtain ch where
    sq: "py_eq (jget0 ''scope_sequence'' e) (JInt (int pos))"
    and prev: "jget0 ''previous_chain_hash'' e = jstr_opt p"
    and ch: "file_link_hash H e (file_entry_hash H e) = Inr ch"
    and rest: "check_entries H (Suc pos) (JStr ch) es = Inr ([], final)"
    unfolding e [symmetric] by (cases p) (auto simp: jstr_opt_def)
  from file_link_hash_text [OF ch] have "ch = link_value H file_entry_text file_link_text (int pos) p e"
    by (simp add: link_value_def file_link_text_def file_entry_hash_def prev accepted_sequence [OF sq Cons.prems(2)])
  moreover from rest Cons.IH [of "Suc pos" "Some ch"]
  have "final = jstr_opt (chain_end H file_entry_text file_link_text (int (Suc pos)) (Some ch) es)"
    by (simp add: jstr_opt_def)
  ultimately show ?case by (simp add: add.commute)
qed simp

text \<open>The entries and the stated head hash of a file.\<close>

definition file_entries :: "json \<Rightarrow> json list" where
  "file_entries data = (case jget ''entries'' data of Some (JList es) \<Rightarrow> es | _ \<Rightarrow> [])"

definition file_head :: "json \<Rightarrow> json" where
  "file_head data = jget0 ''chain_hash'' (jget0 ''head'' data)"

lemma accepted_file_chain:
  assumes "verify_file H (Inr data) audit_file = Inr []" and "file_entries data \<noteq> []"
  shows "file_head data = jstr_opt (chain_end H file_entry_text file_link_text 1 None (file_entries data))"
proof -
  from assms(2) obtain es where es: "jget ''entries'' data = Some (JList es)" "es \<noteq> []" "file_entries data = es"
    by (auto simp: file_entries_def split: option.splits json.splits)
  from assms(1) es(1,2) obtain final where chk: "check_entries H 1 JNull es = Inr ([], final)"
    and head: "py_eq (file_head data) final"
    by (auto simp: verify_file_def py_truthy_def Let_def file_head_def split: json.splits if_splits sum.splits prod.splits)
  from accepted_entries_chain [of H 1 None es final] chk
  have "final = jstr_opt (chain_end H file_entry_text file_link_text 1 None es)" by (simp add: jstr_opt_def)
  with head es(3) show ?thesis by (auto simp: jstr_opt_def split: option.splits)
qed

lemma same_file_text_same_fields:
  "map file_entry_text xs = map file_entry_text ys \<Longrightarrow> map file_fields xs = map file_fields ys"
proof (induction xs ys rule: list_induct2')
  case (4 x xs y ys)
  have "file_fields x = file_fields y"
    by (rule join_fields_inject [where p = ENTRY_PREFIX])
      (use 4 in \<open>simp_all add: file_entry_text_def file_fields_def\<close>)
  with 4 show ?case by simp
qed simp_all

text \<open>C3. Two exported chain files that the offline verifier accepts and that state the same head hash
  list the same entries: as many, in the same order, with the same value in each of the twenty
  hashed fields. Otherwise two different hashed texts have the same hash.\<close>

theorem accepted_head_pins_file:
  assumes "verify_file H (Inr data) audit_file = Inr []" and "file_entries data \<noteq> []"
    and "verify_file H (Inr data') audit_file' = Inr []" and "file_entries data' \<noteq> []"
    and "file_head data = file_head data'"
  shows "map file_fields (file_entries data) = map file_fields (file_entries data')
    \<or> collides H (hashed_texts H file_entry_text file_link_text 1 None (file_entries data))
        (hashed_texts H file_entry_text file_link_text 1 None (file_entries data'))"
proof -
  have "chain_end H file_entry_text file_link_text 1 None (file_entries data)
      = chain_end H file_entry_text file_link_text 1 None (file_entries data')"
    using assms accepted_file_chain by (metis jstr_opt_inject)
  then show ?thesis using file_chain.same_end_same_items same_file_text_same_fields by blast
qed

section \<open>Concrete exports\<close>

lemma sample_ok:
  "av_ok (verify_audit_chain H plain_text sample_log (build_chain H plain_text sample_log) mid)"
  by (rule trigger_chain_ok; simp add: plain_text_def sample_log_def sample_entry_def audit_event.defs audit_entry.defs)+

lemma sample_distinct:
  "distinct (map ae_id sample_log)" "distinct (map cr_audit_entry_id (build_chain H plain_text sample_log))"
  by (simp_all add: sample_log_def sample_entry_def audit_event.defs audit_entry.defs build_chain_def
      append_for_entry_def event0_def Let_def)

lemma export_passes_offline_verifier_witness:
  "verify_file id (Inr (export_chain plain_text sample_log (build_chain id plain_text sample_log) ''m'' ''now'')) (Some (Inr (audit_list sample_log ''m''))) = Inr []
   \<and> verifier_main id (Inr (export_chain plain_text sample_log (build_chain id plain_text sample_log) ''m'' ''now'')) (Some (Inr (audit_list sample_log ''m''))) = 0"
  by (rule export_passes_offline_verifier) (simp_all add: sample_ok sample_distinct)

definition sample_export :: "(string \<Rightarrow> string) \<Rightarrow> string \<Rightarrow> json" where
  "sample_export H t = export_chain plain_text [sample_log ! 0] (build_chain H plain_text [sample_log ! 0]) ''m'' t"

lemma distinct_one_link: "distinct (map cr_audit_entry_id (build_chain H PT [e]))"
  by (simp add: build_chain_def append_for_entry_def Let_def split: prod.splits)

lemma sample_export_ok:
  "verify_file H (Inr (sample_export H t)) None = Inr []"
  "file_entries (sample_export H t) \<noteq> []"
  "file_head (sample_export H t) = file_head (sample_export H u)"
proof -
  have "av_ok (verify_audit_chain H plain_text [sample_log ! 0] (build_chain H plain_text [sample_log ! 0]) (Some ''m''))"
    by (rule trigger_chain_ok; simp add: plain_text_def)
  then show "verify_file H (Inr (sample_export H t)) None = Inr []"
    using export_verifies [of H plain_text "[sample_log ! 0]"] by (simp add: sample_export_def distinct_one_link)
  show "file_entries (sample_export H t) \<noteq> []"
    by (simp add: sample_export_def file_entries_def jget_doc export_rows_def build_chain_def append_for_entry_def
        latest_in_scope_def sample_log_def sample_entry_def audit_event.defs audit_entry.defs event0_def
        scope_of_def Let_def find_entry_def List.map_filter_simps)
  show "file_head (sample_export H t) = file_head (sample_export H u)"
    by (simp add: sample_export_def file_head_def jget_doc)
qed

lemma accepted_head_pins_file_witness:
  "map file_fields (file_entries (sample_export id ''a'')) = map file_fields (file_entries (sample_export id ''b''))
   \<or> collides id (hashed_texts id file_entry_text file_link_text 1 None (file_entries (sample_export id ''a'')))
       (hashed_texts id file_entry_text file_link_text 1 None (file_entries (sample_export id ''b'')))"
  by (rule accepted_head_pins_file) (rule sample_export_ok)+

end
