(* ===== verification/Capabilities.thy ===== *)
theory Capabilities
  imports Database
begin

text \<open>
  Capability strings and grants (\<open>app/core/capabilities.py\<close>, the table
  \<open>workspace_skill_capability_grants\<close>), the payload and audit rows of a blocked operation
  (\<open>phase1_runtime/blocked.py\<close>, \<open>audit_emit.py\<close>), and the check every substrate primitive runs
  first (\<open>phase1_runtime/capability_check.py\<close>).
\<close>

section \<open>Capability strings\<close>

definition CAPABILITY_VOCABULARY :: "string list" where
  "CAPABILITY_VOCABULARY =
     [''matter.read'', ''document.body.read'', ''document.generated.write'', ''model.invoke'',
      ''chronology.read'', ''chronology.write'', ''citation.write'']"

definition lower_alpha :: "char \<Rightarrow> bool" where
  "lower_alpha c \<longleftrightarrow> (let n = (of_char c :: nat) in 97 \<le> n \<and> n \<le> 122)"

definition ident_char :: "char \<Rightarrow> bool" where
  "ident_char c \<longleftrightarrow> lower_alpha c \<or> (let n = (of_char c :: nat) in 48 \<le> n \<and> n \<le> 57) \<or> c = CHR ''_''"

definition is_identifier :: "string \<Rightarrow> bool" where
  "is_identifier s = (case s of [] \<Rightarrow> False | c # cs \<Rightarrow> lower_alpha c \<and> list_all ident_char cs)"

definition v2_grammar :: "string \<Rightarrow> bool" where
  "v2_grammar v =
     (case split_on CHR ''.'' v of
        [] \<Rightarrow> False
      | s # segs \<Rightarrow> s \<in> {''matter'', ''workspace'', ''global''} \<and> 2 \<le> length segs \<and> list_all is_identifier segs)"

text \<open>\<open>_V2_GRAMMAR_RE.match\<close>: Python's \<open>$\<close> also matches just before a final line break.\<close>

definition v2_match :: "string \<Rightarrow> bool" where
  "v2_match v \<longleftrightarrow> v2_grammar v \<or> v \<noteq> [] \<and> last v = CHR 0x0A \<and> v2_grammar (butlast v)"

definition is_valid_capability_string :: "json \<Rightarrow> bool" where
  "is_valid_capability_string value =
     (case value of JStr v \<Rightarrow> v \<noteq> [] \<and> (v \<in> set CAPABILITY_VOCABULARY \<or> v2_match v) | _ \<Rightarrow> False)"

definition assert_capability_string :: "json \<Rightarrow> string + unit" where
  "assert_capability_string value =
     (if is_valid_capability_string value then Inr () else Inl ''ValueError'')"

definition capability_scope :: "string \<Rightarrow> string option" where
  "capability_scope v =
     (if v \<notin> set CAPABILITY_VOCABULARY \<and> v2_match v then Some (hd (split_on CHR ''.'' v)) else None)"

text \<open>The per-skill list overrides the plugin's; \<open>module_payload\<close> is the manifest, if any.\<close>

definition declared_capabilities_for_skill :: "json \<Rightarrow> string \<Rightarrow> string list" where
  "declared_capabilities_for_skill module_payload skill =
     (case module_payload of
        JObj kvs \<Rightarrow>
          (let plugin_level = (case jget ''capabilities'' module_payload of
                 Some (JList cs) \<Rightarrow> only_strings cs | _ \<Rightarrow> [])
           in case jget ''skills'' module_payload of
                Some (JObj skills) \<Rightarrow>
                  (case map_of skills skill of
                     Some (JObj override) \<Rightarrow>
                       (case map_of override ''capabilities'' of
                          Some (JList cs) \<Rightarrow> only_strings cs
                        | Some _ \<Rightarrow> []
                        | None \<Rightarrow> plugin_level)
                   | _ \<Rightarrow> plugin_level)
              | _ \<Rightarrow> plugin_level)
      | _ \<Rightarrow> [])"

section \<open>Grant rows\<close>

datatype db_error = IntegrityError

type_synonym grant_key = "uuid \<times> string \<times> string \<times> string \<times> string \<times> uuid option"

definition grant_key :: "grant \<Rightarrow> grant_key" where
  "grant_key g = (g_user_id g, g_plugin g, g_skill g, g_capability g, g_scope_type g, g_scope_id g)"

text \<open>The table's check constraints.\<close>

definition grant_check :: "grant \<Rightarrow> bool" where
  "grant_check g \<longleftrightarrow> (g_scope_type g = ''matter'') = (g_scope_id g \<noteq> None)
     \<and> g_scope_type g \<in> {''workspace'', ''matter''}"

definition grants_ok :: "db \<Rightarrow> bool" where
  "grants_ok d \<longleftrightarrow> distinct (map grant_key (grants d)) \<and> list_all grant_check (grants d)"

definition insert_grant_on_conflict_do_nothing :: "grant \<Rightarrow> db \<Rightarrow> db_error + db" where
  "insert_grant_on_conflict_do_nothing g d =
     (if \<not> grant_check g then Inl IntegrityError
      else if grant_key g \<in> set (map grant_key (grants d)) then Inr d
      else Inr (d\<lparr>grants := grants d @ [g]\<rparr>))"

definition grant_capability ::
  "uuid \<Rightarrow> uuid \<Rightarrow> string \<Rightarrow> string \<Rightarrow> string \<Rightarrow> uuid option \<Rightarrow> string option \<Rightarrow> uuid option \<Rightarrow> db
    \<Rightarrow> db_error + db" where
  "grant_capability new_id user plugin skill cap granted_by scope_type scope_id d =
     (let effective_scope_type =
            (case scope_type of None \<Rightarrow> ''workspace'' | Some st \<Rightarrow> if st = [] then ''workspace'' else st);
          effective_scope_id = (if effective_scope_type = ''matter'' then scope_id else None)
      in insert_grant_on_conflict_do_nothing
           \<lparr>g_id = new_id, g_user_id = user, g_plugin = plugin, g_skill = skill, g_capability = cap,
            g_granted_by_user_id = granted_by, g_capability_version = None,
            g_granted_at_module_version = None, g_permissions_snapshot = None,
            g_scope_type = effective_scope_type, g_scope_id = effective_scope_id\<rparr> d)"

fun grant_many ::
  "uuid \<Rightarrow> string \<Rightarrow> string \<Rightarrow> uuid option \<Rightarrow> (uuid \<times> string) list \<Rightarrow> db \<Rightarrow> db_error + db" where
  "grant_many user plugin skill granted_by [] d = Inr d"
| "grant_many user plugin skill granted_by ((new_id, cap) # caps) d =
     (case grant_capability new_id user plugin skill cap granted_by None None d of
        Inl err \<Rightarrow> Inl err | Inr d' \<Rightarrow> grant_many user plugin skill granted_by caps d')"

definition grant_for :: "uuid \<Rightarrow> string \<Rightarrow> string \<Rightarrow> string \<Rightarrow> grant \<Rightarrow> bool" where
  "grant_for user plugin skill cap g \<longleftrightarrow>
     g_user_id g = user \<and> g_plugin g = plugin \<and> g_skill g = skill \<and> g_capability g = cap"

definition list_granted :: "uuid \<Rightarrow> string \<Rightarrow> string \<Rightarrow> db \<Rightarrow> string set" where
  "list_granted user plugin skill d =
     g_capability ` set (filter (\<lambda>g. g_user_id g = user \<and> g_plugin g = plugin \<and> g_skill g = skill) (grants d))"

text \<open>The first matching row, whatever its scope, is deleted.\<close>

definition revoke :: "uuid \<Rightarrow> string \<Rightarrow> string \<Rightarrow> string \<Rightarrow> db \<Rightarrow> db" where
  "revoke user plugin skill cap d =
     (case find (grant_for user plugin skill cap) (grants d) of
        None \<Rightarrow> d
      | Some row \<Rightarrow> d\<lparr>grants := remove1 row (grants d)\<rparr>)"

section \<open>Requiring a capability\<close>

record capability_denied =
  cd_user_id :: uuid
  cd_plugin :: string
  cd_skill :: string
  cd_capability :: string

definition granted_at ::
  "uuid \<Rightarrow> string \<Rightarrow> string \<Rightarrow> string \<Rightarrow> uuid option \<Rightarrow> db \<Rightarrow> bool" where
  "granted_at user plugin skill cap mid d \<longleftrightarrow>
     list_ex (\<lambda>g. grant_for user plugin skill cap g
       \<and> (case mid of None \<Rightarrow> g_scope_type g = ''workspace'' \<and> g_scope_id g = None
          | Some m \<Rightarrow> g_scope_type g = ''matter'' \<and> g_scope_id g = Some m)) (grants d)"

definition denied_event ::
  "uuid \<Rightarrow> string \<Rightarrow> string \<Rightarrow> string \<Rightarrow> uuid option \<Rightarrow> audit_event" where
  "denied_event user plugin skill cap mid = (event0 ''module.capability.denied'')
     \<lparr>ae_actor_id := Some user, ae_matter_id := mid, ae_module := Some plugin,
      ae_resource_type := Some ''capability'',
      ae_resource_id := Some (plugin @ '':'' @ skill @ '':'' @ cap),
      ae_payload := JObj [(''plugin'', JStr plugin), (''skill'', JStr skill), (''capability'', JStr cap),
        (''matter_id'', jstr_opt mid),
        (''scope'', JStr (if mid = None then ''workspace'' else ''matter''))]\<rparr>"

definition require_capability ::
  "uuid \<Rightarrow> string \<Rightarrow> string \<Rightarrow> string \<Rightarrow> uuid option \<Rightarrow> session
    \<Rightarrow> (capability_denied + unit) \<times> session" where
  "require_capability user plugin skill cap mid s =
     (if granted_at user plugin skill cap mid (working s) then (Inr (), s)
      else (Inl \<lparr>cd_user_id = user, cd_plugin = plugin, cd_skill = skill, cd_capability = cap\<rparr>,
            commit (audit_log (denied_event user plugin skill cap mid) s)))"

section \<open>Blocked operations\<close>

datatype blocked_reason =
    CAPABILITY_DENIED | GATE_BLOCKED | INVALID_TRANSITION | SCHEMA_VIOLATION | ROLE_DENIED
  | MISSING_INPUT | TIER_EXCEEDED | TIER_DISALLOWED

primrec reason_value :: "blocked_reason \<Rightarrow> string" where
  "reason_value CAPABILITY_DENIED = ''capability_denied''"
| "reason_value GATE_BLOCKED = ''gate_blocked''"
| "reason_value INVALID_TRANSITION = ''invalid_transition''"
| "reason_value SCHEMA_VIOLATION = ''schema_violation''"
| "reason_value ROLE_DENIED = ''role_denied''"
| "reason_value MISSING_INPUT = ''missing_input''"
| "reason_value TIER_EXCEEDED = ''tier_exceeded''"
| "reason_value TIER_DISALLOWED = ''tier_disallowed''"

record blocked_payload =
  bp_reason :: blocked_reason
  bp_denied_capability :: "string option"
  bp_gate_state :: "json option"

definition blocked_dict :: "blocked_payload \<Rightarrow> (string \<times> json) list" where
  "blocked_dict b =
     [(''status'', JStr ''blocked''), (''blocked_reason'', JStr (reason_value (bp_reason b)))]
     @ (case bp_denied_capability b of None \<Rightarrow> [] | Some c \<Rightarrow> [(''denied_capability'', JStr c)])
     @ (case bp_gate_state b of None \<Rightarrow> [] | Some g \<Rightarrow> [(''gate_state'', g)])"

text \<open>The two exceptions of the substrate.\<close>

datatype phase1_error = Phase1Blocked blocked_payload | Phase1Failed string

text \<open>The row \<open>audit_phase1\<close> composes; its \<open>payload\<close> is a dictionary or absent.\<close>

definition phase1_event ::
  "string \<Rightarrow> string \<Rightarrow> uuid option \<Rightarrow> uuid option \<Rightarrow> string option \<Rightarrow> string option \<Rightarrow> string option
    \<Rightarrow> string option \<Rightarrow> (string \<times> json) list \<Rightarrow> blocked_payload option \<Rightarrow> audit_event" where
  "phase1_event action primitive actor mid module_id cap res_type res_id payload blocked =
     (event0 action)
       \<lparr>ae_actor_id := actor, ae_matter_id := mid, ae_module := Some (''core.'' @ primitive),
        ae_resource_type := res_type, ae_resource_id := res_id,
        ae_payload := JObj
          (let c1 = (case module_id of None \<Rightarrow> payload | Some m \<Rightarrow> dict_set ''module_id'' (JStr m) payload);
               c2 = (case cap of None \<Rightarrow> c1 | Some c \<Rightarrow> dict_set ''capability_id'' (JStr c) c1)
           in case blocked of None \<Rightarrow> c2 | Some b \<Rightarrow> dict_update c2 (blocked_dict b))\<rparr>"

definition audit_phase1 ::
  "string \<Rightarrow> string \<Rightarrow> uuid option \<Rightarrow> uuid option \<Rightarrow> string option \<Rightarrow> string option \<Rightarrow> string option
    \<Rightarrow> string option \<Rightarrow> (string \<times> json) list \<Rightarrow> blocked_payload option \<Rightarrow> session \<Rightarrow> session" where
  "audit_phase1 action primitive actor mid module_id cap res_type res_id payload blocked =
     audit_log (phase1_event action primitive actor mid module_id cap res_type res_id payload blocked)"

text \<open>What a caller passes to \<open>check_or_block\<close>.\<close>

record capability_request =
  cq_user_id :: uuid
  cq_capability :: string
  cq_primitive :: string
  cq_block_action :: string
  cq_plugin :: string
  cq_skill :: "string option"
  cq_actor_id :: "uuid option"
  cq_matter_id :: "uuid option"
  cq_resource_type :: "string option"
  cq_resource_id :: "string option"

definition effective_skill :: "capability_request \<Rightarrow> string" where
  "effective_skill q = (case cq_skill q of None \<Rightarrow> cq_primitive q | Some sk \<Rightarrow> sk)"

definition capability_block :: "string \<Rightarrow> blocked_payload" where
  "capability_block cap =
     \<lparr>bp_reason = CAPABILITY_DENIED, bp_denied_capability = Some cap, bp_gate_state = None\<rparr>"

definition block_event :: "capability_request \<Rightarrow> audit_event" where
  "block_event q = (event0 (cq_block_action q))
     \<lparr>ae_actor_id := Some (case cq_actor_id q of None \<Rightarrow> cq_user_id q | Some a \<Rightarrow> a),
      ae_matter_id := cq_matter_id q, ae_module := Some (''core.'' @ cq_primitive q),
      ae_resource_type := cq_resource_type q, ae_resource_id := cq_resource_id q,
      ae_payload := JObj ([(''module_id'', JStr (cq_plugin q)), (''capability_id'', JStr (cq_capability q))]
        @ blocked_dict (capability_block (cq_capability q)))\<rparr>"

definition check_or_block :: "capability_request \<Rightarrow> session \<Rightarrow> (phase1_error + unit) \<times> session" where
  "check_or_block q s =
     (case require_capability (cq_user_id q) (cq_plugin q) (effective_skill q) (cq_capability q) None s of
        (Inr _, s') \<Rightarrow> (Inr (), s')
      | (Inl _, s') \<Rightarrow> (Inl (Phase1Blocked (capability_block (cq_capability q))),
                       audit_failure (block_event q) s'))"

section \<open>Capability strings are a grammar\<close>

lemma identifier_no_dot: "is_identifier seg \<Longrightarrow> CHR ''.'' \<notin> set seg"
  by (auto simp: is_identifier_def ident_char_def lower_alpha_def list_all_iff split: list.splits)

lemma v2_grammar_iff:
  "v2_grammar v \<longleftrightarrow>
     (\<exists>s segs. s \<in> {''matter'', ''workspace'', ''global''} \<and> 2 \<le> length segs
        \<and> (\<forall>seg\<in>set segs. is_identifier seg) \<and> v = py_join ''.'' (s # segs))"
proof
  assume g: "v2_grammar v"
  show "\<exists>s segs. s \<in> {''matter'', ''workspace'', ''global''} \<and> 2 \<le> length segs
        \<and> (\<forall>seg\<in>set segs. is_identifier seg) \<and> v = py_join ''.'' (s # segs)"
  proof (cases "split_on CHR ''.'' v")
    case (Cons s segs)
    with g join_split_on [of "CHR ''.''" v] show ?thesis
      by (intro exI [where x = s] exI [where x = segs]) (auto simp: v2_grammar_def list_all_iff)
  qed simp
next
  assume "\<exists>s segs. s \<in> {''matter'', ''workspace'', ''global''} \<and> 2 \<le> length segs
        \<and> (\<forall>seg\<in>set segs. is_identifier seg) \<and> v = py_join ''.'' (s # segs)"
  then obtain s segs where s: "s \<in> {''matter'', ''workspace'', ''global''}" "2 \<le> length segs"
    "\<forall>seg\<in>set segs. is_identifier seg" "v = py_join ''.'' (s # segs)" by blast
  then have "split_on CHR ''.'' v = s # segs"
    by (simp only:) (rule split_on_join, auto dest: identifier_no_dot)
  with s show "v2_grammar v" by (auto simp: v2_grammar_def list_all_iff)
qed

lemma v2_grammar_nonempty: "v2_grammar v \<Longrightarrow> v \<noteq> []"
  by (auto simp: v2_grammar_def)

lemma v2_match_iff:
  "v2_match v \<longleftrightarrow> (\<exists>w nl. v = w @ nl \<and> nl \<in> {[], newline} \<and> v2_grammar w)"
proof -
  have "(\<exists>w nl. v = w @ nl \<and> nl \<in> {[], newline} \<and> v2_grammar w)
      \<longleftrightarrow> v2_grammar v \<or> (\<exists>w. v = w @ [CHR 0x0A] \<and> v2_grammar w)"
    by (auto simp: newline_def)
  also have "\<dots> \<longleftrightarrow> v2_match v"
    by (cases v rule: rev_cases) (auto simp: v2_match_def)
  finally show ?thesis ..
qed

text \<open>A string is a valid capability exactly if it is one of the seven legacy names or a scope followed
  by at least two dotted identifiers, with at most one line break after the last; its scope is
  then the first segment.\<close>

theorem capability_grammar:
  "is_valid_capability_string (JStr v) \<longleftrightarrow>
     v \<in> set CAPABILITY_VOCABULARY \<or>
     (\<exists>s segs nl. s \<in> {''matter'', ''workspace'', ''global''} \<and> 2 \<le> length segs
        \<and> list_all is_identifier segs \<and> nl \<in> {[], newline} \<and> v = py_join ''.'' (s # segs) @ nl)"
proof -
  have "[] \<notin> set CAPABILITY_VOCABULARY" by (simp add: CAPABILITY_VOCABULARY_def)
  moreover have "v2_match [] = False" using v2_grammar_nonempty by (auto simp: v2_match_def)
  ultimately have "is_valid_capability_string (JStr v) \<longleftrightarrow> v \<in> set CAPABILITY_VOCABULARY \<or> v2_match v"
    by (cases v) (auto simp: is_valid_capability_string_def)
  also have "v2_match v \<longleftrightarrow> (\<exists>s segs nl. s \<in> {''matter'', ''workspace'', ''global''} \<and> 2 \<le> length segs
      \<and> list_all is_identifier segs \<and> nl \<in> {[], newline} \<and> v = py_join ''.'' (s # segs) @ nl)"
    unfolding v2_match_iff v2_grammar_iff list_all_iff by blast
  finally show ?thesis .
qed

section \<open>Grants\<close>

lemma insert_grant_granted:
  assumes "insert_grant_on_conflict_do_nothing g d = Inr d'"
  shows "granted_at u p sk c mid d' \<longleftrightarrow> granted_at u p sk c mid d
     \<or> (grant_for u p sk c g \<and> mid = g_scope_id g)"
proof -
  from assms have chk: "grant_check g" by (auto simp: insert_grant_on_conflict_do_nothing_def split: if_splits)
  show ?thesis
  proof (cases "grant_key g \<in> set (map grant_key (grants d))")
    case True
    with assms chk have "d' = d" by (simp add: insert_grant_on_conflict_do_nothing_def)
    moreover from True obtain g' where "g' \<in> set (grants d)" "grant_key g' = grant_key g" by auto
    then have "grant_for u p sk c g \<and> mid = g_scope_id g \<Longrightarrow> granted_at u p sk c mid d"
      using chk by (auto simp: granted_at_def list_ex_iff grant_key_def grant_for_def grant_check_def split: option.splits)
    ultimately show ?thesis by blast
  next
    case False
    with assms chk have "d' = d\<lparr>grants := grants d @ [g]\<rparr>" by (simp add: insert_grant_on_conflict_do_nothing_def)
    with chk show ?thesis by (cases mid) (auto simp: granted_at_def grant_check_def)
  qed
qed

lemma insert_grant_ok: "grants_ok d \<Longrightarrow> insert_grant_on_conflict_do_nothing g d = Inr d' \<Longrightarrow> grants_ok d'"
  by (auto simp: grants_ok_def insert_grant_on_conflict_do_nothing_def split: if_splits)

lemma grant_granted:
  assumes "grant_capability i u p sk c by_id st sid d = Inr d'"
  shows "granted_at u' p' sk' c' mid d' \<longleftrightarrow> granted_at u' p' sk' c' mid d
     \<or> (u' = u \<and> p' = p \<and> sk' = sk \<and> c' = c \<and> mid = (if st = Some ''matter'' then sid else None))"
  using insert_grant_granted [OF assms [unfolded grant_capability_def Let_def], of u' p' sk' c' mid]
  by (auto simp: grant_for_def split: option.splits if_splits)

text \<open>A grant that the table accepts gives its holder the capability at the requested scope, and
  changes no other answer: no other user, plugin, skill, capability, matter or the workspace.\<close>

theorem grant_grants_exactly:
  assumes "grant_capability i u p sk c by_id st sid d = Inr d'"
  shows "granted_at u' p' sk' c' mid d' \<longleftrightarrow> granted_at u' p' sk' c' mid d
     \<or> (u' = u \<and> p' = p \<and> sk' = sk \<and> c' = c \<and> mid = (if st = Some ''matter'' then sid else None))"
  using assms by (rule grant_granted)

lemma grant_grants_exactly_witness:
  "granted_at ''u'' ''p'' ''s'' ''c'' (Some ''m'')
     (case grant_capability ''i'' ''u'' ''p'' ''s'' ''c'' None (Some ''matter'') (Some ''m'') empty_db of
        Inr d \<Rightarrow> d | Inl _ \<Rightarrow> empty_db)"
proof -
  obtain d' where d': "grant_capability ''i'' ''u'' ''p'' ''s'' ''c'' None (Some ''matter'') (Some ''m'') empty_db = Inr d'"
    by (simp add: grant_capability_def insert_grant_on_conflict_do_nothing_def grant_check_def empty_db_def)
  from grant_grants_exactly [OF d', of "''u''" "''p''" "''s''" "''c''" "Some ''m''"] d' show ?thesis by simp
qed

lemma insert_grant_total:
  assumes "grant_check g" and "grants_ok d"
  shows "\<exists>d'. insert_grant_on_conflict_do_nothing g d = Inr d' \<and> grants_ok d'"
proof -
  obtain d' where "insert_grant_on_conflict_do_nothing g d = Inr d'"
    using assms(1) by (cases "grant_key g \<in> set (map grant_key (grants d))")
      (simp_all add: insert_grant_on_conflict_do_nothing_def)
  with insert_grant_ok [OF assms(2)] show ?thesis by blast
qed

lemma grant_workspace_total:
  "grants_ok d \<Longrightarrow> \<exists>d'. grant_capability i u p sk c by_id None None d = Inr d' \<and> grants_ok d'"
  unfolding grant_capability_def Let_def by (rule insert_grant_total) (simp add: grant_check_def)

text \<open>Granting a list of capabilities never fails, keeps the table's constraints, and adds exactly the
  listed capabilities, workspace-wide, to what the holder has.\<close>

theorem grant_many_grants:
  assumes "grants_ok d"
  shows "\<exists>d'. grant_many u p sk by_id caps d = Inr d' \<and> grants_ok d'
     \<and> (\<forall>u' p' sk' c' mid. granted_at u' p' sk' c' mid d' \<longleftrightarrow> granted_at u' p' sk' c' mid d
          \<or> (u' = u \<and> p' = p \<and> sk' = sk \<and> mid = None \<and> c' \<in> snd ` set caps))"
  using assms
proof (induction caps arbitrary: d)
  case (Cons x caps)
  obtain i c where x: "x = (i, c)" by (cases x)
  from grant_workspace_total [OF Cons.prems] obtain d1
    where d1: "grant_capability i u p sk c by_id None None d = Inr d1" "grants_ok d1" by blast
  from Cons.IH [OF d1(2)] obtain d2 where d2: "grant_many u p sk by_id caps d1 = Inr d2" "grants_ok d2"
    and iff: "\<And>u' p' sk' c' mid. granted_at u' p' sk' c' mid d2 \<longleftrightarrow> granted_at u' p' sk' c' mid d1
          \<or> (u' = u \<and> p' = p \<and> sk' = sk \<and> mid = None \<and> c' \<in> snd ` set caps)" by blast
  have "grant_many u p sk by_id (x # caps) d = Inr d2" by (simp add: x d1(1) d2(1))
  moreover have "granted_at u' p' sk' c' mid d2 \<longleftrightarrow> granted_at u' p' sk' c' mid d
      \<or> (u' = u \<and> p' = p \<and> sk' = sk \<and> mid = None \<and> c' \<in> snd ` set (x # caps))" for u' p' sk' c' mid
    unfolding iff grant_granted [OF d1(1)] by (auto simp: x)
  ultimately show ?case using d2(2) by blast
qed simp

lemma grant_many_grants_witness:
  "\<exists>d'. grant_many ''u'' ''p'' ''s'' None [(''i'', ''a''), (''j'', ''b'')] empty_db = Inr d' \<and> grants_ok d'
     \<and> (\<forall>u' p' sk' c' mid. granted_at u' p' sk' c' mid d' \<longleftrightarrow> granted_at u' p' sk' c' mid empty_db
          \<or> (u' = ''u'' \<and> p' = ''p'' \<and> sk' = ''s'' \<and> mid = None \<and> c' \<in> snd ` set [(''i'', ''a''), (''j'', ''b'')]))"
  by (rule grant_many_grants) (simp add: grants_ok_def empty_db_def)

text \<open>Which scopes hold a capability: the table has at most one row for each.\<close>

definition granted_scopes :: "uuid \<Rightarrow> string \<Rightarrow> string \<Rightarrow> string \<Rightarrow> db \<Rightarrow> uuid option set" where
  "granted_scopes u p sk c d = {mid. granted_at u p sk c mid d}"

lemma granted_at_row:
  assumes "grants_ok d"
  shows "granted_at u p sk c mid d \<longleftrightarrow> (\<exists>g\<in>set (grants d). grant_for u p sk c g \<and> g_scope_id g = mid)"
proof -
  have chk: "grant_check g" if "g \<in> set (grants d)" for g
    using assms that by (auto simp: grants_ok_def list_all_iff)
  have "(case mid of None \<Rightarrow> g_scope_type g = ''workspace'' \<and> g_scope_id g = None
      | Some m \<Rightarrow> g_scope_type g = ''matter'' \<and> g_scope_id g = Some m) \<longleftrightarrow> g_scope_id g = mid"
    if "g \<in> set (grants d)" for g
    using chk [OF that] by (cases mid) (auto simp: grant_check_def)
  then show ?thesis by (auto simp: granted_at_def list_ex_iff)
qed

lemma granted_scopes_rows:
  "grants_ok d \<Longrightarrow> granted_scopes u p sk c d = g_scope_id ` {g \<in> set (grants d). grant_for u p sk c g}"
  by (auto simp: granted_scopes_def granted_at_row)

text \<open>Revoking a capability takes it away at one scope only: the scopes that hold it lose exactly one
  element, and nobody else's capabilities change.\<close>

theorem revoke_takes_one_scope:
  assumes "grants_ok d" and "granted_scopes u p sk c d \<noteq> {}"
  shows "\<exists>mid \<in> granted_scopes u p sk c d.
      granted_scopes u p sk c (revoke u p sk c d) = granted_scopes u p sk c d - {mid}
      \<and> grants_ok (revoke u p sk c d)
      \<and> (\<forall>u' p' sk' c'. (u', p', sk', c') \<noteq> (u, p, sk, c) \<longrightarrow>
           granted_scopes u' p' sk' c' (revoke u p sk c d) = granted_scopes u' p' sk' c' d)"
proof -
  from assms(2) have "\<exists>g\<in>set (grants d). grant_for u p sk c g"
    unfolding granted_scopes_rows [OF assms(1)] by blast
  then obtain row where row: "find (grant_for u p sk c) (grants d) = Some row"
    by (meson find_None_iff option.exhaust)
  from find_SomeD [OF row] have mem: "row \<in> set (grants d)" and f: "grant_for u p sk c row" by auto
  have inj: "inj_on grant_key (set (grants d))" "distinct (grants d)"
    using assms(1) by (simp_all add: grants_ok_def distinct_map)
  let ?d = "revoke u p sk c d"
  have rows: "grants ?d = remove1 row (grants d)" by (simp add: revoke_def row)
  have set_rows: "set (grants ?d) = set (grants d) - {row}" using inj(2) by (simp add: rows)
  have chk: "\<And>g. g \<in> set (grants d) \<Longrightarrow> grant_check g" using assms(1) by (auto simp: grants_ok_def list_all_iff)
  have ok: "grants_ok ?d"
    using inj assms(1) by (auto simp: grants_ok_def distinct_map set_rows rows list_all_iff intro: inj_on_subset)
  let ?G = "{g \<in> set (grants d). grant_for u p sk c g}"
  have "g = h" if "g \<in> ?G" "h \<in> ?G" "g_scope_id g = g_scope_id h" for g h
  proof (rule inj_onD [OF inj(1)])
    show "grant_key g = grant_key h"
      using that chk [of g] chk [of h] by (auto simp: grant_key_def grant_for_def grant_check_def)
  qed (use that in simp_all)
  then have "inj_on g_scope_id ?G" by (rule inj_onI)
  then have "g_scope_id ` (?G - {row}) = g_scope_id ` ?G - g_scope_id ` {row}"
    by (rule inj_on_image_set_diff) (use mem f in auto)
  moreover have "{g \<in> set (grants ?d). grant_for u p sk c g} = ?G - {row}" by (auto simp: set_rows)
  ultimately have "granted_scopes u p sk c ?d = granted_scopes u p sk c d - {g_scope_id row}"
    by (simp add: granted_scopes_rows [OF ok] granted_scopes_rows [OF assms(1)])
  moreover have "granted_scopes u' p' sk' c' ?d = granted_scopes u' p' sk' c' d"
    if "(u', p', sk', c') \<noteq> (u, p, sk, c)" for u' p' sk' c'
  proof -
    have "\<not> grant_for u' p' sk' c' row" using that f by (auto simp: grant_for_def)
    then show ?thesis by (auto simp: granted_scopes_rows [OF ok] granted_scopes_rows [OF assms(1)] set_rows)
  qed
  moreover have "g_scope_id row \<in> granted_scopes u p sk c d"
    using f mem by (auto simp: granted_scopes_rows [OF assms(1)])
  ultimately show ?thesis using ok by blast
qed

definition sample_grant :: "uuid \<Rightarrow> uuid option \<Rightarrow> grant" where
  "sample_grant i mid = \<lparr>g_id = i, g_user_id = ''u'', g_plugin = ''p'', g_skill = ''s'', g_capability = ''c'',
     g_granted_by_user_id = None, g_capability_version = None, g_granted_at_module_version = None,
     g_permissions_snapshot = None,
     g_scope_type = (if mid = None then ''workspace'' else ''matter''), g_scope_id = mid\<rparr>"

definition two_matters :: db where
  "two_matters = empty_db\<lparr>grants := [sample_grant ''1'' (Some ''m''), sample_grant ''2'' (Some ''n'')]\<rparr>"

lemma two_matters_ok: "grants_ok two_matters"
  by (simp add: two_matters_def sample_grant_def grants_ok_def grant_key_def grant_check_def)

lemma two_matters_scopes: "granted_scopes ''u'' ''p'' ''s'' ''c'' two_matters = {Some ''m'', Some ''n''}"
  unfolding granted_scopes_rows [OF two_matters_ok] set_filter [symmetric]
  by (simp add: two_matters_def sample_grant_def grant_for_def)

lemma two_matters_granted: "granted_scopes ''u'' ''p'' ''s'' ''c'' two_matters \<noteq> {}"
  by (simp add: two_matters_scopes)

lemma revoke_takes_one_scope_witness:
  "\<exists>mid \<in> granted_scopes ''u'' ''p'' ''s'' ''c'' two_matters.
      granted_scopes ''u'' ''p'' ''s'' ''c'' (revoke ''u'' ''p'' ''s'' ''c'' two_matters)
        = granted_scopes ''u'' ''p'' ''s'' ''c'' two_matters - {mid}"
  using revoke_takes_one_scope [OF two_matters_ok two_matters_granted] by (rule bexE) blast

section \<open>Gates in front of an operation\<close>

text \<open>A list of checks, in order; the first one that fails ends the loop.\<close>

fun check_all :: "('q \<Rightarrow> session \<Rightarrow> ('e + unit) \<times> session) \<Rightarrow> 'q list \<Rightarrow> session \<Rightarrow> ('e + unit) \<times> session" where
  "check_all gate [] s = (Inr (), s)"
| "check_all gate (q # qs) s =
     (case gate q s of (Inl err, s') \<Rightarrow> (Inl err, s') | (Inr _, s') \<Rightarrow> check_all gate qs s')"

locale capability_gate =
  fixes gate :: "'q \<Rightarrow> session \<Rightarrow> (phase1_error + unit) \<times> session"
    and holds :: "'q \<Rightarrow> db \<Rightarrow> bool"
  assumes pass: "holds q (working s) \<Longrightarrow> gate q s = (Inr (), s)"
    and deny: "\<not> holds q (working s) \<Longrightarrow> \<exists>b. fst (gate q s) = Inl (Phase1Blocked b)"
    and deny_audits: "audit_only (working s) (working (snd (gate q s)))"
    and deny_durable: "\<not> holds q (working s) \<Longrightarrow> bound s \<Longrightarrow> durable (snd (gate q s)) = working (snd (gate q s))"
    and gate_clock: "clock (snd (gate q s)) = clock s"
begin

lemma gate_passes_iff: "fst (gate q s) = Inr () \<longleftrightarrow> holds q (working s)"
  using pass [of q s] deny [of q s] by (cases "holds q (working s)") auto

lemma check_all_passes_iff: "fst (check_all gate qs s) = Inr () \<longleftrightarrow> (\<forall>q\<in>set qs. holds q (working s))"
proof (induction qs arbitrary: s)
  case (Cons q qs)
  then show ?case
    using pass [of q s] deny [of q s] by (cases "holds q (working s)"; cases "gate q s") auto
qed simp

lemma check_all_pass: "(\<forall>q\<in>set qs. holds q (working s)) \<Longrightarrow> check_all gate qs s = (Inr (), s)"
  by (induction qs) (simp_all add: pass)

lemma check_all_cases:
  obtains (passed) "\<forall>q\<in>set qs. holds q (working s)" "check_all gate qs s = (Inr (), s)"
  | (blocked) q b where "q \<in> set qs" "\<not> holds q (working s)" "check_all gate qs s = gate q s"
      "fst (gate q s) = Inl (Phase1Blocked b)"
proof -
  have "(\<forall>q\<in>set qs. holds q (working s)) \<or> (\<exists>q\<in>set qs. \<not> holds q (working s)
      \<and> check_all gate qs s = gate q s)"
  proof (induction qs)
    case (Cons q qs)
    show ?case
    proof (cases "holds q (working s)")
      case True
      with Cons pass [OF True] show ?thesis by auto
    next
      case False
      from deny [OF this] have "check_all gate (q # qs) s = gate q s" by (cases "gate q s") auto
      with False show ?thesis by auto
    qed
  qed simp
  then show thesis using check_all_pass deny passed blocked by metis
qed

lemma check_all_audits: "audit_only (working s) (working (snd (check_all gate qs s)))"
  by (rule check_all_cases [of qs s]) (use deny_audits in auto)

end

definition request_granted :: "capability_request \<Rightarrow> db \<Rightarrow> bool" where
  "request_granted q d =
     granted_at (cq_user_id q) (cq_plugin q) (effective_skill q) (cq_capability q) None d"

lemma check_or_block_pass: "request_granted q (working s) \<Longrightarrow> check_or_block q s = (Inr (), s)"
  by (simp add: check_or_block_def require_capability_def request_granted_def)

lemma check_or_block_deny:
  "\<not> request_granted q (working s) \<Longrightarrow> check_or_block q s =
     (Inl (Phase1Blocked (capability_block (cq_capability q))),
      audit_failure (block_event q) (commit (audit_log
        (denied_event (cq_user_id q) (cq_plugin q) (effective_skill q) (cq_capability q) None) s)))"
  by (simp add: check_or_block_def require_capability_def request_granted_def)

lemma check_or_block_audits: "audit_only (working s) (working (snd (check_or_block q s)))"
proof (cases "request_granted q (working s)")
  case False
  let ?s = "commit (audit_log (denied_event (cq_user_id q) (cq_plugin q) (effective_skill q) (cq_capability q) None) s)"
  have "audit_only (working s) (working ?s)" by simp
  also have "audit_only (working ?s) (working (audit_failure (block_event q) ?s))" by (rule audit_only_audit_failure)
  finally show ?thesis by (simp only: check_or_block_deny [OF False] snd_conv)
qed (simp add: check_or_block_pass)

interpretation core_gate: capability_gate check_or_block request_granted
proof
  fix q s
  show "request_granted q (working s) \<Longrightarrow> check_or_block q s = (Inr (), s)" by (rule check_or_block_pass)
  show "\<not> request_granted q (working s) \<Longrightarrow> \<exists>b. fst (check_or_block q s) = Inl (Phase1Blocked b)"
    by (simp add: check_or_block_deny)
  show "audit_only (working s) (working (snd (check_or_block q s)))" by (rule check_or_block_audits)
  show "\<not> request_granted q (working s) \<Longrightarrow> bound s
      \<Longrightarrow> durable (snd (check_or_block q s)) = working (snd (check_or_block q s))"
    by (simp add: check_or_block_deny)
  show "clock (snd (check_or_block q s)) = clock s"
    by (cases "request_granted q (working s)") (simp_all add: check_or_block_pass check_or_block_deny)
qed

text \<open>A failed check leaves two audit rows that no rollback removes, the denial and the block, and it
  commits whatever the caller had pending: after a rollback the database is the caller's working
  state plus these two rows.\<close>

theorem denial_is_durable:
  assumes "\<not> request_granted q (working s)" and "bound s"
  shows "fst (check_or_block q s) = Inl (Phase1Blocked (capability_block (cq_capability q)))
    \<and> (\<exists>e1 e2. ae_action e1 = ''module.capability.denied'' \<and> ae_action e2 = cq_block_action q
        \<and> ae_actor_id e1 = Some (cq_user_id q) \<and> ae_resource_id e2 = cq_resource_id q
        \<and> working (rollback (snd (check_or_block q s))) = add_event e2 (add_event e1 (working s))
        \<and> durable (snd (check_or_block q s)) = add_event e2 (add_event e1 (working s)))"
proof -
  let ?e1 = "stamp s (denied_event (cq_user_id q) (cq_plugin q) (effective_skill q) (cq_capability q) None)"
    and ?e2 = "stamp s (block_event q)"
  have acts: "ae_action ?e1 = ''module.capability.denied'' \<and> ae_action ?e2 = cq_block_action q
      \<and> ae_actor_id ?e1 = Some (cq_user_id q) \<and> ae_resource_id ?e2 = cq_resource_id q"
    by (simp add: denied_event_def block_event_def event0_def)
  have "stamp (commit (audit_log e s)) = stamp s" for e by (simp add: stamp_def fun_eq_iff)
  then have dur: "durable (snd (check_or_block q s)) = add_event ?e2 (add_event ?e1 (working s))"
    using assms by (simp add: check_or_block_deny)
  show ?thesis
  proof
    show "fst (check_or_block q s) = Inl (Phase1Blocked (capability_block (cq_capability q)))"
      by (simp add: check_or_block_deny [OF assms(1)])
  qed (rule exI [where x = ?e1], rule exI [where x = ?e2], simp only: session_ops dur acts simp_thms)
qed

text \<open>The check looks at workspace grants only: granting a capability for a matter never makes it pass,
  also when the caller names that very matter.\<close>

theorem matter_grants_do_not_open_the_gate:
  assumes "grant_capability i u p sk c by_id (Some ''matter'') (Some m) (working s) = Inr d"
  shows "fst (check_or_block q (s\<lparr>working := d\<rparr>)) = Inr () \<longleftrightarrow> fst (check_or_block q s) = Inr ()"
  unfolding core_gate.gate_passes_iff
  using grant_granted [OF assms] by (simp add: request_granted_def)

definition sample_request :: capability_request where
  "sample_request = \<lparr>cq_user_id = ''u'', cq_capability = ''c'', cq_primitive = ''s'',
     cq_block_action = ''s.blocked'', cq_plugin = ''p'', cq_skill = None, cq_actor_id = None,
     cq_matter_id = Some ''m'', cq_resource_type = None, cq_resource_id = None\<rparr>"

lemma sample_not_granted: "\<not> request_granted sample_request empty_db"
  by (simp add: request_granted_def granted_at_def empty_db_def)

lemma denial_is_durable_witness:
  "fst (check_or_block sample_request (open_session empty_db 0)) = Inl (Phase1Blocked (capability_block ''c''))"
proof -
  have "\<not> request_granted sample_request (working (open_session empty_db 0))" "bound (open_session empty_db 0)"
    by (simp_all add: open_session_def sample_not_granted)
  from denial_is_durable [OF this] show ?thesis by (simp add: sample_request_def)
qed

lemma matter_grants_do_not_open_the_gate_witness:
  "fst (check_or_block sample_request ((open_session empty_db 0)
      \<lparr>working := empty_db\<lparr>grants := [sample_grant ''i'' (Some ''m'')]\<rparr>\<rparr>)) \<noteq> Inr ()"
proof -
  have "grant_capability ''i'' ''u'' ''p'' ''s'' ''c'' None (Some ''matter'') (Some ''m'') (working (open_session empty_db 0))
      = Inr (empty_db\<lparr>grants := [sample_grant ''i'' (Some ''m'')]\<rparr>)"
    by (simp add: grant_capability_def insert_grant_on_conflict_do_nothing_def grant_check_def sample_grant_def
        open_session_def empty_db_def)
  from matter_grants_do_not_open_the_gate [OF this, of sample_request]
  show ?thesis unfolding core_gate.gate_passes_iff by (simp add: sample_not_granted open_session_def)
qed

end
