(* ===== verification/StateMachine.thy ===== *)
theory StateMachine
  imports Capabilities
begin

text \<open>
  The state-machine primitive (\<open>contrib/state_machine/registry.py\<close> and \<open>runtime.py\<close>):
  definitions are validated and registered, instances move along their definition's
  transitions, each request passes capability checks and gates, and each leaves a row in the
  transition history. A gate handler is a function from the session to its outcome.
\<close>

section \<open>Definitions\<close>

datatype definition_error =
    StatesNotAList | StateNotAString | DuplicateStates | BadInitialState json
  | TerminalsNotAList | UnknownTerminal json | TransitionsNotAList | TransitionNotADict nat
  | UnknownFrom nat json | UnknownTo nat json | FromTerminal nat json | BadGates nat
  | BadCapabilities nat | Unhashable

definition hashable :: "json \<Rightarrow> bool" where
  "hashable j = (case j of JList _ \<Rightarrow> False | JObj _ \<Rightarrow> False | _ \<Rightarrow> True)"

text \<open>\<open>x in states_set\<close> for a set of strings.\<close>

definition in_states :: "json \<Rightarrow> string set \<Rightarrow> definition_error + bool" where
  "in_states j S = (if \<not> hashable j then Inl Unhashable
     else Inr (case j of JStr s \<Rightarrow> s \<in> S | _ \<Rightarrow> False))"

definition strings_of :: "json \<Rightarrow> string list option" where
  "strings_of j = (case j of
      JList xs \<Rightarrow> if list_all (\<lambda>x. case x of JStr _ \<Rightarrow> True | _ \<Rightarrow> False) xs then Some (only_strings xs) else None
    | _ \<Rightarrow> None)"

definition the_str :: "json \<Rightarrow> string" where
  "the_str j = (case j of JStr s \<Rightarrow> s | _ \<Rightarrow> [])"

definition is_name :: "json \<Rightarrow> bool" where
  "is_name j = (case j of JStr s \<Rightarrow> s \<noteq> [] | _ \<Rightarrow> False)"

fun validate_terminals :: "string set \<Rightarrow> json list \<Rightarrow> definition_error + string list" where
  "validate_terminals S [] = Inr []"
| "validate_terminals S (t # ts) =
     (case in_states t S of
        Inl err \<Rightarrow> Inl err
      | Inr False \<Rightarrow> Inl (UnknownTerminal t)
      | Inr True \<Rightarrow> (case validate_terminals S ts of Inl err \<Rightarrow> Inl err | Inr rest \<Rightarrow> Inr (the_str t # rest)))"

definition validate_transition ::
  "string set \<Rightarrow> string set \<Rightarrow> nat \<Rightarrow> json \<Rightarrow> definition_error + transition_def" where
  "validate_transition S T idx raw =
     (case raw of
        JObj kvs \<Rightarrow>
          (let from_state = (case map_of kvs ''from'' of None \<Rightarrow> JNull | Some v \<Rightarrow> v);
               to_state = (case map_of kvs ''to'' of None \<Rightarrow> JNull | Some v \<Rightarrow> v);
               gates = (case map_of kvs ''gates'' of None \<Rightarrow> JList [] | Some v \<Rightarrow> v);
               caps = (case map_of kvs ''required_capabilities'' of None \<Rightarrow> JList [] | Some v \<Rightarrow> v)
           in case in_states from_state S of Inl err \<Rightarrow> Inl err | Inr False \<Rightarrow> Inl (UnknownFrom idx from_state)
            | Inr True \<Rightarrow>
              (case in_states to_state S of Inl err \<Rightarrow> Inl err | Inr False \<Rightarrow> Inl (UnknownTo idx to_state)
               | Inr True \<Rightarrow>
                 if the_str from_state \<in> T then Inl (FromTerminal idx from_state)
                 else case strings_of gates of None \<Rightarrow> Inl (BadGates idx)
                  | Some gs \<Rightarrow> (case strings_of caps of None \<Rightarrow> Inl (BadCapabilities idx)
                     | Some cs \<Rightarrow> Inr \<lparr>td_from = the_str from_state, td_to = the_str to_state,
                                     td_gates = gs, td_required_capabilities = cs\<rparr>)))
      | _ \<Rightarrow> Inl (TransitionNotADict idx))"

fun validate_transitions ::
  "string set \<Rightarrow> string set \<Rightarrow> nat \<Rightarrow> json list \<Rightarrow> definition_error + transition_def list" where
  "validate_transitions S T idx [] = Inr []"
| "validate_transitions S T idx (raw # raws) =
     (case validate_transition S T idx raw of
        Inl err \<Rightarrow> Inl err
      | Inr t \<Rightarrow> (case validate_transitions S T (Suc idx) raws of
                  Inl err \<Rightarrow> Inl err | Inr ts \<Rightarrow> Inr (t # ts)))"

text \<open>The validated parts of a definition: states, initial state, terminal states, transitions.\<close>

definition validate_definition ::
  "json \<Rightarrow> json \<Rightarrow> json \<Rightarrow> json
    \<Rightarrow> definition_error + (string list \<times> string \<times> string list \<times> transition_def list)" where
  "validate_definition states initial terminals transitions =
     (case states of
        JList xs \<Rightarrow>
          if xs = [] then Inl StatesNotAList
          else if \<not> list_all is_name xs then Inl StateNotAString
          else (let ss = only_strings xs; S = set ss in
            if card S \<noteq> length ss then Inl DuplicateStates
            else if \<not> (case initial of JStr s \<Rightarrow> s \<in> S | _ \<Rightarrow> False) then Inl (BadInitialState initial)
            else case terminals of
               JList ts \<Rightarrow>
                 (case validate_terminals S ts of Inl err \<Rightarrow> Inl err
                  | Inr T \<Rightarrow> (case transitions of
                       JList trs \<Rightarrow> (case validate_transitions S (set T) 0 trs of Inl err \<Rightarrow> Inl err
                          | Inr norm \<Rightarrow> Inr (ss, the_str initial, T, norm))
                     | _ \<Rightarrow> Inl TransitionsNotAList))
             | _ \<Rightarrow> Inl TerminalsNotAList)
      | _ \<Rightarrow> Inl StatesNotAList)"

definition same_triple :: "string \<Rightarrow> string \<Rightarrow> string \<Rightarrow> sm_definition \<Rightarrow> bool" where
  "same_triple module_id key version d \<longleftrightarrow>
     sd_module_id d = module_id \<and> sd_definition_key d = key \<and> sd_version d = version"

text \<open>\<open>terminal_states or []\<close> and \<open>transitions or []\<close> replace any falsy argument.\<close>

definition or_empty_list :: "json \<Rightarrow> json" where
  "or_empty_list j = (if py_truthy j then j else JList [])"

definition register_definition ::
  "uuid \<Rightarrow> string \<Rightarrow> string \<Rightarrow> string \<Rightarrow> json \<Rightarrow> json \<Rightarrow> json \<Rightarrow> json \<Rightarrow> session
    \<Rightarrow> (definition_error + sm_definition) \<times> session" where
  "register_definition new_id module_id key version states initial terminals transitions s =
     (case validate_definition states initial (or_empty_list terminals) (or_empty_list transitions) of
        Inl err \<Rightarrow> (Inl err, s)
      | Inr (ss, i, T, norm) \<Rightarrow>
          (case find (same_triple module_id key version) (sm_definitions (working s)) of
             Some existing \<Rightarrow> (Inr existing, s)
           | None \<Rightarrow>
               (let d = \<lparr>sd_id = new_id, sd_module_id = module_id, sd_definition_key = key,
                      sd_version = version, sd_states = ss, sd_initial_state = i,
                      sd_terminal_states = T, sd_transitions = norm\<rparr>
                in (Inr d, on_working (\<lambda>w. w\<lparr>sm_definitions := sm_definitions w @ [d]\<rparr>) s))))"

datatype load_error = DefinitionNotFoundError string | LoadValueError

definition load_definition ::
  "uuid option \<Rightarrow> string option \<Rightarrow> string option \<Rightarrow> string option \<Rightarrow> db \<Rightarrow> load_error + sm_definition" where
  "load_definition did module_id key version d =
     (case did of
        Some i \<Rightarrow> (case find (\<lambda>r. sd_id r = i) (sm_definitions d) of
            None \<Rightarrow> Inl (DefinitionNotFoundError (''definition id='' @ i @ '' not found''))
          | Some r \<Rightarrow> Inr r)
      | None \<Rightarrow>
          (case (module_id, key, version) of
             (Some m, Some k, Some v) \<Rightarrow>
               if m = [] \<or> k = [] \<or> v = [] then Inl LoadValueError
               else (case find (same_triple m k v) (sm_definitions d) of
                       None \<Rightarrow> Inl (DefinitionNotFoundError
                         (''definition '' @ m @ ''/'' @ k @ ''@'' @ v @ '' not found''))
                     | Some r \<Rightarrow> Inr r)
           | _ \<Rightarrow> Inl LoadValueError))"

text \<open>The transition out of one state into another, if the definition declares it.\<close>

definition find_transition :: "sm_definition \<Rightarrow> string \<Rightarrow> string \<Rightarrow> transition_def option" where
  "find_transition d from_state to_state =
     find (\<lambda>t. td_from t = from_state \<and> td_to t = to_state) (sd_transitions d)"

definition available_transitions :: "sm_definition \<Rightarrow> string \<Rightarrow> transition_def list" where
  "available_transitions d current = filter (\<lambda>t. td_from t = current) (sd_transitions d)"

section \<open>Gate handlers\<close>

record request_context =
  rc_actor_id :: "uuid option"
  rc_user_id :: "uuid option"
  rc_module_id :: "string option"
  rc_reason :: "string option"
  rc_extra_metadata :: json

datatype gate_outcome = GateReturns json | GateBlocks blocked_payload | GateRaises string

type_synonym gate_handler =
  "sm_instance \<Rightarrow> transition_def \<Rightarrow> request_context \<Rightarrow> session \<Rightarrow> gate_outcome \<times> session"

type_synonym gate_registry = "string \<rightharpoonup> gate_handler"

definition register_gate :: "string \<Rightarrow> gate_handler \<Rightarrow> gate_registry \<Rightarrow> gate_registry" where
  "register_gate gate_id handler reg = reg(gate_id \<mapsto> handler)"

definition unregister_gate :: "string \<Rightarrow> gate_registry \<Rightarrow> gate_registry" where
  "unregister_gate gate_id reg = reg(gate_id := None)"

definition noop_gate :: gate_handler where
  "noop_gate inst td ctx s = (GateReturns (JObj [(''gate'', JStr ''noop''), (''allowed'', JBool True)]), s)"

text \<open>The registry right after the module is imported.\<close>

definition builtin_gates :: gate_registry where
  "builtin_gates = register_gate ''noop'' noop_gate Map.empty"

section \<open>Instances\<close>

definition create_instance ::
  "uuid \<Rightarrow> uuid option \<Rightarrow> string option \<Rightarrow> string option \<Rightarrow> string option \<Rightarrow> string \<Rightarrow> string \<Rightarrow> uuid option
    \<Rightarrow> session \<Rightarrow> (load_error + sm_instance) \<times> session" where
  "create_instance new_id did module_id key version owner_scope owner_id actor s =
     (case load_definition did module_id key version (working s) of
        Inl err \<Rightarrow> (Inl err, s)
      | Inr d \<Rightarrow>
          (let inst = \<lparr>si_id = new_id, si_definition_id = sd_id d, si_definition_version = sd_version d,
                 si_owner_scope = owner_scope, si_owner_id = owner_id,
                 si_current_state = sd_initial_state d, si_updated_at = clock s\<rparr>;
               s1 = on_working (\<lambda>w. w\<lparr>sm_instances := sm_instances w @ [inst]\<rparr>) s
           in (Inr inst,
               audit_phase1 ''state_machine.instance.created'' ''state_machine'' actor None
                 (Some (sd_module_id d)) None (Some ''state_machine_instance'') (Some new_id)
                 [(''definition_id'', JStr (sd_id d)), (''definition_module_id'', JStr (sd_module_id d)),
                  (''definition_key'', JStr (sd_definition_key d)),
                  (''definition_version'', JStr (sd_version d)), (''owner_scope'', JStr owner_scope),
                  (''owner_id'', JStr owner_id), (''initial_state'', JStr (sd_initial_state d))] None s1)))"

section \<open>Requesting a transition\<close>

record transition_request =
  tq_instance_id :: uuid
  tq_to_state :: string
  tq_user_id :: "uuid option"
  tq_actor_id :: "uuid option"
  tq_module_id :: "string option"
  tq_reason :: "string option"
  tq_extra_metadata :: json

definition request_actor :: "transition_request \<Rightarrow> uuid option" where
  "request_actor q = (case tq_actor_id q of None \<Rightarrow> tq_user_id q | Some a \<Rightarrow> Some a)"

definition metadata_or_empty :: "json \<Rightarrow> json" where
  "metadata_or_empty j = (if py_truthy j then j else JObj [])"

definition reason_payload :: "transition_request \<Rightarrow> (string \<times> json) list" where
  "reason_payload q = (case tq_reason q of None \<Rightarrow> []
     | Some r \<Rightarrow> if r = [] then [] else [(''reason'', JStr r)])"

definition transition_row ::
  "uuid \<Rightarrow> sm_instance \<Rightarrow> transition_request \<Rightarrow> string option \<Rightarrow> json \<Rightarrow> string \<Rightarrow> sm_transition" where
  "transition_row new_id inst q cap gate_state status =
     \<lparr>st_id = new_id, st_instance_id = si_id inst, st_from_state = si_current_state inst,
      st_to_state = tq_to_state q, st_actor_id = request_actor q, st_module_id = tq_module_id q,
      st_capability_id = cap, st_reason = tq_reason q,
      st_extra_metadata = metadata_or_empty (tq_extra_metadata q), st_gate_state = gate_state,
      st_status = status\<rparr>"

definition append_transition :: "sm_transition \<Rightarrow> session \<Rightarrow> session" where
  "append_transition row = on_working (\<lambda>w. w\<lparr>sm_transitions := sm_transitions w @ [row]\<rparr>)"

definition emit_outcome_audit ::
  "string \<Rightarrow> sm_instance \<Rightarrow> sm_transition \<Rightarrow> transition_request \<Rightarrow> string option \<Rightarrow> blocked_payload option
    \<Rightarrow> (string \<times> json) list \<Rightarrow> session \<Rightarrow> session" where
  "emit_outcome_audit action inst row q cap blocked extra_payload =
     audit_phase1 action ''state_machine'' (request_actor q) None (tq_module_id q) cap
       (Some ''state_machine_transition'') (Some (st_id row))
       (dict_update
          [(''instance_id'', JStr (si_id inst)), (''transition_id'', JStr (st_id row)),
           (''from_state'', JStr (st_from_state row)), (''to_state'', JStr (st_to_state row)),
           (''definition_id'', JStr (si_definition_id inst)),
           (''definition_version'', JStr (si_definition_version inst))]
          extra_payload) blocked"

text \<open>The append-then-audit pair of a blocked and of a failed request.\<close>

definition record_blocked ::
  "uuid \<Rightarrow> sm_instance \<Rightarrow> transition_request \<Rightarrow> string option \<Rightarrow> blocked_payload \<Rightarrow> session \<Rightarrow> session" where
  "record_blocked new_id inst q cap b s =
     (let row = transition_row new_id inst q cap (JObj (blocked_dict b)) ''blocked''
      in emit_outcome_audit ''state_machine.transition.blocked'' inst row q cap (Some b) (reason_payload q)
           (append_transition row s))"

definition record_failed ::
  "uuid \<Rightarrow> sm_instance \<Rightarrow> transition_request \<Rightarrow> (string \<times> json) list \<Rightarrow> (string \<times> json) list \<Rightarrow> session \<Rightarrow> session" where
  "record_failed new_id inst q gate_state extra_payload s =
     (let row = transition_row new_id inst q None (JObj gate_state) ''failed''
      in emit_outcome_audit ''state_machine.transition.failed'' inst row q None None extra_payload
           (append_transition row s))"

definition capability_request_for :: "uuid \<Rightarrow> sm_instance \<Rightarrow> transition_request \<Rightarrow> string \<Rightarrow> capability_request" where
  "capability_request_for user inst q cap =
     \<lparr>cq_user_id = user, cq_capability = cap, cq_primitive = ''state_machine'',
      cq_block_action = ''state_machine.transition.blocked'', cq_plugin = ''core'', cq_skill = None,
      cq_actor_id = request_actor q, cq_matter_id = None,
      cq_resource_type = Some ''state_machine_transition'', cq_resource_id = Some (si_id inst)\<rparr>"

fun check_capabilities ::
  "uuid \<Rightarrow> sm_instance \<Rightarrow> transition_request \<Rightarrow> string list \<Rightarrow> session \<Rightarrow> (phase1_error + unit) \<times> session" where
  "check_capabilities new_id inst q [] s = (Inr (), s)"
| "check_capabilities new_id inst q (cap # caps) s =
     (case tq_user_id q of
        None \<Rightarrow> (Inl (Phase1Blocked (capability_block cap)),
                 record_blocked new_id inst q (Some cap) (capability_block cap) s)
      | Some user \<Rightarrow>
          (case check_or_block (capability_request_for user inst q cap) s of
             (Inr _, s1) \<Rightarrow> check_capabilities new_id inst q caps s1
           | (Inl (Phase1Blocked b), s1) \<Rightarrow>
               (Inl (Phase1Blocked b),
                append_transition (transition_row new_id inst q (Some cap) (JObj (blocked_dict b)) ''blocked'') s1)
           | (Inl err, s1) \<Rightarrow> (Inl err, s1)))"

definition gate_block :: "string \<Rightarrow> blocked_payload" where
  "gate_block gate_id = \<lparr>bp_reason = GATE_BLOCKED, bp_denied_capability = None,
     bp_gate_state = Some (JObj [(''gate'', JStr gate_id), (''error'', JStr ''gate_not_registered'')])\<rparr>"

definition gate_context :: "transition_request \<Rightarrow> request_context" where
  "gate_context q = \<lparr>rc_actor_id = request_actor q, rc_user_id = tq_user_id q,
     rc_module_id = tq_module_id q, rc_reason = tq_reason q,
     rc_extra_metadata = metadata_or_empty (tq_extra_metadata q)\<rparr>"

fun run_gates ::
  "gate_registry \<Rightarrow> uuid \<Rightarrow> sm_instance \<Rightarrow> transition_def \<Rightarrow> transition_request \<Rightarrow> string list
    \<Rightarrow> (string \<times> json) list \<Rightarrow> session \<Rightarrow> (phase1_error + (string \<times> json) list) \<times> session" where
  "run_gates reg new_id inst td q [] acc s = (Inr acc, s)"
| "run_gates reg new_id inst td q (gate_id # gate_ids) acc s =
     (case reg gate_id of
        None \<Rightarrow> (Inl (Phase1Blocked (gate_block gate_id)),
                 record_blocked new_id inst q None (gate_block gate_id) s)
      | Some handler \<Rightarrow>
          (case handler inst td (gate_context q) s of
             (GateReturns r, s1) \<Rightarrow>
               run_gates reg new_id inst td q gate_ids (dict_set gate_id (metadata_or_empty r) acc) s1
           | (GateBlocks b, s1) \<Rightarrow> (Inl (Phase1Blocked b), record_blocked new_id inst q None b s1)
           | (GateRaises msg, s1) \<Rightarrow>
               (Inl (Phase1Failed (''gate '' @ py_repr (JStr gate_id) @ '' handler raised: '' @ msg)),
                record_failed new_id inst q
                  [(''error'', JStr ''gate_handler_failed''), (''gate'', JStr gate_id), (''detail'', JStr msg)]
                  [(''error'', JStr ''gate_handler_failed''), (''gate'', JStr gate_id)] s1)))"

definition move_instance :: "sm_instance \<Rightarrow> string \<Rightarrow> session \<Rightarrow> session" where
  "move_instance inst to_state s =
     on_working (\<lambda>w. w\<lparr>sm_instances := update_where (\<lambda>i. si_id i = si_id inst)
       (\<lambda>i. i\<lparr>si_current_state := to_state, si_updated_at := clock s\<rparr>) (sm_instances w)\<rparr>) s"

definition complete_transition ::
  "uuid \<Rightarrow> sm_instance \<Rightarrow> transition_request \<Rightarrow> (string \<times> json) list \<Rightarrow> session
    \<Rightarrow> (sm_transition \<times> sm_instance) \<times> session" where
  "complete_transition new_id inst q gate_state s =
     (let row = transition_row new_id inst q None (JObj gate_state) ''completed'';
          moved = inst\<lparr>si_current_state := tq_to_state q, si_updated_at := clock s\<rparr>
      in ((row, moved),
          emit_outcome_audit ''state_machine.transition.completed'' moved row q None None (reason_payload q)
            (move_instance inst (tq_to_state q) (append_transition row s))))"

definition invalid_transition_block :: "sm_instance \<Rightarrow> string \<Rightarrow> uuid \<Rightarrow> blocked_payload" where
  "invalid_transition_block inst to_state did =
     \<lparr>bp_reason = INVALID_TRANSITION, bp_denied_capability = None,
      bp_gate_state = Some (JObj [(''from_state'', JStr (si_current_state inst)),
        (''to_state'', JStr to_state), (''definition_id'', JStr did)])\<rparr>"

datatype transition_error = InstanceNotFoundError uuid | Substrate phase1_error | BadLoad

definition request_transition ::
  "gate_registry \<Rightarrow> uuid \<Rightarrow> transition_request \<Rightarrow> session
    \<Rightarrow> (transition_error + (sm_transition \<times> sm_instance)) \<times> session" where
  "request_transition reg new_id q s =
     (case find (\<lambda>i. si_id i = tq_instance_id q) (sm_instances (working s)) of
        None \<Rightarrow> (Inl (InstanceNotFoundError (tq_instance_id q)), s)
      | Some inst \<Rightarrow>
          (case load_definition (Some (si_definition_id inst)) None None None (working s) of
             Inl (DefinitionNotFoundError detail) \<Rightarrow>
               (Inl (Substrate (Phase1Failed detail)),
                record_failed new_id inst q
                  [(''error'', JStr ''definition_not_found''), (''detail'', JStr detail)]
                  [(''error'', JStr ''definition_not_found'')] s)
           | Inl LoadValueError \<Rightarrow> (Inl BadLoad, s)
           | Inr d \<Rightarrow>
               (case find_transition d (si_current_state inst) (tq_to_state q) of
                  None \<Rightarrow>
                    (let b = invalid_transition_block inst (tq_to_state q) (sd_id d)
                     in (Inl (Substrate (Phase1Blocked b)), record_blocked new_id inst q None b s))
                | Some td \<Rightarrow>
                    (case check_capabilities new_id inst q (td_required_capabilities td) s of
                       (Inl err, s1) \<Rightarrow> (Inl (Substrate err), s1)
                     | (Inr _, s1) \<Rightarrow>
                         (case run_gates reg new_id inst td q (td_gates td) [] s1 of
                            (Inl err, s2) \<Rightarrow> (Inl (Substrate err), s2)
                          | (Inr gate_state, s2) \<Rightarrow>
                              (case complete_transition new_id inst q gate_state s2 of
                                 (r, s3) \<Rightarrow> (Inr r, s3)))))))"

section \<open>What a request does to the tables\<close>

definition sm_same :: "db \<Rightarrow> db \<Rightarrow> bool" where
  "sm_same d d' \<longleftrightarrow> sm_definitions d' = sm_definitions d \<and> sm_instances d' = sm_instances d
     \<and> sm_transitions d' = sm_transitions d"

definition row_added :: "sm_transition \<Rightarrow> db \<Rightarrow> db \<Rightarrow> bool" where
  "row_added row d d' \<longleftrightarrow> sm_definitions d' = sm_definitions d \<and> sm_instances d' = sm_instances d
     \<and> sm_transitions d' = sm_transitions d @ [row]"

lemma sm_same_refl [simp]: "sm_same d d"
  by (simp add: sm_same_def)

lemma sm_same_trans: "sm_same d d' \<Longrightarrow> sm_same d' d'' \<Longrightarrow> sm_same d d''"
  by (simp add: sm_same_def)

lemma sm_same_row_added: "sm_same d d' \<Longrightarrow> row_added r d' d'' \<Longrightarrow> row_added r d d''"
  by (simp add: sm_same_def row_added_def)

lemma audit_only_sm_same: "audit_only d d' \<Longrightarrow> sm_same d d'"
  by (simp add: sm_same_def audit_only_frame)

lemma append_transition_row [simp]: "row_added row (working s) (working (append_transition row s))"
  by (simp add: row_added_def append_transition_def)

lemma audit_phase1_same: "sm_same (working s) (working (audit_phase1 a p ac m mi c rt ri pl b s))"
  by (simp add: audit_phase1_def sm_same_def)

lemma row_added_audit:
  "row_added row d (working s) \<Longrightarrow> row_added row d (working (emit_outcome_audit a inst r q c b x s))"
  by (simp add: emit_outcome_audit_def audit_phase1_def row_added_def)

lemma transition_row_simps [simp]:
  "st_instance_id (transition_row i inst q c g st) = si_id inst" "st_status (transition_row i inst q c g st) = st"
  "st_from_state (transition_row i inst q c g st) = si_current_state inst"
  "st_to_state (transition_row i inst q c g st) = tq_to_state q" "st_id (transition_row i inst q c g st) = i"
  by (simp_all add: transition_row_def)

definition rejection :: "sm_instance \<Rightarrow> transition_request \<Rightarrow> sm_transition \<Rightarrow> bool" where
  "rejection inst q row \<longleftrightarrow> st_instance_id row = si_id inst \<and> st_from_state row = si_current_state inst
     \<and> st_to_state row = tq_to_state q \<and> st_status row \<in> {''blocked'', ''failed''}"

lemma record_blocked_row:
  "\<exists>row. rejection inst q row \<and> row_added row (working s) (working (record_blocked i inst q c b s))"
  unfolding record_blocked_def Let_def
  by (rule exI, rule conjI [rotated], rule row_added_audit, rule append_transition_row) (simp add: rejection_def)

lemma record_failed_row:
  "\<exists>row. rejection inst q row \<and> row_added row (working s) (working (record_failed i inst q g x s))"
  unfolding record_failed_def Let_def
  by (rule exI, rule conjI [rotated], rule row_added_audit, rule append_transition_row) (simp add: rejection_def)

definition find_instance :: "uuid \<Rightarrow> db \<Rightarrow> sm_instance option" where
  "find_instance i d = find (\<lambda>x. si_id x = i) (sm_instances d)"

definition capabilities_held :: "sm_instance \<Rightarrow> transition_request \<Rightarrow> string list \<Rightarrow> db \<Rightarrow> bool" where
  "capabilities_held inst q caps d \<longleftrightarrow>
     (\<forall>cap\<in>set caps. \<exists>user. tq_user_id q = Some user \<and> request_granted (capability_request_for user inst q cap) d)"

lemma check_capabilities_cases:
  obtains (held) "capabilities_held inst q caps (working s)" "check_capabilities i inst q caps s = (Inr (), s)"
  | (denied) b row where "\<not> capabilities_held inst q caps (working s)"
      "fst (check_capabilities i inst q caps s) = Inl (Phase1Blocked b)" "rejection inst q row"
      "row_added row (working s) (working (snd (check_capabilities i inst q caps s)))"
proof -
  have "capabilities_held inst q caps (working s) \<and> check_capabilities i inst q caps s = (Inr (), s)
    \<or> (\<exists>b row. \<not> capabilities_held inst q caps (working s)
        \<and> fst (check_capabilities i inst q caps s) = Inl (Phase1Blocked b) \<and> rejection inst q row
        \<and> row_added row (working s) (working (snd (check_capabilities i inst q caps s))))"
  proof (induction caps)
    case (Cons cap caps)
    show ?case
    proof (cases "tq_user_id q")
      case None
      with record_blocked_row [of inst q s i "Some cap" "capability_block cap"] show ?thesis
        by (auto simp: capabilities_held_def)
    next
      case (Some user)
      let ?r = "capability_request_for user inst q cap"
      show ?thesis
      proof (cases "request_granted ?r (working s)")
        case True
        with Cons Some show ?thesis by (auto simp: core_gate.pass capabilities_held_def)
      next
        case False
        let ?s = "snd (check_or_block ?r s)"
        let ?row = "transition_row i inst q (Some cap) (JObj (blocked_dict (capability_block cap))) ''blocked''"
        have "cq_capability ?r = cap" by (simp add: capability_request_for_def)
        then have "check_capabilities i inst q (cap # caps) s
            = (Inl (Phase1Blocked (capability_block cap)), append_transition ?row ?s)"
          by (simp add: Some check_or_block_deny [OF False])
        moreover have "row_added ?row (working s) (working (append_transition ?row ?s))"
          by (rule sm_same_row_added [OF audit_only_sm_same [OF check_or_block_audits] append_transition_row])
        moreover have "\<not> capabilities_held inst q (cap # caps) (working s)"
          using False Some by (simp add: capabilities_held_def)
        moreover have "rejection inst q ?row" by (simp add: rejection_def)
        ultimately show ?thesis by (metis fst_conv snd_conv)
      qed
    qed
  qed (simp add: capabilities_held_def)
  then show thesis using held denied by blast
qed

text \<open>The contract of gate handlers: they leave the state machine's own tables alone.\<close>

locale gate_handlers =
  fixes reg :: gate_registry
  assumes handler_frame: "reg g = Some h \<Longrightarrow> sm_same (working s) (working (snd (h inst td ctx s)))"
begin

lemma run_gates_cases:
  obtains (passed) acc' where "fst (run_gates reg i inst td q gs acc s) = Inr acc'"
      "\<forall>g\<in>set gs. reg g \<noteq> None"
      "sm_same (working s) (working (snd (run_gates reg i inst td q gs acc s)))"
  | (stopped) err row where "fst (run_gates reg i inst td q gs acc s) = Inl err" "rejection inst q row"
      "row_added row (working s) (working (snd (run_gates reg i inst td q gs acc s)))"
proof -
  have "(\<exists>acc'. fst (run_gates reg i inst td q gs acc s) = Inr acc' \<and> (\<forall>g\<in>set gs. reg g \<noteq> None)
      \<and> sm_same (working s) (working (snd (run_gates reg i inst td q gs acc s))))
    \<or> (\<exists>err row. fst (run_gates reg i inst td q gs acc s) = Inl err \<and> rejection inst q row
      \<and> row_added row (working s) (working (snd (run_gates reg i inst td q gs acc s))))"
  proof (induction gs arbitrary: acc s)
    case (Cons g gs)
    show ?case
    proof (cases "reg g")
      case None
      with record_blocked_row [of inst q s i None "gate_block g"] show ?thesis by auto
    next
      case (Some h)
      obtain out s1 where h: "h inst td (gate_context q) s = (out, s1)" by (cases "h inst td (gate_context q) s")
      from handler_frame [OF Some, of s inst td "gate_context q"] h have same: "sm_same (working s) (working s1)" by simp
      note lift = sm_same_row_added [OF same]
      show ?thesis
      proof (cases out)
        case (GateReturns r)
        with Some h have eq: "run_gates reg i inst td q (g # gs) acc s
            = run_gates reg i inst td q gs (dict_set g (metadata_or_empty r) acc) s1" by simp
        show ?thesis
          using Cons.IH [of "dict_set g (metadata_or_empty r) acc" s1] Some lift sm_same_trans [OF same]
          unfolding eq by auto
      next
        case (GateBlocks b)
        with Some h record_blocked_row [of inst q s1 i None b] lift show ?thesis by auto
      next
        case (GateRaises msg)
        with Some h record_failed_row [of inst q s1 i] lift show ?thesis by fastforce
      qed
    qed
  qed simp
  then show thesis using passed stopped by blast
qed

text \<open>The three outcomes of a request.\<close>

lemma request_transition_cases:
  obtains (unknown) "find_instance (tq_instance_id q) (working s) = None"
      "request_transition reg i q s = (Inl (InstanceNotFoundError (tq_instance_id q)), s)"
  | (rejected) inst row err where "find_instance (tq_instance_id q) (working s) = Some inst"
      "fst (request_transition reg i q s) = Inl (Substrate err)" "rejection inst q row"
      "row_added row (working s) (working (snd (request_transition reg i q s)))"
  | (completed) inst d td row where "find_instance (tq_instance_id q) (working s) = Some inst"
      "find (\<lambda>r. sd_id r = si_definition_id inst) (sm_definitions (working s)) = Some d"
      "find_transition d (si_current_state inst) (tq_to_state q) = Some td"
      "capabilities_held inst q (td_required_capabilities td) (working s)" "\<forall>g\<in>set (td_gates td). reg g \<noteq> None"
      "\<exists>moved. fst (request_transition reg i q s) = Inr (row, moved)"
      "st_instance_id row = si_id inst" "st_from_state row = si_current_state inst"
      "st_to_state row = tq_to_state q" "st_status row = ''completed''"
      "sm_definitions (working (snd (request_transition reg i q s))) = sm_definitions (working s)"
      "\<exists>t. sm_instances (working (snd (request_transition reg i q s))) = update_where (\<lambda>x. si_id x = si_id inst)
         (\<lambda>x. x\<lparr>si_current_state := tq_to_state q, si_updated_at := t\<rparr>) (sm_instances (working s))"
      "sm_transitions (working (snd (request_transition reg i q s))) = sm_transitions (working s) @ [row]"
proof (cases "find_instance (tq_instance_id q) (working s)")
  case None
  then show thesis using unknown by (simp add: request_transition_def find_instance_def)
next
  case (Some inst)
  note inst = Some
  show thesis
  proof (cases "find (\<lambda>r. sd_id r = si_definition_id inst) (sm_definitions (working s))")
    case None
    obtain row where "rejection inst q row" "row_added row (working s) (working (snd (request_transition reg i q s)))"
      using record_failed_row [of inst q s i] inst None
      by (auto simp: request_transition_def find_instance_def load_definition_def)
    moreover have "\<exists>err. fst (request_transition reg i q s) = Inl (Substrate err)"
      using inst None by (simp add: request_transition_def find_instance_def load_definition_def)
    ultimately show thesis using rejected inst by blast
  next
    case (Some d)
    note d = Some
    show thesis
    proof (cases "find_transition d (si_current_state inst) (tq_to_state q)")
      case None
      obtain row where "rejection inst q row" "row_added row (working s) (working (snd (request_transition reg i q s)))"
        using record_blocked_row [of inst q s i None "invalid_transition_block inst (tq_to_state q) (sd_id d)"] inst d None
        by (auto simp: request_transition_def find_instance_def load_definition_def Let_def)
      moreover have "\<exists>err. fst (request_transition reg i q s) = Inl (Substrate err)"
        using inst d None by (simp add: request_transition_def find_instance_def load_definition_def Let_def)
      ultimately show thesis using rejected inst by blast
    next
      case (Some td)
      let ?c = "check_capabilities i inst q (td_required_capabilities td) s"
      let ?g = "run_gates reg i inst td q (td_gates td) [] s"
      have eq: "request_transition reg i q s = (case ?c of (Inl err, s1) \<Rightarrow> (Inl (Substrate err), s1)
          | (Inr _, s1) \<Rightarrow> (case run_gates reg i inst td q (td_gates td) [] s1 of
              (Inl err, s2) \<Rightarrow> (Inl (Substrate err), s2)
            | (Inr gate_state, s2) \<Rightarrow> (case complete_transition i inst q gate_state s2 of (r, s3) \<Rightarrow> (Inr r, s3))))"
        using inst d Some by (simp add: request_transition_def find_instance_def load_definition_def)
      show thesis
      proof (cases rule: check_capabilities_cases [of inst q "td_required_capabilities td" s i])
        case (denied b row)
        then show thesis using rejected [OF inst, of "Phase1Blocked b" row] by (cases ?c) (simp add: eq)
      next
        case held
        then have eq: "request_transition reg i q s = (case ?g of
              (Inl err, s2) \<Rightarrow> (Inl (Substrate err), s2)
            | (Inr gate_state, s2) \<Rightarrow> (case complete_transition i inst q gate_state s2 of (r, s3) \<Rightarrow> (Inr r, s3)))"
          by (simp add: eq)
        show thesis
        proof (cases rule: run_gates_cases [of i inst td q "td_gates td" "[]" s])
          case (stopped err row)
          then show thesis using rejected [OF inst, of err row] by (cases ?g) (simp add: eq)
        next
          case (passed gate_state)
          then obtain s2 where g: "?g = (Inr gate_state, s2)" and same: "sm_same (working s) (working s2)"
            by (cases ?g) simp
          let ?row = "transition_row i inst q None (JObj gate_state) ''completed''"
          have run: "\<exists>moved. request_transition reg i q s = (Inr (?row, moved),
              emit_outcome_audit ''state_machine.transition.completed'' moved ?row q None None (reason_payload q)
                (move_instance inst (tq_to_state q) (append_transition ?row s2)))"
            by (simp add: eq g complete_transition_def Let_def)
          then obtain moved where run: "request_transition reg i q s = (Inr (?row, moved),
              emit_outcome_audit ''state_machine.transition.completed'' moved ?row q None None (reason_payload q)
                (move_instance inst (tq_to_state q) (append_transition ?row s2)))" by blast
          show thesis
            by (rule completed [OF inst d Some held(1) passed(2), of ?row])
              (use same in \<open>auto simp: run emit_outcome_audit_def audit_phase1_def move_instance_def
                 append_transition_def sm_same_def\<close>)
        qed
      qed
    qed
  qed
qed

end

interpretation builtin: gate_handlers builtin_gates
  by unfold_locales (auto simp: builtin_gates_def register_gate_def noop_gate_def split: if_splits)

section \<open>Registered definitions are well-formed\<close>

definition definition_ok :: "sm_definition \<Rightarrow> bool" where
  "definition_ok d \<longleftrightarrow> sd_states d \<noteq> [] \<and> distinct (sd_states d) \<and> [] \<notin> set (sd_states d)
     \<and> sd_initial_state d \<in> set (sd_states d) \<and> set (sd_terminal_states d) \<subseteq> set (sd_states d)
     \<and> (\<forall>t\<in>set (sd_transitions d). td_from t \<in> set (sd_states d) \<and> td_to t \<in> set (sd_states d)
          \<and> td_from t \<notin> set (sd_terminal_states d))"

lemma in_states_Inr: "in_states j S = Inr True \<longleftrightarrow> (\<exists>s. j = JStr s \<and> s \<in> S)"
  by (cases j) (auto simp: in_states_def hashable_def)

lemma validate_terminals_ok: "validate_terminals S ts = Inr T \<Longrightarrow> set T \<subseteq> S"
  by (induction ts arbitrary: T)
    (auto simp: in_states_Inr the_str_def split: sum.splits bool.splits)

lemma validate_transition_ok:
  "validate_transition S T idx raw = Inr t \<Longrightarrow> td_from t \<in> S \<and> td_to t \<in> S \<and> td_from t \<notin> T"
  by (auto simp: validate_transition_def Let_def in_states_Inr the_str_def
      split: json.splits sum.splits bool.splits option.splits if_splits)

lemma validate_transitions_ok:
  "validate_transitions S T idx raws = Inr ts \<Longrightarrow> t \<in> set ts
    \<Longrightarrow> td_from t \<in> S \<and> td_to t \<in> S \<and> td_from t \<notin> T"
  by (induction raws arbitrary: idx ts)
    (fastforce dest: validate_transition_ok split: sum.splits)+

lemma only_strings_nonempty:
  assumes "list_all is_name xs"
  shows "length (only_strings xs) = length xs" "[] \<notin> set (only_strings xs)"
  using assms by (induction xs) (auto simp: is_name_def split: json.splits)

lemma validate_definition_ok:
  assumes "validate_definition states initial terminals transitions = Inr (ss, i, T, ts)"
  shows "definition_ok (sm_definition.make did m k v ss i T ts)"
proof -
  from assms obtain xs trs tjs where v: "states = JList xs" "xs \<noteq> []"
    "list_all is_name xs" "ss = only_strings xs" "card (set ss) = length ss"
    "i \<in> set ss" "validate_terminals (set ss) tjs = Inr T" "validate_transitions (set ss) (set T) 0 trs = Inr ts"
    by (auto simp: validate_definition_def Let_def the_str_def split: json.splits if_splits sum.splits)
  from v(2-4) only_strings_nonempty [of xs] have "ss \<noteq> []" "[] \<notin> set ss" by auto
  with v show ?thesis
    using validate_terminals_ok [OF v(7)] validate_transitions_ok [OF v(8)]
    by (auto simp: definition_ok_def sm_definition.defs card_distinct dest: validate_transitions_ok)
qed

section \<open>Instances follow their definition\<close>

text \<open>A walk from one state to another.\<close>

fun walk :: "string \<Rightarrow> (string \<times> string) list \<Rightarrow> string \<Rightarrow> bool" where
  "walk a [] b \<longleftrightarrow> a = b"
| "walk a ((f, t) # ms) b \<longleftrightarrow> a = f \<and> walk t ms b"

lemma walk_append: "walk a ms b \<Longrightarrow> walk a (ms @ [(b, c)]) c"
  by (induction a ms b rule: walk.induct) auto

text \<open>The completed moves of an instance, oldest first.\<close>

definition completed_moves :: "sm_transition list \<Rightarrow> uuid \<Rightarrow> (string \<times> string) list" where
  "completed_moves rows i = map (\<lambda>r. (st_from_state r, st_to_state r))
     (filter (\<lambda>r. st_instance_id r = i \<and> st_status r = ''completed'') rows)"

lemma completed_moves_append:
  "completed_moves (rows @ [r]) i = completed_moves rows i @
     (if st_instance_id r = i \<and> st_status r = ''completed'' then [(st_from_state r, st_to_state r)] else [])"
  by (simp add: completed_moves_def)

definition declared :: "sm_definition \<Rightarrow> string \<times> string \<Rightarrow> bool" where
  "declared d m \<longleftrightarrow> find_transition d (fst m) (snd m) \<noteq> None"

definition instance_ok :: "sm_definition list \<Rightarrow> sm_transition list \<Rightarrow> sm_instance \<Rightarrow> bool" where
  "instance_ok defs rows inst \<longleftrightarrow> (\<exists>d. find (\<lambda>r. sd_id r = si_definition_id inst) defs = Some d
     \<and> walk (sd_initial_state d) (completed_moves rows (si_id inst)) (si_current_state inst)
     \<and> list_all (declared d) (completed_moves rows (si_id inst)))"

definition sm_ok :: "db \<Rightarrow> bool" where
  "sm_ok d \<longleftrightarrow> list_all definition_ok (sm_definitions d) \<and> distinct (map sd_id (sm_definitions d))
     \<and> distinct (map si_id (sm_instances d))
     \<and> (\<forall>r\<in>set (sm_transitions d). st_instance_id r \<in> si_id ` set (sm_instances d))
     \<and> list_all (instance_ok (sm_definitions d) (sm_transitions d)) (sm_instances d)"

text \<open>
  What a process may do: register a definition and create an instance under a new id, request
  transitions, and do other work that does not write the state machine's tables.
\<close>

inductive sm_step :: "gate_registry \<Rightarrow> session \<Rightarrow> session \<Rightarrow> bool" for reg where
  registered: "sm_step reg s (snd (register_definition i m k v states initial terminals transitions s))"
    if "i \<notin> sd_id ` set (sm_definitions (working s))"
| created: "sm_step reg s (snd (create_instance i did m k v sc ow actor s))"
    if "i \<notin> si_id ` set (sm_instances (working s))"
| requested: "sm_step reg s (snd (request_transition reg i q s))"
| other: "sm_same (working s) (working s') \<Longrightarrow> sm_step reg s s'"

inductive_cases sm_step_elim: "sm_step reg s s'"

lemma sm_ok_same: "sm_same d d' \<Longrightarrow> sm_ok d \<Longrightarrow> sm_ok d'"
  by (simp add: sm_same_def sm_ok_def)

lemma find_append_Some: "find P xs = Some x \<Longrightarrow> find P (xs @ ys) = Some x"
  by (induction xs) (auto split: if_splits)

lemma instance_ok_new_definition:
  "instance_ok defs rows inst \<Longrightarrow> instance_ok (defs @ [d]) rows inst"
  by (auto simp: instance_ok_def find_append_Some)

lemma registered_ok:
  assumes "sm_ok (working s)"
    and "i \<notin> sd_id ` set (sm_definitions (working s))"
  shows "sm_ok (working (snd (register_definition i m k v states initial terminals transitions s)))"
proof (cases "register_definition i m k v states initial terminals transitions s")
  case (Pair r s')
  show ?thesis
  proof (cases "working s' = working s")
    case True
    with assms Pair show ?thesis by simp
  next
    case False
    with Pair obtain ss st T ts where v: "validate_definition states initial (or_empty_list terminals) (or_empty_list transitions)
        = Inr (ss, st, T, ts)"
      and s': "sm_definitions (working s') = sm_definitions (working s) @ [sm_definition.make i m k v ss st T ts]"
      "sm_instances (working s') = sm_instances (working s)" "sm_transitions (working s') = sm_transitions (working s)"
      by (auto simp: register_definition_def Let_def sm_definition.defs split: sum.splits option.splits prod.splits)
    have "sd_id (sm_definition.make i m k v ss st T ts) = i" by (simp add: sm_definition.defs)
    with s' assms validate_definition_ok [OF v] Pair show ?thesis
      by (auto simp: sm_ok_def list_all_iff instance_ok_new_definition)
  qed
qed

lemma load_definition_Inr:
  "load_definition did m k v d = Inr r \<Longrightarrow> r \<in> set (sm_definitions d)"
  by (auto simp: load_definition_def dest!: find_SomeD split: option.splits if_splits)

lemma find_id: "r \<in> set rs \<Longrightarrow> distinct (map f rs) \<Longrightarrow> find (\<lambda>x. f x = f r) rs = Some r"
  by (rule find_unique) (auto simp: distinct_map dest: inj_onD)

lemma created_ok:
  assumes "sm_ok (working s)" and fresh: "i \<notin> si_id ` set (sm_instances (working s))"
  shows "sm_ok (working (snd (create_instance i did m k v sc ow actor s)))"
proof (cases "load_definition did m k v (working s)")
  case (Inl err)
  with assms show ?thesis by (simp add: create_instance_def)
next
  case (Inr d)
  let ?w = "working s" and ?w' = "working (snd (create_instance i did m k v sc ow actor s))"
  obtain inst where inst: "si_id inst = i" "si_definition_id inst = sd_id d" "si_current_state inst = sd_initial_state d"
    "sm_instances ?w' = sm_instances ?w @ [inst]" "sm_definitions ?w' = sm_definitions ?w"
    "sm_transitions ?w' = sm_transitions ?w"
    by (rule that [of "\<lparr>si_id = i, si_definition_id = sd_id d, si_definition_version = sd_version d,
        si_owner_scope = sc, si_owner_id = ow, si_current_state = sd_initial_state d, si_updated_at = clock s\<rparr>"])
      (use Inr in \<open>simp_all add: create_instance_def Let_def audit_phase1_def\<close>)
  have none: "completed_moves (sm_transitions ?w) i = []"
    using assms by (force simp: completed_moves_def sm_ok_def filter_empty_conv)
  have "find (\<lambda>r. sd_id r = sd_id d) (sm_definitions ?w) = Some d"
    using find_id [OF load_definition_Inr [OF Inr], of sd_id] assms(1) by (simp add: sm_ok_def)
  then have "instance_ok (sm_definitions ?w) (sm_transitions ?w) inst"
    by (simp add: instance_ok_def inst(1-3) none)
  with assms inst show ?thesis by (auto simp: sm_ok_def)
qed

lemma find_instance_Some: "find_instance i d = Some inst \<Longrightarrow> inst \<in> set (sm_instances d) \<and> si_id inst = i"
  by (auto simp: find_instance_def dest: find_SomeD)

lemma map_update_where_id:
  "(\<And>x. f (g x) = f x) \<Longrightarrow> map f (update_where P g xs) = map f xs"
  by (simp add: update_where_def)

context gate_handlers
begin

lemma requested_ok:
  assumes ok: "sm_ok (working s)"
  shows "sm_ok (working (snd (request_transition reg i q s)))"
proof (cases rule: request_transition_cases [of q s i])
  case unknown
  with ok show ?thesis by simp
next
  case (rejected inst row err)
  then have "completed_moves (sm_transitions (working s) @ [row]) j = completed_moves (sm_transitions (working s)) j" for j
    by (auto simp: completed_moves_append rejection_def)
  with rejected ok show ?thesis
    by (auto simp: sm_ok_def row_added_def rejection_def instance_ok_def list_all_iff dest: find_instance_Some)
next
  case (completed inst d td row)
  let ?w = "working s" and ?w' = "working (snd (request_transition reg i q s))"
  let ?to = "tq_to_state q"
  from completed(12) obtain t where insts: "sm_instances ?w' = update_where (\<lambda>x. si_id x = si_id inst)
      (\<lambda>x. x\<lparr>si_current_state := ?to, si_updated_at := t\<rparr>) (sm_instances ?w)" by blast
  have mem: "inst \<in> set (sm_instances ?w)" using find_instance_Some [OF completed(1)] by simp
  have same: "x = inst" if "x \<in> set (sm_instances ?w)" "si_id x = si_id inst" for x
    using ok that mem by (auto simp: sm_ok_def distinct_map dest: inj_onD)
  have old: "instance_ok (sm_definitions ?w) (sm_transitions ?w) x" if "x \<in> set (sm_instances ?w)" for x
    using ok that by (simp add: sm_ok_def list_all_iff)
  have ids: "map si_id (sm_instances ?w') = map si_id (sm_instances ?w)"
    unfolding insts by (rule map_update_where_id) simp
  have "instance_ok (sm_definitions ?w) (sm_transitions ?w @ [row]) (inst\<lparr>si_current_state := ?to, si_updated_at := t\<rparr>)"
    using old [OF mem] completed(2,3,7-10)
    by (auto simp: instance_ok_def completed_moves_append declared_def intro: walk_append)
  moreover have "instance_ok (sm_definitions ?w) (sm_transitions ?w @ [row]) x"
    if "x \<in> set (sm_instances ?w)" "si_id x \<noteq> si_id inst" for x
    using old [OF that(1)] that(2) completed(7) by (auto simp: instance_ok_def completed_moves_append)
  ultimately have "list_all (instance_ok (sm_definitions ?w) (sm_transitions ?w @ [row])) (sm_instances ?w')"
    unfolding insts list_all_iff set_update_where using same by blast
  moreover have "si_id ` set (sm_instances ?w') = si_id ` set (sm_instances ?w)"
    using arg_cong [OF ids, of set] by simp
  ultimately show ?thesis
    using ok completed(7,11,13) mem ids by (simp add: sm_ok_def)
qed

lemma sm_step_ok:
  assumes "sm_ok (working s)" and "sm_step reg s s'"
  shows "sm_ok (working s')"
  using assms(2,1)
  by cases (auto intro: registered_ok created_ok requested_ok sm_ok_same)

end

sublocale gate_handlers \<subseteq> sm_system: invariant_system "sm_step reg" "\<lambda>s. sm_ok (working s)"
  by unfold_locales (rule sm_step_ok)
section \<open>Properties of the state machine\<close>

context gate_handlers
begin

lemma reachable_ok:
  "(sm_step reg)\<^sup>*\<^sup>* (open_session empty_db t) s \<Longrightarrow> sm_ok (working s)"
  by (erule sm_system.reachable_inv) (simp add: sm_ok_def open_session_def empty_db_def)

lemma completed_authorised:
  assumes "fst (request_transition reg i q s) = Inr (row, moved)"
  shows "\<exists>inst d td. find_instance (tq_instance_id q) (working s) = Some inst
    \<and> d \<in> set (sm_definitions (working s)) \<and> sd_id d = si_definition_id inst
    \<and> td \<in> set (sd_transitions d) \<and> td_from td = si_current_state inst \<and> td_to td = tq_to_state q
    \<and> (\<forall>cap\<in>set (td_required_capabilities td). \<exists>user. tq_user_id q = Some user
         \<and> granted_at user ''core'' ''state_machine'' cap None (working s))
    \<and> (\<forall>g\<in>set (td_gates td). reg g \<noteq> None)"
proof (cases rule: request_transition_cases [of q s i])
  case (completed inst d td row)
  have "granted_at user ''core'' ''state_machine'' cap None (working s)"
    if "request_granted (capability_request_for user inst q cap) (working s)" for user cap
    using that by (simp add: request_granted_def capability_request_for_def effective_skill_def)
  then have caps: "\<forall>cap\<in>set (td_required_capabilities td). \<exists>user. tq_user_id q = Some user
         \<and> granted_at user ''core'' ''state_machine'' cap None (working s)"
    using completed(4) unfolding capabilities_held_def by blast
  from find_SomeD [OF completed(2)] find_SomeD [OF completed(3) [unfolded find_transition_def]] completed(1,5) caps
  show ?thesis by blast
qed (use assms in auto)

lemma request_row:
  assumes "find_instance (tq_instance_id q) (working s) = Some inst"
  shows "\<exists>row. sm_transitions (working (snd (request_transition reg i q s))) = sm_transitions (working s) @ [row]
    \<and> st_instance_id row = si_id inst \<and> st_from_state row = si_current_state inst \<and> st_to_state row = tq_to_state q
    \<and> (if isl (fst (request_transition reg i q s))
       then st_status row \<in> {''blocked'', ''failed''}
         \<and> sm_instances (working (snd (request_transition reg i q s))) = sm_instances (working s)
       else st_status row = ''completed'')"
proof (cases rule: request_transition_cases [of q s i])
  case unknown
  with assms show ?thesis by simp
next
  case (rejected inst' row err)
  with assms show ?thesis by (intro exI [where x = row]) (auto simp: rejection_def row_added_def)
next
  case (completed inst' d td row)
  with assms show ?thesis by (intro exI [where x = row]) auto
qed

end

lemma declared_states:
  "definition_ok d \<Longrightarrow> declared d (f, t) \<Longrightarrow>
     f \<in> set (sd_states d) \<and> t \<in> set (sd_states d) \<and> f \<notin> set (sd_terminal_states d)"
  by (auto simp: declared_def find_transition_def definition_ok_def dest!: find_SomeD)

lemma walk_states:
  "walk a ms b \<Longrightarrow> a \<in> S \<Longrightarrow> (\<And>f t. (f, t) \<in> set ms \<Longrightarrow> t \<in> S) \<Longrightarrow> b \<in> S"
  by (induction a ms b rule: walk.induct) auto

lemma instance_state:
  assumes "sm_ok w" and "inst \<in> set (sm_instances w)"
  obtains d where "d \<in> set (sm_definitions w)" "sd_id d = si_definition_id inst" "definition_ok d"
    "walk (sd_initial_state d) (completed_moves (sm_transitions w) (si_id inst)) (si_current_state inst)"
    "list_all (declared d) (completed_moves (sm_transitions w) (si_id inst))"
    "si_current_state inst \<in> set (sd_states d)"
    "find (\<lambda>r. sd_id r = si_definition_id inst) (sm_definitions w) = Some d"
proof -
  from assms have "instance_ok (sm_definitions w) (sm_transitions w) inst"
    by (simp add: sm_ok_def list_all_iff)
  then obtain d where d: "find (\<lambda>r. sd_id r = si_definition_id inst) (sm_definitions w) = Some d"
    "walk (sd_initial_state d) (completed_moves (sm_transitions w) (si_id inst)) (si_current_state inst)"
    "list_all (declared d) (completed_moves (sm_transitions w) (si_id inst))"
    by (auto simp: instance_ok_def)
  from find_SomeD [OF d(1)] have mem: "d \<in> set (sm_definitions w)" "sd_id d = si_definition_id inst" by auto
  with assms have ok: "definition_ok d" by (simp add: sm_ok_def list_all_iff)
  have "si_current_state inst \<in> set (sd_states d)"
    using d(2) by (rule walk_states) (use ok d(3) declared_states [OF ok] in \<open>auto simp: definition_ok_def list_all_iff\<close>)
  with mem ok d that show thesis by blast
qed

text \<open>C6. Whatever definitions are registered, instances created and transitions requested, in any order
  and with any gates, the completed rows of an instance's history lead, in order and over declared
  transitions only, from its definition's initial state to its current state, which is one of the
  definition's states.\<close>

theorem instances_walk_their_definition:
  assumes "gate_handlers reg" and "(sm_step reg)\<^sup>*\<^sup>* (open_session empty_db t) s"
    and "inst \<in> set (sm_instances (working s))"
  shows "\<exists>d\<in>set (sm_definitions (working s)). sd_id d = si_definition_id inst
    \<and> walk (sd_initial_state d) (completed_moves (sm_transitions (working s)) (si_id inst)) (si_current_state inst)
    \<and> list_all (declared d) (completed_moves (sm_transitions (working s)) (si_id inst))
    \<and> si_current_state inst \<in> set (sd_states d)"
  by (rule instance_state [OF gate_handlers.reachable_ok [OF assms(1,2)] assms(3)]) blast

text \<open>A terminal state is final: in any reachable database, a request to leave it is blocked as an
  invalid transition, whoever asks and wherever to, and the instance stays where it is.\<close>

theorem terminal_states_are_final:
  assumes "gate_handlers reg" and "(sm_step reg)\<^sup>*\<^sup>* (open_session empty_db t) s"
    and "find_instance (tq_instance_id q) (working s) = Some inst"
    and "d \<in> set (sm_definitions (working s))" and "sd_id d = si_definition_id inst"
    and "si_current_state inst \<in> set (sd_terminal_states d)"
  shows "\<exists>b. fst (request_transition reg i q s) = Inl (Substrate (Phase1Blocked b)) \<and> bp_reason b = INVALID_TRANSITION
    \<and> sm_instances (working (snd (request_transition reg i q s))) = sm_instances (working s)"
proof -
  have ok: "sm_ok (working s)" by (rule gate_handlers.reachable_ok [OF assms(1,2)])
  have found: "find (\<lambda>r. sd_id r = si_definition_id inst) (sm_definitions (working s)) = Some d"
    using find_id [OF assms(4), of sd_id] ok assms(5) by (simp add: sm_ok_def)
  have "definition_ok d" using ok assms(4) by (simp add: sm_ok_def list_all_iff)
  then have none: "find_transition d (si_current_state inst) to = None" for to
    using assms(6) declared_states [of d "si_current_state inst" to]
    by (cases "find_transition d (si_current_state inst) to") (auto simp: declared_def)
  let ?b = "invalid_transition_block inst (tq_to_state q) (sd_id d)"
  have eq: "request_transition reg i q s = (Inl (Substrate (Phase1Blocked ?b)), record_blocked i inst q None ?b s)"
    using assms(3) found none by (simp add: request_transition_def find_instance_def load_definition_def Let_def)
  obtain row where "row_added row (working s) (working (record_blocked i inst q None ?b s))"
    using record_blocked_row by blast
  then show ?thesis by (simp add: eq row_added_def invalid_transition_block_def)
qed

text \<open>C7. A transition is completed only if the definition declares it, every capability it requires is
  granted to the requesting user workspace-wide under the core plugin, and every gate it names is
  registered; a request without a user completes only transitions that require no capability.\<close>

theorem completed_transitions_are_authorised:
  assumes "gate_handlers reg" and "fst (request_transition reg i q s) = Inr (row, moved)"
  shows "\<exists>inst d td. find_instance (tq_instance_id q) (working s) = Some inst
    \<and> d \<in> set (sm_definitions (working s)) \<and> sd_id d = si_definition_id inst
    \<and> td \<in> set (sd_transitions d) \<and> td_from td = si_current_state inst \<and> td_to td = tq_to_state q
    \<and> (\<forall>cap\<in>set (td_required_capabilities td). \<exists>user. tq_user_id q = Some user
         \<and> granted_at user ''core'' ''state_machine'' cap None (working s))
    \<and> (\<forall>g\<in>set (td_gates td). reg g \<noteq> None)"
  using assms by (rule gate_handlers.completed_authorised)

text \<open>Every request for an existing instance leaves exactly one row in the history, from the instance's
  state to the requested one; it is a completed one exactly if the request succeeds, and otherwise no
  instance moves.\<close>

theorem every_request_leaves_a_row:
  assumes "gate_handlers reg" and "find_instance (tq_instance_id q) (working s) = Some inst"
  shows "\<exists>row. sm_transitions (working (snd (request_transition reg i q s))) = sm_transitions (working s) @ [row]
    \<and> st_instance_id row = si_id inst \<and> st_from_state row = si_current_state inst \<and> st_to_state row = tq_to_state q
    \<and> (if isl (fst (request_transition reg i q s))
       then st_status row \<in> {''blocked'', ''failed''}
         \<and> sm_instances (working (snd (request_transition reg i q s))) = sm_instances (working s)
       else st_status row = ''completed'')"
  using assms by (rule gate_handlers.request_row)

subsection \<open>A concrete run\<close>

definition sample_states :: json where
  "sample_states = JList [JStr ''draft'', JStr ''done'']"

definition sample_transitions :: json where
  "sample_transitions = JList [JObj [(''from'', JStr ''draft''), (''to'', JStr ''done''),
     (''gates'', JList [JStr ''noop''])]]"

definition sample_move :: transition_request where
  "sample_move = \<lparr>tq_instance_id = ''i'', tq_to_state = ''done'', tq_user_id = Some ''u'', tq_actor_id = None,
     tq_module_id = None, tq_reason = None, tq_extra_metadata = JNull\<rparr>"

definition sample_created :: session where
  "sample_created = snd (create_instance ''i'' (Some ''d'') None None None ''matter'' ''m'' None
     (snd (register_definition ''d'' ''mod'' ''key'' ''1'' sample_states (JStr ''draft'') (JList [JStr ''done''])
        sample_transitions (open_session empty_db 0))))"

definition sample_moved :: session where
  "sample_moved = snd (request_transition builtin_gates ''t'' sample_move sample_created)"

lemmas sample_run = sample_created_def sample_states_def sample_transitions_def register_definition_def
  create_instance_def validate_definition_def is_name_def or_empty_list_def py_truthy_def validate_transition_def
  in_states_def hashable_def the_str_def strings_of_def load_definition_def open_session_def empty_db_def
  audit_phase1_def find_instance_def

lemma sample_created_reachable: "(sm_step builtin_gates)\<^sup>*\<^sup>* (open_session empty_db 0) sample_created"
proof -
  let ?s0 = "open_session empty_db 0"
  let ?s1 = "snd (register_definition ''d'' ''mod'' ''key'' ''1'' sample_states (JStr ''draft'') (JList [JStr ''done''])
        sample_transitions ?s0)"
  have "sm_step builtin_gates ?s0 ?s1"
    by (rule sm_step.registered) (simp add: open_session_def empty_db_def)
  moreover have "sm_step builtin_gates ?s1 sample_created"
    unfolding sample_created_def by (rule sm_step.created) (simp add: sample_run Let_def)
  ultimately show ?thesis by (meson rtranclp.rtrancl_into_rtrancl rtranclp.rtrancl_refl)
qed

lemma sample_moved_reachable: "(sm_step builtin_gates)\<^sup>*\<^sup>* (open_session empty_db 0) sample_moved"
  unfolding sample_moved_def
  by (rule rtranclp.rtrancl_into_rtrancl [OF sample_created_reachable sm_step.requested])

lemma sample_created_tables:
  "sm_definitions (working sample_created) = [\<lparr>sd_id = ''d'', sd_module_id = ''mod'', sd_definition_key = ''key'',
     sd_version = ''1'', sd_states = [''draft'', ''done''], sd_initial_state = ''draft'', sd_terminal_states = [''done''],
     sd_transitions = [\<lparr>td_from = ''draft'', td_to = ''done'', td_gates = [''noop''], td_required_capabilities = []\<rparr>]\<rparr>]"
  "find_instance ''i'' (working sample_created) = Some \<lparr>si_id = ''i'', si_definition_id = ''d'', si_definition_version = ''1'',
     si_owner_scope = ''matter'', si_owner_id = ''m'', si_current_state = ''draft'', si_updated_at = 0\<rparr>"
  "sm_transitions (working sample_created) = []"
  by (simp_all add: sample_run Let_def)

lemma sample_created_instances:
  "sm_instances (working sample_created) = [\<lparr>si_id = ''i'', si_definition_id = ''d'', si_definition_version = ''1'',
     si_owner_scope = ''matter'', si_owner_id = ''m'', si_current_state = ''draft'', si_updated_at = 0\<rparr>]"
  by (simp add: sample_run Let_def)

lemmas sample_request = request_transition_def sample_created_tables sample_created_instances load_definition_def
  find_transition_def builtin_gates_def register_gate_def noop_gate_def complete_transition_def
  transition_row_def append_transition_def move_instance_def emit_outcome_audit_def audit_phase1_def
  sample_move_def Let_def

lemma sample_move_result:
  "\<exists>row moved. fst (request_transition builtin_gates ''t'' sample_move sample_created) = Inr (row, moved)"
  by (simp add: sample_request)

lemma sample_moved_tables:
  "find_instance ''i'' (working sample_moved) = Some (\<lparr>si_id = ''i'', si_definition_id = ''d'', si_definition_version = ''1'',
     si_owner_scope = ''matter'', si_owner_id = ''m'', si_current_state = ''done'', si_updated_at = clock sample_created\<rparr>)"
  "sm_definitions (working sample_moved) = sm_definitions (working sample_created)"
  by (simp_all add: sample_moved_def find_instance_def sample_request)

lemma instances_walk_their_definition_witness:
  "\<exists>d\<in>set (sm_definitions (working sample_moved)). sd_id d = ''d'' \<and>
    walk (sd_initial_state d) (completed_moves (sm_transitions (working sample_moved)) ''i'') ''done''"
  using instances_walk_their_definition [OF builtin.gate_handlers_axioms sample_moved_reachable
      conjunct1 [OF find_instance_Some [OF sample_moved_tables(1)]]] by auto

lemma terminal_states_are_final_witness:
  "\<exists>b. fst (request_transition builtin_gates ''x'' sample_move sample_moved) = Inl (Substrate (Phase1Blocked b))"
proof -
  have "find_instance (tq_instance_id sample_move) (working sample_moved) = find_instance ''i'' (working sample_moved)"
    by (simp add: sample_move_def)
  note found = this [unfolded sample_moved_tables(1)]
  show ?thesis
    using terminal_states_are_final [OF builtin.gate_handlers_axioms sample_moved_reachable found,
        of "sm_definitions (working sample_moved) ! 0" "''x''"]
    by (auto simp: sample_moved_tables(2) sample_created_tables)
qed

lemma completed_transitions_are_authorised_witness:
  "\<exists>inst. find_instance ''i'' (working sample_created) = Some inst"
proof -
  obtain row moved where "fst (request_transition builtin_gates ''t'' sample_move sample_created) = Inr (row, moved)"
    using sample_move_result by blast
  from completed_transitions_are_authorised [OF builtin.gate_handlers_axioms this]
  show ?thesis by (auto simp: sample_move_def)
qed

lemma every_request_leaves_a_row_witness:
  "\<exists>row. sm_transitions (working sample_moved) = [row]"
proof -
  have "find_instance (tq_instance_id sample_move) (working sample_created) = find_instance ''i'' (working sample_created)"
    by (simp add: sample_move_def)
  note found = this [unfolded sample_created_tables(2)]
  from every_request_leaves_a_row [OF builtin.gate_handlers_axioms found, of "''t''"]
  show ?thesis by (auto simp: sample_moved_def sample_created_tables)
qed

end
