(* ===== verification/TrustCeremony.thy ===== *)
theory TrustCeremony
  imports Capabilities
begin

text \<open>
  Installing a module: the publisher registry (\<open>app/core/publishers.py\<close>), manifest signatures
  (\<open>app/core/signing.py\<close>) and the trust ceremony an administrator walks through
  (\<open>app/core/trust_ceremony.py\<close>). A manifest has passed the schema check that precedes the
  ceremony, so its capabilities are objects and its lists are lists. The primitives of the
  cryptography package and of hashing are the fields of a record parameter.
\<close>

section \<open>Publishers\<close>

record publisher_info =
  pi_publisher_id :: string
  pi_display_name :: string
  pi_trust_root :: string
  pi_ed25519_public_key :: "string option"

definition VERIFIED_PUBLISHERS :: "(string \<times> publisher_info) list" where
  "VERIFIED_PUBLISHERS =
     [(''legalise'', \<lparr>pi_publisher_id = ''legalise'', pi_display_name = ''Legalise (first-party)'',
         pi_trust_root = ''github_org:b1rdmania/legalise'', pi_ed25519_public_key = None\<rparr>),
      (''example'', \<lparr>pi_publisher_id = ''example'', pi_display_name = ''Examples (dev/test)'',
         pi_trust_root = ''repo:examples/modules'', pi_ed25519_public_key = None\<rparr>)]"

definition is_verified_publisher :: "json \<Rightarrow> bool" where
  "is_verified_publisher p = (case p of JStr i \<Rightarrow> i \<in> fst ` set VERIFIED_PUBLISHERS | _ \<Rightarrow> False)"

definition publisher_signing_key :: "string \<Rightarrow> string option" where
  "publisher_signing_key i =
     (case map_of VERIFIED_PUBLISHERS i of None \<Rightarrow> None | Some info \<Rightarrow> pi_ed25519_public_key info)"

section \<open>Signatures\<close>

record 'key crypto =
  cy_sha256_hex :: "string \<Rightarrow> string"
  cy_fromhex :: "string \<Rightarrow> string"
  cy_b64decode :: "string \<Rightarrow> string option"
  cy_public_key :: "string \<Rightarrow> 'key option"
  cy_verify :: "'key \<Rightarrow> string \<Rightarrow> string \<Rightarrow> bool"

datatype signature_status = VERIFIED | STRUCTURE_VERIFIED | UNSIGNED | INVALID | UNKNOWN_PUBLISHER

primrec status_value :: "signature_status \<Rightarrow> string" where
  "status_value VERIFIED = ''verified''"
| "status_value STRUCTURE_VERIFIED = ''structure_verified''"
| "status_value UNSIGNED = ''unsigned''"
| "status_value INVALID = ''invalid''"
| "status_value UNKNOWN_PUBLISHER = ''unknown_publisher''"

definition compute_manifest_hash :: "'key crypto \<Rightarrow> json \<Rightarrow> string" where
  "compute_manifest_hash cy manifest = cy_sha256_hex cy (json_dumps True manifest)"

definition unsigned_manifest :: "json \<Rightarrow> json" where
  "unsigned_manifest manifest = (case manifest of
      JObj kvs \<Rightarrow> JObj (filter (\<lambda>(k, v). k \<notin> {''signature'', ''signed_by''}) kvs) | _ \<Rightarrow> manifest)"

definition manifest_signing_digest :: "'key crypto \<Rightarrow> json \<Rightarrow> string" where
  "manifest_signing_digest cy manifest =
     cy_fromhex cy (compute_manifest_hash cy (unsigned_manifest manifest))"

definition verify_ed25519 :: "'key crypto \<Rightarrow> json \<Rightarrow> string \<Rightarrow> string \<Rightarrow> bool" where
  "verify_ed25519 cy manifest signature_b64 public_key_b64 =
     (case cy_b64decode cy public_key_b64 of
        None \<Rightarrow> False
      | Some key_bytes \<Rightarrow>
          (case cy_public_key cy key_bytes of
             None \<Rightarrow> False
           | Some key \<Rightarrow>
               (case cy_b64decode cy signature_b64 of
                  None \<Rightarrow> False
                | Some sig_bytes \<Rightarrow> cy_verify cy key sig_bytes (manifest_signing_digest cy manifest))))"

definition verify_manifest_signature :: "'key crypto \<Rightarrow> json \<Rightarrow> string option \<Rightarrow> signature_status" where
  "verify_manifest_signature cy manifest signature =
     (case jget0 ''publisher'' manifest of
        JStr publisher \<Rightarrow>
          if publisher = [] then INVALID
          else if signature = None \<and> \<not> py_truthy (jget0 ''signature'' manifest) then UNSIGNED
          else
            (let effective = (case signature of Some s \<Rightarrow> if s = [] then jget0 ''signature'' manifest else JStr s
                              | None \<Rightarrow> jget0 ''signature'' manifest);
                 signed_by = jget0 ''signed_by'' manifest
             in case effective of
                  JStr sig \<Rightarrow>
                    if length sig < 16 then INVALID
                    else if \<not> is_verified_publisher (JStr publisher) then UNKNOWN_PUBLISHER
                    else if signed_by \<noteq> JNull \<and> signed_by \<noteq> JStr publisher then INVALID
                    else (case publisher_signing_key publisher of
                            Some key \<Rightarrow> if verify_ed25519 cy manifest sig key then VERIFIED else INVALID
                          | None \<Rightarrow> STRUCTURE_VERIFIED)
                | _ \<Rightarrow> INVALID)
      | _ \<Rightarrow> INVALID)"

section \<open>The permission card\<close>

datatype ceremony_state =
    DISCOVERED | INSPECTED | SIGNATURE_CHECKED | PUBLISHER_CHECKED | PERMISSIONS_REVIEWED
  | GATES_REVIEWED | GRANTED | ENABLED | REJECTED_BY_USER | SIGNATURE_FAILED | PUBLISHER_BLOCKED
  | PERMISSION_DENIED | SANDBOX_PROFILE_MISSING

primrec state_value :: "ceremony_state \<Rightarrow> string" where
  "state_value DISCOVERED = ''discovered''"
| "state_value INSPECTED = ''inspected''"
| "state_value SIGNATURE_CHECKED = ''signature_checked''"
| "state_value PUBLISHER_CHECKED = ''publisher_checked''"
| "state_value PERMISSIONS_REVIEWED = ''permissions_reviewed''"
| "state_value GATES_REVIEWED = ''gates_reviewed''"
| "state_value GRANTED = ''granted''"
| "state_value ENABLED = ''enabled''"
| "state_value REJECTED_BY_USER = ''rejected_by_user''"
| "state_value SIGNATURE_FAILED = ''signature_failed''"
| "state_value PUBLISHER_BLOCKED = ''publisher_blocked''"
| "state_value PERMISSION_DENIED = ''permission_denied''"
| "state_value SANDBOX_PROFILE_MISSING = ''sandbox_profile_missing''"

definition TERMINAL_FAILURES :: "ceremony_state list" where
  "TERMINAL_FAILURES =
     [REJECTED_BY_USER, SIGNATURE_FAILED, PUBLISHER_BLOCKED, PERMISSION_DENIED, SANDBOX_PROFILE_MISSING]"

definition VALID_ACTIONS :: "string list" where
  "VALID_ACTIONS = [''trust'', ''reject'', ''grant'']"

record data_movement =
  dm_sends_document_body :: bool
  dm_sends_document_binary :: bool
  dm_sends_matter_metadata :: bool
  dm_external_destinations :: "string list"
  dm_local_only :: bool

record permission_card =
  pc_module_id :: json
  pc_module_name :: json
  pc_publisher :: json
  pc_publisher_verified :: bool
  pc_signature_status :: string
  pc_visibility :: json
  pc_version :: json
  pc_capabilities :: "json list"
  pc_data_movement_summary :: data_movement
  pc_gates :: "string list"
  pc_advice_tier_max :: string
  pc_audit_events :: "string list"
  pc_dependencies :: "json list"

definition aggregate_data_movement :: "json \<Rightarrow> data_movement" where
  "aggregate_data_movement manifest =
     (let dms = map (jget0 ''data_movement'') (jlist ''capabilities'' manifest);
          dests = sorted_strings (concat (map (jlist ''external_destinations'') dms))
      in \<lparr>dm_sends_document_body = list_ex (\<lambda>d. py_truthy (jget0 ''sends_document_body'' d)) dms,
          dm_sends_document_binary = list_ex (\<lambda>d. py_truthy (jget0 ''sends_document_binary'' d)) dms,
          dm_sends_matter_metadata = list_ex (\<lambda>d. py_truthy (jget0 ''sends_matter_metadata'' d)) dms,
          dm_external_destinations = dests,
          dm_local_only = (list_all (\<lambda>d. jget0 ''local_only'' d \<noteq> JBool False) dms \<and> dests = [])\<rparr>)"

definition aggregate_gates :: "json \<Rightarrow> string list" where
  "aggregate_gates manifest =
     sorted_strings (concat (map (jlist ''gates'') (jlist ''capabilities'' manifest)))"

definition aggregate_audit_events :: "json \<Rightarrow> string list" where
  "aggregate_audit_events manifest =
     sorted_strings (concat (map (jlist ''audit_events'') (jlist ''capabilities'' manifest)))"

text \<open>\<open>order.index\<close>; a tier outside the list is a \<open>ValueError\<close>, the value None here.\<close>

definition tier_order :: "string list" where
  "tier_order = [''factual_extraction'', ''legal_information'', ''draft_advice'',
     ''supervised_legal_advice'', ''approved_final_advice'']"

fun index_of :: "'a \<Rightarrow> 'a list \<Rightarrow> nat option" where
  "index_of x [] = None"
| "index_of x (y # ys) = (if x = y then Some 0 else map_option Suc (index_of x ys))"

fun highest_tier_from :: "string \<Rightarrow> json list \<Rightarrow> string option" where
  "highest_tier_from highest [] = Some highest"
| "highest_tier_from highest (cap # caps) =
     (case jget0 ''advice_tier_max'' cap of
        JStr tier \<Rightarrow>
          (case (index_of tier tier_order, index_of highest tier_order) of
             (Some i, Some j) \<Rightarrow> highest_tier_from (if j < i then tier else highest) caps
           | _ \<Rightarrow> None)
      | _ \<Rightarrow> highest_tier_from highest caps)"

definition card_capability :: "json \<Rightarrow> json" where
  "card_capability cap = JObj
     [(''id'', jget0 ''id'' cap), (''kind'', jget0 ''kind'' cap), (''scope'', jget0 ''scope'' cap),
      (''reads'', JList (jlist ''reads'' cap)), (''writes'', JList (jlist ''writes'' cap)),
      (''model_access'', jget0 ''model_access'' cap), (''external_network'', jget0 ''external_network'' cap),
      (''advice_tier_max'', jget0 ''advice_tier_max'' cap), (''ui_slot'', jget0 ''slot'' (jget0 ''ui'' cap))]"

definition build_permission_card :: "json \<Rightarrow> permission_card option" where
  "build_permission_card manifest =
     map_option (\<lambda>tier.
       \<lparr>pc_module_id = jget_or ''id'' (JStr []) manifest, pc_module_name = jget_or ''name'' (JStr []) manifest,
        pc_publisher = jget_or ''publisher'' (JStr []) manifest,
        pc_publisher_verified = is_verified_publisher (jget_or ''publisher'' (JStr []) manifest),
        pc_signature_status = ''unknown'', pc_visibility = jget_or ''visibility'' (JStr ''community'') manifest,
        pc_version = jget_or ''version'' (JStr []) manifest,
        pc_capabilities = map card_capability (jlist ''capabilities'' manifest),
        pc_data_movement_summary = aggregate_data_movement manifest, pc_gates = aggregate_gates manifest,
        pc_advice_tier_max = tier, pc_audit_events = aggregate_audit_events manifest,
        pc_dependencies = jlist ''requires'' manifest\<rparr>)
       (highest_tier_from ''factual_extraction'' (jlist ''capabilities'' manifest))"

section \<open>The ceremony\<close>

record history_entry =
  he_state :: ceremony_state
  he_action :: string
  he_payload :: "(string \<times> json) list option"

record ceremony =
  cer_id :: uuid
  cer_module_id :: string
  cer_manifest :: json
  cer_state :: ceremony_state
  cer_fast_path :: bool
  cer_permission_card :: permission_card
  cer_actor_user_id :: "uuid option"
  cer_history :: "history_entry list"
  cer_persisted :: bool

type_synonym ceremonies = "uuid \<rightharpoonup> ceremony"

definition emit_state_transition ::
  "string \<Rightarrow> (string \<times> json) list option \<Rightarrow> ceremony \<Rightarrow> session \<Rightarrow> ceremony \<times> session" where
  "emit_state_transition action payload c s =
     (c\<lparr>cer_history := cer_history c @
          [\<lparr>he_state = cer_state c, he_action = action, he_payload = payload\<rparr>]\<rparr>,
      audit_phase1 action ''trust_ceremony'' (cer_actor_user_id c) None (Some (cer_module_id c)) None
        (Some ''install_ceremony'') (Some (cer_id c))
        (dict_update [(''ceremony_id'', JStr (cer_id c)), (''state'', JStr (state_value (cer_state c)))]
           (case payload of None \<Rightarrow> [] | Some p \<Rightarrow> p)) None s)"

datatype ceremony_error = KeyError uuid | InvalidCeremonyTransition | TierValueError

definition start_ceremony ::
  "'key crypto \<Rightarrow> uuid \<Rightarrow> json \<Rightarrow> uuid \<Rightarrow> string option \<Rightarrow> ceremonies \<Rightarrow> session
    \<Rightarrow> (ceremony_error + ceremony) \<times> ceremonies \<times> session" where
  "start_ceremony cy new_id manifest actor signature reg s =
     (case build_permission_card manifest of
        None \<Rightarrow> (Inl TierValueError, reg, s)
      | Some card0 \<Rightarrow>
          (let status = verify_manifest_signature cy manifest signature;
               card = card0\<lparr>pc_signature_status := status_value status\<rparr>;
               fast_path = (status = VERIFIED \<and> pc_publisher_verified card);
               c0 = \<lparr>cer_id = new_id, cer_module_id = (case jget0 ''id'' manifest of JStr i \<Rightarrow> i | _ \<Rightarrow> []),
                 cer_manifest = manifest, cer_state = DISCOVERED, cer_fast_path = fast_path,
                 cer_permission_card = card, cer_actor_user_id = Some actor, cer_history = [],
                 cer_persisted = False\<rparr>;
               (c, s1) = emit_state_transition ''module.discovered''
                 (Some [(''publisher'', pc_publisher card), (''publisher_verified'', JBool (pc_publisher_verified card)),
                        (''signature_status'', JStr (pc_signature_status card)), (''fast_path'', JBool fast_path)]) c0 s
           in (Inr c, reg(new_id \<mapsto> c), s1)))"

definition next_state :: "bool \<Rightarrow> ceremony_state \<Rightarrow> string \<Rightarrow> ceremony_state option" where
  "next_state fast current action =
     (if action = ''grant'' then (if current = GRANTED then Some ENABLED else None)
      else if fast then
        Some (case current of DISCOVERED \<Rightarrow> PUBLISHER_CHECKED | PUBLISHER_CHECKED \<Rightarrow> PERMISSIONS_REVIEWED
              | PERMISSIONS_REVIEWED \<Rightarrow> GRANTED | GRANTED \<Rightarrow> ENABLED | _ \<Rightarrow> current)
      else
        Some (case current of DISCOVERED \<Rightarrow> INSPECTED | INSPECTED \<Rightarrow> SIGNATURE_CHECKED
              | SIGNATURE_CHECKED \<Rightarrow> PUBLISHER_CHECKED | PUBLISHER_CHECKED \<Rightarrow> PERMISSIONS_REVIEWED
              | PERMISSIONS_REVIEWED \<Rightarrow> GATES_REVIEWED | GATES_REVIEWED \<Rightarrow> GRANTED
              | GRANTED \<Rightarrow> ENABLED | _ \<Rightarrow> current))"

definition audit_for_state :: "ceremony_state \<Rightarrow> string" where
  "audit_for_state st = (case st of INSPECTED \<Rightarrow> ''module.manifest.inspected''
     | SIGNATURE_CHECKED \<Rightarrow> ''module.signature.checked'' | PUBLISHER_CHECKED \<Rightarrow> ''module.publisher.checked''
     | PERMISSIONS_REVIEWED \<Rightarrow> ''module.permissions.reviewed'' | GATES_REVIEWED \<Rightarrow> ''module.permissions.reviewed''
     | GRANTED \<Rightarrow> ''module.grant.created'' | ENABLED \<Rightarrow> ''module.enabled'' | _ \<Rightarrow> ''module.state_transition'')"

text \<open>The \<open>actor_user_id\<close> of the request is an argument of the code, which it does not use.\<close>

definition advance_ceremony ::
  "uuid \<Rightarrow> string \<Rightarrow> uuid \<Rightarrow> ceremonies \<Rightarrow> session
    \<Rightarrow> (ceremony_error + ceremony) \<times> ceremonies \<times> session" where
  "advance_ceremony cid action actor reg s =
     (case reg cid of
        None \<Rightarrow> (Inl (KeyError cid), reg, s)
      | Some c \<Rightarrow>
          if action \<notin> set VALID_ACTIONS then (Inl InvalidCeremonyTransition, reg, s)
          else if cer_state c \<in> set TERMINAL_FAILURES \<or> cer_state c = ENABLED then (Inr c, reg, s)
          else if action = ''reject'' then
            (case emit_state_transition ''module.denied'' (Some [(''reason'', JStr ''rejected_by_user'')])
                    (c\<lparr>cer_state := REJECTED_BY_USER\<rparr>) s of
               (c', s1) \<Rightarrow> (Inr c', reg(cid \<mapsto> c'), s1))
          else (case next_state (cer_fast_path c) (cer_state c) action of
                  None \<Rightarrow> (Inl InvalidCeremonyTransition, reg, s)
                | Some st \<Rightarrow>
                    (case emit_state_transition (audit_for_state st) None (c\<lparr>cer_state := st\<rparr>) s of
                       (c', s1) \<Rightarrow> (Inr c', reg(cid \<mapsto> c'), s1))))"

section \<open>Which path a ceremony takes\<close>

text \<open>No publisher of the registry has a key, so no signature is ever cryptographically verified.\<close>

lemma no_signing_key: "publisher_signing_key p = None"
  by (auto simp: publisher_signing_key_def VERIFIED_PUBLISHERS_def)

lemma never_verified: "verify_manifest_signature cy manifest sig \<noteq> VERIFIED"
  by (auto simp: verify_manifest_signature_def Let_def no_signing_key split: json.splits option.splits)

definition review_path :: "bool \<Rightarrow> ceremony_state list" where
  "review_path fast = (if fast
     then [DISCOVERED, PUBLISHER_CHECKED, PERMISSIONS_REVIEWED, GRANTED, ENABLED]
     else [DISCOVERED, INSPECTED, SIGNATURE_CHECKED, PUBLISHER_CHECKED, PERMISSIONS_REVIEWED,
           GATES_REVIEWED, GRANTED, ENABLED])"

lemma next_on_path:
  assumes "Suc i < length (review_path fast)"
  shows "next_state fast (review_path fast ! i) ''trust'' = Some (review_path fast ! Suc i)"
    and "next_state fast (review_path fast ! i) ''grant'' = Some st \<Longrightarrow> st = review_path fast ! Suc i"
  using assms
  by (auto simp: review_path_def next_state_def less_Suc_eq numeral_eq_Suc split: if_splits)

lemma path_not_terminal:
  "Suc i < length (review_path fast) \<Longrightarrow>
     review_path fast ! i \<notin> set TERMINAL_FAILURES \<and> review_path fast ! i \<noteq> ENABLED"
  by (auto simp: review_path_def TERMINAL_FAILURES_def less_Suc_eq numeral_eq_Suc split: if_splits)

definition visited :: "ceremony \<Rightarrow> ceremony_state list" where
  "visited c = map he_state (cer_history c)"

text \<open>A ceremony has walked a prefix of its path, and perhaps was rejected before the end.\<close>

definition on_path :: "ceremony \<Rightarrow> nat \<Rightarrow> bool" where
  "on_path c n \<longleftrightarrow> n < length (review_path (cer_fast_path c))
     \<and> cer_state c = review_path (cer_fast_path c) ! n \<and> visited c = take (Suc n) (review_path (cer_fast_path c))"

definition rejected_after :: "ceremony \<Rightarrow> nat \<Rightarrow> bool" where
  "rejected_after c n \<longleftrightarrow> Suc n < length (review_path (cer_fast_path c)) \<and> cer_state c = REJECTED_BY_USER
     \<and> visited c = take (Suc n) (review_path (cer_fast_path c)) @ [REJECTED_BY_USER]"

definition ceremony_ok :: "ceremony \<Rightarrow> bool" where
  "ceremony_ok c \<longleftrightarrow> \<not> cer_fast_path c \<and> (\<exists>n. on_path c n \<or> rejected_after c n)"

lemma ceremony_ok_persisted [simp]: "ceremony_ok (c\<lparr>cer_persisted := b\<rparr>) = ceremony_ok c"
  by (simp add: ceremony_ok_def on_path_def rejected_after_def visited_def)

inductive ceremony_step :: "'key crypto \<Rightarrow> ceremonies \<times> session \<Rightarrow> ceremonies \<times> session \<Rightarrow> bool" for cy where
  started: "ceremony_step cy (reg, s) (snd (start_ceremony cy i manifest actor sig reg s))"
| advanced: "ceremony_step cy (reg, s) (snd (advance_ceremony cid action actor reg s))"
| persisted: "reg cid = Some c \<Longrightarrow> ceremony_step cy (reg, s) (reg(cid \<mapsto> c\<lparr>cer_persisted := True\<rparr>), s')"
| elsewhere: "ceremony_step cy (reg, s) (reg, s')"

lemma emit_ceremony [simp]:
  "cer_state (fst (emit_state_transition a p c s)) = cer_state c"
  "cer_fast_path (fst (emit_state_transition a p c s)) = cer_fast_path c"
  "visited (fst (emit_state_transition a p c s)) = visited c @ [cer_state c]"
  by (simp_all add: emit_state_transition_def visited_def)

lemma visited_update [simp]:
  "visited (c\<lparr>cer_state := st\<rparr>) = visited c" "visited (c\<lparr>cer_persisted := b\<rparr>) = visited c"
  by (simp_all add: visited_def)

lemma started_ok:
  assumes "start_ceremony cy i manifest actor sig reg s = (r, reg', s')" and "reg' cid = Some c"
  shows "reg cid = Some c \<or> (\<not> cer_fast_path c \<and> on_path c 0)"
proof (cases "build_permission_card manifest")
  case None
  with assms show ?thesis by (simp add: start_ceremony_def)
next
  case (Some card)
  show ?thesis
  proof (cases "cid = i")
    case True
    with assms Some never_verified [of cy manifest sig] show ?thesis
      by (auto simp: start_ceremony_def emit_state_transition_def Let_def on_path_def visited_def
          review_path_def)
  next
    case False
    with assms Some show ?thesis by (auto simp: start_ceremony_def emit_state_transition_def Let_def)
  qed
qed

lemma advance_cases:
  assumes "reg cid = Some c" and "ceremony_ok c"
  obtains (same) "fst (snd (advance_ceremony cid action actor reg s)) = reg"
  | (moved) c' where "fst (snd (advance_ceremony cid action actor reg s)) = reg(cid \<mapsto> c')" "ceremony_ok c'"
proof -
  let ?adv = "advance_ceremony cid action actor reg s"
  show thesis
  proof (cases "action \<in> set VALID_ACTIONS \<and> \<not> (cer_state c \<in> set TERMINAL_FAILURES \<or> cer_state c = ENABLED)")
    case False
    with assms(1) have "fst (snd ?adv) = reg" by (auto simp: advance_ceremony_def)
    then show thesis by (rule same)
  next
    case True
    with assms(2) obtain n where n: "on_path c n" "\<not> cer_fast_path c"
      by (auto simp: ceremony_ok_def rejected_after_def TERMINAL_FAILURES_def)
    have "Suc n < length (review_path False)"
    proof (rule ccontr)
      assume "\<not> Suc n < length (review_path False)"
      with n have "n = 7" by (auto simp: on_path_def review_path_def)
      with n True show False by (simp add: on_path_def review_path_def)
    qed
    note more = this
    show thesis
    proof (cases "action = ''reject''")
      case True
      let ?c' = "fst (emit_state_transition ''module.denied'' (Some [(''reason'', JStr ''rejected_by_user'')])
          (c\<lparr>cer_state := REJECTED_BY_USER\<rparr>) s)"
      have "fst (snd ?adv) = reg(cid \<mapsto> ?c')"
        using assms(1) True \<open>action \<in> set VALID_ACTIONS \<and> _\<close>
        by (simp add: advance_ceremony_def split: prod.split)
      moreover have "rejected_after ?c' n" using n more by (simp add: rejected_after_def on_path_def)
      with n(2) have "ceremony_ok ?c'" by (auto simp: ceremony_ok_def)
      ultimately show thesis by (rule moved)
    next
      case False
      with True have act: "action = ''trust'' \<or> action = ''grant''" by (auto simp: VALID_ACTIONS_def)
      show thesis
      proof (cases "next_state (cer_fast_path c) (cer_state c) action")
        case None
        with assms(1) True False have "fst (snd ?adv) = reg" by (simp add: advance_ceremony_def)
        then show thesis by (rule same)
      next
        case (Some st)
        let ?c' = "fst (emit_state_transition (audit_for_state st) None (c\<lparr>cer_state := st\<rparr>) s)"
        from Some n more next_on_path [of n False] act have st: "st = review_path False ! Suc n"
          by (auto simp: on_path_def)
        have "fst (snd ?adv) = reg(cid \<mapsto> ?c')"
          using assms(1) True False Some by (simp add: advance_ceremony_def split: prod.split)
        moreover have "on_path ?c' (Suc n)"
          using n more st by (simp add: on_path_def take_Suc_conv_app_nth)
        with n(2) have "ceremony_ok ?c'" by (auto simp: ceremony_ok_def)
        ultimately show thesis by (rule moved)
      qed
    qed
  qed
qed

definition all_ok :: "ceremonies \<times> session \<Rightarrow> bool" where
  "all_ok st \<longleftrightarrow> (\<forall>cid c. fst st cid = Some c \<longrightarrow> ceremony_ok c)"

lemma ceremony_step_ok:
  assumes "all_ok st" and "ceremony_step cy st st'"
  shows "all_ok st'"
  using assms(2)
proof cases
  case (started reg s i manifest actor sig)
  then obtain r reg' s1 where st': "start_ceremony cy i manifest actor sig reg s = (r, reg', s1)" "st' = (reg', s1)"
    by (cases "start_ceremony cy i manifest actor sig reg s") auto
  show ?thesis
    unfolding all_ok_def
  proof (intro allI impI)
    fix cid c
    assume "fst st' cid = Some c"
    with started_ok [OF st'(1), of cid c] st'(2) assms(1) started(1) show "ceremony_ok c"
      by (auto simp: all_ok_def ceremony_ok_def)
  qed
next
  case (advanced reg s cid action actor)
  show ?thesis
  proof (cases "reg cid")
    case None
    with advanced assms(1) show ?thesis by (simp add: advance_ceremony_def)
  next
    case (Some c)
    with advanced assms(1) have "ceremony_ok c" by (auto simp: all_ok_def)
    then show ?thesis
      by (rule advance_cases [of reg cid c action actor s, OF Some])
        (use advanced assms(1) in \<open>auto simp: all_ok_def split: if_splits\<close>)
  qed
next
  case (persisted reg cid c s s')
  with assms(1) show ?thesis
    by (auto simp: all_ok_def split: if_splits)
qed (use assms(1) in \<open>auto simp: all_ok_def\<close>)

interpretation ceremonies: invariant_system "ceremony_step cy" all_ok for cy
  by unfold_locales (rule ceremony_step_ok)

lemma ceremonies_reachable_ok:
  "(ceremony_step cy)\<^sup>*\<^sup>* (Map.empty, s0) (reg, s) \<Longrightarrow> reg cid = Some c \<Longrightarrow> ceremony_ok c"
  using ceremonies.reachable_inv [of cy "(Map.empty, s0)" "(reg, s)"] by (auto simp: all_ok_def)

text \<open>C8. No ceremony enables a module without the whole review: in any reachable registry, an enabled
  ceremony has passed the eight states of the full path in order, each once, whatever actions were
  posted in whatever order and by whom. The shorter path for verified publishers is never taken,
  since no publisher in the registry has a key to verify a signature with.\<close>

theorem enabled_after_full_review:
  assumes "(ceremony_step cy)\<^sup>*\<^sup>* (Map.empty, s0) (reg, s)" and "reg cid = Some c" and "cer_state c = ENABLED"
  shows "visited c = [DISCOVERED, INSPECTED, SIGNATURE_CHECKED, PUBLISHER_CHECKED, PERMISSIONS_REVIEWED,
      GATES_REVIEWED, GRANTED, ENABLED] \<and> \<not> cer_fast_path c"
proof -
  from ceremonies_reachable_ok [OF assms(1,2)] assms(3) obtain n where n: "on_path c n" "\<not> cer_fast_path c"
    by (auto simp: ceremony_ok_def rejected_after_def)
  have "n = 7"
  proof (rule ccontr)
    assume "n \<noteq> 7"
    with n have "Suc n < length (review_path False)" by (auto simp: on_path_def review_path_def)
    from path_not_terminal [OF this] n assms(3) show False by (simp add: on_path_def)
  qed
  with n show ?thesis by (simp add: on_path_def review_path_def)
qed

subsection \<open>Walking to the end\<close>

definition trust :: "uuid \<Rightarrow> uuid \<Rightarrow> ceremonies \<times> session \<Rightarrow> ceremonies \<times> session" where
  "trust cid actor st = snd (advance_ceremony cid ''trust'' actor (fst st) (snd st))"

lemma trust_on_path:
  assumes "fst st cid = Some c" and "on_path c n" and "Suc n < length (review_path (cer_fast_path c))"
  shows "\<exists>c'. fst (trust cid actor st) cid = Some c' \<and> on_path c' (Suc n) \<and> cer_fast_path c' = cer_fast_path c"
proof -
  let ?st = "review_path (cer_fast_path c) ! Suc n"
  let ?c' = "fst (emit_state_transition (audit_for_state ?st) None (c\<lparr>cer_state := ?st\<rparr>) (snd st))"
  have step: "next_state (cer_fast_path c) (cer_state c) ''trust'' = Some ?st"
    using assms(2) next_on_path(1) [OF assms(3)] by (simp add: on_path_def)
  have live: "cer_state c \<notin> set TERMINAL_FAILURES \<and> cer_state c \<noteq> ENABLED"
    using assms(2) path_not_terminal [OF assms(3)] by (simp add: on_path_def)
  have "fst (trust cid actor st) cid = Some ?c'"
    using assms(1) step live by (simp add: trust_def advance_ceremony_def VALID_ACTIONS_def split: prod.split)
  moreover have "on_path ?c' (Suc n)"
    using assms(2,3) by (simp add: on_path_def take_Suc_conv_app_nth)
  ultimately show ?thesis by (intro exI [where x = ?c']) simp
qed

lemma trust_repeat:
  assumes "fst st cid = Some c" and "on_path c 0" and "k < length (review_path (cer_fast_path c))"
  shows "\<exists>c'. fst ((trust cid actor ^^ k) st) cid = Some c' \<and> on_path c' k \<and> cer_fast_path c' = cer_fast_path c"
  using assms(3)
proof (induction k)
  case 0
  with assms show ?case by auto
next
  case (Suc k)
  then obtain c' where "fst ((trust cid actor ^^ k) st) cid = Some c'" "on_path c' k" "cer_fast_path c' = cer_fast_path c"
    by auto
  with trust_on_path [of "(trust cid actor ^^ k) st" cid c' k actor] Suc.prems show ?case by auto
qed

lemma started_facts:
  assumes "start_ceremony cy i manifest actor sig reg s = (Inr c, st)"
  shows "fst st i = Some c" "on_path c 0" "\<not> cer_fast_path c" "cer_actor_user_id c = Some actor"
  using assms never_verified [of cy manifest sig]
  by (auto simp: start_ceremony_def emit_state_transition_def Let_def on_path_def visited_def review_path_def
      split: option.splits)

text \<open>Seven times "trust" enables any module whose ceremony starts, and fewer do not: the outcome of the
  signature check, also an invalid signature, stops no one. The failure states for a bad signature,
  a blocked publisher or denied permissions are never entered.\<close>

theorem seven_trusts_enable:
  assumes "start_ceremony cy i manifest actor sig reg s = (Inr c, st)"
  shows "(\<exists>c'. fst ((trust i someone ^^ 7) st) i = Some c' \<and> cer_state c' = ENABLED)
    \<and> (\<forall>k<7. \<exists>c'. fst ((trust i someone ^^ k) st) i = Some c' \<and> cer_state c' \<noteq> ENABLED)"
proof -
  note facts = started_facts [OF assms]
  have "\<exists>c'. fst ((trust i someone ^^ 7) st) i = Some c' \<and> cer_state c' = ENABLED"
    using trust_repeat [OF facts(1,2), of 7 someone] facts(3) by (auto simp: on_path_def review_path_def)
  moreover have "\<exists>c'. fst ((trust i someone ^^ k) st) i = Some c' \<and> cer_state c' \<noteq> ENABLED" if "k < 7" for k
    using trust_repeat [OF facts(1,2), of k someone] facts(3) path_not_terminal [of k False] that
    by (auto simp: on_path_def review_path_def)
  ultimately show ?thesis by blast
qed

text \<open>A step of a ceremony is logged under the user who started it, whoever takes it: the audit row an
  advance appends names the starter.\<close>

theorem steps_are_logged_under_the_starter:
  assumes "advance_ceremony cid action actor reg s = (r, reg', s')" and "reg cid = Some c"
    and "audit_rows (working s') \<noteq> audit_rows (working s)"
  shows "\<exists>e. audit_rows (working s') = audit_rows (working s) @ [e] \<and> ae_actor_id e = cer_actor_user_id c
    \<and> ae_resource_id e = Some (cer_id c)"
  using assms
  by (auto simp: advance_ceremony_def emit_state_transition_def audit_phase1_def phase1_event_def
      split: if_splits option.splits)

subsection \<open>Concrete ceremonies\<close>

definition sample_manifest :: json where
  "sample_manifest = JObj [(''id'', JStr ''mod''), (''publisher'', JStr ''legalise''),
     (''signed_by'', JStr ''someone else''), (''signature'', JStr ''0123456789abcdef''),
     (''capabilities'', JList [JObj [(''id'', JStr ''c''), (''advice_tier_max'', JStr ''draft_advice'')]])]"

definition no_crypto :: "unit crypto" where
  "no_crypto = \<lparr>cy_sha256_hex = id, cy_fromhex = id, cy_b64decode = Some, cy_public_key = (\<lambda>k. None),
     cy_verify = (\<lambda>k x y. False)\<rparr>"

lemma sample_invalid: "verify_manifest_signature no_crypto sample_manifest None = INVALID"
  by (simp add: verify_manifest_signature_def sample_manifest_def jget0_def jget_def py_truthy_def Let_def
      is_verified_publisher_def VERIFIED_PUBLISHERS_def)

lemma sample_start:
  "\<exists>c st. start_ceremony no_crypto ''i'' sample_manifest ''admin'' None Map.empty (open_session empty_db 0) = (Inr c, st)"
proof -
  have "build_permission_card sample_manifest \<noteq> None"
    by (simp add: build_permission_card_def sample_manifest_def jlist_def jget_def jget0_def tier_order_def)
  then show ?thesis by (auto simp: start_ceremony_def emit_state_transition_def Let_def)
qed

lemma seven_trusts_enable_witness:
  "verify_manifest_signature no_crypto sample_manifest None = INVALID \<and>
   (\<exists>c st c'. start_ceremony no_crypto ''i'' sample_manifest ''admin'' None Map.empty (open_session empty_db 0) = (Inr c, st)
      \<and> fst ((trust ''i'' ''other'' ^^ 7) st) ''i'' = Some c' \<and> cer_state c' = ENABLED)"
proof -
  obtain c st where st: "start_ceremony no_crypto ''i'' sample_manifest ''admin'' None Map.empty (open_session empty_db 0) = (Inr c, st)"
    using sample_start by blast
  from seven_trusts_enable [OF st, of "''other''"] st sample_invalid show ?thesis by blast
qed

lemma trusted_reachable:
  assumes "start_ceremony cy i manifest actor sig Map.empty s0 = (r, st)"
  shows "(ceremony_step cy)\<^sup>*\<^sup>* (Map.empty, s0) ((trust i someone ^^ k) st)"
proof (induction k)
  case 0
  have "ceremony_step cy (Map.empty, s0) (snd (start_ceremony cy i manifest actor sig Map.empty s0))"
    by (rule ceremony_step.started)
  then show ?case by (simp add: assms r_into_rtranclp)
next
  case (Suc k)
  have "ceremony_step cy x (trust i someone x)" for x
    by (cases x) (simp add: trust_def ceremony_step.advanced)
  with Suc show ?case by (simp add: rtranclp.rtrancl_into_rtrancl)
qed

lemma sample_enabled:
  "\<exists>reg s c. (ceremony_step no_crypto)\<^sup>*\<^sup>* (Map.empty, open_session empty_db 0) (reg, s)
     \<and> reg ''i'' = Some c \<and> cer_state c = ENABLED"
proof -
  obtain c st where st: "start_ceremony no_crypto ''i'' sample_manifest ''admin'' None Map.empty (open_session empty_db 0) = (Inr c, st)"
    using sample_start by blast
  note facts = started_facts [OF st]
  from trust_repeat [OF facts(1,2), of 7 "''u''"] facts(3)
  obtain c' where "fst ((trust ''i'' ''u'' ^^ 7) st) ''i'' = Some c'" "cer_state c' = ENABLED"
    by (auto simp: on_path_def review_path_def)
  with trusted_reachable [OF st, where someone = "''u''" and k = 7] show ?thesis by (metis prod.collapse)
qed

lemma enabled_after_full_review_witness:
  "\<exists>c. cer_state c = ENABLED \<and> length (visited c) = 8"
proof -
  obtain reg s c where "(ceremony_step no_crypto)\<^sup>*\<^sup>* (Map.empty, open_session empty_db 0) (reg, s)"
    "reg ''i'' = Some c" "cer_state c = ENABLED" using sample_enabled by blast
  from enabled_after_full_review [OF this] \<open>cer_state c = ENABLED\<close> show ?thesis by (intro exI [where x = c]) simp
qed

lemma steps_are_logged_under_the_starter_witness:
  "\<exists>(s' :: session) e. ae_actor_id e = Some ''admin'' \<and> e \<in> set (audit_rows (working s'))"
proof -
  obtain c reg s where st: "start_ceremony no_crypto ''i'' sample_manifest ''admin'' None Map.empty (open_session empty_db 0) = (Inr c, reg, s)"
    using sample_start by (metis prod.collapse)
  note facts = started_facts [OF st]
  obtain r reg' s' where adv: "advance_ceremony ''i'' ''reject'' ''other'' reg s = (r, reg', s')" by (metis prod.collapse)
  moreover have "audit_rows (working s') \<noteq> audit_rows (working s)"
    using adv facts by (auto simp: advance_ceremony_def VALID_ACTIONS_def emit_state_transition_def audit_phase1_def
        on_path_def review_path_def TERMINAL_FAILURES_def)
  ultimately obtain e where "audit_rows (working s') = audit_rows (working s) @ [e]" "ae_actor_id e = cer_actor_user_id c"
    using steps_are_logged_under_the_starter facts(1) by (metis fst_conv)
  with facts(4) have "ae_actor_id e = Some ''admin'' \<and> e \<in> set (audit_rows (working s'))" by simp
  then show ?thesis by blast
qed

end
