(* ===== verification/AdviceBoundary.thy ===== *)
theory AdviceBoundary
  imports Capabilities
begin

text \<open>
  The two gates a legal output passes: the advice-boundary gate
  (\<open>app/core/advice_boundary/tiers.py\<close>, \<open>gate.py\<close>) that rules on the tier of an output and
  logs every ruling, and the privilege-posture gate (\<open>app/core/posture_gate.py\<close>) that rules on
  the role of the actor. The setting \<open>firm_role_gates_enabled\<close> is an argument.
\<close>

section \<open>Tiers\<close>

definition tier_rank_table :: "(string \<times> int) list" where
  "tier_rank_table =
     [(''factual_extraction'', 1), (''legal_information'', 2), (''draft_advice'', 3),
      (''supervised_legal_advice'', 4), (''approved_final_advice'', 5)]"

definition ALLOWED_TRANSITIONS :: "(string \<times> string) list" where
  "ALLOWED_TRANSITIONS =
     [(''factual_extraction'', ''legal_information''), (''factual_extraction'', ''draft_advice''),
      (''legal_information'', ''draft_advice''), (''draft_advice'', ''supervised_legal_advice''),
      (''supervised_legal_advice'', ''approved_final_advice'')]"

definition TERMINAL_TIERS :: "string list" where
  "TERMINAL_TIERS = [''approved_final_advice'']"

definition ROLE_REQUIREMENTS :: "((string \<times> string) \<times> string list) list" where
  "ROLE_REQUIREMENTS =
     [((''factual_extraction'', ''legal_information''), [''any_authenticated'']),
      ((''factual_extraction'', ''draft_advice''), [''any_authenticated'']),
      ((''legal_information'', ''draft_advice''), [''any_authenticated'']),
      ((''draft_advice'', ''supervised_legal_advice''), [''qualified_solicitor'']),
      ((''supervised_legal_advice'', ''approved_final_advice''), [''qualified_solicitor'', ''workspace_admin''])]"

definition INITIAL_TIER_ROLE_REQUIREMENTS :: "(string \<times> string list) list" where
  "INITIAL_TIER_ROLE_REQUIREMENTS =
     [(''factual_extraction'', [''any_authenticated'']), (''legal_information'', [''any_authenticated'']),
      (''draft_advice'', [''any_authenticated''])]"

definition initial_tier_is_permitted :: "string \<Rightarrow> bool" where
  "initial_tier_is_permitted tier \<longleftrightarrow> tier \<in> fst ` set INITIAL_TIER_ROLE_REQUIREMENTS"

text \<open>\<open>InvalidTierError\<close> carries its message.\<close>

definition assert_tier :: "string \<Rightarrow> string + unit" where
  "assert_tier v =
     (if v \<in> fst ` set tier_rank_table then Inr ()
      else Inl (''unknown advice tier '' @ py_repr (JStr v) @ ''; valid: ''
                @ py_repr (JList (map JStr (sort (map fst tier_rank_table))))))"

definition tier_rank :: "string \<Rightarrow> string + int" where
  "tier_rank tier =
     (case assert_tier tier of Inl err \<Rightarrow> Inl err
      | Inr _ \<Rightarrow> (case map_of tier_rank_table tier of Some r \<Rightarrow> Inr r | None \<Rightarrow> Inl ''KeyError''))"

definition is_terminal_tier :: "string \<Rightarrow> bool" where
  "is_terminal_tier tier \<longleftrightarrow> tier \<in> set TERMINAL_TIERS"

definition is_allowed_transition :: "string \<Rightarrow> string \<Rightarrow> bool" where
  "is_allowed_transition f t \<longleftrightarrow> (f, t) \<in> set ALLOWED_TRANSITIONS"

definition role_satisfies :: "string option \<Rightarrow> string list \<Rightarrow> bool" where
  "role_satisfies actor_role requirement_set =
     (case actor_role of None \<Rightarrow> False
      | Some role \<Rightarrow> ''any_authenticated'' \<in> set requirement_set \<or> role \<in> set requirement_set)"

section \<open>The advice-boundary gate\<close>

record advice_request =
  aq_output_id :: string
  aq_requested_tier :: string
  aq_from_tier :: "string option"
  aq_declared_tier_max :: "string option"
  aq_actor_user_id :: "uuid option"
  aq_actor_role :: "string option"
  aq_module_id :: "string option"
  aq_capability_id :: "string option"
  aq_matter_id :: "uuid option"

definition blocked_to_decision_gate_state :: "blocked_payload \<Rightarrow> (string \<times> json) list" where
  "blocked_to_decision_gate_state b =
     (let out = [(''status'', JStr ''blocked''), (''blocked_reason'', JStr (reason_value (bp_reason b)))]
                @ (case bp_denied_capability b of None \<Rightarrow> [] | Some c \<Rightarrow> [(''denied_capability'', JStr c)])
      in case bp_gate_state b of
           Some (JObj kvs) \<Rightarrow> if kvs = [] then out else dict_update out kvs
         | _ \<Rightarrow> out)"

definition decision_row :: "uuid \<Rightarrow> advice_request \<Rightarrow> (string \<times> json) list \<Rightarrow> string \<Rightarrow> decision" where
  "decision_row new_id q gate_state status =
     \<lparr>d_id = new_id, d_output_id = aq_output_id q, d_from_tier = aq_from_tier q,
      d_to_tier = aq_requested_tier q, d_actor_user_id = aq_actor_user_id q,
      d_actor_role = aq_actor_role q, d_module_id = aq_module_id q,
      d_capability_id = aq_capability_id q, d_declared_tier_max = aq_declared_tier_max q,
      d_gate_state = gate_state, d_status = status\<rparr>"

definition append_decision :: "decision \<Rightarrow> session \<Rightarrow> session" where
  "append_decision row = on_working (\<lambda>d. d\<lparr>decisions := decisions d @ [row]\<rparr>)"

definition decision_event :: "string \<Rightarrow> decision \<Rightarrow> blocked_payload option \<Rightarrow> audit_event" where
  "decision_event action row blocked =
     phase1_event action ''advice_boundary'' (d_actor_user_id row) None (d_module_id row)
       (d_capability_id row) (Some ''advice_boundary_decision'') (Some (d_id row))
       [(''output_id'', JStr (d_output_id row)), (''from_tier'', jstr_opt (d_from_tier row)),
        (''to_tier'', JStr (d_to_tier row)), (''actor_role'', jstr_opt (d_actor_role row)),
        (''declared_tier_max'', jstr_opt (d_declared_tier_max row))] blocked"

text \<open>A ruling: the decision's status and gate state, and the payload of a refusal.\<close>

record ruling =
  ru_status :: string
  ru_gate_state :: "(string \<times> json) list"
  ru_blocked :: "blocked_payload option"

definition refuse :: "string \<Rightarrow> blocked_reason \<Rightarrow> (string \<times> json) list \<Rightarrow> ruling" where
  "refuse status reason gate_state =
     (let b = \<lparr>bp_reason = reason, bp_denied_capability = None, bp_gate_state = Some (JObj gate_state)\<rparr>
      in \<lparr>ru_status = status, ru_gate_state = blocked_to_decision_gate_state b, ru_blocked = Some b\<rparr>)"

text \<open>The stages of \<open>check\<close>, in its order; a stage that rules ends the check.\<close>

definition check_vocabulary :: "advice_request \<Rightarrow> ruling option" where
  "check_vocabulary q =
     (let asserted = (case assert_tier (aq_requested_tier q) of Inl e \<Rightarrow> Inl e | Inr _ \<Rightarrow>
            (case (case aq_from_tier q of None \<Rightarrow> Inr () | Some f \<Rightarrow> assert_tier f) of Inl e \<Rightarrow> Inl e | Inr _ \<Rightarrow>
               (case aq_declared_tier_max q of None \<Rightarrow> Inr () | Some m \<Rightarrow> assert_tier m)))
      in case asserted of
           Inl detail \<Rightarrow> Some \<lparr>ru_status = ''failed'',
             ru_gate_state = [(''error'', JStr ''invalid_tier''), (''detail'', JStr detail)],
             ru_blocked = None\<rparr>
         | Inr _ \<Rightarrow> None)"

definition check_terminal :: "advice_request \<Rightarrow> ruling option" where
  "check_terminal q =
     (case aq_from_tier q of
        Some f \<Rightarrow> if is_terminal_tier f
          then Some (refuse ''blocked'' TIER_DISALLOWED
                 [(''from_tier'', JStr f), (''to_tier'', JStr (aq_requested_tier q)),
                  (''reason'', JStr ''from_tier_is_terminal'')])
          else None
      | None \<Rightarrow> None)"

text \<open>The transition rule yields the roles it asks for; a missing table entry would be a \<open>KeyError\<close>.\<close>

definition check_transition :: "advice_request \<Rightarrow> ruling + string list" where
  "check_transition q =
     (case aq_from_tier q of
        Some f \<Rightarrow>
          if \<not> is_allowed_transition f (aq_requested_tier q)
          then Inl (refuse ''blocked'' INVALID_TRANSITION
                 [(''from_tier'', JStr f), (''to_tier'', JStr (aq_requested_tier q)),
                  (''reason'', JStr ''transition_not_allowed'')])
          else (case map_of ROLE_REQUIREMENTS (f, aq_requested_tier q) of
                  Some req \<Rightarrow> Inr req | None \<Rightarrow> Inr [])
      | None \<Rightarrow>
          if \<not> initial_tier_is_permitted (aq_requested_tier q)
          then Inl (refuse ''blocked'' INVALID_TRANSITION
                 [(''to_tier'', JStr (aq_requested_tier q)),
                  (''reason'', JStr ''tier_not_permitted_as_initial''),
                  (''max_initial_tier'', JStr ''draft_advice'')])
          else (case map_of INITIAL_TIER_ROLE_REQUIREMENTS (aq_requested_tier q) of
                  Some req \<Rightarrow> Inr req | None \<Rightarrow> Inr []))"

definition check_role :: "bool \<Rightarrow> advice_request \<Rightarrow> string list \<Rightarrow> ruling option" where
  "check_role firm_role_gates_enabled q req =
     (if \<not> firm_role_gates_enabled \<or> role_satisfies (aq_actor_role q) req then None
      else Some (refuse ''denied'' ROLE_DENIED
             [(''actor_role'', jstr_opt (aq_actor_role q)), (''required'', JList (map JStr (sort req))),
              (''from_tier'', jstr_opt (aq_from_tier q)), (''to_tier'', JStr (aq_requested_tier q))]))"

definition check_declared_max :: "advice_request \<Rightarrow> ruling option" where
  "check_declared_max q =
     (case aq_declared_tier_max q of
        None \<Rightarrow> None
      | Some m \<Rightarrow>
          (case (tier_rank (aq_requested_tier q), tier_rank m) of
             (Inr r, Inr rm) \<Rightarrow>
               if r > rm
               then Some (refuse ''denied'' TIER_EXCEEDED
                      [(''requested_tier'', JStr (aq_requested_tier q)), (''declared_tier_max'', JStr m),
                       (''reason'', JStr ''requested_tier_exceeds_declared_max'')])
               else None
           | _ \<Rightarrow> None))"

definition success_ruling :: "advice_request \<Rightarrow> ruling" where
  "success_ruling q =
     \<lparr>ru_status = ''completed'',
      ru_gate_state = [(''allowed'', JBool True),
          (''declared_tier_max_supplied'', JBool (aq_declared_tier_max q \<noteq> None))]
        @ (case aq_matter_id q of None \<Rightarrow> [] | Some m \<Rightarrow> [(''matter_id'', JStr m)]),
      ru_blocked = None\<rparr>"

definition rule_on :: "bool \<Rightarrow> advice_request \<Rightarrow> ruling" where
  "rule_on firm_role_gates_enabled q =
     (case check_vocabulary q of Some r \<Rightarrow> r | None \<Rightarrow>
      case check_terminal q of Some r \<Rightarrow> r | None \<Rightarrow>
      case check_transition q of Inl r \<Rightarrow> r | Inr req \<Rightarrow>
      case check_role firm_role_gates_enabled q req of Some r \<Rightarrow> r | None \<Rightarrow>
      case check_declared_max q of Some r \<Rightarrow> r | None \<Rightarrow> success_ruling q)"

record gate_result =
  gr_allowed :: bool
  gr_decision_id :: uuid
  gr_gate_state :: "(string \<times> json) list"

definition check :: "bool \<Rightarrow> uuid \<Rightarrow> advice_request \<Rightarrow> session \<Rightarrow> gate_result \<times> session" where
  "check firm_role_gates_enabled new_id q s =
     (let r = rule_on firm_role_gates_enabled q;
          row = decision_row new_id q (ru_gate_state r) (ru_status r);
          event = decision_event (''advice_boundary.check.'' @ ru_status r) row (ru_blocked r)
      in (\<lparr>gr_allowed = (ru_status r = ''completed''), gr_decision_id = new_id,
            gr_gate_state = ru_gate_state r\<rparr>,
          audit_log event (append_decision row s)))"

section \<open>The privilege-posture gate\<close>

definition POSTURE_POLICY :: "(string \<times> string) list" where
  "POSTURE_POLICY = [(''A_cleared'', ''any_authenticated''), (''B_mixed'', ''qualified_solicitor'')]"

record posture_result =
  pr_allowed :: bool
  pr_posture :: string
  pr_required_role :: string
  pr_actor_role :: "string option"
  pr_reason :: "string option"

definition evaluate_posture :: "string \<Rightarrow> string option \<Rightarrow> bool \<Rightarrow> posture_result" where
  "evaluate_posture posture actor_role firm_role_gates_enabled =
     (let result = (\<lambda>allowed required reason. \<lparr>pr_allowed = allowed, pr_posture = posture,
            pr_required_role = required, pr_actor_role = actor_role, pr_reason = reason\<rparr>)
      in if posture = ''C_paused'' then result False ''matter_paused'' (Some ''posture_paused'')
         else case map_of POSTURE_POLICY posture of
                None \<Rightarrow> result False ''unknown_posture'' (Some ''unknown_posture'')
              | Some policy \<Rightarrow>
                  (let requirement = (if firm_role_gates_enabled then policy else ''any_authenticated'')
                   in if role_satisfies actor_role [requirement] then result True requirement None
                      else result False requirement (Some ''posture_gate_failed'')))"

definition build_gate_state :: "posture_result \<Rightarrow> bool \<Rightarrow> (string \<times> json) list" where
  "build_gate_state r firm_role_gates_enabled =
     [(''gate'', JStr ''privilege_posture''), (''posture'', JStr (pr_posture r)),
      (''required_role'', JStr (pr_required_role r)), (''actor_role'', jstr_opt (pr_actor_role r)),
      (''reason'', JStr (case pr_reason r of None \<Rightarrow> [] | Some x \<Rightarrow> x)),
      (''firm_role_gates_enabled'', JBool firm_role_gates_enabled),
      (''policy_mode'', JStr (if firm_role_gates_enabled then ''firm_role_gates_enforced''
                              else ''firm_role_gates_dormant''))]"

definition check_posture ::
  "bool \<Rightarrow> matter \<Rightarrow> uuid \<Rightarrow> string option \<Rightarrow> string \<Rightarrow> string \<Rightarrow> session \<Rightarrow> posture_result \<times> session" where
  "check_posture firm_role_gates_enabled m actor actor_role module_id cap s =
     (let result = evaluate_posture (m_privilege_posture m) actor_role firm_role_gates_enabled;
          blocked = \<lparr>bp_reason = GATE_BLOCKED, bp_denied_capability = None,
            bp_gate_state = Some (JObj (build_gate_state result firm_role_gates_enabled))\<rparr>
      in if pr_allowed result then (result, s)
         else (result, audit_failure
           ((event0 ''posture_gate.check.blocked'')
              \<lparr>ae_actor_id := Some actor, ae_matter_id := Some (m_id m),
               ae_module := Some ''core.posture_gate'', ae_resource_type := Some ''matter'',
               ae_resource_id := Some (m_id m),
               ae_payload := JObj ([(''module_id'', JStr module_id), (''capability_id'', JStr cap)]
                 @ blocked_dict blocked)\<rparr>) s))"

section \<open>What the gate allows\<close>

lemmas tier_tables = tier_rank_table_def ALLOWED_TRANSITIONS_def TERMINAL_TIERS_def ROLE_REQUIREMENTS_def
  INITIAL_TIER_ROLE_REQUIREMENTS_def

definition known_tier :: "string \<Rightarrow> bool" where
  "known_tier t \<longleftrightarrow> t \<in> fst ` set tier_rank_table"

text \<open>The roles a step needs, from the tables' point of view: none listed means no such step.\<close>

definition step_roles :: "string option \<Rightarrow> string \<Rightarrow> string list option" where
  "step_roles f t = (case f of None \<Rightarrow> map_of INITIAL_TIER_ROLE_REQUIREMENTS t
     | Some f \<Rightarrow> map_of ROLE_REQUIREMENTS (f, t))"

definition within_max :: "string \<Rightarrow> string option \<Rightarrow> bool" where
  "within_max t mx = (case mx of None \<Rightarrow> True
     | Some m \<Rightarrow> known_tier m \<and> the (map_of tier_rank_table t) \<le> the (map_of tier_rank_table m))"

definition advice_permitted :: "bool \<Rightarrow> advice_request \<Rightarrow> bool" where
  "advice_permitted firm_role_gates_enabled q =
     (case step_roles (aq_from_tier q) (aq_requested_tier q) of
        None \<Rightarrow> False
      | Some req \<Rightarrow> (firm_role_gates_enabled \<longrightarrow> role_satisfies (aq_actor_role q) req)
          \<and> within_max (aq_requested_tier q) (aq_declared_tier_max q))"

lemma assert_tier_ok: "assert_tier t = Inr () \<longleftrightarrow> known_tier t" "known_tier t \<or> (\<exists>e. assert_tier t = Inl e)"
  by (auto simp: assert_tier_def known_tier_def)

lemma assert_tier_cases: "assert_tier t = (if known_tier t then Inr () else assert_tier t)"
  by (simp add: assert_tier_ok)

lemma known_rank: "known_tier t \<Longrightarrow> \<exists>r. map_of tier_rank_table t = Some r"
  by (auto simp: known_tier_def tier_rank_table_def)

lemma tier_rank_known: "known_tier t \<Longrightarrow> tier_rank t = Inr (the (map_of tier_rank_table t))"
  using known_rank [of t] by (auto simp: tier_rank_def assert_tier_ok(1) [THEN iffD2])

lemma vocabulary_ok:
  "check_vocabulary q = None \<longleftrightarrow> known_tier (aq_requested_tier q)
     \<and> (\<forall>f. aq_from_tier q = Some f \<longrightarrow> known_tier f) \<and> (\<forall>m. aq_declared_tier_max q = Some m \<longrightarrow> known_tier m)"
  by (simp add: check_vocabulary_def assert_tier_def known_tier_def split: option.split)

lemma step_roles_known:
  "step_roles f t = Some req \<Longrightarrow> known_tier t \<and> (\<forall>x. f = Some x \<longrightarrow> known_tier x \<and> \<not> is_terminal_tier x)"
  by (auto simp: step_roles_def tier_tables known_tier_def is_terminal_tier_def split: option.splits if_splits)

text \<open>The two tables agree: every allowed transition has an entry for its roles, and no other has.\<close>

lemma transition_roles:
  "check_transition q = Inr req \<longleftrightarrow> step_roles (aq_from_tier q) (aq_requested_tier q) = Some req"
  "(\<exists>r. check_transition q = Inl r) \<longleftrightarrow> step_roles (aq_from_tier q) (aq_requested_tier q) = None"
  by (auto simp: check_transition_def step_roles_def tier_tables is_allowed_transition_def
      initial_tier_is_permitted_def split: option.splits)

lemma terminal_ok: "check_terminal q = None \<longleftrightarrow> (\<forall>f. aq_from_tier q = Some f \<longrightarrow> \<not> is_terminal_tier f)"
  by (simp add: check_terminal_def split: option.splits)

lemma declared_max_ok:
  assumes "known_tier (aq_requested_tier q)" and "\<forall>m. aq_declared_tier_max q = Some m \<longrightarrow> known_tier m"
  shows "check_declared_max q = None \<longleftrightarrow> within_max (aq_requested_tier q) (aq_declared_tier_max q)"
  using assms by (auto simp: check_declared_max_def within_max_def tier_rank_known split: option.splits)

lemma refuse_status [simp]: "ru_status (refuse st reason gs) = st"
  by (simp add: refuse_def Let_def)

lemma refusal_status:
  "check_vocabulary q = Some r \<Longrightarrow> ru_status r \<in> {''blocked'', ''denied'', ''failed''}"
  "check_terminal q = Some r \<Longrightarrow> ru_status r \<in> {''blocked'', ''denied'', ''failed''}"
  "check_transition q = Inl r \<Longrightarrow> ru_status r \<in> {''blocked'', ''denied'', ''failed''}"
  "check_role fl q req = Some r \<Longrightarrow> ru_status r \<in> {''blocked'', ''denied'', ''failed''}"
  "check_declared_max q = Some r \<Longrightarrow> ru_status r \<in> {''blocked'', ''denied'', ''failed''}"
  by (auto simp: check_vocabulary_def check_terminal_def check_transition_def check_role_def check_declared_max_def
      Let_def split: option.splits sum.splits if_splits)

lemma refusals:
  "check_vocabulary q = Some r \<Longrightarrow> ru_status r \<noteq> ''completed''"
  "check_terminal q = Some r \<Longrightarrow> ru_status r \<noteq> ''completed''"
  "check_transition q = Inl r \<Longrightarrow> ru_status r \<noteq> ''completed''"
  "check_role fl q req = Some r \<Longrightarrow> ru_status r \<noteq> ''completed''"
  "check_declared_max q = Some r \<Longrightarrow> ru_status r \<noteq> ''completed''"
  using refusal_status by fastforce+

lemma ruling_status: "ru_status (rule_on fl q) \<in> insert ''completed'' {''blocked'', ''denied'', ''failed''}"
  unfolding rule_on_def using refusal_status
  by (simp add: success_ruling_def split: option.split sum.split)

lemma completed_stages:
  "ru_status (rule_on fl q) = ''completed'' \<longleftrightarrow>
     check_vocabulary q = None \<and> check_terminal q = None
     \<and> (\<exists>req. check_transition q = Inr req \<and> check_role fl q req = None) \<and> check_declared_max q = None"
  unfolding rule_on_def using refusals
  by (auto simp: success_ruling_def split: option.splits sum.splits)

lemma completed_iff_permitted: "ru_status (rule_on fl q) = ''completed'' \<longleftrightarrow> advice_permitted fl q"
proof (cases "step_roles (aq_from_tier q) (aq_requested_tier q)")
  case None
  then show ?thesis by (simp add: completed_stages transition_roles advice_permitted_def)
next
  case (Some req)
  note known = step_roles_known [OF Some]
  have "check_vocabulary q = None \<and> check_declared_max q = None
      \<longleftrightarrow> within_max (aq_requested_tier q) (aq_declared_tier_max q)"
  proof (cases "\<forall>m. aq_declared_tier_max q = Some m \<longrightarrow> known_tier m")
    case True
    with known show ?thesis by (simp add: vocabulary_ok declared_max_ok)
  next
    case False
    then show ?thesis by (auto simp: vocabulary_ok within_max_def)
  qed
  with known Some show ?thesis
    by (auto simp: completed_stages transition_roles terminal_ok advice_permitted_def check_role_def)
qed

text \<open>C5. The gate allows an output's tier exactly if the step is one of the listed transitions, or an
  initial tier up to draft advice, the actor's role is one of the step's (when role gates are
  on), and the tier does not exceed the declared maximum. The nested checks of the code amount
  to this rule, and no order of them matters for the outcome.\<close>

theorem gate_allows_iff_permitted:
  "gr_allowed (fst (check fl new_id q s)) \<longleftrightarrow> advice_permitted fl q"
  by (simp add: check_def Let_def completed_iff_permitted)

lemma check_effect:
  "snd (check fl new_id q s) = s\<lparr>working := add_event
     (stamp s (decision_event (''advice_boundary.check.'' @ ru_status (rule_on fl q))
        (decision_row new_id q (ru_gate_state (rule_on fl q)) (ru_status (rule_on fl q))) (ru_blocked (rule_on fl q))))
     ((working s)\<lparr>decisions := decisions (working s) @
        [decision_row new_id q (ru_gate_state (rule_on fl q)) (ru_status (rule_on fl q))]\<rparr>)\<rparr>"
  by (simp add: check_def Let_def audit_log_def on_working_def append_decision_def stamp_def)

lemma decision_row_simps [simp]:
  "d_status (decision_row i q gs st) = st" "d_id (decision_row i q gs st) = i"
  "d_from_tier (decision_row i q gs st) = aq_from_tier q" "d_to_tier (decision_row i q gs st) = aq_requested_tier q"
  "d_output_id (decision_row i q gs st) = aq_output_id q" "d_actor_role (decision_row i q gs st) = aq_actor_role q"
  "d_declared_tier_max (decision_row i q gs st) = aq_declared_tier_max q"
  by (simp_all add: decision_row_def)

text \<open>Every check, whatever its outcome, appends exactly one decision and one audit row, which agree:
  the row's action is the decision's status, its resource the decision. It touches nothing else and
  commits nothing.\<close>

theorem check_logs_its_decision:
  "\<exists>row e. working (snd (check fl new_id q s))
       = (working s)\<lparr>decisions := decisions (working s) @ [row], audit_rows := audit_rows (working s) @ [e]\<rparr>
     \<and> durable (snd (check fl new_id q s)) = durable s
     \<and> d_id row = gr_decision_id (fst (check fl new_id q s)) \<and> d_output_id row = aq_output_id q
     \<and> d_gate_state row = gr_gate_state (fst (check fl new_id q s))
     \<and> d_status row \<in> {''completed'', ''blocked'', ''denied'', ''failed''}
     \<and> (gr_allowed (fst (check fl new_id q s)) \<longleftrightarrow> d_status row = ''completed'')
     \<and> ae_action e = ''advice_boundary.check.'' @ d_status row \<and> ae_resource_id e = Some (d_id row)"
proof -
  have st: "ru_status (rule_on fl q) \<in> {''completed'', ''blocked'', ''denied'', ''failed''}"
    using ruling_status [of fl q] by simp
  let ?r = "rule_on fl q"
  let ?row = "decision_row new_id q (ru_gate_state ?r) (ru_status ?r)"
  let ?e = "stamp s (decision_event (''advice_boundary.check.'' @ ru_status ?r) ?row (ru_blocked ?r))"
  have "working (snd (check fl new_id q s))
      = (working s)\<lparr>decisions := decisions (working s) @ [?row], audit_rows := audit_rows (working s) @ [?e]\<rparr>"
    and "durable (snd (check fl new_id q s)) = durable s"
    by (simp_all add: check_effect add_event_def)
  moreover have "ae_action ?e = ''advice_boundary.check.'' @ d_status ?row \<and> ae_resource_id ?e = Some (d_id ?row)"
    by (simp add: decision_event_def phase1_event_def event0_def)
  moreover have "fst (check fl new_id q s) = \<lparr>gr_allowed = (ru_status ?r = ''completed''),
      gr_decision_id = new_id, gr_gate_state = ru_gate_state ?r\<rparr>"
    by (simp add: check_def Let_def)
  moreover have "d_gate_state ?row = ru_gate_state ?r" by (simp add: decision_row_def)
  ultimately show ?thesis
    using st by (intro exI [where x = ?row] exI [where x = ?e]) simp
qed

section \<open>The decision log\<close>

text \<open>The log a sequence of checks leaves, with other work of the callers in between.\<close>

inductive decision_log :: "bool \<Rightarrow> decision list \<Rightarrow> bool" for fl where
  empty: "decision_log fl []"
| checked: "decision_log fl (decisions (working s)) \<Longrightarrow>
    decision_log fl (decisions (working (snd (check fl new_id q s))))"

definition decision_sound :: "bool \<Rightarrow> decision \<Rightarrow> bool" where
  "decision_sound fl d \<longleftrightarrow>
     (\<exists>req. step_roles (d_from_tier d) (d_to_tier d) = Some req
        \<and> (fl \<longrightarrow> role_satisfies (d_actor_role d) req) \<and> within_max (d_to_tier d) (d_declared_tier_max d))"

lemma decision_log_sound:
  assumes "decision_log fl ds" and "d \<in> set ds" and "d_status d = ''completed''"
  shows "decision_sound fl d"
  using assms
proof induction
  case (checked s new_id q)
  then show ?case
    using completed_iff_permitted [of fl q]
    by (auto simp: check_effect decision_sound_def advice_permitted_def split: option.splits)
qed simp

text \<open>In any log the gate writes, a completed decision for approved final advice comes from supervised
  advice and, with role gates on, from a solicitor or a workspace administrator; one for supervised
  advice comes from draft advice and from a solicitor; and no completed decision leaves approved advice.\<close>

theorem supervision_in_the_log:
  assumes "decision_log fl ds" and "d \<in> set ds" and "d_status d = ''completed''"
  shows "(d_to_tier d = ''approved_final_advice'' \<longrightarrow> d_from_tier d = Some ''supervised_legal_advice''
            \<and> (fl \<longrightarrow> d_actor_role d \<in> {Some ''qualified_solicitor'', Some ''workspace_admin''}))
    \<and> (d_to_tier d = ''supervised_legal_advice'' \<longrightarrow> d_from_tier d = Some ''draft_advice''
            \<and> (fl \<longrightarrow> d_actor_role d = Some ''qualified_solicitor''))
    \<and> d_from_tier d \<noteq> Some ''approved_final_advice''"
proof -
  from decision_log_sound [OF assms] obtain req where "step_roles (d_from_tier d) (d_to_tier d) = Some req"
    "fl \<longrightarrow> role_satisfies (d_actor_role d) req" by (auto simp: decision_sound_def)
  then show ?thesis
    by (auto simp: step_roles_def tier_tables role_satisfies_def split: option.splits if_splits)
qed

definition approval_request :: "string option \<Rightarrow> advice_request" where
  "approval_request role = \<lparr>aq_output_id = ''out'', aq_requested_tier = ''approved_final_advice'',
     aq_from_tier = Some ''supervised_legal_advice'', aq_declared_tier_max = None, aq_actor_user_id = None,
     aq_actor_role = role, aq_module_id = None, aq_capability_id = None, aq_matter_id = None\<rparr>"

lemma approval_permitted: "advice_permitted fl (approval_request (Some ''workspace_admin''))"
  "advice_permitted False (approval_request None)"
  by (simp_all add: advice_permitted_def approval_request_def step_roles_def tier_tables role_satisfies_def within_max_def)

text \<open>The gate does not look at the log: its ruling on a request is the same on every database, and it
  approves an output as final advice for an administrator who names the supervised tier as the
  source, with no earlier decision on that output. With role gates off it does so without any actor.\<close>

theorem approval_without_history:
  "fst (check fl new_id q s) = fst (check fl new_id q s')
   \<and> gr_allowed (fst (check fl new_id (approval_request (Some ''workspace_admin'')) (open_session empty_db 0)))
   \<and> gr_allowed (fst (check False new_id (approval_request None) (open_session empty_db 0)))"
proof -
  have allowed: "gr_allowed (fst (check fl new_id q s)) \<longleftrightarrow> advice_permitted fl q" for fl q s
    by (simp add: check_def Let_def completed_iff_permitted)
  have "fst (check fl new_id q s) = fst (check fl new_id q s')" by (simp add: check_def Let_def)
  then show ?thesis by (simp add: allowed approval_permitted)
qed

lemma supervision_in_the_log_witness:
  "d_from_tier (decision_row ''i'' (approval_request (Some ''workspace_admin''))
     (ru_gate_state (success_ruling (approval_request (Some ''workspace_admin'')))) ''completed'')
     = Some ''supervised_legal_advice''"
proof -
  let ?q = "approval_request (Some ''workspace_admin'')" and ?s = "open_session empty_db 0"
  let ?d = "decision_row ''i'' ?q (ru_gate_state (success_ruling ?q)) ''completed''"
  have rule: "rule_on True ?q = success_ruling ?q"
    using completed_iff_permitted [of True ?q] approval_permitted(1) [of True] completed_stages [of True ?q]
    by (auto simp: rule_on_def)
  have "decision_log True (decisions (working ?s))" by (simp add: open_session_def empty_db_def decision_log.empty)
  then have "decision_log True (decisions (working (snd (check True ''i'' ?q ?s))))" by (rule decision_log.checked)
  moreover have "?d \<in> set (decisions (working (snd (check True ''i'' ?q ?s))))"
    by (simp add: check_effect rule success_ruling_def)
  moreover have "d_status ?d = ''completed''" by simp
  ultimately have "d_to_tier ?d = ''approved_final_advice'' \<longrightarrow> d_from_tier ?d = Some ''supervised_legal_advice''"
    using supervision_in_the_log by blast
  then show ?thesis by (simp add: approval_request_def)
qed

section \<open>The posture gate\<close>

text \<open>A paused matter and an unknown posture stop everybody; a mixed matter lets solicitors pass, or any
  authenticated actor when role gates are off; a cleared one any authenticated actor. A pass leaves
  the database as it was, a stop leaves one audit row that survives a rollback.\<close>

theorem posture_gate_exact:
  assumes "bound s"
  shows "(pr_allowed (fst (check_posture fl m actor role mod_id cap s)) \<longleftrightarrow>
       role \<noteq> None \<and> (m_privilege_posture m = ''A_cleared''
         \<or> m_privilege_posture m = ''B_mixed'' \<and> (fl \<longrightarrow> role = Some ''qualified_solicitor'')))
    \<and> (if pr_allowed (fst (check_posture fl m actor role mod_id cap s))
       then snd (check_posture fl m actor role mod_id cap s) = s
       else \<exists>e. durable (rollback (snd (check_posture fl m actor role mod_id cap s))) = add_event e (durable s)
              \<and> ae_action e = ''posture_gate.check.blocked'' \<and> ae_matter_id e = Some (m_id m)
              \<and> ae_actor_id e = Some actor)"
proof -
  have "pr_allowed (evaluate_posture p role fl) \<longleftrightarrow> role \<noteq> None \<and> (p = ''A_cleared''
         \<or> p = ''B_mixed'' \<and> (fl \<longrightarrow> role = Some ''qualified_solicitor''))" for p
    by (auto simp: evaluate_posture_def Let_def POSTURE_POLICY_def role_satisfies_def split: option.splits)
  then have allowed: "pr_allowed (fst (check_posture fl m actor role mod_id cap s)) \<longleftrightarrow>
      role \<noteq> None \<and> (m_privilege_posture m = ''A_cleared''
         \<or> m_privilege_posture m = ''B_mixed'' \<and> (fl \<longrightarrow> role = Some ''qualified_solicitor''))"
    by (simp add: check_posture_def Let_def)
  show ?thesis
  proof (cases "pr_allowed (fst (check_posture fl m actor role mod_id cap s))")
    case True
    then have "snd (check_posture fl m actor role mod_id cap s) = s"
      by (auto simp: check_posture_def Let_def split: if_splits)
    with True allowed show ?thesis by simp
  next
    case False
    then have "\<not> pr_allowed (evaluate_posture (m_privilege_posture m) role fl)"
      by (simp add: check_posture_def Let_def split: if_splits)
    then obtain e where "snd (check_posture fl m actor role mod_id cap s) = audit_failure e s"
      "ae_action e = ''posture_gate.check.blocked''" "ae_matter_id e = Some (m_id m)" "ae_actor_id e = Some actor"
      by (simp add: check_posture_def Let_def event0_def)
    then have "durable (rollback (snd (check_posture fl m actor role mod_id cap s))) = add_event (stamp s e) (durable s)
        \<and> ae_action (stamp s e) = ''posture_gate.check.blocked'' \<and> ae_matter_id (stamp s e) = Some (m_id m)
        \<and> ae_actor_id (stamp s e) = Some actor"
      using assms by simp
    with False allowed show ?thesis by (simp only: if_False simp_thms) blast
  qed
qed

definition sample_matter :: "string \<Rightarrow> matter" where
  "sample_matter posture = \<lparr>m_id = ''m'', m_slug = ''x'', m_title = ''A matter'', m_status = ''open'',
     m_privilege_posture = posture, m_created_by_id = ''u'', m_retention_until = None, m_default_model_id = ''stub-echo'',
     m_matter_type = ''employment_tribunal'', m_cause = None, m_case_theory = None,
     m_pivot_fact = None, m_facts = JObj [], m_opened_at = 0, m_closed_at = None\<rparr>"

lemma posture_gate_exact_witness:
  "pr_allowed (fst (check_posture True (sample_matter ''B_mixed'') ''u'' (Some ''qualified_solicitor'') ''p'' ''c'' (open_session empty_db 0)))
   \<and> \<not> pr_allowed (fst (check_posture False (sample_matter ''C_paused'') ''u'' (Some ''qualified_solicitor'') ''p'' ''c'' (open_session empty_db 0)))"
proof -
  have "bound (open_session empty_db 0)" by (simp add: open_session_def)
  from posture_gate_exact [OF this] show ?thesis by (simp add: sample_matter_def)
qed

end
