(* ===== verification/GrantsLifecycle.thy ===== *)
theory GrantsLifecycle
  imports AdviceBoundary
begin

text \<open>
  Module updates and per-matter grants (\<open>app/core/grants_lifecycle.py\<close>): the comparison of two
  permission snapshots that decides whether an update needs a fresh trust ceremony, and the
  creation and revocation of matter-scoped grants. Snapshots have passed the manifest schema, so
  their capabilities are objects and their lists are lists.
\<close>

section \<open>Permission snapshots\<close>

definition MODEL_ACCESS_ORDER :: "(string \<times> int) list" where
  "MODEL_ACCESS_ORDER = [(''none'', 0), (''optional'', 1), (''delegated'', 2), (''required'', 3)]"

record expansion_report =
  er_reads_added :: "string list"
  er_writes_added :: "string list"
  er_tier_raised :: "(string \<times> string) option"
  er_external_network_added :: bool
  er_new_destinations :: "string list"
  er_new_gates_added :: "string list"
  er_new_gates_removed :: "string list"
  er_model_access_raised :: "(json \<times> json) option"

definition any_expansion :: "expansion_report \<Rightarrow> bool" where
  "any_expansion r \<longleftrightarrow> er_reads_added r \<noteq> [] \<or> er_writes_added r \<noteq> [] \<or> er_tier_raised r \<noteq> None
     \<or> er_external_network_added r \<or> er_new_destinations r \<noteq> [] \<or> er_new_gates_added r \<noteq> []
     \<or> er_model_access_raised r \<noteq> None"

definition report_dict :: "expansion_report \<Rightarrow> json" where
  "report_dict r = JObj
     [(''reads_added'', JList (map JStr (er_reads_added r))),
      (''writes_added'', JList (map JStr (er_writes_added r))),
      (''tier_raised'', (case er_tier_raised r of None \<Rightarrow> JNull
          | Some (a, b) \<Rightarrow> JObj [(''from'', JStr a), (''to'', JStr b)])),
      (''external_network_added'', JBool (er_external_network_added r)),
      (''new_destinations'', JList (map JStr (er_new_destinations r))),
      (''new_gates_added'', JList (map JStr (er_new_gates_added r))),
      (''new_gates_removed'', JList (map JStr (er_new_gates_removed r))),
      (''model_access_raised'', (case er_model_access_raised r of None \<Rightarrow> JNull
          | Some (a, b) \<Rightarrow> JObj [(''from'', a), (''to'', b)])),
      (''any_expansion'', JBool (any_expansion r))]"

abbreviation caps_of :: "json \<Rightarrow> json list" where
  "caps_of snapshot \<equiv> jlist ''capabilities'' snapshot"

text \<open>The sets the code collects are lists here; only their elements matter.\<close>

definition flatten_capability_strings :: "json \<Rightarrow> string \<Rightarrow> string list" where
  "flatten_capability_strings snapshot key = only_strings (concat (map (jlist key) (caps_of snapshot)))"

definition tier_candidates :: "json \<Rightarrow> string list" where
  "tier_candidates snapshot = only_strings (jget0 ''advice_tier_max'' snapshot #
     map (jget0 ''advice_tier_max'') (caps_of snapshot))"

text \<open>\<open>max(candidates, key=tier_rank)\<close> ranks every candidate; an unknown tier raises.\<close>

definition highest_tier :: "json \<Rightarrow> string + string" where
  "highest_tier snapshot =
     (case tier_candidates snapshot of
        [] \<Rightarrow> Inr ''factual_extraction''
      | t # ts \<Rightarrow>
          (case find (\<lambda>x. isl (tier_rank x)) (t # ts) of
             Some bad \<Rightarrow> (case tier_rank bad of Inl e \<Rightarrow> Inl e | Inr _ \<Rightarrow> Inl [])
           | None \<Rightarrow> Inr (max_by (\<lambda>x. projr (tier_rank x)) t ts)))"

definition model_access_rank :: "json \<Rightarrow> int" where
  "model_access_rank v = (case v of
      JStr s \<Rightarrow> (case map_of MODEL_ACCESS_ORDER s of None \<Rightarrow> 0 | Some n \<Rightarrow> n) | _ \<Rightarrow> 0)"

definition max_model_access :: "json \<Rightarrow> json" where
  "max_model_access snapshot =
     (case map (jget_or ''model_access'' (JStr ''none'')) (caps_of snapshot) of
        [] \<Rightarrow> JStr ''none'' | l # ls \<Rightarrow> max_by model_access_rank l ls)"

definition any_external_network :: "json \<Rightarrow> bool" where
  "any_external_network snapshot = list_ex (\<lambda>cap. jget0 ''external_network'' cap = JBool True) (caps_of snapshot)"

definition all_destinations :: "json \<Rightarrow> string list" where
  "all_destinations snapshot =
     only_strings (jlist ''external_destinations'' (jget0 ''data_movement'' snapshot)
       @ concat (map (\<lambda>cap. jlist ''external_destinations'' (jget0 ''data_movement'' cap)) (caps_of snapshot)))"

definition all_gates :: "json \<Rightarrow> string list" where
  "all_gates snapshot =
     only_strings (jlist ''gates'' snapshot @ concat (map (jlist ''gates'') (caps_of snapshot)))"

text \<open>\<open>sorted(a - b)\<close> of two sets of strings.\<close>

definition sorted_difference :: "string list \<Rightarrow> string list \<Rightarrow> string list" where
  "sorted_difference a b = sort (remdups (filter (\<lambda>x. x \<notin> set b) a))"

definition detect_expansion :: "json \<Rightarrow> json \<Rightarrow> string + expansion_report" where
  "detect_expansion old new =
     (case highest_tier old of Inl e \<Rightarrow> Inl e | Inr old_tier \<Rightarrow>
      case highest_tier new of Inl e \<Rightarrow> Inl e | Inr new_tier \<Rightarrow>
        (let old_ma = max_model_access old; new_ma = max_model_access new
         in Inr \<lparr>er_reads_added = sorted_difference (flatten_capability_strings new ''reads'') (flatten_capability_strings old ''reads''),
              er_writes_added = sorted_difference (flatten_capability_strings new ''writes'') (flatten_capability_strings old ''writes''),
              er_tier_raised = (if projr (tier_rank new_tier) > projr (tier_rank old_tier)
                 then Some (old_tier, new_tier) else None),
              er_external_network_added = (any_external_network new \<and> \<not> any_external_network old),
              er_new_destinations = sorted_difference (all_destinations new) (all_destinations old),
              er_new_gates_added = sorted_difference (all_gates new) (all_gates old),
              er_new_gates_removed = sorted_difference (all_gates old) (all_gates new),
              er_model_access_raised = (if model_access_rank new_ma > model_access_rank old_ma
                 then Some (old_ma, new_ma) else None)\<rparr>))"

definition requires_reprompt :: "expansion_report \<Rightarrow> bool" where
  "requires_reprompt r = any_expansion r"

section \<open>Matter grants\<close>

record installed_module =
  im_module_id :: string
  im_version :: string
  im_manifest_snapshot :: json

datatype grant_error = CapabilityNotDeclared string | CapabilityScopeUnsupported string json

definition find_capability_declaration :: "json \<Rightarrow> string \<Rightarrow> json option" where
  "find_capability_declaration manifest cid = find (\<lambda>cap. jget0 ''id'' cap = JStr cid) (caps_of manifest)"

definition matter_grant_row ::
  "uuid \<Rightarrow> uuid \<Rightarrow> matter \<Rightarrow> installed_module \<Rightarrow> string \<Rightarrow> json \<Rightarrow> string \<Rightarrow> grant" where
  "matter_grant_row new_id user m im cid capability cap_string =
     \<lparr>g_id = new_id, g_user_id = user, g_plugin = im_module_id im, g_skill = cid, g_capability = cap_string,
      g_granted_by_user_id = Some user,
      g_capability_version = (case jget0 ''schema_version'' (im_manifest_snapshot im) of JStr v \<Rightarrow> Some v | _ \<Rightarrow> None),
      g_granted_at_module_version = Some (im_version im),
      g_permissions_snapshot = Some (JObj [(''matter_id'', JStr (m_id m)), (''capability_id'', JStr cid),
         (''parent_reads'', JList (jlist ''reads'' capability)), (''parent_writes'', JList (jlist ''writes'' capability))]),
      g_scope_type = ''matter'', g_scope_id = Some (m_id m)\<rparr>"

definition matter_grant_exists :: "uuid \<Rightarrow> string \<Rightarrow> string \<Rightarrow> string \<Rightarrow> uuid \<Rightarrow> grant \<Rightarrow> bool" where
  "matter_grant_exists user plugin skill cap mid g \<longleftrightarrow>
     grant_for user plugin skill cap g \<and> g_scope_type g = ''matter'' \<and> g_scope_id g = Some mid"

text \<open>
  The loop over the capability strings; the session flushes a pending row before the next
  query, so a string that occurs twice is found the second time.
\<close>

fun create_loop ::
  "(nat \<Rightarrow> uuid) \<Rightarrow> nat \<Rightarrow> uuid \<Rightarrow> matter \<Rightarrow> installed_module \<Rightarrow> string \<Rightarrow> json \<Rightarrow> string list
    \<Rightarrow> grant list \<times> grant list \<times> db \<Rightarrow> grant list \<times> grant list \<times> db" where
  "create_loop fresh n user m im cid capability [] (created, existing, d) = (created, existing, d)"
| "create_loop fresh n user m im cid capability (c # cs) (created, existing, d) =
     (case find (matter_grant_exists user (im_module_id im) cid c (m_id m)) (grants d) of
        Some row \<Rightarrow> create_loop fresh n user m im cid capability cs (created, existing @ [row], d)
      | None \<Rightarrow>
          (let row = matter_grant_row (fresh n) user m im cid capability c
           in create_loop fresh (Suc n) user m im cid capability cs
                (created @ [row], existing, d\<lparr>grants := grants d @ [row]\<rparr>)))"

definition grant_created_event :: "uuid \<Rightarrow> matter \<Rightarrow> installed_module \<Rightarrow> string \<Rightarrow> grant \<Rightarrow> audit_event" where
  "grant_created_event user m im cid row = (event0 ''module.grant.created'')
     \<lparr>ae_actor_id := Some user, ae_matter_id := Some (m_id m), ae_module := Some (im_module_id im),
      ae_resource_type := Some ''capability_grant'', ae_resource_id := Some (g_id row),
      ae_payload := JObj [(''module_id'', JStr (im_module_id im)), (''capability_id'', JStr cid),
        (''granted_capability'', JStr (g_capability row)), (''scope_type'', JStr ''matter''),
        (''scope_id'', JStr (m_id m)), (''module_version'', JStr (im_version im))]\<rparr>"

definition declared_strings :: "json \<Rightarrow> string list" where
  "declared_strings capability = only_strings (jlist ''reads'' capability) @ only_strings (jlist ''writes'' capability)"

definition create_grants_for_capability ::
  "(nat \<Rightarrow> uuid) \<Rightarrow> uuid \<Rightarrow> matter \<Rightarrow> installed_module \<Rightarrow> string \<Rightarrow> session
    \<Rightarrow> (grant_error + (grant list \<times> grant list)) \<times> session" where
  "create_grants_for_capability fresh user m im cid s =
     (case find_capability_declaration (im_manifest_snapshot im) cid of
        None \<Rightarrow> (Inl (CapabilityNotDeclared cid), s)
      | Some capability \<Rightarrow>
          if jget_or ''scope'' (JStr ''workspace'') capability \<noteq> JStr ''matter''
          then (Inl (CapabilityScopeUnsupported cid (jget_or ''scope'' (JStr ''workspace'') capability)), s)
          else (case create_loop fresh 0 user m im cid capability (declared_strings capability) ([], [], working s) of
                  (created, existing, d) \<Rightarrow>
                    (Inr (created, existing),
                     foldl (\<lambda>s row. audit_log (grant_created_event user m im cid row) s) (s\<lparr>working := d\<rparr>) created)))"

definition revoke_grant :: "uuid \<Rightarrow> matter \<Rightarrow> uuid \<Rightarrow> session \<Rightarrow> grant option \<times> session" where
  "revoke_grant user m grant_id s =
     (case find (\<lambda>g. g_id g = grant_id \<and> g_user_id g = user \<and> g_scope_type g = ''matter''
                   \<and> g_scope_id g = Some (m_id m)) (grants (working s)) of
        None \<Rightarrow> (None, s)
      | Some row \<Rightarrow>
          (Some row,
           audit_log ((event0 ''module.grant.revoked'')
             \<lparr>ae_actor_id := Some user, ae_matter_id := Some (m_id m), ae_module := Some (g_plugin row),
              ae_resource_type := Some ''capability_grant'', ae_resource_id := Some grant_id,
              ae_payload := JObj [(''module_id'', JStr (g_plugin row)),
                (''capability_id'', (case g_permissions_snapshot row of None \<Rightarrow> JNull
                     | Some p \<Rightarrow> jget0 ''capability_id'' p)),
                (''granted_capability'', JStr (g_capability row)), (''scope_type'', JStr ''matter''),
                (''scope_id'', JStr (m_id m)), (''reason'', JStr ''explicit_revoke'')]\<rparr>)
             (on_working (\<lambda>d. d\<lparr>grants := remove1 row (grants d)\<rparr>) s)))"

section \<open>When an update needs a new ceremony\<close>

lemma set_sorted_difference [simp]: "set (sorted_difference a b) = set a - set b"
  by (auto simp: sorted_difference_def)

lemma sorted_difference_empty: "sorted_difference a b = [] \<longleftrightarrow> set a \<subseteq> set b"
  by (metis set_sorted_difference set_empty Diff_eq_empty_iff)

definition rank_of :: "string \<Rightarrow> int" where
  "rank_of t = projr (tier_rank t)"

lemma isl_tier_rank: "isl (tier_rank t) \<longleftrightarrow> \<not> known_tier t"
  using tier_rank_known [of t] by (auto simp: tier_rank_def assert_tier_def known_tier_def split: option.splits)

lemma highest_tier_Inr:
  assumes "highest_tier s = Inr t"
  shows "known_tier t" and "\<forall>c\<in>set (tier_candidates s). known_tier c \<and> rank_of c \<le> rank_of t"
    and "t \<in> set (tier_candidates s) \<or> tier_candidates s = [] \<and> t = ''factual_extraction''"
proof -
  have facts: "known_tier t \<and> (\<forall>c\<in>set (tier_candidates s). known_tier c \<and> rank_of c \<le> rank_of t)
      \<and> (t \<in> set (tier_candidates s) \<or> tier_candidates s = [] \<and> t = ''factual_extraction'')"
  proof (cases "tier_candidates s")
    case Nil
    with assms show ?thesis by (auto simp: highest_tier_def known_tier_def tier_rank_table_def)
  next
    case (Cons c cs)
    with assms have none: "find (\<lambda>x. isl (tier_rank x)) (c # cs) = None"
      and t: "t = max_by rank_of c cs"
      by (auto simp: highest_tier_def rank_of_def [abs_def] split: option.splits sum.splits)
    from none have known: "\<forall>x\<in>set (c # cs). known_tier x" unfolding find_None_iff isl_tier_rank by blast
    with t Cons max_by_in [of rank_of c cs] max_by_ge [of _ c cs rank_of] show ?thesis by auto
  qed
  show "known_tier t" using facts by blast
  show "\<forall>c\<in>set (tier_candidates s). known_tier c \<and> rank_of c \<le> rank_of t" using facts by blast
  show "t \<in> set (tier_candidates s) \<or> tier_candidates s = [] \<and> t = ''factual_extraction''" using facts by blast
qed

lemma highest_tier_total: "\<forall>c\<in>set (tier_candidates s). known_tier c \<Longrightarrow> \<exists>t. highest_tier s = Inr t"
proof (cases "tier_candidates s")
  case (Cons c cs)
  assume "\<forall>c\<in>set (tier_candidates s). known_tier c"
  with Cons have "find (\<lambda>x. isl (tier_rank x)) (c # cs) = None" by (auto simp: find_None_iff isl_tier_rank)
  with Cons show ?thesis by (simp add: highest_tier_def del: find.simps)
qed (simp add: highest_tier_def)

definition tiers_known :: "json \<Rightarrow> bool" where
  "tiers_known s \<longleftrightarrow> (\<forall>c\<in>set (tier_candidates s). known_tier c)"

text \<open>The rank of the highest tier: the maximum over the candidates, and at least the lowest rank.\<close>

definition tier_ceiling :: "json \<Rightarrow> int" where
  "tier_ceiling s = (if tier_candidates s = [] then 1 else Max (rank_of ` set (tier_candidates s)))"

lemma highest_tier_ceiling: "highest_tier s = Inr t \<Longrightarrow> rank_of t = tier_ceiling s"
proof -
  assume t: "highest_tier s = Inr t"
  show ?thesis
  proof (cases "tier_candidates s = []")
    case True
    with highest_tier_Inr(3) [OF t] show ?thesis
      by (simp add: tier_ceiling_def rank_of_def tier_rank_def assert_tier_def tier_rank_table_def)
  next
    case False
    with highest_tier_Inr(2,3) [OF t] have "Max (rank_of ` set (tier_candidates s)) = rank_of t"
      by (intro Max_eqI) auto
    with False show ?thesis by (simp add: tier_ceiling_def)
  qed
qed

text \<open>One snapshot grants no more than another, in the seven dimensions of the report.\<close>

definition no_more_than :: "json \<Rightarrow> json \<Rightarrow> bool" where
  "no_more_than new old \<longleftrightarrow>
     set (flatten_capability_strings new ''reads'') \<subseteq> set (flatten_capability_strings old ''reads'')
     \<and> set (flatten_capability_strings new ''writes'') \<subseteq> set (flatten_capability_strings old ''writes'')
     \<and> tier_ceiling new \<le> tier_ceiling old \<and> (any_external_network new \<longrightarrow> any_external_network old)
     \<and> set (all_destinations new) \<subseteq> set (all_destinations old) \<and> set (all_gates new) \<subseteq> set (all_gates old)
     \<and> model_access_rank (max_model_access new) \<le> model_access_rank (max_model_access old)"

lemma detect_expansion_total:
  "(\<exists>r. detect_expansion old new = Inr r) \<longleftrightarrow> tiers_known old \<and> tiers_known new"
proof -
  have tot: "(\<exists>t. highest_tier s = Inr t) \<longleftrightarrow> tiers_known s" for s
    using highest_tier_total [of s] highest_tier_Inr(2) [of s] by (auto simp: tiers_known_def)
  have "(\<exists>r. detect_expansion old new = Inr r) \<longleftrightarrow> (\<exists>t. highest_tier old = Inr t) \<and> (\<exists>t. highest_tier new = Inr t)"
    by (auto simp: detect_expansion_def Let_def split: sum.splits)
  then show ?thesis by (simp add: tot)
qed

lemma reprompt_iff:
  "detect_expansion old new = Inr r \<Longrightarrow> requires_reprompt r \<longleftrightarrow> \<not> no_more_than new old"
  by (auto simp: detect_expansion_def requires_reprompt_def any_expansion_def no_more_than_def Let_def
      sorted_difference_empty highest_tier_ceiling rank_of_def [symmetric] split: sum.splits)

lemma no_more_than_trans: "no_more_than a b \<Longrightarrow> no_more_than b c \<Longrightarrow> no_more_than a c"
  by (auto simp: no_more_than_def)


text \<open>Silent updates cannot be chained into an expansion: if two successive updates each need no new
  ceremony, then neither does the update from the first version to the last.\<close>

theorem silent_updates_compose:
  assumes "detect_expansion v1 v2 = Inr r12" and "\<not> requires_reprompt r12"
    and "detect_expansion v2 v3 = Inr r23" and "\<not> requires_reprompt r23"
  shows "\<exists>r13. detect_expansion v1 v3 = Inr r13 \<and> \<not> requires_reprompt r13"
proof -
  have "tiers_known v1" "tiers_known v3"
    using assms(1,3) detect_expansion_total [of v1 v2] detect_expansion_total [of v2 v3] by blast+
  moreover have "no_more_than v3 v1"
    using assms reprompt_iff [OF assms(1)] reprompt_iff [OF assms(3)] no_more_than_trans by blast
  ultimately show ?thesis using detect_expansion_total [of v1 v3] reprompt_iff by blast
qed

definition gated :: json where
  "gated = JObj [(''capabilities'', JList [JObj [(''id'', JStr ''c''), (''reads'', JList [JStr ''matter.read'']),
     (''advice_tier_max'', JStr ''draft_advice''), (''model_access'', JStr ''required''), (''gates'', JList [JStr ''review''])]])]"

definition ungated :: json where
  "ungated = JObj [(''capabilities'', JList [JObj [(''id'', JStr ''c''), (''reads'', JList [JStr ''matter.read'']),
     (''advice_tier_max'', JStr ''draft_advice''), (''model_access'', JStr ''delegated''), (''gates'', JList [])]])]"

lemmas sample_snapshots = gated_def ungated_def jlist_def jget0_def jget_def jget_or_def

lemma sample_known: "tiers_known gated" "tiers_known ungated"
  by (simp_all add: sample_snapshots tiers_known_def tier_candidates_def known_tier_def tier_rank_table_def)

lemma sample_no_more: "no_more_than ungated gated"
  by (simp add: no_more_than_def sample_snapshots flatten_capability_strings_def tier_ceiling_def tier_candidates_def
      any_external_network_def all_destinations_def all_gates_def max_model_access_def model_access_rank_def
      MODEL_ACCESS_ORDER_def)


text \<open>An update that drops a capability's only gate and moves its model access from required to delegated
  needs no new ceremony, although the report lists the removed gate.\<close>

theorem gate_removal_is_silent:
  "\<exists>r. detect_expansion gated ungated = Inr r \<and> er_new_gates_removed r = [''review''] \<and> \<not> requires_reprompt r"
proof -
  obtain r where r: "detect_expansion gated ungated = Inr r" using sample_known detect_expansion_total by blast
  with reprompt_iff [OF r] sample_no_more have "\<not> requires_reprompt r" by simp
  moreover have "er_new_gates_removed r = sorted_difference (all_gates gated) (all_gates ungated)"
    using r by (auto simp: detect_expansion_def Let_def split: sum.splits)
  moreover have "sorted_difference (all_gates gated) (all_gates ungated) = [''review'']"
    by (simp add: sorted_difference_def all_gates_def sample_snapshots)
  ultimately show ?thesis using r by auto
qed

lemma sample_silent: "\<exists>r. detect_expansion gated ungated = Inr r \<and> \<not> requires_reprompt r"
  using sample_known detect_expansion_total reprompt_iff sample_no_more by blast

lemma sample_silent_same: "\<exists>r. detect_expansion ungated ungated = Inr r \<and> \<not> requires_reprompt r"
proof -
  have "no_more_than ungated ungated" by (simp add: no_more_than_def)
  then show ?thesis using sample_known detect_expansion_total reprompt_iff by blast
qed

lemma silent_updates_compose_witness:
  "\<exists>r13. detect_expansion gated ungated = Inr r13 \<and> \<not> requires_reprompt r13"
proof -
  obtain r12 r23 where "detect_expansion gated ungated = Inr r12" "\<not> requires_reprompt r12"
    "detect_expansion ungated ungated = Inr r23" "\<not> requires_reprompt r23"
    using sample_silent sample_silent_same by blast
  from silent_updates_compose [OF this] show ?thesis .
qed

section \<open>Granting and revoking for a matter\<close>

lemma append_grant_granted:
  assumes "grants_ok d" and "grant_check g" and "grant_key g \<notin> set (map grant_key (grants d))"
  shows "grants_ok (d\<lparr>grants := grants d @ [g]\<rparr>)"
    and "granted_at u p sk c mid (d\<lparr>grants := grants d @ [g]\<rparr>) \<longleftrightarrow> granted_at u p sk c mid d
       \<or> (grant_for u p sk c g \<and> mid = g_scope_id g)"
proof -
  have "insert_grant_on_conflict_do_nothing g d = Inr (d\<lparr>grants := grants d @ [g]\<rparr>)"
    using assms(2,3) by (simp add: insert_grant_on_conflict_do_nothing_def)
  from insert_grant_ok [OF assms(1) this] insert_grant_granted [OF this]
  show "grants_ok (d\<lparr>grants := grants d @ [g]\<rparr>)"
    and "granted_at u p sk c mid (d\<lparr>grants := grants d @ [g]\<rparr>) \<longleftrightarrow> granted_at u p sk c mid d
       \<or> (grant_for u p sk c g \<and> mid = g_scope_id g)" by simp_all
qed

lemma matter_grant_row_facts [simp]:
  "grant_check (matter_grant_row i u m im cid cap c)"
  "grant_for u' p sk c' (matter_grant_row i u m im cid cap c) \<longleftrightarrow> u' = u \<and> p = im_module_id im \<and> sk = cid \<and> c' = c"
  "g_scope_id (matter_grant_row i u m im cid cap c) = Some (m_id m)"
  "g_capability (matter_grant_row i u m im cid cap c) = c"
  by (auto simp: matter_grant_row_def grant_check_def grant_for_def)

lemma matter_grant_exists_iff:
  assumes "grants_ok d"
  shows "find (matter_grant_exists u p sk c mid) (grants d) = None \<longleftrightarrow> \<not> granted_at u p sk c (Some mid) d"
  by (auto simp: granted_at_def list_ex_iff find_None_iff matter_grant_exists_def)

lemma matter_row_key_fresh:
  assumes "\<not> granted_at u (im_module_id im) cid c (Some (m_id m)) d"
  shows "grant_key (matter_grant_row i u m im cid cap c) \<notin> set (map grant_key (grants d))"
  using assms by (auto simp: granted_at_def list_ex_iff matter_grant_row_def grant_key_def grant_for_def)

lemma create_loop_spec:
  assumes "grants_ok d"
    and "create_loop fresh n user m im cid cap cs (created, existing, d) = (created', existing', d')"
  shows "\<exists>new. created' = created @ new \<and> d' = d\<lparr>grants := grants d @ new\<rparr> \<and> grants_ok d'
    \<and> (\<forall>c. c \<in> g_capability ` set new \<longleftrightarrow> c \<in> set cs \<and> \<not> granted_at user (im_module_id im) cid c (Some (m_id m)) d)
    \<and> (\<forall>u p sk c mid. granted_at u p sk c mid d' \<longleftrightarrow> granted_at u p sk c mid d
        \<or> (u = user \<and> p = im_module_id im \<and> sk = cid \<and> mid = Some (m_id m) \<and> c \<in> set cs))"
  using assms
proof (induction cs arbitrary: n created existing d)
  case Nil
  then show ?case by (intro exI [where x = "[]"]) auto
next
  case (Cons c cs)
  let ?granted = "\<lambda>c d. granted_at user (im_module_id im) cid c (Some (m_id m)) d"
  show ?case
  proof (cases "find (matter_grant_exists user (im_module_id im) cid c (m_id m)) (grants d)")
    case (Some row)
    then have g: "?granted c d" using matter_grant_exists_iff [OF Cons.prems(1)] by (metis option.distinct(1))
    from Cons.prems(2) Some have "create_loop fresh n user m im cid cap cs (created, existing @ [row], d) = (created', existing', d')"
      by simp
    from Cons.IH [OF Cons.prems(1) this] g show ?thesis by auto
  next
    case None
    then have g: "\<not> ?granted c d" using matter_grant_exists_iff [OF Cons.prems(1)] by blast
    let ?row = "matter_grant_row (fresh n) user m im cid cap c"
    let ?d = "d\<lparr>grants := grants d @ [?row]\<rparr>"
    note app = append_grant_granted [OF Cons.prems(1) matter_grant_row_facts(1) matter_row_key_fresh [OF g],
        where i1 = "fresh n" and cap1 = cap]
    from Cons.prems(2) None have
      "create_loop fresh (Suc n) user m im cid cap cs (created @ [?row], existing, ?d) = (created', existing', d')"
      by (simp add: Let_def)
    from Cons.IH [OF app(1) this] obtain new where new: "created' = (created @ [?row]) @ new"
      "d' = ?d\<lparr>grants := grants ?d @ new\<rparr>" "grants_ok d'"
      "\<forall>x. x \<in> g_capability ` set new \<longleftrightarrow> x \<in> set cs \<and> \<not> ?granted x ?d"
      "\<forall>u p sk x mid. granted_at u p sk x mid d' \<longleftrightarrow> granted_at u p sk x mid ?d
        \<or> (u = user \<and> p = im_module_id im \<and> sk = cid \<and> mid = Some (m_id m) \<and> x \<in> set cs)" by blast
    have "x \<in> g_capability ` set (?row # new) \<longleftrightarrow> x \<in> set (c # cs) \<and> \<not> ?granted x d" for x
      using new(4) app(2) [of user "im_module_id im" cid x "Some (m_id m)"] g by auto
    moreover have "granted_at u p sk x mid d' \<longleftrightarrow> granted_at u p sk x mid d
        \<or> (u = user \<and> p = im_module_id im \<and> sk = cid \<and> mid = Some (m_id m) \<and> x \<in> set (c # cs))" for u p sk x mid
      unfolding new(5) [rule_format] app(2) by auto
    moreover have "created' = created @ ?row # new" "d' = d\<lparr>grants := grants d @ ?row # new\<rparr>" using new(1,2) by simp_all
    ultimately show ?thesis using new(3) by blast
  qed
qed

lemma foldl_audit_log:
  "working (foldl (\<lambda>s row. audit_log (f row) s) s rows)
     = (working s)\<lparr>audit_rows := audit_rows (working s) @ map (\<lambda>r. stamp s (f r)) rows\<rparr>"
proof (induction rows arbitrary: s)
  case (Cons r rows)
  have "stamp (audit_log (f r) s) = stamp s" by (simp add: stamp_def fun_eq_iff)
  with Cons show ?case by (simp add: add_event_def)
qed simp

lemma grants_ok_audit [simp]: "grants_ok (d\<lparr>audit_rows := x\<rparr>) = grants_ok d"
  "granted_at u p sk c mid (d\<lparr>audit_rows := x\<rparr>) = granted_at u p sk c mid d"
  by (simp_all add: grants_ok_def granted_at_def)

lemma create_grants_spec:
  assumes "grants_ok (working s)"
    and "find_capability_declaration (im_manifest_snapshot im) cid = Some cap"
    and "jget0 ''scope'' cap = JStr ''matter''"
  shows "\<exists>created existing s'. create_grants_for_capability fresh user m im cid s = (Inr (created, existing), s')
    \<and> grants_ok (working s')
    \<and> (\<forall>u p sk c mid. granted_at u p sk c mid (working s') \<longleftrightarrow> granted_at u p sk c mid (working s)
        \<or> (u = user \<and> p = im_module_id im \<and> sk = cid \<and> mid = Some (m_id m) \<and> c \<in> set (declared_strings cap)))
    \<and> audit_rows (working s') = audit_rows (working s) @ map (\<lambda>r. stamp s (grant_created_event user m im cid r)) created
    \<and> g_capability ` set created = {c \<in> set (declared_strings cap).
         \<not> granted_at user (im_module_id im) cid c (Some (m_id m)) (working s)}"
proof -
  obtain created existing d where loop: "create_loop fresh 0 user m im cid cap (declared_strings cap) ([], [], working s)
      = (created, existing, d)" by (metis prod_cases3)
  from create_loop_spec [OF assms(1) loop] have spec: "d = (working s)\<lparr>grants := grants (working s) @ created\<rparr>" "grants_ok d"
    "\<forall>c. c \<in> g_capability ` set created \<longleftrightarrow> c \<in> set (declared_strings cap)
        \<and> \<not> granted_at user (im_module_id im) cid c (Some (m_id m)) (working s)"
    "\<forall>u p sk c mid. granted_at u p sk c mid d \<longleftrightarrow> granted_at u p sk c mid (working s)
        \<or> (u = user \<and> p = im_module_id im \<and> sk = cid \<and> mid = Some (m_id m) \<and> c \<in> set (declared_strings cap))"
    by auto
  let ?s = "foldl (\<lambda>s row. audit_log (grant_created_event user m im cid row) s) (s\<lparr>working := d\<rparr>) created"
  have "jget_or ''scope'' (JStr ''workspace'') cap = JStr ''matter''"
    using assms(3) by (auto simp: jget0_def jget_or_def split: option.splits)
  then have run: "create_grants_for_capability fresh user m im cid s = (Inr (created, existing), ?s)"
    using assms(2) loop by (simp add: create_grants_for_capability_def)
  have "stamp (s\<lparr>working := d\<rparr>) = stamp s" by (simp add: stamp_def fun_eq_iff)
  then have w: "working ?s = d\<lparr>audit_rows := audit_rows (working s) @ map (\<lambda>r. stamp s (grant_created_event user m im cid r)) created\<rparr>"
    unfolding foldl_audit_log by (simp add: spec(1))
  have set_eq: "g_capability ` set created = {c \<in> set (declared_strings cap).
      \<not> granted_at user (im_module_id im) cid c (Some (m_id m)) (working s)}" using spec(3) by blast
  have ok: "grants_ok (working ?s)" and rows: "audit_rows (working ?s) = audit_rows (working s)
      @ map (\<lambda>r. stamp s (grant_created_event user m im cid r)) created"
    and same: "granted_at u p sk c mid (working ?s) = granted_at u p sk c mid d" for u p sk c mid
    using spec(2) by (simp_all add: w)
  show ?thesis
    using run ok rows set_eq spec(4) unfolding same [symmetric] by blast
qed

text \<open>Granting a matter capability gives its holder exactly the declared read and write strings, on that
  matter only, keeps the table's constraints, and logs one row per grant that is new: repeating the
  request creates nothing and logs nothing.\<close>

theorem matter_grants_exact:
  assumes "grants_ok (working s)"
    and "find_capability_declaration (im_manifest_snapshot im) cid = Some cap"
    and "jget0 ''scope'' cap = JStr ''matter''"
  shows "\<exists>created existing s'. create_grants_for_capability fresh user m im cid s = (Inr (created, existing), s')
    \<and> grants_ok (working s')
    \<and> (\<forall>u p sk c mid. granted_at u p sk c mid (working s') \<longleftrightarrow> granted_at u p sk c mid (working s)
        \<or> (u = user \<and> p = im_module_id im \<and> sk = cid \<and> mid = Some (m_id m) \<and> c \<in> set (declared_strings cap)))
    \<and> length (audit_rows (working s')) = length (audit_rows (working s)) + length created
    \<and> (\<exists>existing2 s''. create_grants_for_capability fresh2 user m im cid s' = (Inr ([], existing2), s'')
         \<and> audit_rows (working s'') = audit_rows (working s'))"
proof -
  obtain created existing s' where first: "create_grants_for_capability fresh user m im cid s = (Inr (created, existing), s')"
    "grants_ok (working s')"
    "\<forall>u p sk c mid. granted_at u p sk c mid (working s') \<longleftrightarrow> granted_at u p sk c mid (working s)
        \<or> (u = user \<and> p = im_module_id im \<and> sk = cid \<and> mid = Some (m_id m) \<and> c \<in> set (declared_strings cap))"
    "audit_rows (working s') = audit_rows (working s) @ map (\<lambda>r. stamp s (grant_created_event user m im cid r)) created"
    using create_grants_spec [OF assms, of fresh user m] by (elim exE conjE) (rule that; assumption)
  obtain created2 existing2 s'' where second: "create_grants_for_capability fresh2 user m im cid s' = (Inr (created2, existing2), s'')"
    "audit_rows (working s'') = audit_rows (working s') @ map (\<lambda>r. stamp s' (grant_created_event user m im cid r)) created2"
    "g_capability ` set created2 = {c \<in> set (declared_strings cap).
       \<not> granted_at user (im_module_id im) cid c (Some (m_id m)) (working s')}"
    using create_grants_spec [OF first(2) assms(2,3), of fresh2 user m] by (elim exE conjE) (rule that; assumption)
  have "g_capability ` set created2 = {}" unfolding second(3) using first(3) by blast
  then have none: "created2 = []" by simp
  have "create_grants_for_capability fresh2 user m im cid s' = (Inr ([], existing2), s'')"
    "audit_rows (working s'') = audit_rows (working s')"
    using second(1,2) unfolding none by simp_all
  moreover have "length (audit_rows (working s')) = length (audit_rows (working s)) + length created"
    unfolding first(4) by simp
  ultimately show ?thesis using first(1-3) by blast
qed

lemma revoke_row_spec:
  assumes "grants_ok d" and "row \<in> set (grants d)"
  shows "grants_ok (d\<lparr>grants := remove1 row (grants d)\<rparr>)"
    and "granted_at u p sk c mid (d\<lparr>grants := remove1 row (grants d)\<rparr>) \<longleftrightarrow> granted_at u p sk c mid d
       \<and> \<not> (grant_for u p sk c row \<and> g_scope_id row = mid)"
proof -
  let ?d = "d\<lparr>grants := remove1 row (grants d)\<rparr>"
  have inj: "inj_on grant_key (set (grants d))" "distinct (grants d)"
    using assms(1) by (simp_all add: grants_ok_def distinct_map)
  have chk: "grant_check g" if "g \<in> set (grants d)" for g using assms(1) that by (simp add: grants_ok_def list_all_iff)
  have rows: "set (grants ?d) = set (grants d) - {row}" using inj(2) by simp
  show ok: "grants_ok ?d"
    using inj assms(1) rows by (auto simp: grants_ok_def distinct_map list_all_iff intro: inj_on_subset)
  have "g = row" if "g \<in> set (grants d)" "grant_for u p sk c g" "grant_for u p sk c row" "g_scope_id g = g_scope_id row" for g
    by (rule inj_onD [OF inj(1) _ that(1) assms(2)])
      (use that chk [OF that(1)] chk [OF assms(2)] in \<open>auto simp: grant_key_def grant_for_def grant_check_def\<close>)
  then show "granted_at u p sk c mid ?d \<longleftrightarrow> granted_at u p sk c mid d \<and> \<not> (grant_for u p sk c row \<and> g_scope_id row = mid)"
    unfolding granted_at_row [OF ok] granted_at_row [OF assms(1)] rows by blast
qed

text \<open>Revoking by row id takes away only a grant that belongs to the user and to that matter, and exactly
  that one capability at that matter; any other id, a foreign grant included, changes nothing.\<close>

theorem revoke_grant_exact:
  assumes "grants_ok (working s)"
  shows "case revoke_grant user m gid s of
      (None, s') \<Rightarrow> s' = s \<and> \<not> (\<exists>g\<in>set (grants (working s)). g_id g = gid \<and> g_user_id g = user \<and> g_scope_id g = Some (m_id m))
    | (Some row, s') \<Rightarrow> g_id row = gid \<and> g_user_id row = user \<and> g_scope_id row = Some (m_id m) \<and> grants_ok (working s')
        \<and> (\<forall>u p sk c mid. granted_at u p sk c mid (working s') \<longleftrightarrow> granted_at u p sk c mid (working s)
             \<and> \<not> (grant_for u p sk c row \<and> mid = Some (m_id m)))"
proof (cases "find (\<lambda>g. g_id g = gid \<and> g_user_id g = user \<and> g_scope_type g = ''matter''
    \<and> g_scope_id g = Some (m_id m)) (grants (working s))")
  case None
  have "g_scope_type g = ''matter''" if "g \<in> set (grants (working s))" "g_scope_id g = Some (m_id m)" for g
    using assms that by (auto simp: grants_ok_def list_all_iff grant_check_def)
  with find_NoneD [OF None] have "\<not> (\<exists>g\<in>set (grants (working s)). g_id g = gid \<and> g_user_id g = user
      \<and> g_scope_id g = Some (m_id m))" by blast
  moreover have "revoke_grant user m gid s = (None, s)" using None by (simp add: revoke_grant_def)
  ultimately show ?thesis by simp
next
  case (Some row)
  from find_SomeD [OF Some] have row: "row \<in> set (grants (working s))" "g_id row = gid" "g_user_id row = user"
    "g_scope_id row = Some (m_id m)" by auto
  note spec = revoke_row_spec [OF assms row(1)]
  obtain e where eq: "revoke_grant user m gid s = (Some row, audit_log e (on_working (\<lambda>d. d\<lparr>grants := remove1 row (grants d)\<rparr>) s))"
    using Some by (simp add: revoke_grant_def)
  show ?thesis
    using row spec by (auto simp: eq add_event_def)
qed

definition sample_module :: installed_module where
  "sample_module = \<lparr>im_module_id = ''mod'', im_version = ''1'', im_manifest_snapshot =
     JObj [(''capabilities'', JList [JObj [(''id'', JStr ''c''), (''scope'', JStr ''matter''),
       (''reads'', JList [JStr ''matter.read'']), (''writes'', JList [JStr ''matter.read'', JStr ''citation.write''])]])]\<rparr>"

lemma matter_grants_exact_witness:
  "\<exists>created existing s'. create_grants_for_capability (\<lambda>n. nat_str n) ''u'' (sample_matter ''A_cleared'') sample_module ''c''
      (open_session empty_db 0) = (Inr (created, existing), s')
    \<and> granted_at ''u'' ''mod'' ''c'' ''citation.write'' (Some ''m'') (working s')"
proof -
  let ?s = "open_session empty_db 0"
  obtain cap where cap: "find_capability_declaration (im_manifest_snapshot sample_module) ''c'' = Some cap"
    "jget0 ''scope'' cap = JStr ''matter''" "''citation.write'' \<in> set (declared_strings cap)"
    by (simp add: find_capability_declaration_def sample_module_def jlist_def jget_def jget0_def declared_strings_def)
  have ok: "grants_ok (working ?s)" by (simp add: grants_ok_def open_session_def empty_db_def)
  obtain created existing s' where "create_grants_for_capability (\<lambda>n. nat_str n) ''u'' (sample_matter ''A_cleared'') sample_module ''c'' ?s
      = (Inr (created, existing), s')"
    "\<forall>u p sk c mid. granted_at u p sk c mid (working s') \<longleftrightarrow> granted_at u p sk c mid (working ?s)
        \<or> (u = ''u'' \<and> p = im_module_id sample_module \<and> sk = ''c'' \<and> mid = Some (m_id (sample_matter ''A_cleared''))
            \<and> c \<in> set (declared_strings cap))"
    using matter_grants_exact [OF ok cap(1,2), of "\<lambda>n. nat_str n" "''u''" "sample_matter ''A_cleared''" "\<lambda>n. nat_str n"] by blast
  then show ?thesis using cap(3) by (auto simp: sample_module_def sample_matter_def)
qed

lemma revoke_grant_exact_witness:
  "fst (revoke_grant ''u'' (sample_matter ''A_cleared'') ''2'' ((open_session empty_db 0)\<lparr>working := two_matters\<rparr>)) = None"
proof -
  let ?s = "(open_session empty_db 0)\<lparr>working := two_matters\<rparr>"
  have "grants_ok (working ?s)" by (simp add: two_matters_ok)
  from revoke_grant_exact [OF this, where user = "''u''" and m = "sample_matter ''A_cleared''" and gid = "''2''"]
  show ?thesis
    by (auto simp: two_matters_def sample_grant_def sample_matter_def revoke_grant_def split: prod.splits option.splits)
qed

end
