(* ===== verification/Artifacts.thy ===== *)
theory Artifacts
  imports Database
begin

text \<open>
  Where artifact bytes live: the key helpers of \<open>app/core/storage.py\<close>, the storage backend
  as a map from keys to bytes (the contract its \<open>StorageBackend\<close> protocol states), and the
  loader of \<open>app/core/matter_artifacts.py\<close>. A byte string is a \<open>string\<close> whose characters are
  the bytes.
\<close>

type_synonym bytes = string
type_synonym object_store = "string \<rightharpoonup> bytes"

section \<open>Object keys\<close>

definition safe_char :: "char \<Rightarrow> bool" where
  "safe_char c \<longleftrightarrow>
     (let n = (of_char c :: nat)
      in 65 \<le> n \<and> n \<le> 90 \<or> 97 \<le> n \<and> n \<le> 122 \<or> 48 \<le> n \<and> n \<le> 57 \<or> c \<in> {CHR ''.'', CHR ''_'', CHR ''-''})"

definition sanitise_filename :: "string \<Rightarrow> nat \<Rightarrow> string" where
  "sanitise_filename name max_len =
     (let cleaned = take max_len (map (\<lambda>c. if safe_char c then c else CHR ''_'') name)
      in if cleaned = [] then ''file'' else cleaned)"

definition matter_prefix :: "uuid \<Rightarrow> uuid \<Rightarrow> string" where
  "matter_prefix user_id matter_id = ''users/'' @ user_id @ ''/matters/'' @ matter_id @ ''/''"

definition document_prefix :: "uuid \<Rightarrow> uuid \<Rightarrow> uuid \<Rightarrow> string" where
  "document_prefix user_id matter_id document_id =
     ''users/'' @ user_id @ ''/matters/'' @ matter_id @ ''/documents/'' @ document_id @ ''/''"

definition uploaded_key :: "uuid \<Rightarrow> uuid \<Rightarrow> uuid \<Rightarrow> string \<Rightarrow> string" where
  "uploaded_key user_id matter_id document_id sha256 =
     ''users/'' @ user_id @ ''/matters/'' @ matter_id @ ''/documents/'' @ document_id @ ''/'' @ sha256"

definition generated_key :: "uuid \<Rightarrow> uuid \<Rightarrow> uuid \<Rightarrow> string \<Rightarrow> string" where
  "generated_key user_id matter_id document_id filename =
     ''users/'' @ user_id @ ''/matters/'' @ matter_id @ ''/generated/'' @ document_id @ ''/''
       @ sanitise_filename filename 100"

definition document_asset_key :: "uuid \<Rightarrow> uuid \<Rightarrow> uuid \<Rightarrow> uuid \<Rightarrow> string \<Rightarrow> string" where
  "document_asset_key user_id matter_id document_id asset_id filename =
     ''users/'' @ user_id @ ''/matters/'' @ matter_id @ ''/documents/'' @ document_id @ ''/assets/''
       @ asset_id @ ''/'' @ sanitise_filename filename 100"

definition artifact_key :: "uuid \<Rightarrow> uuid \<Rightarrow> uuid \<Rightarrow> string \<Rightarrow> string \<Rightarrow> string" where
  "artifact_key user_id matter_id artifact_id capability_id kind =
     ''users/'' @ user_id @ ''/matters/'' @ matter_id @ ''/artifacts/'' @ sanitise_filename capability_id 100
       @ ''/'' @ artifact_id @ ''_'' @ sanitise_filename kind 100 @ ''.json''"

section \<open>The storage backend\<close>

definition delete_prefix :: "string \<Rightarrow> object_store \<Rightarrow> object_store" where
  "delete_prefix prefix store = (\<lambda>k. if starts_with prefix k then None else store k)"

text \<open>The loader: None is \<open>ArtifactBytesUnavailable\<close>.\<close>

definition is_legacy_path :: "string \<Rightarrow> bool" where
  "is_legacy_path path = starts_with ''/'' path"

definition load_artifact_bytes :: "object_store \<Rightarrow> string \<Rightarrow> bytes option" where
  "load_artifact_bytes store path = (if is_legacy_path path then None else store path)"

section \<open>Keys of different matters never meet\<close>

lemma safe_char_no_slash: "safe_char c \<Longrightarrow> c \<noteq> CHR ''/''"
  by (auto simp: safe_char_def Let_def)

lemma sanitise_no_slash: "CHR ''/'' \<notin> set (sanitise_filename name n)"
  by (auto simp: sanitise_filename_def Let_def dest!: in_set_takeD safe_char_no_slash split: if_splits)

lemma split_prefix:
  assumes "CHR ''/'' \<notin> set x" and "CHR ''/'' \<notin> set x'" and "x @ CHR ''/'' # y = x' @ CHR ''/'' # y'"
  shows "x = x' \<and> y = y'"
  using split_at_first [OF assms(3,1,2)] .

text \<open>What every key helper builds: a path below the prefix of its matter.\<close>

definition matter_keys :: "uuid \<Rightarrow> uuid \<Rightarrow> string set" where
  "matter_keys u m = {k. \<exists>rest. k = matter_prefix u m @ rest}"

lemma keys_in_matter [simp, intro]:
  "uploaded_key u m d h \<in> matter_keys u m"
  "generated_key u m d f \<in> matter_keys u m"
  "document_asset_key u m d a f \<in> matter_keys u m"
  "artifact_key u m a c k \<in> matter_keys u m"
  by (simp_all add: matter_keys_def matter_prefix_def uploaded_key_def generated_key_def
      document_asset_key_def artifact_key_def)

lemma matter_keys_disjoint:
  assumes "CHR ''/'' \<notin> set u" "CHR ''/'' \<notin> set u'" "CHR ''/'' \<notin> set m" "CHR ''/'' \<notin> set m'"
    and "k \<in> matter_keys u m" "k \<in> matter_keys u' m'"
  shows "u = u' \<and> m = m'"
proof -
  from assms(5,6) obtain r r' where
    "u @ CHR ''/'' # (''matters/'' @ m @ CHR ''/'' # r) = u' @ CHR ''/'' # (''matters/'' @ m' @ CHR ''/'' # r')"
    by (auto simp: matter_keys_def matter_prefix_def)
  from split_prefix [OF assms(1,2) this] have "u = u'" and
    "m @ CHR ''/'' # r = m' @ CHR ''/'' # r'" by simp_all
  with split_prefix [OF assms(3,4)] show ?thesis by blast
qed

lemma delete_prefix_sweeps: "k \<in> matter_keys u m \<Longrightarrow> delete_prefix (matter_prefix u m) store k = None"
  by (auto simp: delete_prefix_def starts_with_iff matter_keys_def)

lemma delete_prefix_spares:
  assumes "k \<in> matter_keys u' m'" and "(u, m) \<noteq> (u', m')"
    and "CHR ''/'' \<notin> set u" "CHR ''/'' \<notin> set u'" "CHR ''/'' \<notin> set m" "CHR ''/'' \<notin> set m'"
  shows "delete_prefix (matter_prefix u m) store k = store k"
proof -
  have "k \<notin> matter_keys u m"
    using matter_keys_disjoint [OF assms(3,4,5,6) _ assms(1)] assms(2) by blast
  then have "\<not> starts_with (matter_prefix u m) k" by (simp add: starts_with_iff matter_keys_def)
  then show ?thesis by (simp add: delete_prefix_def)
qed

text \<open>A key names its object: the segments, and within the last one the fixed-width identifier.\<close>

lemma artifact_key_inject:
  assumes "artifact_key u m a c k = artifact_key u' m' a' c' k'"
    and "CHR ''/'' \<notin> set u" "CHR ''/'' \<notin> set u'" "CHR ''/'' \<notin> set m" "CHR ''/'' \<notin> set m'"
    and "length a = length a'"
  shows "u = u' \<and> m = m' \<and> a = a'"
proof -
  have "u = u' \<and> m = m'"
    by (rule matter_keys_disjoint [OF assms(2-5), of "artifact_key u m a c k"])
      (simp, subst assms(1), simp)
  with assms(1) have
    "sanitise_filename c 100 @ CHR ''/'' # (a @ CHR ''_'' # sanitise_filename k 100)
       = sanitise_filename c' 100 @ CHR ''/'' # (a' @ CHR ''_'' # sanitise_filename k' 100)"
    by (simp add: artifact_key_def)
  from split_prefix [OF sanitise_no_slash sanitise_no_slash this] assms(6) \<open>u = u' \<and> m = m'\<close>
  show ?thesis by auto
qed

text \<open>Deleting the prefix of a matter deletes every object stored under any key the key
  helpers build for that matter - uploads, generated files, editor assets, artifacts - and
  nothing stored under a key they build for another matter or another owner.\<close>

lemma matter_sweep_exact:
  assumes "CHR ''/'' \<notin> set u" and "CHR ''/'' \<notin> set m"
    and "CHR ''/'' \<notin> set u'" and "CHR ''/'' \<notin> set m'" and "(u, m) \<noteq> (u', m')"
  shows "(let st = delete_prefix (matter_prefix u m) store in
      st (uploaded_key u m d h) = None \<and> st (generated_key u m d f) = None \<and>
      st (document_asset_key u m d a f) = None \<and> st (artifact_key u m a c k) = None \<and>
      st (uploaded_key u' m' d h) = store (uploaded_key u' m' d h) \<and>
      st (generated_key u' m' d f) = store (generated_key u' m' d f) \<and>
      st (document_asset_key u' m' d a f) = store (document_asset_key u' m' d a f) \<and>
      st (artifact_key u' m' a c k) = store (artifact_key u' m' a c k))"
  using delete_prefix_spares [OF _ assms(5,1,3,2,4)]
  by (simp add: Let_def delete_prefix_sweeps)

end
