(* ===== verification/Reviews.thy ===== *)
theory Reviews
  imports Artifacts
begin

text \<open>
  Supervisor review (\<open>app/core/reviews.py\<close>, \<open>app/models/matter_review.py\<close>): a review is
  requested over an artifact and decided once. The digest \<open>hashlib.sha256(...).hexdigest()\<close>
  is the parameter \<open>H\<close>; the object store is an argument.
\<close>

section \<open>Vocabulary\<close>

definition REVIEW_PENDING :: string where "REVIEW_PENDING = ''pending''"
definition REVIEW_APPROVED :: string where "REVIEW_APPROVED = ''approved''"
definition REVIEW_REJECTED :: string where "REVIEW_REJECTED = ''rejected''"
definition REVIEW_CHANGES_REQUESTED :: string where "REVIEW_CHANGES_REQUESTED = ''changes_requested''"
definition REVIEW_OVERRIDDEN :: string where "REVIEW_OVERRIDDEN = ''overridden''"

definition REVIEW_TERMINAL_STATES :: "string list" where
  "REVIEW_TERMINAL_STATES =
     [REVIEW_APPROVED, REVIEW_REJECTED, REVIEW_CHANGES_REQUESTED, REVIEW_OVERRIDDEN]"

definition REVIEW_ELIGIBLE_KINDS :: "string list" where
  "REVIEW_ELIGIBLE_KINDS = [''findings_pack'', ''skill_response'', ''chat_draft'']"

text \<open>Decision verb to terminal state, audit action, and whether a note is required.\<close>

definition DECISION_MAP :: "(string \<times> string \<times> string \<times> bool) list" where
  "DECISION_MAP =
     [(''approve'', REVIEW_APPROVED, ''review.approved'', False),
      (''reject'', REVIEW_REJECTED, ''review.rejected'', True),
      (''request_changes'', REVIEW_CHANGES_REQUESTED, ''review.changes_requested'', True),
      (''override'', REVIEW_OVERRIDDEN, ''review.overridden'', True)]"

lemmas review_vocabulary = REVIEW_PENDING_def REVIEW_APPROVED_def REVIEW_REJECTED_def
  REVIEW_CHANGES_REQUESTED_def REVIEW_OVERRIDDEN_def

datatype review_error =
    ReviewNotEligible
  | ReviewAlreadyPending
  | ReviewBytesUnavailable
  | InvalidReviewDecision
  | InvalidReviewTransition
  | NoteRequired
  | ReviewerIsAuthor

section \<open>Requesting a review\<close>

definition compute_artifact_hash :: "(bytes \<Rightarrow> string) \<Rightarrow> object_store \<Rightarrow> string \<Rightarrow> string option" where
  "compute_artifact_hash H store path = map_option H (load_artifact_bytes store path)"

definition add_review :: "review \<Rightarrow> db \<Rightarrow> db" where
  "add_review r d = d\<lparr>reviews := reviews d @ [r]\<rparr>"

definition pending_review_of :: "uuid \<Rightarrow> review list \<Rightarrow> review option" where
  "pending_review_of aid rows = find (\<lambda>r. r_artifact_id r = aid \<and> r_state r = REVIEW_PENDING) rows"

definition requested_event :: "matter \<Rightarrow> artifact \<Rightarrow> user \<Rightarrow> review \<Rightarrow> audit_event" where
  "requested_event m a u r = (event0 ''review.requested'')
     \<lparr>ae_actor_id := Some (u_id u), ae_matter_id := Some (m_id m), ae_module := Some (a_module_id a),
      ae_resource_type := Some ''matter_review'', ae_resource_id := Some (r_id r),
      ae_payload := JObj [(''review_id'', JStr (r_id r)), (''artifact_id'', JStr (a_id a)),
        (''invocation_id'', JStr (a_invocation_id a)), (''artifact_hash'', JStr (r_artifact_hash r)),
        (''kind'', JStr (a_kind a))]\<rparr>"

definition request_review ::
  "(bytes \<Rightarrow> string) \<Rightarrow> object_store \<Rightarrow> uuid \<Rightarrow> matter \<Rightarrow> artifact \<Rightarrow> user \<Rightarrow> session
    \<Rightarrow> (review_error + review) \<times> session" where
  "request_review H store new_id m a u s =
     (if a_kind a \<notin> set REVIEW_ELIGIBLE_KINDS then (Inl ReviewNotEligible, s)
      else case pending_review_of (a_id a) (reviews (working s)) of
          Some _ \<Rightarrow> (Inl ReviewAlreadyPending, s)
        | None \<Rightarrow>
            (case compute_artifact_hash H store (a_storage_path a) of
               None \<Rightarrow> (Inl ReviewBytesUnavailable, s)
             | Some h \<Rightarrow>
                 (let r = \<lparr>r_id = new_id, r_matter_id = m_id m, r_artifact_id = a_id a,
                        r_invocation_id = a_invocation_id a, r_module_id = a_module_id a,
                        r_capability_id = a_capability_id a, r_kind = a_kind a, r_artifact_hash = h,
                        r_state = REVIEW_PENDING, r_requested_by_id = u_id u, r_requested_at = clock s,
                        r_decided_by_id = None, r_decided_at = None, r_note = None\<rparr>
                  in (Inr r, audit_log (requested_event m a u r) (on_working (add_review r) s)))))"

section \<open>Deciding it\<close>

text \<open>\<open>user.id in author_ids\<close>: the requester, and the producer when the artifact is found.\<close>

definition is_author :: "user \<Rightarrow> review \<Rightarrow> db \<Rightarrow> bool" where
  "is_author u r d \<longleftrightarrow>
     Some (u_id u) \<in> insert (Some (r_requested_by_id r))
       (case find (\<lambda>a. a_id a = r_artifact_id r) (artifacts d) of
          None \<Rightarrow> {} | Some a \<Rightarrow> {a_created_by_id a})"

definition decided_event :: "user \<Rightarrow> review \<Rightarrow> string \<Rightarrow> string \<Rightarrow> string option \<Rightarrow> bool \<Rightarrow> audit_event" where
  "decided_event u r action decision note self_review = (event0 action)
     \<lparr>ae_actor_id := Some (u_id u), ae_matter_id := Some (r_matter_id r), ae_module := Some (r_module_id r),
      ae_resource_type := Some ''matter_review'', ae_resource_id := Some (r_id r),
      ae_payload := JObj [(''review_id'', JStr (r_id r)), (''artifact_id'', JStr (r_artifact_id r)),
        (''invocation_id'', JStr (r_invocation_id r)), (''artifact_hash'', JStr (r_artifact_hash r)),
        (''kind'', JStr (r_kind r)), (''decision'', JStr decision), (''note'', jstr_opt note),
        (''self_review_superuser_override'', JBool self_review)]\<rparr>"

text \<open>
  The assignments to the loaded row, and the flush that writes them to the row of the table.
  The row argument is the copy the session loaded, which the code does not lock or reread.
\<close>

definition decide :: "string \<Rightarrow> uuid \<Rightarrow> int \<Rightarrow> string option \<Rightarrow> review \<Rightarrow> review" where
  "decide st by at note r = r\<lparr>r_state := st, r_decided_by_id := Some by, r_decided_at := Some at, r_note := note\<rparr>"

definition set_review :: "uuid \<Rightarrow> (review \<Rightarrow> review) \<Rightarrow> db \<Rightarrow> db" where
  "set_review i f d = d\<lparr>reviews := update_where (\<lambda>r. r_id r = i) f (reviews d)\<rparr>"

definition decide_review ::
  "review \<Rightarrow> user \<Rightarrow> string \<Rightarrow> string option \<Rightarrow> session \<Rightarrow> (review_error + review) \<times> session" where
  "decide_review r u decision note s =
     (case map_of DECISION_MAP decision of
        None \<Rightarrow> (Inl InvalidReviewDecision, s)
      | Some (target_state, action, note_required) \<Rightarrow>
          if r_state r \<noteq> REVIEW_PENDING then (Inl InvalidReviewTransition, s)
          else if note_required \<and> clean_note note = [] then (Inl NoteRequired, s)
          else if is_author u r (working s) \<and> \<not> u_is_superuser u then (Inl ReviewerIsAuthor, s)
          else
            (let f = decide target_state (u_id u) (clock s) (or_none (clean_note note))
             in (Inr (f r),
                 audit_log (decided_event u r action decision (or_none (clean_note note))
                     (is_author u r (working s)))
                   (on_working (set_review (r_id r) f) s))))"

section \<open>The life of the reviews\<close>

text \<open>
  The steps of a database under review: requests and decisions that succeed (the ones that fail
  change nothing), new artifacts, other audit rows, the clock, and the end of a transaction.
  New identifiers are fresh; a decision is taken on the row as the transaction sees it.
\<close>

definition add_artifact :: "artifact \<Rightarrow> db \<Rightarrow> db" where
  "add_artifact a d = d\<lparr>artifacts := artifacts d @ [a]\<rparr>"

inductive review_step :: "(bytes \<Rightarrow> string) \<Rightarrow> object_store \<Rightarrow> session \<Rightarrow> session \<Rightarrow> bool"
  for H :: "bytes \<Rightarrow> string" and store :: object_store where
  requested: "request_review H store i m a u s = (Inr r, s') \<Longrightarrow> a \<in> set (artifacts (working s))
     \<Longrightarrow> i \<notin> r_id ` set (reviews (working s)) \<Longrightarrow> review_step H store s s'"
| decided: "decide_review r u verb n s = (Inr r', s') \<Longrightarrow> r \<in> set (reviews (working s))
     \<Longrightarrow> review_step H store s s'"
| produced: "a_id a \<notin> a_id ` set (artifacts (working s))
     \<Longrightarrow> review_step H store s (on_working (add_artifact a) s)"
| logged: "review_step H store s (audit_log e s)"
| ticked: "t \<ge> clock s \<Longrightarrow> review_step H store s (s\<lparr>clock := t\<rparr>)"
| committed: "review_step H store s (commit s)"
| rolled_back: "review_step H store s (rollback s)"

text \<open>A decided review carries its decision, and the log holds the row that records it.\<close>

definition undecided :: "review \<Rightarrow> bool" where
  "undecided r \<longleftrightarrow> r_state r = REVIEW_PENDING \<and> r_decided_by_id r = None
     \<and> r_decided_at r = None \<and> r_note r = None"

definition decided_as_logged :: "db \<Rightarrow> review \<Rightarrow> bool" where
  "decided_as_logged d r \<longleftrightarrow>
     (\<exists>u verb action note_required t.
        map_of DECISION_MAP verb = Some (r_state r, action, note_required)
        \<and> r_decided_by_id r = Some (u_id u) \<and> r_decided_at r = Some t
        \<and> (note_required \<longrightarrow> r_note r \<noteq> None)
        \<and> (is_author u r d \<longrightarrow> u_is_superuser u)
        \<and> (decided_event u r action verb (r_note r) (is_author u r d))\<lparr>ae_timestamp := t\<rparr>
             \<in> set (audit_rows d))"

definition review_ok :: "db \<Rightarrow> review \<Rightarrow> bool" where
  "review_ok d r \<longleftrightarrow> (\<exists>a \<in> set (artifacts d). a_id a = r_artifact_id r)
     \<and> (undecided r \<or> decided_as_logged d r)"

definition one_pending :: "review list \<Rightarrow> bool" where
  "one_pending rows \<longleftrightarrow>
     distinct (map r_artifact_id (filter (\<lambda>r. r_state r = REVIEW_PENDING) rows))"

definition reviews_ok :: "db \<Rightarrow> bool" where
  "reviews_ok d \<longleftrightarrow> distinct (map r_id (reviews d)) \<and> one_pending (reviews d)
     \<and> (\<forall>r \<in> set (reviews d). review_ok d r)"

definition session_reviews_ok :: "session \<Rightarrow> bool" where
  "session_reviews_ok s \<longleftrightarrow> reviews_ok (durable s) \<and> reviews_ok (working s)"

subsection \<open>What the operations do to the tables\<close>

lemma add_review_simps [simp, frame_simps]:
  "reviews (add_review r d) = reviews d @ [r]"
  "artifacts (add_review r d) = artifacts d"
  "audit_rows (add_review r d) = audit_rows d"
  "reviews (set_review i f d) = update_where (\<lambda>r. r_id r = i) f (reviews d)"
  "artifacts (set_review i f d) = artifacts d"
  "audit_rows (set_review i f d) = audit_rows d"
  "artifacts (add_artifact a d) = artifacts d @ [a]"
  "reviews (add_artifact a d) = reviews d"
  "audit_rows (add_artifact a d) = audit_rows d"
  by (simp_all add: add_review_def set_review_def add_artifact_def)

lemma decide_simps [simp]:
  "r_id (decide st by at note r) = r_id r"
  "r_artifact_id (decide st by at note r) = r_artifact_id r"
  "r_requested_by_id (decide st by at note r) = r_requested_by_id r"
  "r_state (decide st by at note r) = st"
  "r_decided_by_id (decide st by at note r) = Some by"
  "r_decided_at (decide st by at note r) = Some at"
  "r_note (decide st by at note r) = note"
  "is_author u (decide st by at note r) d = is_author u r d"
  "decided_event u (decide st by at note r) = decided_event u r"
  by (simp_all add: decide_def is_author_def decided_event_def fun_eq_iff)

lemma stamp_decided:
  "stamp s (decided_event u r act verb n b) = (decided_event u r act verb n b)\<lparr>ae_timestamp := clock s\<rparr>"
  by (simp add: stamp_def decided_event_def event0_def py_truthy_def)

lemma request_review_cases:
  assumes "request_review H store i m a u s = (Inr r, s')"
  shows "a_kind a \<in> set REVIEW_ELIGIBLE_KINDS
    \<and> (\<forall>x \<in> set (reviews (working s)). r_artifact_id x = a_id a \<longrightarrow> r_state x \<noteq> REVIEW_PENDING)
    \<and> r_id r = i \<and> r_artifact_id r = a_id a \<and> undecided r
    \<and> s' = audit_log (requested_event m a u r) (on_working (add_review r) s)"
  using assms
  by (auto simp: request_review_def Let_def undecided_def pending_review_of_def
      dest: find_NoneD split: if_splits option.splits)

lemma decide_review_cases:
  assumes "decide_review r u verb note s = (Inr r', s')"
  obtains st act nr where "map_of DECISION_MAP verb = Some (st, act, nr)"
    and "r_state r = REVIEW_PENDING" and "nr \<Longrightarrow> or_none (clean_note note) \<noteq> None"
    and "is_author u r (working s) \<Longrightarrow> u_is_superuser u"
    and "r' = decide st (u_id u) (clock s) (or_none (clean_note note)) r"
    and "s' = audit_log (decided_event u r act verb (or_none (clean_note note)) (is_author u r (working s)))
           (on_working (set_review (r_id r) (decide st (u_id u) (clock s) (or_none (clean_note note)))) s)"
proof -
  from assms obtain st act nr where "map_of DECISION_MAP verb = Some (st, act, nr)"
    by (auto simp: decide_review_def split: option.splits)
  with assms show ?thesis
    by (intro that [of st act nr])
      (auto simp: decide_review_def Let_def split: if_splits)
qed

lemma decision_states: "map_of DECISION_MAP verb = Some (st, act, nr) \<Longrightarrow> st \<in> set REVIEW_TERMINAL_STATES \<and> st \<noteq> REVIEW_PENDING"
  by (auto simp: DECISION_MAP_def REVIEW_TERMINAL_STATES_def review_vocabulary split: if_splits)

subsection \<open>The invariant\<close>

lemma find_append_found: "\<exists>x \<in> set xs. P x \<Longrightarrow> find P (xs @ ys) = find P xs"
  by (induction xs) auto

lemma is_author_extend:
  assumes "\<exists>a \<in> set (artifacts d). a_id a = r_artifact_id r" and "artifacts d' = artifacts d @ as"
  shows "is_author u r d' = is_author u r d"
  using find_append_found [of "artifacts d" "\<lambda>a. a_id a = r_artifact_id r" as] assms
  by (simp add: is_author_def)

lemma review_ok_extend:
  assumes "review_ok d r" and "artifacts d' = artifacts d @ as" and "set (audit_rows d) \<subseteq> set (audit_rows d')"
  shows "review_ok d' r"
proof -
  from assms(1) have art: "\<exists>a \<in> set (artifacts d). a_id a = r_artifact_id r" by (simp add: review_ok_def)
  have "decided_as_logged d r \<Longrightarrow> decided_as_logged d' r"
    unfolding decided_as_logged_def is_author_extend [OF art assms(2)] using assms(3) by blast
  with assms(1,2) art show ?thesis by (auto simp: review_ok_def)
qed

lemma reviews_ok_extend:
  assumes "reviews_ok d" and "reviews d' = reviews d" and "artifacts d' = artifacts d @ as"
    and "set (audit_rows d) \<subseteq> set (audit_rows d')"
  shows "reviews_ok d'"
  using assms review_ok_extend [OF _ assms(3,4)] by (simp add: reviews_ok_def)

lemma reviews_ok_request:
  assumes "reviews_ok (working s)" and "request_review H store i m a u s = (Inr r, s')"
    and "a \<in> set (artifacts (working s))" and "i \<notin> r_id ` set (reviews (working s))"
  shows "reviews_ok (working s')"
proof -
  note req = request_review_cases [OF assms(2)]
  then have rows: "reviews (working s') = reviews (working s) @ [r]"
    and art: "artifacts (working s') = artifacts (working s) @ []"
    and log: "set (audit_rows (working s)) \<subseteq> set (audit_rows (working s'))" by auto
  have "one_pending (reviews (working s'))"
    using assms(1) req unfolding rows by (auto simp: one_pending_def reviews_ok_def)
  moreover have "review_ok (working s') r"
    using req assms(3) art by (auto simp: review_ok_def)
  ultimately show ?thesis
    using assms(1,4) req rows review_ok_extend [OF _ art log] by (auto simp: reviews_ok_def)
qed

lemma distinct_map_filter_sub: "distinct (map g (filter Q xs)) \<Longrightarrow> distinct (map g (filter (\<lambda>x. Q x \<and> \<not> P x) xs))"
  by (induction xs) (auto split: if_splits)

lemma map_filter_update:
  assumes "\<And>x. P x \<Longrightarrow> Q (f x) \<Longrightarrow> False" and "distinct (map g (filter Q rows))"
  shows "distinct (map g (filter Q (update_where P f rows)))"
proof -
  have "filter Q (update_where P f rows) = filter (\<lambda>x. Q x \<and> \<not> P x) rows"
    using assms(1) by (induction rows) auto
  with distinct_map_filter_sub [OF assms(2)] show ?thesis by simp
qed

lemma reviews_ok_decide:
  assumes "reviews_ok (working s)" and "decide_review r u verb n s = (Inr r', s')"
    and "r \<in> set (reviews (working s))"
  shows "reviews_ok (working s')"
proof (rule decide_review_cases [OF assms(2)])
  fix st act nr
  let ?f = "decide st (u_id u) (clock s) (or_none (clean_note n))"
  let ?e = "decided_event u r act verb (or_none (clean_note n)) (is_author u r (working s))"
  assume verb: "map_of DECISION_MAP verb = Some (st, act, nr)"
    and needs: "nr \<Longrightarrow> or_none (clean_note n) \<noteq> None"
    and super: "is_author u r (working s) \<Longrightarrow> u_is_superuser u"
    and s': "s' = audit_log ?e (on_working (set_review (r_id r) ?f) s)"
  have rows: "reviews (working s') = update_where (\<lambda>x. r_id x = r_id r) ?f (reviews (working s))"
    and art: "artifacts (working s') = artifacts (working s) @ []"
    and log: "set (audit_rows (working s)) \<subseteq> set (audit_rows (working s'))"
    by (auto simp: s')
  have new: "?e\<lparr>ae_timestamp := clock s\<rparr> \<in> set (audit_rows (working s'))"
    by (simp add: s' stamp_decided)
  from assms(1) have ok: "distinct (map r_id (reviews (working s)))" "one_pending (reviews (working s))"
    "\<And>x. x \<in> set (reviews (working s)) \<Longrightarrow> review_ok (working s) x"
    by (simp_all add: reviews_ok_def)
  have only: "x = r" if "x \<in> set (reviews (working s))" "r_id x = r_id r" for x
    using ok(1) that assms(3) by (meson distinct_map inj_onD)
  have "review_ok (working s') (?f r)"
  proof -
    have art_r: "\<exists>a \<in> set (artifacts (working s)). a_id a = r_artifact_id r"
      using ok(3) [OF assms(3)] by (simp add: review_ok_def)
    have "is_author u r (working s') = is_author u r (working s)"
      using is_author_extend [OF art_r art] .
    then have "decided_as_logged (working s') (?f r)"
      unfolding decided_as_logged_def
      using verb needs super new by (intro exI [of _ u] exI [of _ verb] exI [of _ act] exI [of _ nr]
          exI [of _ "clock s"]) auto
    with art_r art show ?thesis by (simp add: review_ok_def)
  qed
  then have "\<forall>x \<in> set (reviews (working s')). review_ok (working s') x"
    using ok(3) only review_ok_extend [OF _ art log] by (auto simp: rows set_update_where)
  moreover have "map r_id (reviews (working s')) = map r_id (reviews (working s))"
    by (simp add: rows update_where_def)
  moreover have "one_pending (reviews (working s'))"
    using ok(2) decision_states [OF verb] unfolding one_pending_def rows
    by (intro map_filter_update) auto
  ultimately show "reviews_ok (working s')" using ok(1) by (simp add: reviews_ok_def)
qed

lemma review_step_durable:
  "review_step H store s s' \<Longrightarrow> durable s' = durable s \<or> durable s' = working s \<and> working s' = working s"
  by (erule review_step.cases)
    (auto dest: request_review_cases elim: decide_review_cases)

lemma review_step_ok:
  assumes "session_reviews_ok s" and "review_step H store s s'"
  shows "session_reviews_ok s'"
proof -
  from assms(1) have d: "reviews_ok (durable s)" and w: "reviews_ok (working s)"
    by (simp_all add: session_reviews_ok_def)
  have "reviews_ok (working s')"
    using assms(2)
  proof cases
    case (requested i m a u r)
    then show ?thesis using reviews_ok_request [OF w] by blast
  next
    case (decided r u verb n r')
    then show ?thesis using reviews_ok_decide [OF w] by blast
  next
    case (produced a)
    then show ?thesis by (auto intro: reviews_ok_extend [OF w])
  next
    case (logged e)
    then show ?thesis by (auto intro: reviews_ok_extend [OF w])
  qed (use d w in auto)
  moreover from review_step_durable [OF assms(2)] d w have "reviews_ok (durable s')" by auto
  ultimately show ?thesis by (simp add: session_reviews_ok_def)
qed

interpretation review_life: invariant_system "review_step H store" session_reviews_ok for H store
  by unfold_locales (rule review_step_ok)

subsection \<open>Decided reviews stay\<close>

lemma decided_row_stays:
  assumes "distinct (map r_id (reviews (working s)))" and "review_step H store s s'"
    and "r \<in> set (reviews (durable s))" "r \<in> set (reviews (working s))" and "r_state r \<noteq> REVIEW_PENDING"
  shows "r \<in> set (reviews (durable s')) \<and> r \<in> set (reviews (working s'))"
  using assms(2)
proof cases
  case (requested i m a u x)
  with request_review_cases [OF requested(1)] assms(3,4) show ?thesis by auto
next
  case (decided x u verb n x')
  from decided(2) assms(1,4) have "r_id r = r_id x \<Longrightarrow> r = x" by (meson distinct_map inj_onD)
  with decided(1) assms(3-5) show ?thesis
    by (auto elim!: decide_review_cases simp: set_update_where)
qed (use assms(3,4) in auto)

interpretation decided_life: invariant_system "review_step H store"
  "\<lambda>s. session_reviews_ok s \<and> r_state r \<noteq> REVIEW_PENDING
     \<and> r \<in> set (reviews (durable s)) \<and> r \<in> set (reviews (working s))" for H store r
proof
  fix s s'
  assume inv: "session_reviews_ok s \<and> r_state r \<noteq> REVIEW_PENDING
     \<and> r \<in> set (reviews (durable s)) \<and> r \<in> set (reviews (working s))" and st: "review_step H store s s'"
  then have "distinct (map r_id (reviews (working s)))"
    by (simp add: session_reviews_ok_def reviews_ok_def)
  with inv st decided_row_stays [of s H store s' r] review_step_ok [of s H store s']
  show "session_reviews_ok s' \<and> r_state r \<noteq> REVIEW_PENDING
     \<and> r \<in> set (reviews (durable s')) \<and> r \<in> set (reviews (working s'))" by simp
qed

section \<open>Properties\<close>

lemma reviews_ok_start: "reviews d = [] \<Longrightarrow> session_reviews_ok (open_session d t)"
  by (simp add: session_reviews_ok_def reviews_ok_def one_pending_def open_session_def)

definition sample_review_db :: db where
  "sample_review_db = empty_db\<lparr>artifacts := [\<lparr>a_id = ''a'', a_matter_id = ''m'', a_module_id = ''mod'',
     a_capability_id = ''c'', a_invocation_id = ''i'', a_kind = ''chat_draft'', a_storage_path = ''k'',
     a_created_by_id = Some ''author'', a_created_at = 0, a_size_bytes = 0\<rparr>]\<rparr>"

definition sample_request :: "session \<Rightarrow> (review_error + review) \<times> session" where
  "sample_request s = request_review id [''k'' \<mapsto> ''bytes''] ''r''
     \<lparr>m_id = ''m'', m_slug = ''x'', m_title = ''A matter'', m_status = ''open'', m_privilege_posture = ''cleared'', m_created_by_id = ''author'', m_retention_until = None, m_default_model_id = ''stub-echo'',
     m_matter_type = ''employment_tribunal'', m_cause = None, m_case_theory = None,
     m_pivot_fact = None, m_facts = JObj [], m_opened_at = 0, m_closed_at = None\<rparr>
     (hd (artifacts sample_review_db)) \<lparr>u_id = ''author'', u_is_superuser = False\<rparr> s"

definition sample_pending :: review where
  "sample_pending = \<lparr>r_id = ''r'', r_matter_id = ''m'', r_artifact_id = ''a'', r_invocation_id = ''i'',
     r_module_id = ''mod'', r_capability_id = ''c'', r_kind = ''chat_draft'', r_artifact_hash = ''bytes'',
     r_state = ''pending'', r_requested_by_id = ''author'', r_requested_at = 5,
     r_decided_by_id = None, r_decided_at = None, r_note = None\<rparr>"

definition other_user :: user where
  "other_user = \<lparr>u_id = ''other'', u_is_superuser = False\<rparr>"

lemmas sample_review_defs = sample_review_db_def sample_request_def sample_pending_def other_user_def
  empty_db_def open_session_def

lemma sample_request_ok:
  "fst (sample_request (open_session sample_review_db 5)) = Inr sample_pending
   \<and> reviews (working (snd (sample_request (open_session sample_review_db 5)))) = [sample_pending]"
  by (simp add: sample_review_defs request_review_def REVIEW_ELIGIBLE_KINDS_def pending_review_of_def
      compute_artifact_hash_def load_artifact_bytes_def is_legacy_path_def REVIEW_PENDING_def Let_def)

lemma sample_request_step:
  "review_step id [''k'' \<mapsto> ''bytes''] (open_session sample_review_db 5)
     (snd (sample_request (open_session sample_review_db 5)))"
  using sample_request_ok
  by (intro review_step.requested [where a = "hd (artifacts sample_review_db)" and i = "''r''" and r = sample_pending
        and u = "\<lparr>u_id = ''author'', u_is_superuser = False\<rparr>"
        and m = "\<lparr>m_id = ''m'', m_slug = ''x'', m_title = ''A matter'', m_status = ''open'', m_privilege_posture = ''cleared'', m_created_by_id = ''author'', m_retention_until = None, m_default_model_id = ''stub-echo'',
     m_matter_type = ''employment_tribunal'', m_cause = None, m_case_theory = None,
     m_pivot_fact = None, m_facts = JObj [], m_opened_at = 0, m_closed_at = None\<rparr>"])
    (auto simp: sample_request_def prod_eq_iff sample_review_db_def open_session_def empty_db_def)

definition sample_decide :: "string \<Rightarrow> string option \<Rightarrow> session \<Rightarrow> (review_error + review) \<times> session" where
  "sample_decide verb n s = decide_review sample_pending other_user verb n s"

lemma sample_decide_ok:
  "let s = snd (sample_request (open_session sample_review_db 5)) in
     sample_decide ''approve'' None s
       = (Inr (decide ''approved'' ''other'' 5 None sample_pending), snd (sample_decide ''approve'' None s))
     \<and> map r_state (reviews (working (snd (sample_decide ''approve'' None s)))) = [''approved'']"
  by (simp add: sample_request_def request_review_def REVIEW_ELIGIBLE_KINDS_def pending_review_of_def
      compute_artifact_hash_def load_artifact_bytes_def is_legacy_path_def sample_decide_def Let_def
      sample_pending_def other_user_def sample_review_db_def empty_db_def open_session_def
      decide_review_def DECISION_MAP_def review_vocabulary is_author_def decide_def
      clean_note_def py_strip_def py_lstrip_def or_none_def)

lemma sample_steps:
  "(review_step id [''k'' \<mapsto> ''bytes''])\<^sup>*\<^sup>* (open_session sample_review_db 5)
     (snd (sample_decide ''approve'' None (snd (sample_request (open_session sample_review_db 5)))))"
proof -
  let ?s = "snd (sample_request (open_session sample_review_db 5))"
  have "review_step id [''k'' \<mapsto> ''bytes''] ?s (snd (sample_decide ''approve'' None ?s))"
    using sample_decide_ok sample_request_ok
    by (intro review_step.decided [where r = sample_pending and u = other_user and verb = "''approve''" and n = None
          and r' = "decide ''approved'' ''other'' 5 None sample_pending"])
      (simp_all add: sample_decide_def Let_def)
  with sample_request_step show ?thesis by (meson r_into_rtranclp rtranclp_trans)
qed

text \<open>C10. In every session reachable from a database without reviews, at most one review per
  artifact is pending, and every review is either untouched or was decided by a recorded user
  with one of the four verbs: the note is there where the verb demands one, a decider who
  requested the review or produced the artifact is a superuser, and the audit log holds the row
  of exactly this decision, with that override flag.\<close>

theorem decisions_are_separated_and_logged:
  assumes "(review_step H store)\<^sup>*\<^sup>* (open_session d t) s" and "reviews d = []"
  shows "one_pending (reviews (working s)) \<and>
     (\<forall>r \<in> set (reviews (working s)). undecided r \<or> decided_as_logged (working s) r)"
  using review_life.reachable_inv [OF assms(1) reviews_ok_start [OF assms(2)]]
  by (simp add: session_reviews_ok_def reviews_ok_def review_ok_def)

theorem decisions_are_separated_and_logged_witness:
  "let s = snd (sample_decide ''approve'' None (snd (sample_request (open_session sample_review_db 5)))) in
     map r_state (reviews (working s)) = [''approved''] \<and> one_pending (reviews (working s)) \<and>
     (\<forall>r \<in> set (reviews (working s)). undecided r \<or> decided_as_logged (working s) r)"
proof -
  have "reviews sample_review_db = []" by (simp add: sample_review_defs)
  from decisions_are_separated_and_logged [OF sample_steps this] sample_decide_ok
  show ?thesis by (simp add: Let_def)
qed



text \<open>The decision looks only at the copy of the row its session loaded: when two sessions
  have both loaded a pending review and each may decide it, the second decision is accepted
  after the first is committed, overwrites its state and decider, and leaves both rows in the
  log.\<close>

theorem stale_decision_overwrites:
  assumes "decide_review r u1 v1 n1 (open_session d t1) = (Inr r1, s1)"
    and "decide_review r u2 v2 n2 (open_session d t2) = (Inr r2, s2)"
    and "r \<in> set (reviews d)"
  shows "(case decide_review r u2 v2 n2 (open_session (durable (commit s1)) t2) of
      (res, s) \<Rightarrow> res = Inr r2 \<and> durable (commit s1) \<noteq> d
        \<and> (\<forall>x \<in> set (reviews (working s)). r_id x = r_id r \<longrightarrow>
              r_state x = r_state r2 \<and> r_decided_by_id x = Some (u_id u2))
        \<and> (\<exists>e1 e2. audit_rows (working s) = audit_rows d @ [e1, e2]
              \<and> ae_actor_id e1 = Some (u_id u1) \<and> ae_actor_id e2 = Some (u_id u2)
              \<and> ae_resource_id e1 = Some (r_id r) \<and> ae_resource_id e2 = Some (r_id r)))"
proof (rule decide_review_cases [OF assms(1)], rule decide_review_cases [OF assms(2)])
  fix st1 act1 nr1 st2 act2 nr2
  assume s1: "s1 = audit_log (decided_event u1 r act1 v1 (or_none (clean_note n1)) (is_author u1 r (working (open_session d t1))))
      (on_working (set_review (r_id r) (decide st1 (u_id u1) (clock (open_session d t1)) (or_none (clean_note n1)))) (open_session d t1))"
    and v2: "map_of DECISION_MAP v2 = Some (st2, act2, nr2)" "r_state r = REVIEW_PENDING"
      "nr2 \<Longrightarrow> or_none (clean_note n2) \<noteq> None" "is_author u2 r (working (open_session d t2)) \<Longrightarrow> u_is_superuser u2"
    and r2: "r2 = decide st2 (u_id u2) (clock (open_session d t2)) (or_none (clean_note n2)) r"
  let ?d = "working s1"
  have art: "artifacts ?d = artifacts d @ []" by (simp add: s1 open_session_def)
  have auth: "is_author u2 r ?d = is_author u2 r d"
    using art by (simp add: is_author_def)
  have rows: "audit_rows ?d = audit_rows d @ [(decided_event u1 r act1 v1 (or_none (clean_note n1)) (is_author u1 r d))\<lparr>ae_timestamp := t1\<rparr>]"
    by (simp add: s1 stamp_decided open_session_def)
  then have "?d \<noteq> d" by auto
  moreover have "decide_review r u2 v2 n2 (open_session ?d t2) = (Inr r2,
      audit_log (decided_event u2 r act2 v2 (or_none (clean_note n2)) (is_author u2 r d))
        (on_working (set_review (r_id r) (decide st2 (u_id u2) t2 (or_none (clean_note n2)))) (open_session ?d t2)))"
    using v2 auth by (simp add: decide_review_def Let_def r2 open_session_def split: if_splits)
  ultimately show ?thesis
    using rows by (auto simp: r2 stamp_decided open_session_def set_update_where decided_event_def)
qed

theorem stale_decision_overwrites_witness:
  "let d = working (snd (sample_request (open_session sample_review_db 5)));
       s1 = snd (decide_review sample_pending other_user ''reject'' (Some ''no'') (open_session d 6)) in
     fst (decide_review sample_pending other_user ''approve'' None (open_session (durable (commit s1)) 7))
       = Inr (decide ''approved'' ''other'' 7 None sample_pending)"
proof -
  let ?d = "working (snd (sample_request (open_session sample_review_db 5)))"
  have art: "artifacts ?d = artifacts sample_review_db"
    using sample_request_step by (auto simp: sample_request_def sample_review_defs request_review_def
      REVIEW_ELIGIBLE_KINDS_def pending_review_of_def
      compute_artifact_hash_def load_artifact_bytes_def is_legacy_path_def REVIEW_PENDING_def Let_def)
  have ok: "decide_review sample_pending other_user v (Some n) (open_session ?d t)
      = (Inr (decide st ''other'' t (Some n) sample_pending), snd (decide_review sample_pending other_user v (Some n) (open_session ?d t)))"
    if "(v, st, n) = (''reject'', ''rejected'', ''no'')" for v st n t
    using that art by (simp add: decide_review_def DECISION_MAP_def review_vocabulary is_author_def
      sample_pending_def other_user_def sample_review_db_def open_session_def clean_note_def py_strip_def
      py_lstrip_def py_isspace_def or_none_def Let_def)
  have ok': "decide_review sample_pending other_user ''approve'' None (open_session ?d t)
      = (Inr (decide ''approved'' ''other'' t None sample_pending), snd (decide_review sample_pending other_user ''approve'' None (open_session ?d t)))" for t
    using art by (simp add: decide_review_def DECISION_MAP_def review_vocabulary is_author_def
      sample_pending_def other_user_def sample_review_db_def open_session_def clean_note_def py_strip_def
      py_lstrip_def or_none_def Let_def)
  have "sample_pending \<in> set (reviews ?d)" using sample_request_ok by simp
  from stale_decision_overwrites [OF ok [of "''reject''" "''rejected''" "''no''" 6, OF refl] ok' [of 7] this]
  show ?thesis by (simp add: Let_def split: prod.splits)
qed

end
