(* ===== verification/CanonicalJson.thy ===== *)
theory CanonicalJson
  imports Prelude
begin

text \<open>
  The canonical JSON text that hashes are taken of is decodable: two documents with the same
  text are the same up to the order of the keys of their objects. This is what lets a hash of
  the text (a manifest signature in \<open>app/core/signing.py\<close>, a sign-off in
  \<open>app/core/signoff.py\<close>) stand for the document.
\<close>

section \<open>Codes whose text can be read back\<close>

locale prefix_code =
  fixes enc :: "char \<Rightarrow> string"
  assumes decodable: "enc c @ r = enc c' @ r' \<Longrightarrow> c = c' \<and> r = r'"
    and nonempty: "enc c \<noteq> []"
begin

lemma text_inject: "concat (map enc s) = concat (map enc t) \<Longrightarrow> s = t"
proof (induction s arbitrary: t)
  case Nil
  then show ?case using nonempty by (cases t) auto
next
  case (Cons c s)
  then obtain c' t' where "t = c' # t'" using nonempty by (cases t) auto
  with Cons decodable [of c "concat (map enc s)" c' "concat (map enc t')"] show ?case by simp
qed

end

locale quoted_code = prefix_code enc for enc :: "char \<Rightarrow> string" +
  assumes no_quote: "enc c @ r \<noteq> CHR 0x22 # r'"
begin

lemma quoted_inject:
  "concat (map enc s) @ CHR 0x22 # r = concat (map enc t) @ CHR 0x22 # r' \<Longrightarrow> s = t \<and> r = r'"
proof (induction s arbitrary: t)
  case Nil
  then show ?case using no_quote by (cases t) (auto, metis)
next
  case (Cons c s)
  from Cons.prems no_quote [of c "concat (map enc s) @ CHR 0x22 # r"] obtain c' t' where "t = c' # t'"
    by (cases t) auto
  with Cons decodable [of c "concat (map enc s) @ CHR 0x22 # r" c' "concat (map enc t') @ CHR 0x22 # r'"]
  show ?case by auto
qed

end

text \<open>A decoder of escape sequences shows that the escapes form such a code.\<close>

definition hex_val :: "char \<Rightarrow> nat" where
  "hex_val c = (let n = (of_char c :: nat) in if n < 58 then n - 48 else n - 87)"

lemma hex_val_digit: "k < 16 \<Longrightarrow> hex_val (hex_digit k) = k"
  by (simp add: hex_val_def hex_digit_def)

fun unescape :: "string \<Rightarrow> (char \<times> string) option" where
  "unescape [] = None"
| "unescape [c] = Some (c, [])"
| "unescape (c # x # r) =
     (if c \<noteq> CHR 0x5C then Some (c, x # r)
      else if x = CHR ''u'' then Some (char_of (16 * hex_val (r ! 2) + hex_val (r ! 3)), drop 4 r)
      else if x = CHR ''b'' then Some (char_of (8::nat), r)
      else if x = CHR ''f'' then Some (char_of (12::nat), r)
      else if x = CHR ''n'' then Some (char_of (10::nat), r)
      else if x = CHR ''r'' then Some (char_of (13::nat), r)
      else if x = CHR ''t'' then Some (char_of (9::nat), r)
      else Some (x, r))"

lemma char_eq_of_char: "(of_char c :: nat) = n \<Longrightarrow> c = char_of n"
  by auto

lemma char_of_quote: "char_of (34::nat) = CHR 0x22" "char_of (92::nat) = CHR 0x5C"
  by (simp_all add: char_of_def bit_Suc_0_iff)

lemma of_char_less: "(of_char c :: nat) < 256"
  by simp

lemma unescape_json: "unescape (json_escape ascii c @ r) = Some (c, r)"
proof -
  let ?n = "of_char c :: nat"
  consider "?n = 34" | "?n = 92" | "?n = 8" | "?n = 12" | "?n = 10" | "?n = 13" | "?n = 9"
    | (other) "?n \<notin> {34, 92, 8, 12, 10, 13, 9}" by auto
  then show ?thesis
  proof cases
    case other
    show ?thesis
    proof (cases "?n < 32 \<or> ascii \<and> 126 < ?n")
      case True
      have "?n div 16 < 16" by (simp add: div_less_iff_less_mult)
      then have "char_of (16 * hex_val (hex_digit (?n div 16)) + hex_val (hex_digit (?n mod 16))) = c"
        by (simp add: hex_val_digit)
      with True other show ?thesis by (simp add: json_escape_def Let_def)
    next
      case False
      with other have "json_escape ascii c = [c]" by (simp add: json_escape_def Let_def)
      moreover have "c \<noteq> CHR 0x5C" using other by auto
      ultimately show ?thesis by (cases r) simp_all
    qed
  qed (auto simp: json_escape_def Let_def char_of_quote dest!: char_eq_of_char)
qed

interpretation json_code: quoted_code "json_escape ascii" for ascii
proof
  fix c c' :: char and r r' :: string
  show "c = c' \<and> r = r'" if "json_escape ascii c @ r = json_escape ascii c' @ r'"
    using arg_cong [OF that, of unescape] unfolding unescape_json by simp
  show "json_escape ascii c \<noteq> []" by (simp add: json_escape_def Let_def)
  have "c = CHR 0x22 \<Longrightarrow> json_escape ascii c = [CHR 0x5C, c]" by (simp add: json_escape_def)
  then show "json_escape ascii c @ r \<noteq> CHR 0x22 # r'"
    by (cases "c = CHR 0x22") (auto simp: json_escape_def Let_def split: if_splits)
qed

text \<open>\<open>text.encode("utf-8")\<close> on the modelled code points.\<close>

definition utf8_char :: "char \<Rightarrow> string" where
  "utf8_char c =
     (let n = (of_char c :: nat)
      in if n < 128 then [c] else [char_of (192 + n div 64), char_of (128 + n mod 64)])"

definition utf8 :: "string \<Rightarrow> string" where
  "utf8 s = concat (map utf8_char s)"

fun utf8_decode :: "string \<Rightarrow> (char \<times> string) option" where
  "utf8_decode [] = None"
| "utf8_decode (c # r) =
     (if (of_char c :: nat) < 128 then Some (c, r)
      else Some (char_of (64 * (of_char c - 192) + (of_char (hd r) - 128) :: nat), tl r))"

lemma utf8_decode_char: "utf8_decode (utf8_char c @ r) = Some (c, r)"
proof (cases "(of_char c :: nat) < 128")
  case False
  let ?n = "of_char c :: nat"
  have "?n div 64 < 4" and "?n mod 64 < 64" by (simp_all add: div_less_iff_less_mult)
  then have "(of_char (char_of (192 + ?n div 64) :: char) :: nat) = 192 + ?n div 64"
    and "(of_char (char_of (128 + ?n mod 64) :: char) :: nat) = 128 + ?n mod 64" by simp_all
  then show ?thesis using False by (simp add: utf8_char_def Let_def)
qed (simp add: utf8_char_def)

interpretation utf8_code: prefix_code utf8_char
proof
  fix c c' :: char and r r' :: string
  show "c = c' \<and> r = r'" if "utf8_char c @ r = utf8_char c' @ r'"
    using arg_cong [OF that, of utf8_decode] unfolding utf8_decode_char by simp
  show "utf8_char c \<noteq> []" by (simp add: utf8_char_def Let_def)
qed

lemma utf8_inject: "utf8 s = utf8 t \<longleftrightarrow> s = t"
  using utf8_code.text_inject by (auto simp: utf8_def)

section \<open>Documents up to the order of their keys\<close>

primrec sort_json :: "json \<Rightarrow> json" where
  "sort_json JNull = JNull"
| "sort_json (JBool b) = JBool b"
| "sort_json (JInt i) = JInt i"
| "sort_json (JStr s) = JStr s"
| "sort_json (JList xs) = JList (map sort_json xs)"
| "sort_json (JObj kvs) = JObj (sort_key fst (map (map_prod id sort_json) kvs))"

text \<open>The printer without the sorting.\<close>

primrec print_json :: "bool \<Rightarrow> json \<Rightarrow> string" where
  "print_json ascii JNull = ''null''"
| "print_json ascii (JBool b) = (if b then ''true'' else ''false'')"
| "print_json ascii (JInt i) = int_str i"
| "print_json ascii (JStr s) = json_string ascii s"
| "print_json ascii (JList xs) = ''['' @ py_join '','' (map (print_json ascii) xs) @ '']''"
| "print_json ascii (JObj kvs) = ''{'' @ py_join '',''
     (map (\<lambda>(k, v). json_string ascii k @ '':'' @ v) (map (map_prod id (print_json ascii)) kvs)) @ ''}''"

lemma insort_key_map: "insort_key f (g x) (map g xs) = map g (insort_key (\<lambda>x. f (g x)) x xs)"
  by (induction xs) auto

lemma sort_key_map: "sort_key f (map g xs) = map g (sort_key (\<lambda>x. f (g x)) xs)"
  by (induction xs) (simp_all add: insort_key_map)

lemma json_dumps_print: "json_dumps ascii j = print_json ascii (sort_json j)"
proof (induction j)
  case (JList xs)
  then have "map (json_dumps ascii) xs = map (print_json ascii) (map sort_json xs)" by simp
  then show ?case by (metis json_dumps.simps(5) print_json.simps(5) sort_json.simps(5))
next
  case (JObj kvs)
  then have "map (map_prod id (json_dumps ascii)) kvs
      = map (map_prod id (print_json ascii)) (map (map_prod id sort_json) kvs)"
    by (fastforce simp: map_prod_def)
  then have "sort_key fst (map (map_prod id (json_dumps ascii)) kvs)
      = map (map_prod id (print_json ascii)) (sort_key fst (map (map_prod id sort_json) kvs))"
    by (simp only: sort_key_map) simp
  then show ?case by (simp only: json_dumps.simps print_json.simps sort_json.simps)
qed simp_all

section \<open>Reading the text back\<close>

definition is_digit :: "char \<Rightarrow> bool" where
  "is_digit c \<longleftrightarrow> 48 \<le> (of_char c :: nat) \<and> (of_char c :: nat) < 58"

text \<open>What may follow a document: nothing, or a character that is not a digit.\<close>

definition ends :: "string \<Rightarrow> bool" where
  "ends r \<longleftrightarrow> (case r of [] \<Rightarrow> True | c # _ \<Rightarrow> \<not> is_digit c)"

lemma nat_str_split: "ends r \<Longrightarrow> takeWhile is_digit (nat_str n @ r) = nat_str n"
proof -
  have "\<forall>c \<in> set (nat_str n). is_digit c" using nat_str_digits by (auto simp: is_digit_def)
  then show "ends r \<Longrightarrow> ?thesis" by (cases r) (simp_all add: takeWhile_append2 ends_def)
qed

lemma nat_str_read: "nat_str n @ r = nat_str m @ s \<Longrightarrow> ends r \<Longrightarrow> ends s \<Longrightarrow> n = m \<and> r = s"
  by (metis nat_str_split nat_str_inject same_append_eq)

lemma nat_str_head: "nat_str n = c # cs \<Longrightarrow> is_digit c"
  using nat_str_digits [of c n] by (simp add: is_digit_def)

lemma int_str_read:
  assumes "int_str i @ r = int_str j @ s" and "ends r" and "ends s"
  shows "i = j \<and> r = s"
proof -
  have minus: "CHR ''-'' # x \<noteq> nat_str n @ y" for x y n
    by (cases "nat_str n") (auto dest: nat_str_head simp: is_digit_def)
  then have "(i < 0) = (j < 0)"
    using assms(1) by (auto simp: int_str_def split: if_splits dest: sym)
  with assms show ?thesis
    by (auto simp: int_str_def split: if_splits dest: nat_str_read)
qed

lemma int_str_head: "int_str i @ r = c # x \<Longrightarrow> is_digit c \<or> c = CHR ''-''"
  by (cases "nat_str (nat i)") (auto simp: int_str_def dest: nat_str_head split: if_splits)

lemma json_string_read: "json_string ascii s @ r = json_string ascii t @ r' \<Longrightarrow> s = t \<and> r = r'"
  using json_code.quoted_inject [of ascii s r t r'] by (simp add: json_string_def)

text \<open>A separated list of readable items is readable, whatever closes it.\<close>

lemma join_read:
  assumes item: "\<And>x y r s. x \<in> set xs \<Longrightarrow> f x @ r = f y @ s \<Longrightarrow> ends r \<Longrightarrow> ends s \<Longrightarrow> x = y \<and> r = s"
    and start: "\<And>x r s. f x @ r \<noteq> c # s" and c: "c \<noteq> CHR '',''" "\<not> is_digit c"
    and eq: "py_join '','' (map f xs) @ c # r = py_join '','' (map f ys) @ c # s"
  shows "xs = ys \<and> r = s"
  using item eq
proof (induction xs arbitrary: ys)
  case Nil
  have "\<exists>z. py_join '','' (map f (y # ys')) @ c # s = f y @ z" for y ys' by (cases ys') auto
  with Nil.prems(2) start show ?case by (cases ys) (simp, metis append_Nil list.simps(8) py_join.simps(1))
next
  case (Cons x xs)
  have more: "\<exists>z. py_join '','' (map f (x # xs)) @ c # r = f x @ z \<and> ends z
      \<and> (xs = [] \<and> z = c # r \<or> xs \<noteq> [] \<and> z = CHR '','' # py_join '','' (map f xs) @ c # r)" for x xs r
    using c(2) by (cases xs) (auto simp: ends_def is_digit_def)
  obtain y ys' where ys: "ys = y # ys'"
    using Cons.prems(2) more [of x xs r] start by (cases ys) (auto dest: sym)
  from more [of x xs r] obtain z where z: "py_join '','' (map f (x # xs)) @ c # r = f x @ z" "ends z"
    "xs = [] \<and> z = c # r \<or> xs \<noteq> [] \<and> z = CHR '','' # py_join '','' (map f xs) @ c # r" by blast
  from more [of y ys' s] obtain w where w: "py_join '','' (map f (y # ys')) @ c # s = f y @ w" "ends w"
    "ys' = [] \<and> w = c # s \<or> ys' \<noteq> [] \<and> w = CHR '','' # py_join '','' (map f ys') @ c # s" by blast
  from Cons.prems(2) have "f x @ z = f y @ w" using z(1) w(1) by (simp only: ys)
  with Cons.prems(1) [of x z y w] z(2) w(2) have "x = y" "z = w" by auto
  with z(3) w(3) c(1) have "xs = [] \<and> ys' = [] \<and> r = s
      \<or> py_join '','' (map f xs) @ c # r = py_join '','' (map f ys') @ c # s" by auto
  with Cons.IH [of ys'] Cons.prems(1) \<open>x = y\<close> ys show ?case by auto
qed

lemma print_start:
  "print_json ascii j @ r = c # x \<Longrightarrow> is_digit c \<or> c \<in> set ''ntf-[{'' \<or> c = CHR 0x22"
  by (cases j) (auto simp: json_string_def dest: int_str_head split: if_splits)

lemma ends_simps [simp]:
  "ends []" "ends (CHR '','' # r)" "ends (CHR '']'' # r)" "ends (CHR ''}'' # r)"
  by (simp_all add: ends_def is_digit_def)

lemma int_not_letter:
  assumes "\<not> is_digit c" and "c \<noteq> CHR ''-''"
  shows "int_str i @ r \<noteq> c # x" and "c # x \<noteq> int_str i @ r"
  using int_str_head [of i r c x] assms by auto

lemmas int_not_letters = int_not_letter [of "CHR ''n''"] int_not_letter [of "CHR ''t''"]
  int_not_letter [of "CHR ''f''"] int_not_letter [of "CHR ''[''"] int_not_letter [of "CHR ''{''"]
  int_not_letter [of "CHR 0x22"]

definition print_member :: "bool \<Rightarrow> string \<times> json \<Rightarrow> string" where
  "print_member ascii kv = json_string ascii (fst kv) @ '':'' @ print_json ascii (snd kv)"

lemma print_members:
  "map (\<lambda>(k, v). json_string ascii k @ '':'' @ v) (map (map_prod id (print_json ascii)) kvs)
     = map (print_member ascii) kvs"
  by (simp add: print_member_def split_def)

lemma print_obj: "print_json ascii (JObj kvs) = ''{'' @ py_join '','' (map (print_member ascii) kvs) @ ''}''"
  by (simp only: print_json.simps print_members)

lemma print_json_read:
  "print_json ascii j @ r = print_json ascii k @ s \<Longrightarrow> ends r \<Longrightarrow> ends s \<Longrightarrow> j = k \<and> r = s"
proof (induction j arbitrary: k r s)
  case (JInt i)
  then show ?case
    by (cases k) (auto simp: json_string_def is_digit_def int_not_letters dest: int_str_read split: if_splits)
next
  case (JStr t)
  then show ?case
  proof (cases k)
    case (JStr t')
    with JStr.prems show ?thesis by (auto dest: json_string_read)
  qed (auto simp: json_string_def is_digit_def int_not_letters split: if_splits)
next
  case (JList xs)
  show ?case
  proof (cases k)
    case (JList ys)
    have "xs = ys \<and> r = s"
    proof (rule join_read [where f = "print_json ascii" and c = "CHR '']''"])
      show "print_json ascii x @ r \<noteq> CHR '']'' # s" for x r s
        using print_start [of ascii x r "CHR '']''" s] by (auto simp: is_digit_def)
    qed (use JList JList.IH JList.prems in \<open>auto simp: is_digit_def\<close>)
    with JList show ?thesis by simp
  qed (use JList.prems in \<open>auto simp: json_string_def is_digit_def int_not_letters split: if_splits\<close>)
next
  case (JObj kvs)
  show ?case
  proof (cases k)
    case (JObj kws)
    have "kvs = kws \<and> r = s"
    proof (rule join_read [where f = "print_member ascii" and c = "CHR ''}''"])
      show "print_member ascii x @ r \<noteq> CHR ''}'' # s" for x r s
        by (simp add: print_member_def json_string_def)
      fix x y :: "string \<times> json" and r s
      assume x: "x \<in> set kvs" and eq: "print_member ascii x @ r = print_member ascii y @ s"
        and ends: "ends r" "ends s"
      have "json_string ascii (fst x) @ '':'' @ print_json ascii (snd x) @ r
          = json_string ascii (fst y) @ '':'' @ print_json ascii (snd y) @ s"
        using eq by (simp add: print_member_def)
      with json_string_read [OF this] have "fst x = fst y"
        and "print_json ascii (snd x) @ r = print_json ascii (snd y) @ s" by simp_all
      with JObj.IH [OF x _ _ ends, of "snd x" "snd y"] show "x = y \<and> r = s"
        by (simp add: prod_eq_iff snds.intros)
    qed (use JObj JObj.prems in \<open>auto simp: is_digit_def print_obj simp del: print_json.simps\<close>)
    with JObj show ?thesis by simp
  qed (use JObj.prems in \<open>auto simp: json_string_def is_digit_def int_not_letters split: if_splits\<close>)
qed (case_tac [!] k, auto simp: json_string_def is_digit_def int_not_letters split: if_splits)

text \<open>The text of a document determines it up to key order, and so does its encoding.\<close>

lemma json_dumps_decodable: "json_dumps ascii j = json_dumps ascii k \<longleftrightarrow> sort_json j = sort_json k"
  using print_json_read [of ascii "sort_json j" "[]" "sort_json k" "[]"]
  by (auto simp: json_dumps_print)

lemma json_bytes_decodable:
  "utf8 (json_dumps ascii j) = utf8 (json_dumps ascii k) \<longleftrightarrow> sort_json j = sort_json k"
  by (simp add: utf8_inject json_dumps_decodable)

text \<open>Sorting the keys of an object keeps what each key maps to.\<close>

lemma map_of_sort_key:
  assumes "distinct (map fst kvs)"
  shows "map_of (sort_key fst kvs) = map_of kvs"
  by (rule map_of_inject_set [THEN iffD2]) (use assms in \<open>simp_all add: distinct_map\<close>)

lemma jget_sort_json:
  assumes "distinct (map fst kvs)"
  shows "jget k (sort_json (JObj kvs)) = map_option sort_json (jget k (JObj kvs))"
proof -
  have "distinct (map fst (map (map_prod id sort_json) kvs))" using assms by (simp add: comp_def)
  moreover have "map_of (map (map_prod id sort_json) kvs) k = map_option sort_json (map_of kvs k)"
    by (induction kvs) auto
  ultimately show ?thesis by (simp add: jget_def map_of_sort_key)
qed

end
