(* ===== verification/Signoff.thy ===== *)
theory Signoff
  imports Artifacts CanonicalJson
begin

text \<open>
  Professional sign-off (\<open>app/core/signoff.py\<close>, \<open>app/models/matter_signoff.py\<close>): the review
  window an artifact's sign page opens, the sign-off with its hash, latency and speed flag, and
  the reads of the sign-off list. Parameters: \<open>H\<close> is the hex digest of SHA-256, \<open>loads\<close> is
  \<open>json.loads\<close> on the stored bytes (None where it raises), \<open>must_differ\<close> the deployment
  setting. The threshold of 0.15 seconds a word is kept in twentieths of a second, which makes
  it exact.
\<close>

section \<open>Vocabulary and thresholds\<close>

definition SIGNOFF_SIGNED :: string where "SIGNOFF_SIGNED = ''signed''"
definition SIGNOFF_SIGNED_WITH_OBSERVATIONS :: string where
  "SIGNOFF_SIGNED_WITH_OBSERVATIONS = ''signed_with_observations''"
definition SIGNOFF_REJECTED :: string where "SIGNOFF_REJECTED = ''rejected''"

definition SIGNOFF_DECISIONS :: "string list" where
  "SIGNOFF_DECISIONS = [SIGNOFF_SIGNED, SIGNOFF_SIGNED_WITH_OBSERVATIONS, SIGNOFF_REJECTED]"

definition SIGNOFF_REASONING_REQUIRED :: "string list" where
  "SIGNOFF_REASONING_REQUIRED = [SIGNOFF_SIGNED_WITH_OBSERVATIONS, SIGNOFF_REJECTED]"

definition SIGNOFF_ACTION_BY_DECISION :: "(string \<times> string) list" where
  "SIGNOFF_ACTION_BY_DECISION =
     [(SIGNOFF_SIGNED, ''output.signed''),
      (SIGNOFF_SIGNED_WITH_OBSERVATIONS, ''output.signed_with_observations''),
      (SIGNOFF_REJECTED, ''output.sign_rejected'')]"

definition REVIEW_OPENED_ACTION :: string where
  "REVIEW_OPENED_ACTION = ''output.review.opened''"

lemmas signoff_vocabulary = SIGNOFF_SIGNED_def SIGNOFF_SIGNED_WITH_OBSERVATIONS_def
  SIGNOFF_REJECTED_def

definition implausible_speed_threshold_twentieths :: "nat \<Rightarrow> int" where
  "implausible_speed_threshold_twentieths word_count = max (20 * 120) (3 * int word_count)"

primrec count_payload_words :: "json \<Rightarrow> nat" where
  "count_payload_words JNull = 0"
| "count_payload_words (JBool b) = 0"
| "count_payload_words (JInt i) = 0"
| "count_payload_words (JStr s) = length (py_split s)"
| "count_payload_words (JList xs) = sum_list (map count_payload_words xs)"
| "count_payload_words (JObj kvs) = sum_list (map snd (map (map_prod id count_payload_words) kvs))"

section \<open>The review window\<close>

definition is_opened_row :: "uuid \<Rightarrow> uuid \<Rightarrow> audit_event \<Rightarrow> bool" where
  "is_opened_row actor artifact_id e \<longleftrightarrow> ae_action e = REVIEW_OPENED_ACTION
     \<and> ae_actor_id e = Some actor \<and> ae_resource_type e = Some ''matter_artifact''
     \<and> ae_resource_id e = Some artifact_id"

definition opened_event :: "matter \<Rightarrow> artifact \<Rightarrow> user \<Rightarrow> audit_event" where
  "opened_event m a u = (event0 REVIEW_OPENED_ACTION)
     \<lparr>ae_actor_id := Some (u_id u), ae_matter_id := Some (m_id m), ae_module := Some (a_module_id a),
      ae_resource_type := Some ''matter_artifact'', ae_resource_id := Some (a_id a),
      ae_payload := JObj [(''artifact_id'', JStr (a_id a)),
        (''invocation_id'', JStr (a_invocation_id a)), (''kind'', JStr (a_kind a))]\<rparr>"

definition record_review_opened :: "matter \<Rightarrow> artifact \<Rightarrow> user \<Rightarrow> session \<Rightarrow> bool \<times> session" where
  "record_review_opened m a u s =
     (case find (is_opened_row (u_id u) (a_id a)) (audit_rows (working s)) of
        Some _ \<Rightarrow> (False, s)
      | None \<Rightarrow> (True, audit_log (opened_event m a u) s))"

text \<open>The earliest timestamp per (signer, artifact), for the pairs asked for.\<close>

definition min_timestamp :: "audit_event list \<Rightarrow> int option" where
  "min_timestamp rows = (case map ae_timestamp rows of [] \<Rightarrow> None | t # ts \<Rightarrow> Some (foldl min t ts))"

definition review_opened_at_map ::
  "(uuid \<times> uuid) set \<Rightarrow> audit_event list \<Rightarrow> (uuid \<times> uuid) \<rightharpoonup> int" where
  "review_opened_at_map pairs rows = (\<lambda>(actor, artifact_id).
     if (actor, artifact_id) \<in> pairs
     then min_timestamp (filter (is_opened_row actor artifact_id) rows) else None)"

text \<open>Instants are microseconds; the latency is in whole seconds.\<close>

definition review_latency_seconds :: "int option \<Rightarrow> int option \<Rightarrow> int option" where
  "review_latency_seconds opened_at signed_at =
     (case (opened_at, signed_at) of
        (Some t, Some t') \<Rightarrow> if t' - t < 0 then None else Some ((t' - t) div 1000000)
      | _ \<Rightarrow> None)"

section \<open>Signing\<close>

datatype signoff_error =
    InvalidSignoffDecision
  | ReasoningRequired
  | AuthorCannotSign
  | SignoffBytesUnavailable
  | PayloadNotJson

definition canonical_document :: "artifact \<Rightarrow> json \<Rightarrow> json" where
  "canonical_document a payload =
     JObj [(''artifact_id'', JStr (a_id a)), (''kind'', JStr (a_kind a)), (''payload'', payload)]"

definition canonical_payload_hash :: "(bytes \<Rightarrow> string) \<Rightarrow> artifact \<Rightarrow> json \<Rightarrow> string" where
  "canonical_payload_hash H a payload = H (utf8 (json_dumps False (canonical_document a payload)))"

definition load_payload ::
  "(bytes \<Rightarrow> json option) \<Rightarrow> object_store \<Rightarrow> artifact \<Rightarrow> signoff_error + json" where
  "load_payload loads store a =
     (case load_artifact_bytes store (a_storage_path a) of
        None \<Rightarrow> Inl SignoffBytesUnavailable
      | Some b \<Rightarrow> (case loads b of None \<Rightarrow> Inl PayloadNotJson | Some p \<Rightarrow> Inr p))"

definition compute_signoff_hash ::
  "(bytes \<Rightarrow> string) \<Rightarrow> (bytes \<Rightarrow> json option) \<Rightarrow> object_store \<Rightarrow> artifact \<Rightarrow> signoff_error + string" where
  "compute_signoff_hash H loads store a =
     (case load_payload loads store a of
        Inl e \<Rightarrow> Inl e | Inr p \<Rightarrow> Inr (canonical_payload_hash H a p))"

definition add_signoff :: "signoff \<Rightarrow> db \<Rightarrow> db" where
  "add_signoff g d = d\<lparr>signoffs := signoffs d @ [g]\<rparr>"

definition signed_event ::
  "user \<Rightarrow> signoff \<Rightarrow> string \<Rightarrow> bool \<Rightarrow> int option \<Rightarrow> bool \<Rightarrow> audit_event" where
  "signed_event u g action signer_is_author review_seconds implausible_speed = (event0 action)
     \<lparr>ae_actor_id := Some (u_id u), ae_matter_id := Some (s_matter_id g), ae_module := Some (s_module_id g),
      ae_resource_type := Some ''matter_signoff'', ae_resource_id := Some (s_id g),
      ae_payload := JObj [(''signoff_id'', JStr (s_id g)), (''artifact_id'', JStr (s_artifact_id g)),
        (''invocation_id'', JStr (s_invocation_id g)), (''artifact_hash'', JStr (s_artifact_hash g)),
        (''kind'', JStr (s_kind g)), (''decision'', JStr (s_decision g)),
        (''reasoning'', jstr_opt (s_reasoning g)), (''signer_is_author'', JBool signer_is_author),
        (''review_seconds'', jint_opt review_seconds), (''implausible_speed'', JBool implausible_speed)]\<rparr>"

definition signer_is_author :: "artifact \<Rightarrow> user \<Rightarrow> bool" where
  "signer_is_author a u \<longleftrightarrow> a_created_by_id a = Some (u_id u)"

definition review_seconds_at :: "artifact \<Rightarrow> user \<Rightarrow> session \<Rightarrow> int option" where
  "review_seconds_at a u s =
     review_latency_seconds
       (review_opened_at_map {(u_id u, a_id a)} (audit_rows (working s)) (u_id u, a_id a)) (Some (clock s))"

definition implausible_speed :: "int option \<Rightarrow> json \<Rightarrow> bool" where
  "implausible_speed review_seconds payload = (case review_seconds of None \<Rightarrow> False
     | Some n \<Rightarrow> 20 * n < implausible_speed_threshold_twentieths (count_payload_words payload))"

definition create_signoff ::
  "(bytes \<Rightarrow> string) \<Rightarrow> (bytes \<Rightarrow> json option) \<Rightarrow> object_store \<Rightarrow> bool \<Rightarrow> uuid \<Rightarrow> matter \<Rightarrow> artifact \<Rightarrow> user
    \<Rightarrow> string \<Rightarrow> string option \<Rightarrow> session \<Rightarrow> (signoff_error + signoff) \<times> session" where
  "create_signoff H loads store must_differ new_id m a u decision reasoning s =
     (if decision \<notin> set SIGNOFF_DECISIONS then (Inl InvalidSignoffDecision, s)
      else if decision \<in> set SIGNOFF_REASONING_REQUIRED \<and> clean_note reasoning = []
        then (Inl ReasoningRequired, s)
      else if must_differ \<and> signer_is_author a u
          \<and> decision \<in> {SIGNOFF_SIGNED, SIGNOFF_SIGNED_WITH_OBSERVATIONS}
        then (Inl AuthorCannotSign, s)
      else case load_payload loads store a of
          Inl e \<Rightarrow> (Inl e, s)
        | Inr payload \<Rightarrow>
            (let secs = review_seconds_at a u s;
                 g = \<lparr>s_id = new_id, s_matter_id = m_id m, s_artifact_id = a_id a,
                   s_invocation_id = a_invocation_id a, s_module_id = a_module_id a,
                   s_capability_id = a_capability_id a, s_kind = a_kind a,
                   s_artifact_hash = canonical_payload_hash H a payload, s_decision = decision,
                   s_reasoning = or_none (clean_note reasoning), s_signer_id = u_id u,
                   s_signed_at = clock s\<rparr>
             in (Inr g,
                 audit_log (signed_event u g (the (map_of SIGNOFF_ACTION_BY_DECISION decision))
                     (signer_is_author a u) secs (implausible_speed secs payload))
                   (on_working (add_signoff g) s))))"

section \<open>Reading the sign-offs\<close>

text \<open>\<open>ORDER BY signed_at DESC, id DESC\<close>, by two stable sorts.\<close>

definition list_signoffs :: "matter \<Rightarrow> session \<Rightarrow> signoff list" where
  "list_signoffs m s =
     rev (sort_key s_signed_at (sort_key s_id (filter (\<lambda>g. s_matter_id g = m_id m) (signoffs (working s)))))"

definition is_flag_row :: "uuid \<Rightarrow> audit_event \<Rightarrow> bool" where
  "is_flag_row sid e \<longleftrightarrow> ae_action e \<in> snd ` set SIGNOFF_ACTION_BY_DECISION
     \<and> ae_resource_type e = Some ''matter_signoff'' \<and> ae_resource_id e = Some sid
     \<and> (case ae_payload e of JObj _ \<Rightarrow> True | _ \<Rightarrow> False)"

definition flag_of :: "uuid \<Rightarrow> audit_event list \<Rightarrow> bool" where
  "flag_of sid rows = (case find (is_flag_row sid) (rev rows) of None \<Rightarrow> False
     | Some e \<Rightarrow> py_truthy (jget0 ''implausible_speed'' (ae_payload e)))"

definition review_annotations :: "signoff list \<Rightarrow> session \<Rightarrow> (uuid \<times> int option \<times> bool) list" where
  "review_annotations sigs s =
     (let rows = audit_rows (working s);
          opened = review_opened_at_map ((\<lambda>g. (s_signer_id g, s_artifact_id g)) ` set sigs) rows
      in map (\<lambda>g. (s_id g, review_latency_seconds (opened (s_signer_id g, s_artifact_id g)) (Some (s_signed_at g)),
                   flag_of (s_id g) rows)) sigs)"

fun current_signoff_ids_from :: "uuid list \<Rightarrow> uuid list \<Rightarrow> signoff list \<Rightarrow> uuid list" where
  "current_signoff_ids_from seen current [] = current"
| "current_signoff_ids_from seen current (g # gs) =
     (if s_artifact_id g \<notin> set seen
      then current_signoff_ids_from (s_artifact_id g # seen) (s_id g # current) gs
      else current_signoff_ids_from seen current gs)"

definition current_signoff_ids :: "signoff list \<Rightarrow> uuid set" where
  "current_signoff_ids gs = set (current_signoff_ids_from [] [] gs)"

section \<open>What the operations change\<close>

lemma add_signoff_simps [simp, frame_simps]:
  "signoffs (add_signoff g d) = signoffs d @ [g]"
  "audit_rows (add_signoff g d) = audit_rows d"
  "artifacts (add_signoff g d) = artifacts d"
  by (simp_all add: add_signoff_def)

lemma stamp_signed:
  "stamp s (signed_event u g act b secs f) = (signed_event u g act b secs f)\<lparr>ae_timestamp := clock s\<rparr>"
  by (simp add: stamp_def signed_event_def event0_def py_truthy_def)

lemma stamp_opened: "stamp s (opened_event m a u) = (opened_event m a u)\<lparr>ae_timestamp := clock s\<rparr>"
  by (simp add: stamp_def opened_event_def event0_def py_truthy_def)

lemma opened_event_row:
  "is_opened_row actor aid ((opened_event m a u)\<lparr>ae_timestamp := t\<rparr>) \<longleftrightarrow> actor = u_id u \<and> aid = a_id a"
  by (auto simp: is_opened_row_def opened_event_def event0_def)

lemma create_signoff_cases:
  assumes "create_signoff H loads store must_differ i m a u decision reasoning s = (Inr g, s')"
  obtains payload secs where "load_payload loads store a = Inr payload"
    and "decision \<in> set SIGNOFF_DECISIONS" and "secs = review_seconds_at a u s"
    and "decision \<in> set SIGNOFF_REASONING_REQUIRED \<Longrightarrow> clean_note reasoning \<noteq> []"
    and "must_differ \<Longrightarrow> signer_is_author a u \<Longrightarrow> decision = SIGNOFF_REJECTED"
    and "g = \<lparr>s_id = i, s_matter_id = m_id m, s_artifact_id = a_id a,
           s_invocation_id = a_invocation_id a, s_module_id = a_module_id a,
           s_capability_id = a_capability_id a, s_kind = a_kind a,
           s_artifact_hash = canonical_payload_hash H a payload, s_decision = decision,
           s_reasoning = or_none (clean_note reasoning), s_signer_id = u_id u, s_signed_at = clock s\<rparr>"
    and "s' = audit_log (signed_event u g (the (map_of SIGNOFF_ACTION_BY_DECISION decision))
             (signer_is_author a u) secs (implausible_speed secs payload)) (on_working (add_signoff g) s)"
proof -
  from assms obtain payload where p: "load_payload loads store a = Inr payload"
    by (auto simp: create_signoff_def split: if_splits sum.splits)
  from assms have "decision \<in> set SIGNOFF_DECISIONS"
    by (auto simp: create_signoff_def split: if_splits)
  with assms p show ?thesis
    by (intro that [OF p _ refl])
      (auto simp: create_signoff_def Let_def SIGNOFF_DECISIONS_def split: if_splits)
qed

lemma decision_action: "decision \<in> set SIGNOFF_DECISIONS \<Longrightarrow>
    the (map_of SIGNOFF_ACTION_BY_DECISION decision) \<in> snd ` set SIGNOFF_ACTION_BY_DECISION"
  by (auto simp: SIGNOFF_DECISIONS_def SIGNOFF_ACTION_BY_DECISION_def signoff_vocabulary)

lemma signed_not_opened:
  assumes "decision \<in> set SIGNOFF_DECISIONS"
  shows "\<not> is_opened_row x y ((signed_event u g (the (map_of SIGNOFF_ACTION_BY_DECISION decision)) b secs f)\<lparr>ae_timestamp := t\<rparr>)"
  by (simp add: is_opened_row_def signed_event_def event0_def)

section \<open>The earliest open\<close>

lemma foldl_min: "foldl min (t::int) ts = Min (insert t (set ts))"
proof (induction ts arbitrary: t)
  case (Cons x ts)
  then show ?case by (cases "ts = []") (simp_all add: min.assoc)
qed simp

lemma min_timestamp_Min:
  "min_timestamp rows = (if rows = [] then None else Some (Min (ae_timestamp ` set rows)))"
  by (cases rows) (simp_all add: min_timestamp_def foldl_min)

text \<open>Rows that come after the instant a latency is measured at cannot change it.\<close>

lemma latency_stable:
  assumes "\<And>e. e \<in> set es \<Longrightarrow> t < ae_timestamp e"
  shows "review_latency_seconds (min_timestamp (rows @ es)) (Some t)
    = review_latency_seconds (min_timestamp rows) (Some t)"
proof (cases "es = [] \<or> rows \<noteq> [] \<and> Min (ae_timestamp ` set rows) \<le> t")
  case True
  then show ?thesis
  proof
    assume r: "rows \<noteq> [] \<and> Min (ae_timestamp ` set rows) \<le> t"
    have "Min (ae_timestamp ` set (rows @ es)) = Min (ae_timestamp ` set rows)"
    proof (rule Min_eqI)
      show "Min (ae_timestamp ` set rows) \<in> ae_timestamp ` set (rows @ es)"
        using r Min_in [of "ae_timestamp ` set rows"] by (simp add: image_Un)
      fix x assume "x \<in> ae_timestamp ` set (rows @ es)"
      then consider "x \<in> ae_timestamp ` set rows" | "t < x" using assms by auto
      then show "Min (ae_timestamp ` set rows) \<le> x" using r by cases auto
    qed simp
    with r show ?thesis by (simp add: min_timestamp_Min del: set_append)
  qed simp
next
  case False
  then have "\<And>e. e \<in> set rows \<Longrightarrow> t < ae_timestamp e"
    by (metis (no_types) Min_le finite_imageI finite_set imageI length_pos_if_in_set list.size(3) not_less order_trans less_irrefl)
  with assms have late: "t < x" if "x \<in> ae_timestamp ` set (rows @ es)" for x
    using that by auto
  have none: "review_latency_seconds (min_timestamp l) (Some t) = None"
    if "\<And>x. x \<in> ae_timestamp ` set l \<Longrightarrow> t < x" for l
  proof (cases "l = []")
    case False
    then have "t < Min (ae_timestamp ` set l)" using that by simp
    with False show ?thesis by (simp add: min_timestamp_Min review_latency_seconds_def)
  qed (simp add: min_timestamp_Min review_latency_seconds_def)
  have "review_latency_seconds (min_timestamp rows) (Some t) = None"
    by (rule none) (use late in auto)
  moreover have "review_latency_seconds (min_timestamp (rows @ es)) (Some t) = None"
    by (rule none) (rule late)
  ultimately show ?thesis by simp
qed

lemma first_open_is_earliest:
  assumes "is_opened_row x y e" and "\<And>e'. e' \<in> set es \<Longrightarrow> ae_timestamp e \<le> ae_timestamp e'"
    and "\<And>e'. e' \<in> set rows \<Longrightarrow> \<not> is_opened_row x y e'"
  shows "min_timestamp (filter (is_opened_row x y) (rows @ e # es)) = Some (ae_timestamp e)"
proof -
  have "filter (is_opened_row x y) rows = []" using assms(3) by (simp add: filter_empty_conv)
  moreover have "Min (insert (ae_timestamp e) (ae_timestamp ` set (filter (is_opened_row x y) es))) = ae_timestamp e"
    using assms(2) by (intro Min_eqI) auto
  ultimately show ?thesis using assms(1) by (simp add: min_timestamp_Min del: set_filter)
qed
section \<open>The list of sign-offs\<close>

definition first_of_artifact :: "signoff list \<Rightarrow> signoff \<Rightarrow> bool" where
  "first_of_artifact gs g \<longleftrightarrow> find (\<lambda>x. s_artifact_id x = s_artifact_id g) gs = Some g"

lemma current_from:
  "set (current_signoff_ids_from seen cur gs) =
     set cur \<union> s_id ` {g. first_of_artifact gs g \<and> s_artifact_id g \<notin> set seen}"
  by (induction seen cur gs rule: current_signoff_ids_from.induct)
    (auto simp: first_of_artifact_def split: if_splits)

lemma current_ids: "current_signoff_ids gs = s_id ` {g. first_of_artifact gs g}"
  by (simp add: current_signoff_ids_def current_from)

definition newer :: "signoff \<Rightarrow> signoff \<Rightarrow> bool" where
  "newer g h \<longleftrightarrow> s_signed_at h < s_signed_at g \<or> s_signed_at h = s_signed_at g \<and> s_id h < s_id g"

lemma sort_stable:
  assumes "sorted_wrt (\<lambda>g h. s_id g \<le> s_id h) gs"
  shows "sorted_wrt (\<lambda>g h. s_signed_at g < s_signed_at h \<or> s_signed_at g = s_signed_at h \<and> s_id g \<le> s_id h)
    (sort_key s_signed_at gs)"
proof -
  have ins: "sorted_wrt R (insort_key s_signed_at g gs)"
    if "sorted_wrt R gs" and "\<forall>h \<in> set gs. s_id g \<le> s_id h"
      and "R = (\<lambda>g h. s_signed_at g < s_signed_at h \<or> s_signed_at g = s_signed_at h \<and> s_id g \<le> s_id h)"
    for R g gs
    using that by (induction gs) (auto simp: set_insort_key)
  from assms show ?thesis by (induction gs) (auto intro!: ins)
qed

lemma sorted_newest_first:
  assumes "distinct (map s_id (signoffs (working s)))"
  shows "sorted_wrt newer (list_signoffs m s)"
proof -
  let ?gs = "sort_key s_id (filter (\<lambda>g. s_matter_id g = m_id m) (signoffs (working s)))"
  have "sorted_wrt (\<lambda>g h. s_id g \<le> s_id h) ?gs"
    using sorted_sort_key [of s_id] by (simp only: sorted_map)
  then have le: "sorted_wrt (\<lambda>g h. s_signed_at g < s_signed_at h \<or> s_signed_at g = s_signed_at h \<and> s_id g \<le> s_id h)
    (sort_key s_signed_at ?gs)" by (rule sort_stable)
  have "distinct (map s_id (sort_key s_signed_at ?gs))"
    using assms by (simp add: distinct_map inj_on_def)
  then have "sorted_wrt (\<lambda>g h. s_id g \<noteq> s_id h) (sort_key s_signed_at ?gs)"
    by (simp add: distinct_conv_nth sorted_wrt_iff_nth_less)
  with le have "sorted_wrt (\<lambda>g h. newer h g) (sort_key s_signed_at ?gs)"
    by (auto simp: sorted_wrt_iff_nth_less newer_def) (metis order.strict_iff_order)+
  then show ?thesis by (simp add: list_signoffs_def sorted_wrt_rev)
qed

lemma first_is_newest:
  assumes "sorted_wrt newer gs" and "g \<in> set gs"
  shows "first_of_artifact gs g \<longleftrightarrow> (\<forall>h \<in> set gs. s_artifact_id h = s_artifact_id g \<longrightarrow> h = g \<or> newer g h)"
  using assms
proof (induction gs)
  case (Cons x gs)
  have asym: "newer a b \<Longrightarrow> \<not> newer b a" for a b by (auto simp: newer_def)
  show ?case
  proof (cases "s_artifact_id x = s_artifact_id g")
    case True
    then show ?thesis using Cons.prems asym by (auto simp: first_of_artifact_def)
  next
    case False
    then show ?thesis using Cons by (auto simp: first_of_artifact_def)
  qed
qed simp

lemma set_list_signoffs: "set (list_signoffs m s) = {g \<in> set (signoffs (working s)). s_matter_id g = m_id m}"
  by (simp add: list_signoffs_def)

section \<open>Properties\<close>

definition sample_artifact :: artifact where
  "sample_artifact = \<lparr>a_id = ''a'', a_matter_id = ''m'', a_module_id = ''mod'',
     a_capability_id = ''c'', a_invocation_id = ''i'', a_kind = ''chat_draft'', a_storage_path = ''k'',
     a_created_by_id = Some ''author'', a_created_at = 0, a_size_bytes = 0\<rparr>"

definition signed_matter :: matter where
  "signed_matter = \<lparr>m_id = ''m'', m_slug = ''x'', m_title = ''A matter'', m_status = ''open'',
     m_privilege_posture = ''cleared'', m_created_by_id = ''author'', m_retention_until = None, m_default_model_id = ''stub-echo'',
     m_matter_type = ''employment_tribunal'', m_cause = None, m_case_theory = None,
     m_pivot_fact = None, m_facts = JObj [], m_opened_at = 0, m_closed_at = None\<rparr>"

definition sample_sign :: "bool \<Rightarrow> uuid \<Rightarrow> uuid \<Rightarrow> string \<Rightarrow> string option \<Rightarrow> session \<Rightarrow> (signoff_error + signoff) \<times> session" where
  "sample_sign must_differ i uid decision reasoning s =
     create_signoff id (\<lambda>b. Some (JStr b)) [''k'' \<mapsto> ''two words''] must_differ i signed_matter sample_artifact
       \<lparr>u_id = uid, u_is_superuser = False\<rparr> decision reasoning s"

definition signed_sample :: "uuid \<Rightarrow> uuid \<Rightarrow> int \<Rightarrow> signoff" where
  "signed_sample i uid t = \<lparr>s_id = i, s_matter_id = ''m'', s_artifact_id = ''a'', s_invocation_id = ''i'',
     s_module_id = ''mod'', s_capability_id = ''c'', s_kind = ''chat_draft'',
     s_artifact_hash = canonical_payload_hash id sample_artifact (JStr ''two words''),
     s_decision = ''signed'', s_reasoning = None, s_signer_id = uid, s_signed_at = t\<rparr>"

lemma sample_sign_ok:
  "\<not> must_differ \<or> uid \<noteq> ''author'' \<Longrightarrow>
     sample_sign must_differ i uid ''signed'' None s
       = (Inr (signed_sample i uid (clock s)), snd (sample_sign must_differ i uid ''signed'' None s))"
  by (auto simp: sample_sign_def create_signoff_def SIGNOFF_DECISIONS_def SIGNOFF_REASONING_REQUIRED_def
      signoff_vocabulary load_payload_def load_artifact_bytes_def is_legacy_path_def signed_sample_def
      sample_artifact_def signed_matter_def signer_is_author_def clean_note_def py_strip_def py_lstrip_def Let_def)

text \<open>C12. The signed hash pins the output: two sign-offs with the same hash are over the same
  artifact and kind, and the payloads their signers saw are the same document up to the order
  of keys - or the two texts hashed are a collision of SHA-256.\<close>

theorem signature_pins_output:
  assumes "create_signoff H loads st1 md1 i1 m1 a1 u1 dec1 why1 s1 = (Inr g1, s1')"
    and "create_signoff H loads st2 md2 i2 m2 a2 u2 dec2 why2 s2 = (Inr g2, s2')"
    and "s_artifact_hash g1 = s_artifact_hash g2"
  shows "\<exists>p1 p2. load_payload loads st1 a1 = Inr p1 \<and> load_payload loads st2 a2 = Inr p2 \<and>
    (s_artifact_id g1 = s_artifact_id g2 \<and> s_kind g1 = s_kind g2 \<and> sort_json p1 = sort_json p2 \<or>
     (\<exists>x y. x \<noteq> y \<and> H x = H y \<and> H x = s_artifact_hash g1))"
proof -
  let ?text = "\<lambda>a p. utf8 (json_dumps False (canonical_document a p))"
  from create_signoff_cases [OF assms(1)] obtain p1 where p1: "load_payload loads st1 a1 = Inr p1"
    "s_artifact_id g1 = a_id a1" "s_kind g1 = a_kind a1" "s_artifact_hash g1 = H (?text a1 p1)"
    by (metis canonical_payload_hash_def signoff.select_convs(3,7,8))
  from create_signoff_cases [OF assms(2)] obtain p2 where p2: "load_payload loads st2 a2 = Inr p2"
    "s_artifact_id g2 = a_id a2" "s_kind g2 = a_kind a2" "s_artifact_hash g2 = H (?text a2 p2)"
    by (metis canonical_payload_hash_def signoff.select_convs(3,7,8))
  show ?thesis
  proof (cases "?text a1 p1 = ?text a2 p2")
    case True
    then have "sort_json (canonical_document a1 p1) = sort_json (canonical_document a2 p2)"
      by (rule json_bytes_decodable [THEN iffD1])
    then have "a_id a1 = a_id a2 \<and> a_kind a1 = a_kind a2 \<and> sort_json p1 = sort_json p2"
      by (simp add: canonical_document_def)
    with p1 p2 show ?thesis by auto
  next
    case False
    with p1 p2 assms(3) show ?thesis by metis
  qed
qed

theorem signature_pins_output_witness:
  "let s = open_session empty_db 5 in
     \<exists>p1 p2. load_payload (\<lambda>b. Some (JStr b)) [''k'' \<mapsto> ''two words''] sample_artifact = Inr p1 \<and>
       load_payload (\<lambda>b. Some (JStr b)) [''k'' \<mapsto> ''two words''] sample_artifact = Inr p2 \<and>
       (''a'' = s_artifact_id (signed_sample ''y'' ''other'' 5) \<and>
        s_kind (signed_sample ''x'' ''author'' 5) = s_kind (signed_sample ''y'' ''other'' 5) \<and> sort_json p1 = sort_json p2)"
proof -
  have "s_artifact_hash (signed_sample ''x'' ''author'' 5) = s_artifact_hash (signed_sample ''y'' ''other'' 5)"
    by (simp add: signed_sample_def)
  from signature_pins_output [OF sample_sign_ok [of False "''author''" "''x''" "open_session empty_db 5", unfolded sample_sign_def]
    sample_sign_ok [of False "''other''" "''y''" "open_session empty_db 5", unfolded sample_sign_def]]
  show ?thesis by (simp add: Let_def signed_sample_def open_session_def id_def)
qed

lemma signoff_effect:
  assumes "create_signoff H loads store must_differ i m a u decision reasoning s = (Inr g, s')"
  shows "durable s' = durable s \<and> signoffs (working s') = signoffs (working s) @ [g]
        \<and> s_id g = i \<and> s_signer_id g = u_id u \<and> s_decision g = decision
        \<and> (\<exists>e. audit_rows (working s') = audit_rows (working s) @ [e]
             \<and> ae_resource_id e = Some i \<and> ae_actor_id e = Some (u_id u)
             \<and> jget ''signer_is_author'' (ae_payload e) = Some (JBool (a_created_by_id a = Some (u_id u))))"
proof (rule create_signoff_cases [OF assms])
  fix payload secs
  let ?e = "signed_event u g (the (map_of SIGNOFF_ACTION_BY_DECISION decision)) (signer_is_author a u) secs
    (implausible_speed secs payload)"
  assume g: "g = \<lparr>s_id = i, s_matter_id = m_id m, s_artifact_id = a_id a,
           s_invocation_id = a_invocation_id a, s_module_id = a_module_id a,
           s_capability_id = a_capability_id a, s_kind = a_kind a,
           s_artifact_hash = canonical_payload_hash H a payload, s_decision = decision,
           s_reasoning = or_none (clean_note reasoning), s_signer_id = u_id u, s_signed_at = clock s\<rparr>"
    and s': "s' = audit_log ?e (on_working (add_signoff g) s)"
  have "audit_rows (working s') = audit_rows (working s) @ [?e\<lparr>ae_timestamp := clock s\<rparr>]"
    by (simp add: s' stamp_signed)
  moreover have "ae_resource_id (?e\<lparr>ae_timestamp := clock s\<rparr>) = Some i"
    and "ae_actor_id (?e\<lparr>ae_timestamp := clock s\<rparr>) = Some (u_id u)"
    and "jget ''signer_is_author'' (ae_payload (?e\<lparr>ae_timestamp := clock s\<rparr>))
        = Some (JBool (a_created_by_id a = Some (u_id u)))"
    by (simp_all add: signed_event_def event0_def jget_def signer_is_author_def g)
  moreover have "s_id g = i \<and> s_signer_id g = u_id u \<and> s_decision g = decision"
    by (simp add: g)
  moreover have "durable s' = durable s \<and> signoffs (working s') = signoffs (working s) @ [g]"
    by (simp add: s')
  ultimately show ?thesis by blast
qed

text \<open>A sign-off succeeds exactly when the decision is one of the three, the reasoning is
  there where the decision demands it, the payload can be read, and - in a four-eyes
  deployment - the signer is not the artifact's author unless the decision is a rejection; it
  then appends one sign-off and one audit row that names its author's relation, and an attempt
  that fails changes nothing.\<close>

theorem signoff_exact:
  "(case create_signoff H loads store must_differ i m a u decision reasoning s of
      (res, s') \<Rightarrow>
        ((\<exists>g. res = Inr g) \<longleftrightarrow>
           decision \<in> {''signed'', ''signed_with_observations'', ''rejected''}
           \<and> (decision = ''signed'' \<or> clean_note reasoning \<noteq> [])
           \<and> (\<exists>p. load_payload loads store a = Inr p)
           \<and> \<not> (must_differ \<and> a_created_by_id a = Some (u_id u) \<and> decision \<noteq> ''rejected''))
        \<and> (case res of Inl _ \<Rightarrow> s' = s
            | Inr g \<Rightarrow> durable s' = durable s \<and> signoffs (working s') = signoffs (working s) @ [g]
                \<and> s_id g = i \<and> s_signer_id g = u_id u \<and> s_decision g = decision
                \<and> (\<exists>e. audit_rows (working s') = audit_rows (working s) @ [e]
                     \<and> ae_resource_id e = Some i \<and> ae_actor_id e = Some (u_id u)
                     \<and> jget ''signer_is_author'' (ae_payload e)
                         = Some (JBool (a_created_by_id a = Some (u_id u))))))"
proof -
  have iff: "(\<exists>g. fst (create_signoff H loads store must_differ i m a u decision reasoning s) = Inr g) \<longleftrightarrow>
           decision \<in> {''signed'', ''signed_with_observations'', ''rejected''}
           \<and> (decision = ''signed'' \<or> clean_note reasoning \<noteq> [])
           \<and> (\<exists>p. load_payload loads store a = Inr p)
           \<and> \<not> (must_differ \<and> a_created_by_id a = Some (u_id u) \<and> decision \<noteq> ''rejected'')"
    by (auto simp: create_signoff_def SIGNOFF_DECISIONS_def SIGNOFF_REASONING_REQUIRED_def
        signoff_vocabulary signer_is_author_def Let_def split: sum.splits)
  obtain res s' where eq: "create_signoff H loads store must_differ i m a u decision reasoning s = (res, s')"
    by (cases "create_signoff H loads store must_differ i m a u decision reasoning s")
  show ?thesis
  proof (cases res)
    case (Inl x)
    with eq have "s' = s" by (auto simp: create_signoff_def Let_def split: if_splits sum.splits)
    with iff eq Inl show ?thesis by simp
  next
    case (Inr g)
    have "durable s' = durable s \<and> signoffs (working s') = signoffs (working s) @ [g]
        \<and> s_id g = i \<and> s_signer_id g = u_id u \<and> s_decision g = decision
        \<and> (\<exists>e. audit_rows (working s') = audit_rows (working s) @ [e]
             \<and> ae_resource_id e = Some i \<and> ae_actor_id e = Some (u_id u)
             \<and> jget ''signer_is_author'' (ae_payload e) = Some (JBool (a_created_by_id a = Some (u_id u))))"
      using signoff_effect [OF eq [unfolded Inr]] .
    with iff eq Inr show ?thesis by simp
  qed
qed

theorem signoff_exact_witness:
  "(\<exists>g. fst (sample_sign True ''x'' ''other'' ''signed'' None (open_session empty_db 5)) = Inr g) \<and>
   \<not> (\<exists>g. fst (sample_sign True ''x'' ''author'' ''signed'' None (open_session empty_db 5)) = Inr g) \<and>
   (\<exists>g. fst (sample_sign True ''x'' ''author'' ''rejected'' (Some ''no'') (open_session empty_db 5)) = Inr g)"
proof -
  have load: "load_payload (\<lambda>b. Some (JStr b)) [''k'' \<mapsto> ''two words''] sample_artifact = Inr (JStr ''two words'')"
    by (simp add: load_payload_def load_artifact_bytes_def is_legacy_path_def sample_artifact_def)
  have "clean_note (Some ''no'') \<noteq> []"
    by (simp add: clean_note_def py_strip_def py_lstrip_def py_isspace_def Let_def)
  then show ?thesis
    using load
      signoff_exact [where H = id and loads = "\<lambda>b. Some (JStr b)" and store = "[''k'' \<mapsto> ''two words'']"
        and must_differ = True and i = "''x''" and m = signed_matter and a = sample_artifact
        and u = "\<lparr>u_id = ''other'', u_is_superuser = False\<rparr>" and decision = "''signed''"
        and reasoning = None and s = "open_session empty_db 5"]
      signoff_exact [where H = id and loads = "\<lambda>b. Some (JStr b)" and store = "[''k'' \<mapsto> ''two words'']"
        and must_differ = True and i = "''x''" and m = signed_matter and a = sample_artifact
        and u = "\<lparr>u_id = ''author'', u_is_superuser = False\<rparr>" and decision = "''signed''"
        and reasoning = None and s = "open_session empty_db 5"]
      signoff_exact [where H = id and loads = "\<lambda>b. Some (JStr b)" and store = "[''k'' \<mapsto> ''two words'']"
        and must_differ = True and i = "''x''" and m = signed_matter and a = sample_artifact
        and u = "\<lparr>u_id = ''author'', u_is_superuser = False\<rparr>" and decision = "''rejected''"
        and reasoning = "Some ''no''" and s = "open_session empty_db 5"]
    by (simp add: sample_sign_def split_def sample_artifact_def)
qed

subsection \<open>The review window\<close>

lemma latency_from_first_open:
  assumes open1: "record_review_opened m a u s0 = (True, s1)"
    and later: "audit_rows (working s2) = audit_rows (working s1) @ es"
      "\<And>e. e \<in> set es \<Longrightarrow> clock s0 \<le> ae_timestamp e"
  shows "review_opened_at_map {(u_id u, a_id a)} (audit_rows (working s2)) (u_id u, a_id a) = Some (clock s0)"
    and "record_review_opened m' a u s2 = (False, s2)"
proof -
  let ?e = "(opened_event m a u)\<lparr>ae_timestamp := clock s0\<rparr>"
  have none: "find (is_opened_row (u_id u) (a_id a)) (audit_rows (working s0)) = None"
    and s1: "s1 = audit_log (opened_event m a u) s0"
    using open1 by (auto simp: record_review_opened_def split: option.splits)
  have rows: "audit_rows (working s2) = audit_rows (working s0) @ ?e # es"
    by (simp add: later(1) s1 stamp_opened)
  have row: "is_opened_row (u_id u) (a_id a) ?e" by (simp add: opened_event_row)
  have "min_timestamp (filter (is_opened_row (u_id u) (a_id a)) (audit_rows (working s0) @ ?e # es)) = Some (ae_timestamp ?e)"
    by (rule first_open_is_earliest) (use row later(2) none in \<open>auto dest: find_NoneD\<close>)
  then show "review_opened_at_map {(u_id u, a_id a)} (audit_rows (working s2)) (u_id u, a_id a) = Some (clock s0)"
    by (simp add: review_opened_at_map_def rows del: filter_append)
  have "find (is_opened_row (u_id u) (a_id a)) (audit_rows (working s2)) \<noteq> None"
    using row by (auto simp: rows find_None_iff)
  then show "record_review_opened m' a u s2 = (False, s2)"
    by (auto simp: record_review_opened_def)
qed

text \<open>The review window runs from the signer's first open of the artifact: after it, whatever
  rows the log gained since, opening again writes nothing, and a sign-off by that signer records
  the whole seconds since the first open, flagged as implausible exactly when they are under
  the larger of two minutes and 0.15 seconds for each word of the payload.\<close>

theorem signoff_measures_from_first_open:
  assumes "record_review_opened m a u s0 = (True, s1)"
    and "audit_rows (working s2) = audit_rows (working s1) @ es"
    and "\<And>e. e \<in> set es \<Longrightarrow> clock s0 \<le> ae_timestamp e" and "clock s0 \<le> clock s2"
    and "create_signoff H loads store md i m' a u decision reasoning s2 = (Inr g, s3)"
    and "load_payload loads store a = Inr payload"
  shows "record_review_opened m' a u s2 = (False, s2) \<and>
    (let secs = (clock s2 - clock s0) div 1000000; e = last (audit_rows (working s3)) in
       jget ''review_seconds'' (ae_payload e) = Some (JInt secs) \<and>
       jget ''implausible_speed'' (ae_payload e) =
         Some (JBool (20 * secs < max 2400 (3 * int (count_payload_words payload)))))"
proof (rule create_signoff_cases [OF assms(5)])
  fix p secs
  assume p: "load_payload loads store a = Inr p" and secs: "secs = review_seconds_at a u s2"
    and s3: "s3 = audit_log (signed_event u g (the (map_of SIGNOFF_ACTION_BY_DECISION decision))
      (signer_is_author a u) secs (implausible_speed secs p)) (on_working (add_signoff g) s2)"
  have "secs = Some ((clock s2 - clock s0) div 1000000)"
    using latency_from_first_open(1) [OF assms(1,2)] assms(3,4)
    by (simp add: secs review_seconds_at_def review_latency_seconds_def)
  with latency_from_first_open(2) [OF assms(1,2), of m'] assms(3,6) p show ?thesis
    by (simp add: s3 stamp_signed Let_def)
      (simp add: signed_event_def jget_def jint_opt_def implausible_speed_def
        implausible_speed_threshold_twentieths_def)
qed

definition sample_open :: "session \<Rightarrow> bool \<times> session" where
  "sample_open s = record_review_opened signed_matter sample_artifact \<lparr>u_id = ''author'', u_is_superuser = False\<rparr> s"

theorem signoff_measures_from_first_open_witness:
  "let s1 = snd (sample_open (open_session empty_db 0)); s2 = s1\<lparr>clock := 200000000\<rparr>;
       s3 = snd (sample_sign False ''x'' ''author'' ''signed'' None s2) in
     jget ''review_seconds'' (ae_payload (last (audit_rows (working s3)))) = Some (JInt 200)"
proof -
  let ?s1 = "snd (sample_open (open_session empty_db 0))" and ?s2 = "(snd (sample_open (open_session empty_db 0)))\<lparr>clock := 200000000\<rparr>"
  have "sample_open (open_session empty_db 0) = (True, ?s1)"
    by (simp add: sample_open_def record_review_opened_def open_session_def empty_db_def)
  moreover have "load_payload (\<lambda>b. Some (JStr b)) [''k'' \<mapsto> ''two words''] sample_artifact = Inr (JStr ''two words'')"
    by (simp add: load_payload_def load_artifact_bytes_def is_legacy_path_def sample_artifact_def)
  moreover have "sample_sign False ''x'' ''author'' ''signed'' None ?s2
      = (Inr (signed_sample ''x'' ''author'' (clock ?s2)), snd (sample_sign False ''x'' ''author'' ''signed'' None ?s2))"
    by (rule sample_sign_ok) simp
  ultimately show ?thesis
    using signoff_measures_from_first_open [of signed_matter sample_artifact "\<lparr>u_id = ''author'', u_is_superuser = False\<rparr>"
      "open_session empty_db 0" ?s1 ?s2 "[]" id "\<lambda>b. Some (JStr b)" "[''k'' \<mapsto> ''two words'']" False "''x''" signed_matter
      "''signed''" None "signed_sample ''x'' ''author'' (clock ?s2)" "snd (sample_sign False ''x'' ''author'' ''signed'' None ?s2)" "JStr ''two words''"]
    by (simp add: sample_open_def sample_sign_def Let_def open_session_def)
qed

subsection \<open>What the list shows\<close>

lemma signed_row_flagged:
  assumes "decision \<in> set SIGNOFF_DECISIONS"
  shows "is_flag_row (s_id g) ((signed_event u g (the (map_of SIGNOFF_ACTION_BY_DECISION decision)) b secs f)\<lparr>ae_timestamp := t\<rparr>)"
  using decision_action [OF assms] by (simp add: is_flag_row_def signed_event_def event0_def)

lemma flag_of_last:
  assumes "is_flag_row i e" and "\<And>e. e \<in> set es \<Longrightarrow> \<not> is_flag_row i e"
  shows "flag_of i (rows @ e # es) = py_truthy (jget0 ''implausible_speed'' (ae_payload e))"
proof -
  have "find (is_flag_row i) (rev es @ e # rev rows) = Some e"
    using assms by (induction es rule: rev_induct) (auto split: if_splits)
  then show ?thesis by (simp add: flag_of_def)
qed

text \<open>The list shows what was recorded: in any later state of the log without another row
  about this sign-off, the annotation read back for it holds exactly the latency and the speed
  flag its own audit row recorded, opens recorded after the signature notwithstanding.\<close>

theorem annotations_read_back:
  assumes "create_signoff H loads store md i m a u decision reasoning s = (Inr g, s')"
    and "audit_rows (working s2) = audit_rows (working s') @ es" and "g \<in> set sigs"
    and "\<And>e. e \<in> set es \<Longrightarrow> \<not> is_flag_row i e"
    and "\<And>e. e \<in> set es \<Longrightarrow> is_opened_row (u_id u) (a_id a) e \<Longrightarrow> clock s < ae_timestamp e"
  shows "\<exists>secs flag. (i, secs, flag) \<in> set (review_annotations sigs s2) \<and>
    jget ''review_seconds'' (ae_payload (last (audit_rows (working s')))) = Some (jint_opt secs) \<and>
    jget ''implausible_speed'' (ae_payload (last (audit_rows (working s')))) = Some (JBool flag)"
proof (rule create_signoff_cases [OF assms(1)])
  fix p secs
  let ?f = "implausible_speed secs p"
  let ?e = "(signed_event u g (the (map_of SIGNOFF_ACTION_BY_DECISION decision)) (signer_is_author a u) secs ?f)\<lparr>ae_timestamp := clock s\<rparr>"
  let ?P = "is_opened_row (u_id u) (a_id a)"
  assume dec: "decision \<in> set SIGNOFF_DECISIONS" and secs: "secs = review_seconds_at a u s"
    and g: "g = \<lparr>s_id = i, s_matter_id = m_id m, s_artifact_id = a_id a,
           s_invocation_id = a_invocation_id a, s_module_id = a_module_id a,
           s_capability_id = a_capability_id a, s_kind = a_kind a,
           s_artifact_hash = canonical_payload_hash H a p, s_decision = decision,
           s_reasoning = or_none (clean_note reasoning), s_signer_id = u_id u, s_signed_at = clock s\<rparr>"
    and s': "s' = audit_log (signed_event u g (the (map_of SIGNOFF_ACTION_BY_DECISION decision))
      (signer_is_author a u) secs ?f) (on_working (add_signoff g) s)"
  have last: "last (audit_rows (working s')) = ?e" by (simp add: s' stamp_signed)
  have rows: "audit_rows (working s2) = audit_rows (working s) @ ?e # es"
    by (simp add: assms(2) s' stamp_signed)
  have ids: "s_id g = i" "s_signer_id g = u_id u" "s_artifact_id g = a_id a" "s_signed_at g = clock s"
    by (simp_all add: g)
  have "min_timestamp (filter ?P (audit_rows (working s2))) = min_timestamp (filter ?P (audit_rows (working s)) @ filter ?P es)"
    using signed_not_opened [OF dec, of "u_id u" "a_id a"] by (simp add: rows)
  then have "review_latency_seconds (min_timestamp (filter ?P (audit_rows (working s2)))) (Some (clock s)) = secs"
    using latency_stable [of "filter ?P es" "clock s" "filter ?P (audit_rows (working s))"] assms(5)
    by (simp add: secs review_seconds_at_def review_opened_at_map_def)
  moreover have "flag_of i (audit_rows (working s2)) = ?f"
    using flag_of_last [OF signed_row_flagged [OF dec, of g] assms(4) [folded ids(1)]] ids(1)
    by (simp add: rows) (simp add: signed_event_def jget0_def jget_def py_truthy_def)
  moreover have "(u_id u, a_id a) \<in> (\<lambda>g. (s_signer_id g, s_artifact_id g)) ` set sigs"
    using assms(3) ids by force
  ultimately have "(i, secs, ?f) \<in> set (review_annotations sigs s2)"
    using assms(3) ids by (force simp: review_annotations_def review_opened_at_map_def Let_def)
  moreover have "jget ''review_seconds'' (ae_payload ?e) = Some (jint_opt secs)"
    and "jget ''implausible_speed'' (ae_payload ?e) = Some (JBool ?f)"
    by (simp_all add: signed_event_def jget_def)
  ultimately show ?thesis unfolding last by blast
qed

theorem annotations_read_back_witness:
  "let s' = snd (sample_sign False ''x'' ''author'' ''signed'' None (open_session empty_db 5)) in
   \<exists>secs flag. (''x'', secs, flag) \<in> set (review_annotations [signed_sample ''x'' ''author'' 5] s') \<and>
    jget ''review_seconds'' (ae_payload (last (audit_rows (working s')))) = Some (jint_opt secs)"
proof -
  have "sample_sign False ''x'' ''author'' ''signed'' None (open_session empty_db 5)
      = (Inr (signed_sample ''x'' ''author'' (clock (open_session empty_db 5))),
         snd (sample_sign False ''x'' ''author'' ''signed'' None (open_session empty_db 5)))"
    by (rule sample_sign_ok) simp
  then show ?thesis
    using annotations_read_back [of id "\<lambda>b. Some (JStr b)" "[''k'' \<mapsto> ''two words'']" False "''x''" signed_matter
      sample_artifact "\<lparr>u_id = ''author'', u_is_superuser = False\<rparr>" "''signed''" None "open_session empty_db 5"
      "signed_sample ''x'' ''author'' 5" "snd (sample_sign False ''x'' ''author'' ''signed'' None (open_session empty_db 5))"
      "snd (sample_sign False ''x'' ''author'' ''signed'' None (open_session empty_db 5))" "[]"
      "[signed_sample ''x'' ''author'' 5]"]
    by (auto simp: sample_sign_def open_session_def Let_def)
qed

text \<open>In the list of a matter's sign-offs the current ones are the newest of each artifact: a
  sign-off of the list is current exactly when every other sign-off of its artifact on the
  matter was signed earlier, the larger identifier deciding between equal instants.\<close>

theorem current_is_newest:
  assumes "distinct (map s_id (signoffs (working s)))"
    and "g \<in> set (signoffs (working s))" and "s_matter_id g = m_id m"
  shows "s_id g \<in> current_signoff_ids (list_signoffs m s) \<longleftrightarrow>
    (\<forall>h \<in> set (signoffs (working s)). s_matter_id h = m_id m \<and> s_artifact_id h = s_artifact_id g \<and> h \<noteq> g
       \<longrightarrow> s_signed_at h < s_signed_at g \<or> s_signed_at h = s_signed_at g \<and> s_id h < s_id g)"
proof -
  let ?gs = "list_signoffs m s"
  have g: "g \<in> set ?gs" using assms by (simp add: set_list_signoffs)
  have "first_of_artifact ?gs h \<Longrightarrow> h \<in> set ?gs" for h
    by (auto simp: first_of_artifact_def dest: find_SomeD)
  then have "s_id g \<in> current_signoff_ids ?gs \<longleftrightarrow> first_of_artifact ?gs g"
    using assms(1,2) by (auto simp: current_ids set_list_signoffs distinct_map inj_on_eq_iff)
  also have "\<dots> \<longleftrightarrow> (\<forall>h \<in> set ?gs. s_artifact_id h = s_artifact_id g \<longrightarrow> h = g \<or> newer g h)"
    by (rule first_is_newest [OF sorted_newest_first [OF assms(1)] g])
  finally show ?thesis by (auto simp: set_list_signoffs newer_def)
qed

theorem current_is_newest_witness:
  "let s = open_session (empty_db\<lparr>signoffs := [signed_sample ''x'' ''u'' 5, signed_sample ''y'' ''u'' 9]\<rparr>) 10 in
     ''y'' \<in> current_signoff_ids (list_signoffs signed_matter s)
     \<and> ''x'' \<notin> current_signoff_ids (list_signoffs signed_matter s)"
  using current_is_newest [of "open_session (empty_db\<lparr>signoffs := [signed_sample ''x'' ''u'' 5, signed_sample ''y'' ''u'' 9]\<rparr>) 10"
      "signed_sample ''y'' ''u'' 9" signed_matter]
    current_is_newest [of "open_session (empty_db\<lparr>signoffs := [signed_sample ''x'' ''u'' 5, signed_sample ''y'' ''u'' 9]\<rparr>) 10"
      "signed_sample ''x'' ''u'' 5" signed_matter]
  by (simp add: open_session_def signed_sample_def signed_matter_def Let_def)

end
