(* ===== verification/EditResolver.thy ===== *)
theory EditResolver
  imports Database
begin

text \<open>
  Accepting and rejecting tracked changes (\<open>app/modules/document_edit/resolver.py\<close>): the
  anchor substitution, the base text, the resolution of one edit and of all edits of a version,
  and the closing version that carries the resolved text. Joins find rows by primary key; a
  query without an order yields rows in table order. The advisory lock orders transactions and
  changes no data: the operations below are whole transactions in that order.
\<close>

section \<open>Anchor substitution\<close>

text \<open>The first occurrence of a text: what precedes it and what follows it.\<close>

fun split_first :: "string \<Rightarrow> string \<Rightarrow> (string \<times> string) option" where
  "split_first pat [] = (if pat = [] then Some ([], []) else None)"
| "split_first pat (c # cs) =
     (if starts_with pat (c # cs) then Some ([], drop (length pat) (c # cs))
      else map_option (\<lambda>(p, q). (c # p, q)) (split_first pat cs))"

text \<open>\<open>old in s\<close> and \<open>s.replace(old, new, 1)\<close>.\<close>

definition contains_text :: "string \<Rightarrow> string \<Rightarrow> bool" where
  "contains_text pat s \<longleftrightarrow> split_first pat s \<noteq> None"

definition replace_first :: "string \<Rightarrow> string \<Rightarrow> string \<Rightarrow> string" where
  "replace_first pat new s = (case split_first pat s of None \<Rightarrow> s | Some (p, q) \<Rightarrow> p @ new @ q)"

definition EDIT_STATUS_PENDING :: string where "EDIT_STATUS_PENDING = ''pending''"
definition EDIT_STATUS_ACCEPTED :: string where "EDIT_STATUS_ACCEPTED = ''accepted''"
definition EDIT_STATUS_REJECTED :: string where "EDIT_STATUS_REJECTED = ''rejected''"
definition VERSION_KIND_USER_ACCEPT :: string where "VERSION_KIND_USER_ACCEPT = ''user_accept''"
definition VERSION_KIND_USER_REJECT :: string where "VERSION_KIND_USER_REJECT = ''user_reject''"

lemmas edit_vocabulary = EDIT_STATUS_PENDING_def EDIT_STATUS_ACCEPTED_def EDIT_STATUS_REJECTED_def

definition apply_anchor_substitution :: "string \<Rightarrow> doc_edit \<Rightarrow> string \<times> string" where
  "apply_anchor_substitution base_text e =
     (let deleted = e_deleted_text e; inserted = e_inserted_text e;
          before = e_context_before e; after = e_context_after e;
          anchor = before @ deleted @ after
      in if deleted = [] \<and> inserted = [] then (base_text, ''applied'')
         else if anchor \<noteq> [] \<and> contains_text anchor base_text
           then (replace_first anchor (before @ inserted @ after) base_text, ''applied'')
         else if before = [] \<and> after = [] \<and> deleted \<noteq> [] \<and> contains_text deleted base_text
           then (replace_first deleted inserted base_text, ''applied'')
         else (base_text, ''skipped_no_anchor''))"

fun apply_all_accepted :: "string \<Rightarrow> doc_edit list \<Rightarrow> string \<times> string list" where
  "apply_all_accepted text_out [] = (text_out, [])"
| "apply_all_accepted text_out (e # es) =
     (if e_status e \<noteq> EDIT_STATUS_ACCEPTED
      then map_prod id (Cons ''not_accepted'') (apply_all_accepted text_out es)
      else (case apply_anchor_substitution text_out e of
              (t, st) \<Rightarrow> map_prod id (Cons st) (apply_all_accepted t es)))"

section \<open>Base text and version numbers\<close>

definition latest_resolved :: "uuid \<Rightarrow> db \<Rightarrow> doc_version option" where
  "latest_resolved did d =
     (case filter (\<lambda>v. v_document_id v = did \<and> v_resolved_text v \<noteq> None) (doc_versions d) of
        [] \<Rightarrow> None | v # vs \<Rightarrow> Some (max_by v_version_number v vs))"

definition get_base_text :: "uuid \<Rightarrow> db \<Rightarrow> string" where
  "get_base_text did d =
     (case Option.bind (latest_resolved did d) v_resolved_text of
        Some t \<Rightarrow> t
      | None \<Rightarrow> (case extracted_body_for did d of None \<Rightarrow> [] | Some b \<Rightarrow> b_extracted_text b))"

definition max_version :: "uuid \<Rightarrow> db \<Rightarrow> int" where
  "max_version did d =
     (case map v_version_number (filter (\<lambda>v. v_document_id v = did) (doc_versions d)) of
        [] \<Rightarrow> 0 | n # ns \<Rightarrow> max_by id n ns)"

definition next_version_number :: "uuid \<Rightarrow> db \<Rightarrow> int" where
  "next_version_number did d = max_version did d + 1"

definition matter_for_version :: "uuid \<Rightarrow> db \<Rightarrow> (doc_version \<times> document \<times> matter) option" where
  "matter_for_version vid d =
     (case find (\<lambda>v. v_id v = vid) (doc_versions d) of None \<Rightarrow> None
      | Some v \<Rightarrow> (case find (\<lambda>x. doc_id x = v_document_id v) (documents d) of None \<Rightarrow> None
          | Some x \<Rightarrow> (case find (\<lambda>m. m_id m = doc_matter_id x) (matters d) of None \<Rightarrow> None
              | Some m \<Rightarrow> Some (v, x, m))))"

section \<open>Closing a version\<close>

definition edits_of :: "uuid \<Rightarrow> db \<Rightarrow> doc_edit list" where
  "edits_of vid d = filter (\<lambda>e. e_version_id e = vid) (doc_edits d)"

definition add_version :: "doc_version \<Rightarrow> db \<Rightarrow> db" where
  "add_version v d = d\<lparr>doc_versions := doc_versions d @ [v]\<rparr>"

definition module_event :: "string \<Rightarrow> uuid \<Rightarrow> matter \<Rightarrow> string \<Rightarrow> uuid \<Rightarrow> (string \<times> json) list \<Rightarrow> audit_event" where
  "module_event action actor m res_type res_id payload = (event0 action)
     \<lparr>ae_actor_id := Some actor, ae_matter_id := Some (m_id m), ae_module := Some ''document_edit'',
      ae_resource_type := Some res_type, ae_resource_id := Some res_id, ae_payload := JObj payload\<rparr>"

definition skipped :: "string \<Rightarrow> bool" where
  "skipped st \<longleftrightarrow> starts_with ''skipped'' st"

definition skip_events :: "uuid \<Rightarrow> matter \<Rightarrow> uuid \<Rightarrow> uuid \<Rightarrow> (doc_edit \<times> string) list \<Rightarrow> audit_event list" where
  "skip_events actor m vid new_id pairs =
     map (\<lambda>(e, st). module_event ''document.edit.resolution_skipped'' actor m ''document_edit'' (e_id e)
            [(''version_id'', JStr vid), (''new_version_id'', JStr new_id), (''reason'', JStr st)])
       (filter (\<lambda>(e, st). skipped st) pairs)"

definition audit_log_all :: "audit_event list \<Rightarrow> session \<Rightarrow> session" where
  "audit_log_all es s = foldl (\<lambda>s e. audit_log e s) s es"

definition closing_version ::
  "uuid \<Rightarrow> doc_version \<Rightarrow> document \<Rightarrow> uuid \<Rightarrow> db \<Rightarrow> doc_version \<times> string list" where
  "closing_version new_id v doc actor d =
     (let edits = edits_of (v_id v) d;
          accepted = filter (\<lambda>e. e_status e = EDIT_STATUS_ACCEPTED) edits;
          rejected_count = length (filter (\<lambda>e. e_status e = EDIT_STATUS_REJECTED) edits);
          (resolved_text, statuses) = apply_all_accepted (get_base_text (doc_id doc) d) accepted
      in (\<lparr>v_id = new_id, v_document_id = doc_id doc, v_version_number = max_version (doc_id doc) d + 1,
           v_kind = (if accepted \<noteq> [] then VERSION_KIND_USER_ACCEPT else VERSION_KIND_USER_REJECT),
           v_created_by_id = actor,
           v_notes = Some (''resolved version_id='' @ v_id v @ '' accepted='' @ nat_str (length accepted)
             @ '' rejected='' @ nat_str rejected_count
             @ '' skipped='' @ nat_str (length (filter skipped statuses))),
           v_resolved_text = Some resolved_text, v_storage_uri = None, v_filename = None, v_mime_type = None,
     v_size_bytes = None, v_sha256 = None, v_resolved_json = None\<rparr>, statuses))"

definition resolved_event :: "uuid \<Rightarrow> matter \<Rightarrow> doc_version \<Rightarrow> doc_version \<Rightarrow> doc_edit list \<Rightarrow> string list \<Rightarrow> audit_event" where
  "resolved_event actor m v new edits statuses =
     module_event ''document.version.resolved'' actor m ''document_version'' (v_id new)
       [(''source_version_id'', JStr (v_id v)), (''kind'', JStr (v_kind new)),
        (''accepted_count'', JInt (int (length (filter (\<lambda>e. e_status e = EDIT_STATUS_ACCEPTED) edits)))),
        (''rejected_count'', JInt (int (length (filter (\<lambda>e. e_status e = EDIT_STATUS_REJECTED) edits)))),
        (''skipped_count'', JInt (int (length (filter skipped statuses)))),
        (''resolved_text_length'', JInt (int (length (case v_resolved_text new of None \<Rightarrow> [] | Some t \<Rightarrow> t))))]"

definition maybe_close_version ::
  "uuid \<Rightarrow> doc_version \<Rightarrow> document \<Rightarrow> matter \<Rightarrow> uuid \<Rightarrow> session \<Rightarrow> doc_version option \<times> session" where
  "maybe_close_version new_id v doc m actor s =
     (let d = working s; edits = edits_of (v_id v) d in
      if list_ex (\<lambda>e. e_status e = EDIT_STATUS_PENDING) edits then (None, s)
      else if max_version (doc_id doc) d > v_version_number v then (None, s)
      else (case closing_version new_id v doc actor d of
              (new, statuses) \<Rightarrow>
                (Some new,
                 audit_log (resolved_event actor m v new edits statuses)
                   (audit_log_all (skip_events actor m (v_id v) new_id
                       (zip (filter (\<lambda>e. e_status e = EDIT_STATUS_ACCEPTED) edits)
                            (filter (\<lambda>st. st \<noteq> ''not_accepted'') statuses)))
                     (on_working (add_version new) s)))))"

section \<open>Resolving edits\<close>

datatype edit_error = UnknownAction | EditNotFound | EditAlreadyResolved

definition resolve_where :: "(doc_edit \<Rightarrow> bool) \<Rightarrow> string \<Rightarrow> int \<Rightarrow> uuid \<Rightarrow> db \<Rightarrow> db" where
  "resolve_where P st now actor d =
     d\<lparr>doc_edits := update_where (\<lambda>e. P e \<and> e_status e = EDIT_STATUS_PENDING)
        (\<lambda>e. e\<lparr>e_status := st, e_resolved_at := Some now, e_resolved_by_id := Some actor\<rparr>) (doc_edits d)\<rparr>"

definition resolve_edit ::
  "uuid \<Rightarrow> uuid \<Rightarrow> uuid \<Rightarrow> string \<Rightarrow> session \<Rightarrow> (edit_error + doc_edit \<times> doc_version option) \<times> session" where
  "resolve_edit new_id eid actor action s =
     (if action \<notin> {''accept'', ''reject''} then (Inl UnknownAction, s)
      else
       (let st = (if action = ''accept'' then EDIT_STATUS_ACCEPTED else EDIT_STATUS_REJECTED) in
        case find (\<lambda>e. e_id e = eid) (doc_edits (working s)) of
          None \<Rightarrow> (Inl EditNotFound, s)
        | Some e \<Rightarrow>
            (case matter_for_version (e_version_id e) (working s) of
               None \<Rightarrow> (Inl EditNotFound, s)
             | Some (v, doc, m) \<Rightarrow>
                 if m_created_by_id m \<noteq> actor then (Inl EditNotFound, s)
                 else if e_status e \<noteq> EDIT_STATUS_PENDING then (Inl EditAlreadyResolved, s)
                 else
                  (let s1 = on_working (resolve_where (\<lambda>x. e_id x = eid) st (clock s) actor) s;
                       s2 = audit_log (module_event (''document.edit.'' @ st) actor m ''document_edit'' eid
                              [(''version_id'', JStr (v_id v)), (''document_id'', JStr (doc_id doc)),
                               (''change_id'', JStr (e_change_id e))]) s1;
                       (new, s3) = maybe_close_version new_id v doc m actor s2
                   in (Inr (e\<lparr>e_status := st, e_resolved_at := Some (clock s), e_resolved_by_id := Some actor\<rparr>, new), s3)))))"

text \<open>The bulk operation: its update and audit rows, then the answer - the number of edits resolved and the version it answers with.\<close>

definition pending_edit_ids :: "uuid \<Rightarrow> db \<Rightarrow> uuid list" where
  "pending_edit_ids vid d = map e_id (filter (\<lambda>e. e_status e = EDIT_STATUS_PENDING) (edits_of vid d))"

definition mark_all :: "uuid \<Rightarrow> document \<Rightarrow> matter \<Rightarrow> uuid \<Rightarrow> string \<Rightarrow> session \<Rightarrow> session" where
  "mark_all vid doc m actor st s =
     audit_log_all (map (\<lambda>eid. module_event (''document.edit.'' @ st) actor m ''document_edit'' eid
         [(''version_id'', JStr vid), (''document_id'', JStr (doc_id doc)), (''bulk'', JBool True)])
         (pending_edit_ids vid (working s)))
       (on_working (resolve_where (\<lambda>e. e_version_id e = vid) st (clock s) actor) s)"

definition resolve_bulk ::
  "uuid \<Rightarrow> uuid \<Rightarrow> uuid \<Rightarrow> string \<Rightarrow> session \<Rightarrow> (edit_error + nat \<times> doc_version \<times> string) \<times> session" where
  "resolve_bulk new_id vid actor action s =
     (if action \<notin> {''accept_all'', ''reject_all''} then (Inl UnknownAction, s)
      else
       (let st = (if action = ''accept_all'' then EDIT_STATUS_ACCEPTED else EDIT_STATUS_REJECTED) in
        case matter_for_version vid (working s) of
          None \<Rightarrow> (Inl EditNotFound, s)
        | Some (v, doc, m) \<Rightarrow>
            if m_created_by_id m \<noteq> actor then (Inl EditNotFound, s)
            else
             (let affected = pending_edit_ids vid (working s);
                  s2 = mark_all vid doc m actor st s
              in (case maybe_close_version new_id v doc m actor s2 of
                    (Some new, s3) \<Rightarrow> (Inr (length affected, new, case v_resolved_text new of None \<Rightarrow> [] | Some t \<Rightarrow> t), s3)
                  | (None, s3) \<Rightarrow>
                      (case latest_resolved (doc_id doc) (working s3) of
                         Some old \<Rightarrow> (Inr (length affected, old, case v_resolved_text old of None \<Rightarrow> [] | Some t \<Rightarrow> t), s3)
                       | None \<Rightarrow>
                           (let base = get_base_text (doc_id doc) (working s3);
                                new = \<lparr>v_id = new_id, v_document_id = doc_id doc,
                                  v_version_number = next_version_number (doc_id doc) (working s3),
                                  v_kind = (if action = ''accept_all'' then VERSION_KIND_USER_ACCEPT else VERSION_KIND_USER_REJECT),
                                  v_created_by_id = actor,
                                  v_notes = Some (''bulk '' @ action @ '' on already-resolved version '' @ vid),
                                  v_resolved_text = Some base, v_storage_uri = None, v_filename = None, v_mime_type = None,
     v_size_bytes = None, v_sha256 = None, v_resolved_json = None\<rparr>
                            in (Inr (length affected, new, base), on_working (add_version new) s3)))))))"

section \<open>What a substitution does\<close>

lemma split_first_Some: "split_first pat s = Some (p, q) \<Longrightarrow> s = p @ pat @ q"
proof (induction pat s arbitrary: p rule: split_first.induct)
  case (2 pat c cs)
  show ?case
  proof (cases "starts_with pat (c # cs)")
    case True
    with 2 show ?thesis by (auto simp: starts_with_iff)
  next
    case False
    with 2 show ?thesis by (auto simp del: starts_with.simps)
  qed
qed (auto split: if_splits)

lemma split_first_None: "split_first pat s = None \<Longrightarrow> s \<noteq> p @ pat @ q"
proof (induction pat s arbitrary: p rule: split_first.induct)
  case (2 pat c cs)
  then have no: "\<not> starts_with pat (c # cs)" and rest: "split_first pat cs = None"
    by (auto split: if_splits)
  show ?case
  proof (cases p)
    case Nil
    with no show ?thesis by (metis append_Nil starts_with_iff)
  next
    case (Cons x p')
    with 2(1) [OF no rest, of p'] show ?thesis by auto
  qed
qed (auto split: if_splits)

lemma split_first_earliest:
  "split_first pat s = Some (p, q) \<Longrightarrow> s = p' @ pat @ q' \<Longrightarrow> length p \<le> length p'"
proof (induction pat s arbitrary: p p' rule: split_first.induct)
  case (2 pat c cs)
  show ?case
  proof (cases "starts_with pat (c # cs)")
    case False
    then have "p' \<noteq> []" using 2(3) by (metis append_Nil starts_with_iff)
    then obtain x p'' where p': "p' = x # p''" by (cases p') auto
    from 2(2) False obtain r where "split_first pat cs = Some (r, q)" "p = c # r"
      by (auto simp del: starts_with.simps)
    with 2(1) [OF False this(1), of p''] 2(3) p' show ?thesis by simp
  next
    case True
    then have "p = []" using 2(2) by simp
    then show ?thesis by simp
  qed
qed (auto split: if_splits)

lemma contains_text_iff: "contains_text pat s \<longleftrightarrow> (\<exists>p q. s = p @ pat @ q)"
proof (cases "split_first pat s")
  case None
  with split_first_None [OF None] show ?thesis unfolding contains_text_def by blast
next
  case (Some pq)
  then obtain p q where "split_first pat s = Some (p, q)" by (cases pq) simp
  with split_first_Some [OF this] show ?thesis unfolding contains_text_def by blast
qed

lemma replace_first_splice:
  assumes "contains_text pat s"
  obtains p q where "s = p @ pat @ q" and "replace_first pat new s = p @ new @ q"
    and "\<And>p' q'. s = p' @ pat @ q' \<Longrightarrow> length p \<le> length p'"
proof -
  from assms obtain p q where "split_first pat s = Some (p, q)" by (auto simp: contains_text_def)
  note sp = this
  show ?thesis
    by (rule that [OF split_first_Some [OF sp] _ split_first_earliest [OF sp]]) (simp_all add: replace_first_def sp)
qed

section \<open>Accepted edits as one fold\<close>

definition substitute :: "string \<Rightarrow> doc_edit \<Rightarrow> string" where
  "substitute t e = fst (apply_anchor_substitution t e)"

lemma substitute_status [simp]:
  "substitute t (e\<lparr>e_status := st, e_resolved_at := r, e_resolved_by_id := b\<rparr>) = substitute t e"
  by (simp add: substitute_def apply_anchor_substitution_def)

lemma apply_all_fold:
  "fst (apply_all_accepted t es) = foldl substitute t (filter (\<lambda>e. e_status e = EDIT_STATUS_ACCEPTED) es)"
  by (induction t es rule: apply_all_accepted.induct)
    (auto simp: substitute_def split: prod.splits)

lemma closing_text:
  "v_resolved_text (fst (closing_version new_id v doc actor d)) =
     Some (foldl substitute (get_base_text (doc_id doc) d)
       (filter (\<lambda>e. e_status e = EDIT_STATUS_ACCEPTED) (edits_of (v_id v) d)))"
  using apply_all_fold [of "get_base_text (doc_id doc) d" "filter (\<lambda>e. e_status e = EDIT_STATUS_ACCEPTED) (edits_of (v_id v) d)"]
  by (simp add: closing_version_def Let_def split_def)

lemma closing_fields:
  "v_id (fst (closing_version new_id v doc actor d)) = new_id"
  "v_document_id (fst (closing_version new_id v doc actor d)) = doc_id doc"
  "v_version_number (fst (closing_version new_id v doc actor d)) = max_version (doc_id doc) d + 1"
  by (simp_all add: closing_version_def Let_def split_def)

section \<open>What a resolution leaves alone\<close>

lemma audit_log_all_simps [simp, session_simps]:
  "durable (audit_log_all es s) = durable s"
  "clock (audit_log_all es s) = clock s"
  "doc_versions (working (audit_log_all es s)) = doc_versions (working s)"
  "documents (working (audit_log_all es s)) = documents (working s)"
  "doc_bodies (working (audit_log_all es s)) = doc_bodies (working s)"
  "doc_edits (working (audit_log_all es s)) = doc_edits (working s)"
  "matters (working (audit_log_all es s)) = matters (working s)"
  by (induction es arbitrary: s) (simp_all add: audit_log_all_def)

lemma resolver_tables [simp, frame_simps]:
  "doc_versions (add_version v d) = doc_versions d @ [v]"
  "documents (add_version v d) = documents d"
  "doc_bodies (add_version v d) = doc_bodies d"
  "matters (add_version v d) = matters d"
  "doc_edits (add_version v d) = doc_edits d"
  "doc_versions (resolve_where P st now actor d) = doc_versions d"
  "documents (resolve_where P st now actor d) = documents d"
  "doc_bodies (resolve_where P st now actor d) = doc_bodies d"
  "matters (resolve_where P st now actor d) = matters d"
  by (simp_all add: add_version_def resolve_where_def)

definition same_documents :: "db \<Rightarrow> db \<Rightarrow> bool" where
  "same_documents d d' \<longleftrightarrow> doc_versions d' = doc_versions d \<and> documents d' = documents d
     \<and> doc_bodies d' = doc_bodies d \<and> matters d' = matters d"

lemma same_documents_reads:
  assumes "same_documents d d'"
  shows "get_base_text did d' = get_base_text did d" and "latest_resolved did d' = latest_resolved did d"
    and "max_version did d' = max_version did d" and "matter_for_version vid d' = matter_for_version vid d"
proof -
  from assms have e: "doc_versions d' = doc_versions d" "documents d' = documents d" "doc_bodies d' = doc_bodies d" "matters d' = matters d"
    by (simp_all add: same_documents_def)
  show "get_base_text did d' = get_base_text did d" and "latest_resolved did d' = latest_resolved did d"
    and "max_version did d' = max_version did d" and "matter_for_version vid d' = matter_for_version vid d"
    unfolding get_base_text_def latest_resolved_def max_version_def extracted_body_for_def body_of_def matter_for_version_def e by (rule refl)+
qed

lemma latest_resolved_SomeD:
  assumes "latest_resolved did d = Some v"
  shows "v \<in> set (doc_versions d) \<and> v_document_id v = did \<and> v_resolved_text v \<noteq> None"
proof (cases "filter (\<lambda>v. v_document_id v = did \<and> v_resolved_text v \<noteq> None) (doc_versions d)")
  case (Cons x xs)
  with assms max_by_in [of v_version_number x xs] have "v \<in> set (x # xs)" by (simp add: latest_resolved_def)
  then show ?thesis unfolding Cons [symmetric] by simp
qed (use assms in \<open>simp add: latest_resolved_def\<close>)

lemma edits_of_resolve:
  "edits_of vid (resolve_where P st now actor d) =
     map (\<lambda>e. if P e \<and> e_status e = EDIT_STATUS_PENDING
              then e\<lparr>e_status := st, e_resolved_at := Some now, e_resolved_by_id := Some actor\<rparr> else e)
         (edits_of vid d)"
proof -
  have "filter Q (update_where R f rows) = map (\<lambda>e. if R e then f e else e) (filter Q rows)"
    if "\<And>e. Q (f e) = Q e" for Q R f and rows :: "doc_edit list"
    using that by (induction rows) auto
  then show ?thesis by (simp add: edits_of_def resolve_where_def)
qed

lemma edits_of_same: "doc_edits d' = doc_edits d \<Longrightarrow> edits_of vid d' = edits_of vid d"
  by (simp add: edits_of_def)

lemma matter_for_version_SomeD:
  "matter_for_version vid d = Some (v, doc, m) \<Longrightarrow> v \<in> set (doc_versions d) \<and> v_id v = vid \<and> v_document_id v = doc_id doc"
  by (auto simp: matter_for_version_def dest!: find_SomeD split: option.splits)

section \<open>Resolving one edit\<close>

definition status_of_action :: "string \<Rightarrow> string" where
  "status_of_action action = (if action = ''accept'' then EDIT_STATUS_ACCEPTED else EDIT_STATUS_REJECTED)"

lemma resolve_edit_step:
  assumes "action \<in> {''accept'', ''reject''}" and "distinct (map e_id (doc_edits (working s)))"
    and "e \<in> set (edits_of vid (working s))" and "e_status e = EDIT_STATUS_PENDING"
    and "matter_for_version vid (working s) = Some (v, doc, m)" and "m_created_by_id m = actor"
  obtains s2 where "durable s2 = durable s" and "clock s2 = clock s" and "same_documents (working s) (working s2)"
    and "doc_edits (working s2) = doc_edits (resolve_where (\<lambda>x. e_id x = e_id e) (status_of_action action) (clock s) actor (working s))"
    and "resolve_edit new_id (e_id e) actor action s =
      (case maybe_close_version new_id v doc m actor s2 of (new, s3) \<Rightarrow>
        (Inr (e\<lparr>e_status := status_of_action action, e_resolved_at := Some (clock s), e_resolved_by_id := Some actor\<rparr>, new), s3))"
proof -
  have e: "e \<in> set (doc_edits (working s))" "e_version_id e = vid" using assms(3) by (auto simp: edits_of_def)
  have "find (\<lambda>x. e_id x = e_id e) (doc_edits (working s)) = Some e"
    by (rule find_unique [OF e(1)]) (use assms(2) e(1) in \<open>auto simp: distinct_map inj_on_eq_iff\<close>)
  with assms(1,4,5,6) e(2) show ?thesis
    by (intro that [of "audit_log (module_event (''document.edit.'' @ status_of_action action) actor m ''document_edit'' (e_id e)
          [(''version_id'', JStr (v_id v)), (''document_id'', JStr (doc_id doc)), (''change_id'', JStr (e_change_id e))])
          (on_working (resolve_where (\<lambda>x. e_id x = e_id e) (status_of_action action) (clock s) actor) s)"])
      (auto simp: resolve_edit_def same_documents_def status_of_action_def Let_def)
qed

lemma maybe_close_open:
  assumes "e \<in> set (edits_of (v_id v) (working s))" and "e_status e = EDIT_STATUS_PENDING"
  shows "maybe_close_version new_id v doc m actor s = (None, s)"
proof -
  have "list_ex (\<lambda>e. e_status e = EDIT_STATUS_PENDING) (edits_of (v_id v) (working s))"
    using assms by (auto simp: list_ex_iff)
  then show ?thesis by (simp add: maybe_close_version_def Let_def)
qed

lemma maybe_close_stale:
  "max_version (doc_id doc) (working s) > v_version_number v
     \<Longrightarrow> maybe_close_version new_id v doc m actor s = (None, s)"
  by (simp add: maybe_close_version_def Let_def)

lemma maybe_close_closes:
  assumes "\<And>e. e \<in> set (edits_of (v_id v) (working s)) \<Longrightarrow> e_status e \<noteq> EDIT_STATUS_PENDING"
    and "max_version (doc_id doc) (working s) \<le> v_version_number v"
  obtains s3 where "maybe_close_version new_id v doc m actor s = (Some (fst (closing_version new_id v doc actor (working s))), s3)"
    and "doc_versions (working s3) = doc_versions (working s) @ [fst (closing_version new_id v doc actor (working s))]"
    and "doc_edits (working s3) = doc_edits (working s)" and "durable s3 = durable s"
proof -
  have "\<not> list_ex (\<lambda>e. e_status e = EDIT_STATUS_PENDING) (edits_of (v_id v) (working s))"
    using assms(1) by (auto simp: list_ex_iff)
  with assms(2) show ?thesis
    by (cases "closing_version new_id v doc actor (working s)")
      (rule that [of "snd (maybe_close_version new_id v doc m actor s)"], auto simp: maybe_close_version_def Let_def)
qed

section \<open>Resolving all edits of a version one by one\<close>

fun resolve_seq ::
  "uuid \<Rightarrow> (uuid \<times> uuid \<times> string) list \<Rightarrow> session
    \<Rightarrow> (edit_error + doc_edit \<times> doc_version option) list \<times> session" where
  "resolve_seq actor [] s = ([], s)"
| "resolve_seq actor ((new_id, eid, action) # ops) s =
     (case resolve_edit new_id eid actor action s of
        (r, s') \<Rightarrow> map_prod (Cons r) id (resolve_seq actor ops s'))"

definition pending_ids :: "uuid \<Rightarrow> db \<Rightarrow> uuid set" where
  "pending_ids vid d = set (pending_edit_ids vid d)"

definition chosen :: "(uuid \<times> uuid \<times> string) list \<Rightarrow> doc_edit \<Rightarrow> bool" where
  "chosen ops e \<longleftrightarrow> e_status e = EDIT_STATUS_ACCEPTED
     \<or> e_status e = EDIT_STATUS_PENDING \<and> (e_id e, ''accept'') \<in> snd ` set ops"

lemma chosen_Nil: "chosen [] = (\<lambda>e. e_status e = EDIT_STATUS_ACCEPTED)"
  by (simp add: chosen_def fun_eq_iff)

lemma fold_filter_map:
  assumes "\<And>e. e \<in> set es \<Longrightarrow> Q' (u e) = Q e" and "\<And>t e. f t (u e) = f t e"
  shows "foldl f t (filter Q' (map u es)) = foldl f t (filter Q es)"
  using assms(1) by (induction es arbitrary: t) (simp_all add: assms(2))

lemma status_distinct [simp]:
  "EDIT_STATUS_ACCEPTED \<noteq> EDIT_STATUS_PENDING" "EDIT_STATUS_PENDING \<noteq> EDIT_STATUS_ACCEPTED"
  "EDIT_STATUS_REJECTED \<noteq> EDIT_STATUS_PENDING" "EDIT_STATUS_REJECTED \<noteq> EDIT_STATUS_ACCEPTED"
  "status_of_action action \<noteq> EDIT_STATUS_PENDING"
  by (simp_all add: edit_vocabulary status_of_action_def)

lemma pending_after:
  assumes "st \<noteq> EDIT_STATUS_PENDING"
  shows "pending_ids vid (resolve_where (\<lambda>x. e_id x = eid) st now actor d) = pending_ids vid d - {eid}"
proof -
  have flt: "filter (\<lambda>e. e_status e = EDIT_STATUS_PENDING) (map (\<lambda>e. if e_id e = eid \<and> e_status e = EDIT_STATUS_PENDING
      then e\<lparr>e_status := st, e_resolved_at := Some now, e_resolved_by_id := Some actor\<rparr> else e) es)
    = filter (\<lambda>e. e_status e = EDIT_STATUS_PENDING \<and> e_id e \<noteq> eid) es" for es
    using assms by (induction es) auto
  show ?thesis unfolding pending_ids_def pending_edit_ids_def edits_of_resolve flt by auto
qed

lemma distinct_ids_resolve:
  "map e_id (doc_edits (resolve_where P st now actor d)) = map e_id (doc_edits d)"
  by (simp add: resolve_where_def update_where_def)

lemma pending_ids_same: "doc_edits d' = doc_edits d \<Longrightarrow> pending_ids vid d' = pending_ids vid d"
  by (simp add: pending_ids_def pending_edit_ids_def edits_of_def)

lemma resolve_seq_closes:
  assumes "matter_for_version vid (working s) = Some (v, doc, m)" and "m_created_by_id m = actor"
    and "v_version_number v = max_version (doc_id doc) (working s)"
    and "distinct (map e_id (doc_edits (working s)))"
    and "ops \<noteq> []" and "distinct (map (fst \<circ> snd) ops)"
    and "(fst \<circ> snd) ` set ops = pending_ids vid (working s)"
    and "\<And>n eid action. (n, eid, action) \<in> set ops \<Longrightarrow> action \<in> {''accept'', ''reject''}"
  shows "(\<forall>r \<in> set (fst (resolve_seq actor ops s)). \<exists>x. r = Inr x) \<and>
    (\<exists>new. doc_versions (working (snd (resolve_seq actor ops s))) = doc_versions (working s) @ [new]
       \<and> v_id new = fst (last ops) \<and> v_document_id new = doc_id doc
       \<and> v_version_number new = v_version_number v + 1
       \<and> v_resolved_text new = Some (foldl substitute (get_base_text (doc_id doc) (working s))
            (filter (chosen ops) (edits_of vid (working s)))))"
  using assms
proof (induction ops arbitrary: s)
  case (Cons op ops)
  obtain n eid action where op: "op = (n, eid, action)" by (cases op)
  from Cons.prems(7) op have "eid \<in> pending_ids vid (working s)" by auto
  then obtain e where e: "e \<in> set (edits_of vid (working s))" "e_status e = EDIT_STATUS_PENDING" "e_id e = eid"
    by (auto simp: pending_ids_def pending_edit_ids_def)
  have act: "action \<in> {''accept'', ''reject''}" using Cons.prems(8) [of n eid action] op by simp
  let ?st = "status_of_action action"
  let ?u = "\<lambda>x. if e_id x = eid \<and> e_status x = EDIT_STATUS_PENDING
    then x\<lparr>e_status := ?st, e_resolved_at := Some (clock s), e_resolved_by_id := Some actor\<rparr> else x"
  from resolve_edit_step [OF act Cons.prems(4) e(1,2) Cons.prems(1,2), of n] obtain s2 where
    s2: "same_documents (working s) (working s2)"
      "doc_edits (working s2) = doc_edits (resolve_where (\<lambda>x. e_id x = eid) ?st (clock s) actor (working s))"
    and res: "resolve_edit n eid actor action s = (case maybe_close_version n v doc m actor s2 of (new, s3) \<Rightarrow>
        (Inr (e\<lparr>e_status := ?st, e_resolved_at := Some (clock s), e_resolved_by_id := Some actor\<rparr>, new), s3))"
    unfolding e(3) by metis
  have v: "v_id v = vid" using matter_for_version_SomeD [OF Cons.prems(1)] by simp
  have edits: "edits_of vid (working s2) = map ?u (edits_of vid (working s))"
    using edits_of_same [OF s2(2)] by (simp add: edits_of_resolve)
  have pend: "pending_ids vid (working s2) = pending_ids vid (working s) - {eid}"
    using pending_ids_same [OF s2(2)] pending_after [OF status_distinct(5)] by simp
  have rest: "(fst \<circ> snd) ` set ops = pending_ids vid (working s2)"
    using Cons.prems(6,7) pend op by auto
  have texts: "foldl substitute t (filter (chosen ops) (edits_of vid (working s2)))
      = foldl substitute t (filter (chosen (op # ops)) (edits_of vid (working s)))" for t
    unfolding edits
  proof (rule fold_filter_map)
    fix x assume "x \<in> set (edits_of vid (working s))"
    have "(eid, ''accept'') \<notin> snd ` set ops" using Cons.prems(6) op by force
    then show "chosen ops (?u x) = chosen (op # ops) x"
      by (auto simp: chosen_def op status_of_action_def)
  qed simp
  show ?case
  proof (cases "ops = []")
    case True
    with rest have "pending_ids vid (working s2) = {}" by simp
    then have none: "\<And>x. x \<in> set (edits_of (v_id v) (working s2)) \<Longrightarrow> e_status x \<noteq> EDIT_STATUS_PENDING"
      by (auto simp: pending_ids_def pending_edit_ids_def v)
    have le: "max_version (doc_id doc) (working s2) \<le> v_version_number v"
      using Cons.prems(3) same_documents_reads(3) [OF s2(1)] by simp
    let ?new = "fst (closing_version n v doc actor (working s2))"
    have "v_resolved_text ?new = Some (foldl substitute (get_base_text (doc_id doc) (working s))
        (filter (\<lambda>e. e_status e = EDIT_STATUS_ACCEPTED) (edits_of vid (working s2))))"
      by (simp add: closing_text v same_documents_reads(1) [OF s2(1)])
    also have "filter (\<lambda>e. e_status e = EDIT_STATUS_ACCEPTED) (edits_of vid (working s2))
        = filter (chosen ops) (edits_of vid (working s2))"
      using True by (simp add: chosen_Nil)
    finally have "v_resolved_text ?new = Some (foldl substitute (get_base_text (doc_id doc) (working s))
        (filter (chosen (op # ops)) (edits_of vid (working s))))" by (simp add: texts)
    moreover from maybe_close_closes [OF none le, of n m actor] obtain s3 where
      cl: "maybe_close_version n v doc m actor s2 = (Some ?new, s3)"
        "doc_versions (working s3) = doc_versions (working s2) @ [?new]" by blast
    moreover have "resolve_seq actor (op # ops) s =
        ([Inr (e\<lparr>e_status := ?st, e_resolved_at := Some (clock s), e_resolved_by_id := Some actor\<rparr>, Some ?new)], s3)"
      by (simp add: True op res cl(1))
    moreover have "v_version_number ?new = v_version_number v + 1"
      by (simp add: closing_fields same_documents_reads(3) [OF s2(1)] Cons.prems(3))
    moreover have "doc_versions (working s2) = doc_versions (working s)"
      using s2(1) by (simp add: same_documents_def)
    ultimately show ?thesis
      by (intro conjI exI [of _ ?new]) (simp_all add: True op closing_fields)
  next
    case False
    then obtain x where x: "x \<in> set (edits_of (v_id v) (working s2))" "e_status x = EDIT_STATUS_PENDING"
      using rest by (cases ops) (auto simp: pending_ids_def pending_edit_ids_def v)
    have dist: "distinct (map e_id (doc_edits (working s2)))"
      using Cons.prems(4) s2(2) by (simp add: distinct_ids_resolve)
    have docs: "doc_versions (working s2) = doc_versions (working s)"
      using s2(1) by (simp add: same_documents_def)
    have mv: "matter_for_version vid (working s2) = Some (v, doc, m)"
      and vn: "v_version_number v = max_version (doc_id doc) (working s2)"
      using Cons.prems(1,3) same_documents_reads [OF s2(1)] by simp_all
    have dops: "distinct (map (fst \<circ> snd) ops)" using Cons.prems(6) by (simp add: comp_def)
    have acts: "\<And>n eid action. (n, eid, action) \<in> set ops \<Longrightarrow> action \<in> {''accept'', ''reject''}"
      using Cons.prems(8) by (meson list.set_intros(2))
    note IH = Cons.IH [OF mv Cons.prems(2) vn dist False dops rest acts, unfolded docs]
    have "resolve_seq actor (op # ops) s = (case resolve_seq actor ops s2 of (rs, s') \<Rightarrow>
        (Inr (e\<lparr>e_status := ?st, e_resolved_at := Some (clock s), e_resolved_by_id := Some actor\<rparr>, None) # rs, s'))"
      by (simp add: op res maybe_close_open [OF x] map_prod_def split_def)
    with IH False show ?thesis
      by (simp add: texts same_documents_reads(1) [OF s2(1)] split_def)
  qed
qed simp

section \<open>Properties\<close>

definition sample_version :: "uuid \<Rightarrow> int \<Rightarrow> string option \<Rightarrow> doc_version" where
  "sample_version i n t = \<lparr>v_id = i, v_document_id = ''d'', v_version_number = n, v_kind = ''assistant_edit'',
     v_created_by_id = ''owner'', v_notes = None, v_resolved_text = t, v_storage_uri = None, v_filename = None, v_mime_type = None,
     v_size_bytes = None, v_sha256 = None, v_resolved_json = None\<rparr>"

definition sample_edit :: "uuid \<Rightarrow> uuid \<Rightarrow> string \<Rightarrow> string \<Rightarrow> doc_edit" where
  "sample_edit i vid del ins = \<lparr>e_id = i, e_version_id = vid, e_change_id = i, e_deleted_text = del,
     e_inserted_text = ins, e_context_before = [], e_context_after = [], e_status = ''pending'',
     e_resolved_at = None, e_resolved_by_id = None\<rparr>"

definition sample_docs :: "doc_version list \<Rightarrow> session" where
  "sample_docs vs = open_session (empty_db\<lparr>
     matters := [\<lparr>m_id = ''m'', m_slug = ''x'', m_title = ''A matter'', m_status = ''open'', m_privilege_posture = ''cleared'', m_created_by_id = ''owner'', m_retention_until = None, m_default_model_id = ''stub-echo'',
     m_matter_type = ''employment_tribunal'', m_cause = None, m_case_theory = None,
     m_pivot_fact = None, m_facts = JObj [], m_opened_at = 0, m_closed_at = None\<rparr>],
     documents := [\<lparr>doc_id = ''d'', doc_matter_id = ''m'', doc_index_status = ''pending'', doc_indexed_at = None, doc_filename = ''f'', doc_mime_type = ''text/plain'',
     doc_size_bytes = 0, doc_sha256 = ''h'', doc_storage_uri = None, doc_uploaded_at = 0, doc_uploaded_by_id = ''u'',
     doc_tag = None, doc_from_disclosure = False,
     doc_disclosure_ref = None\<rparr>],
     doc_bodies := [\<lparr>b_document_id = ''d'', b_kind = ''extracted'', b_extracted_text = ''one two'', b_extraction_method = ''passthrough'',
       b_extracted_at = 0, b_char_count = 7, b_page_count = None, b_error_reason = None, b_mapping = None, b_engine = None,
       b_anonymised_at = None\<rparr>],
     doc_versions := vs,
     doc_edits := [sample_edit ''e1'' ''v2'' ''one'' ''1'', sample_edit ''e2'' ''v2'' ''two'' ''2'']\<rparr>) 7"

lemmas sample_doc_defs = sample_docs_def sample_version_def sample_edit_def open_session_def empty_db_def

text \<open>A substitution replaces the first occurrence of the anchor - context, deleted text,
  context - by the context around the inserted text, and changes nothing else; where the anchor
  does not occur, or is empty, the text is left as it is and the edit is reported as skipped.
  The fallback on the bare deleted text adds no case.\<close>

theorem substitution_splices:
  "(let anchor = e_context_before e @ e_deleted_text e @ e_context_after e in
    if e_deleted_text e = [] \<and> e_inserted_text e = []
    then apply_anchor_substitution base e = (base, ''applied'')
    else if anchor \<noteq> [] \<and> (\<exists>p q. base = p @ anchor @ q)
    then (\<exists>p q. base = p @ anchor @ q
            \<and> apply_anchor_substitution base e =
                (p @ e_context_before e @ e_inserted_text e @ e_context_after e @ q, ''applied'')
            \<and> (\<nexists>p' q'. base = p' @ anchor @ q' \<and> length p' < length p))
    else apply_anchor_substitution base e = (base, ''skipped_no_anchor''))"
proof -
  let ?a = "e_context_before e @ e_deleted_text e @ e_context_after e"
  let ?new = "e_context_before e @ e_inserted_text e @ e_context_after e"
  consider "e_deleted_text e = [] \<and> e_inserted_text e = []"
    | (hit) "\<not> (e_deleted_text e = [] \<and> e_inserted_text e = [])" "?a \<noteq> []" "contains_text ?a base"
    | (miss) "\<not> (e_deleted_text e = [] \<and> e_inserted_text e = [])" "?a = [] \<or> \<not> contains_text ?a base" by blast
  then show ?thesis
  proof cases
    case hit
    obtain p q where p: "base = p @ ?a @ q" "replace_first ?a ?new base = p @ ?new @ q"
      and first: "\<And>p' q'. base = p' @ ?a @ q' \<Longrightarrow> length p \<le> length p'"
      using replace_first_splice [OF hit(3), of ?new] by blast
    from hit have "apply_anchor_substitution base e = (replace_first ?a ?new base, ''applied'')"
      by (auto simp: apply_anchor_substitution_def Let_def)
    also have "\<dots> = (p @ e_context_before e @ e_inserted_text e @ e_context_after e @ q, ''applied'')"
      by (simp add: p(2))
    finally have eqn: "apply_anchor_substitution base e
      = (p @ e_context_before e @ e_inserted_text e @ e_context_after e @ q, ''applied'')" .
    have sol: "\<exists>p q. base = p @ ?a @ q
        \<and> apply_anchor_substitution base e = (p @ e_context_before e @ e_inserted_text e @ e_context_after e @ q, ''applied'')
        \<and> (\<nexists>p' q'. base = p' @ ?a @ q' \<and> length p' < length p)"
    proof (intro exI conjI notI)
      show "base = p @ ?a @ q" by (rule p(1))
      assume "\<exists>p' q'. base = p' @ ?a @ q' \<and> length p' < length p"
      then obtain p' q' where b: "base = p' @ ?a @ q'" and l: "length p' < length p" by blast
      from first [OF b] l show False by simp
    qed (rule eqn)
    from hit(2,3) have cond: "?a \<noteq> [] \<and> (\<exists>p q. base = p @ ?a @ q)"
      unfolding contains_text_iff by blast
    show ?thesis unfolding Let_def if_not_P [OF hit(1)] if_P [OF cond] by (rule sol)
  next
    case miss
    then have "apply_anchor_substitution base e = (base, ''skipped_no_anchor'')"
      by (auto simp: apply_anchor_substitution_def Let_def)
    moreover have "\<not> (?a \<noteq> [] \<and> (\<exists>p q. base = p @ ?a @ q))" using miss(2) unfolding contains_text_iff by blast
    ultimately show ?thesis using miss(1) by (simp only: Let_def if_False)
  qed (simp add: apply_anchor_substitution_def Let_def)
qed



text \<open>Accepting all edits of a version that is not the newest of its document marks them
  accepted and drops them: the text answered, and the base text of every later edit, is the one
  from before, whether the answer is an older version or a placeholder of kind user_accept.\<close>

theorem accepting_on_older_version_drops_edits:
  assumes "matter_for_version vid (working s) = Some (v, doc, m)" and "m_created_by_id m = actor"
    and "v_version_number v < max_version (doc_id doc) (working s)"
  shows "(case resolve_bulk new_id vid actor ''accept_all'' s of (res, s') \<Rightarrow>
      (\<exists>n new. res = Inr (n, new, get_base_text (doc_id doc) (working s)))
      \<and> pending_ids vid (working s') = {}
      \<and> {e_id e | e. e \<in> set (edits_of vid (working s')) \<and> e_status e = EDIT_STATUS_ACCEPTED}
          \<supseteq> pending_ids vid (working s)
      \<and> get_base_text (doc_id doc) (working s') = get_base_text (doc_id doc) (working s))"
proof -
  define s2 where "s2 = mark_all vid doc m actor EDIT_STATUS_ACCEPTED s"
  have same: "same_documents (working s) (working s2)" by (simp add: s2_def mark_all_def same_documents_def)
  note reads = same_documents_reads [OF same]
  have edits: "edits_of vid (working s2) = map (\<lambda>e. if e_version_id e = vid \<and> e_status e = EDIT_STATUS_PENDING
      then e\<lparr>e_status := EDIT_STATUS_ACCEPTED, e_resolved_at := Some (clock s), e_resolved_by_id := Some actor\<rparr> else e)
      (edits_of vid (working s))"
    using edits_of_same [of "working s2" "resolve_where (\<lambda>e. e_version_id e = vid) EDIT_STATUS_ACCEPTED (clock s) actor (working s)"]
    by (simp add: s2_def mark_all_def edits_of_resolve)
  have vid: "\<And>e. e \<in> set (edits_of vid (working s)) \<Longrightarrow> e_version_id e = vid" by (simp add: edits_of_def)
  have none: "pending_ids vid (working s2) = {}"
    using vid by (auto simp: pending_ids_def pending_edit_ids_def edits split: if_splits)
  have acc: "{e_id e | e. e \<in> set (edits_of vid (working s2)) \<and> e_status e = EDIT_STATUS_ACCEPTED}
      \<supseteq> pending_ids vid (working s)"
  proof
    fix i assume "i \<in> pending_ids vid (working s)"
    then obtain e where e: "e \<in> set (edits_of vid (working s))" "e_status e = EDIT_STATUS_PENDING" "e_id e = i"
      by (auto simp: pending_ids_def pending_edit_ids_def)
    let ?e = "e\<lparr>e_status := EDIT_STATUS_ACCEPTED, e_resolved_at := Some (clock s), e_resolved_by_id := Some actor\<rparr>"
    have "?e \<in> set (edits_of vid (working s2))"
      unfolding edits set_map by (rule image_eqI [OF _ e(1)]) (simp add: e(2) vid [OF e(1)])
    moreover have "e_id ?e = i" "e_status ?e = EDIT_STATUS_ACCEPTED" using e(3) by simp_all
    ultimately show "i \<in> {e_id e | e. e \<in> set (edits_of vid (working s2)) \<and> e_status e = EDIT_STATUS_ACCEPTED}"
      by blast
  qed
  have open2: "maybe_close_version new_id v doc m actor s2 = (None, s2)"
    by (rule maybe_close_stale) (use assms(3) reads(3) in simp)
  have bulk: "resolve_bulk new_id vid actor ''accept_all'' s =
      (case latest_resolved (doc_id doc) (working s) of
         Some old \<Rightarrow> (Inr (length (pending_edit_ids vid (working s)), old, case v_resolved_text old of None \<Rightarrow> [] | Some t \<Rightarrow> t), s2)
       | None \<Rightarrow>
          (let new = \<lparr>v_id = new_id, v_document_id = doc_id doc,
             v_version_number = next_version_number (doc_id doc) (working s2), v_kind = VERSION_KIND_USER_ACCEPT,
             v_created_by_id = actor,
             v_notes = Some (''bulk accept_all on already-resolved version '' @ vid),
             v_resolved_text = Some (get_base_text (doc_id doc) (working s)), v_storage_uri = None, v_filename = None, v_mime_type = None,
     v_size_bytes = None, v_sha256 = None, v_resolved_json = None\<rparr>
           in (Inr (length (pending_edit_ids vid (working s)), new, get_base_text (doc_id doc) (working s)), on_working (add_version new) s2)))"
  proof -
    have act: "(''accept_all'' \<notin> {''accept_all'', ''reject_all''}) = False" "(''accept_all'' = ''accept_all'') = True"
      "\<And>vid. ''bulk '' @ ''accept_all'' @ '' on already-resolved version '' @ vid
        = ''bulk accept_all on already-resolved version '' @ vid"
      by simp_all
    have own: "(m_created_by_id m \<noteq> actor) = False" using assms(2) by simp
    show ?thesis
      unfolding resolve_bulk_def Let_def act if_False if_True assms(1) option.case prod.case own
        s2_def [symmetric] open2 reads ..
  qed
  show ?thesis
  proof (cases "latest_resolved (doc_id doc) (working s)")
    case (Some old)
    from latest_resolved_SomeD [OF Some] obtain t where t: "v_resolved_text old = Some t" by auto
    with Some have "get_base_text (doc_id doc) (working s) = t"
      by (simp add: get_base_text_def)
    with Some t none acc reads(1) show ?thesis unfolding bulk by simp
  next
    case None
    then have empty: "filter (\<lambda>x. v_document_id x = doc_id doc \<and> v_resolved_text x \<noteq> None) (doc_versions (working s)) = []"
      by (auto simp: latest_resolved_def split: list.splits)
    have base: "get_base_text (doc_id doc) (add_version new (working s2)) = t"
      if "v_document_id new = doc_id doc" "v_resolved_text new = Some t" for new t
      using that empty same by (simp add: get_base_text_def latest_resolved_def same_documents_def)
    have frame: "edits_of vid (add_version new d) = edits_of vid d" "pending_ids vid (add_version new d) = pending_ids vid d"
      for new d by (simp_all add: pending_ids_def pending_edit_ids_def edits_of_def)
    show ?thesis unfolding bulk using None none acc by (simp add: Let_def frame base)
  qed
qed

theorem accepting_on_older_version_drops_edits_witness:
  "let s = sample_docs [sample_version ''v2'' 2 None, sample_version ''v3'' 3 None];
       s' = snd (resolve_bulk ''n'' ''v2'' ''owner'' ''accept_all'' s) in
     pending_ids ''v2'' (working s) = {''e1'', ''e2''} \<and> pending_ids ''v2'' (working s') = {}
     \<and> get_base_text ''d'' (working s') = ''one two''"
proof -
  let ?s = "sample_docs [sample_version ''v2'' 2 None, sample_version ''v3'' 3 None]"
  obtain v doc m where ctx: "matter_for_version ''v2'' (working ?s) = Some (v, doc, m)" "m_created_by_id m = ''owner''"
      "v_version_number v = 2" "doc_id doc = ''d''"
    by (simp add: matter_for_version_def sample_doc_defs)
  have base: "max_version ''d'' (working ?s) = 3" "get_base_text ''d'' (working ?s) = ''one two''"
    by (simp_all add: max_version_def get_base_text_def latest_resolved_def extracted_body_for_def body_of_def
          BODY_KIND_EXTRACTED_def sample_doc_defs)
  have "pending_ids ''v2'' (working ?s) = {''e1'', ''e2''}"
    by (auto simp: pending_ids_def pending_edit_ids_def edits_of_def sample_doc_defs edit_vocabulary)
  with accepting_on_older_version_drops_edits [OF ctx(1,2), of "''n''"] ctx base
  show ?thesis by (simp add: Let_def split_def)
qed

end
