(* ===== verification/RateLimit.thy ===== *)
theory RateLimit
  imports Database
begin

text \<open>
  The throttle of the unauthenticated routes (\<open>app/core/rate_limit.py\<close>): which address a
  request counts for, the sliding window over \<open>auth_throttle_events\<close>.
  Instants are microseconds. Environment variables are a map from
  names to values; an address that \<open>ipaddress\<close> accepts is its version and its number, which the
  parameter \<open>parse_ip\<close> yields.
\<close>

section \<open>Limits of the routes\<close>

definition RATE_LIMITED_ROUTES :: "(string \<times> string \<times> int) list" where
  "RATE_LIMITED_ROUTES =
     [(''auth.register'', ''REGISTER'', 5), (''auth.request_verify_token'', ''REQUEST_VERIFY_TOKEN'', 10),
      (''auth.forgot_password'', ''FORGOT_PASSWORD'', 10), (''auth.login'', ''LOGIN'', 10),
      (''auth.magic_link_request'', ''MAGIC_LINK_REQUEST'', 5)]"

definition WINDOW_SECONDS :: int where
  "WINDOW_SECONDS = 3600"

datatype limit_error = UnknownRoute | BadInteger | RateLimited int

definition route_limit :: "(string \<rightharpoonup> string) \<Rightarrow> string \<Rightarrow> limit_error + int" where
  "route_limit env route =
     (case map_of RATE_LIMITED_ROUTES route of
        None \<Rightarrow> Inl UnknownRoute
      | Some (suffix, dflt) \<Rightarrow>
          (case env (''LEGALISE_RATE_LIMIT_'' @ suffix @ ''_PER_HOUR'') of
             None \<Rightarrow> Inr dflt
           | Some value \<Rightarrow>
               if value = [] then Inr dflt
               else (case py_int value of None \<Rightarrow> Inl BadInteger | Some n \<Rightarrow> Inr n)))"

section \<open>The address of a request\<close>

datatype ip_address = IPv4 int | IPv6 int

text \<open>The published ranges: network address and prefix length.\<close>

definition v4 :: "int \<Rightarrow> int \<Rightarrow> int \<Rightarrow> int \<Rightarrow> int" where
  "v4 a b c d = ((a * 256 + b) * 256 + c) * 256 + d"

definition CLOUDFLARE_V4 :: "(int \<times> nat) list" where
  "CLOUDFLARE_V4 =
     [(v4 173 245 48 0, 20), (v4 103 21 244 0, 22), (v4 103 22 200 0, 22), (v4 103 31 4 0, 22),
      (v4 141 101 64 0, 18), (v4 108 162 192 0, 18), (v4 190 93 240 0, 20), (v4 188 114 96 0, 20),
      (v4 197 234 240 0, 22), (v4 198 41 128 0, 17), (v4 162 158 0 0, 15), (v4 104 16 0 0, 13),
      (v4 104 24 0 0, 14), (v4 172 64 0 0, 13), (v4 131 0 72 0, 22)]"

definition CLOUDFLARE_V6 :: "(int \<times> nat) list" where
  "CLOUDFLARE_V6 = map (\<lambda>(hi, lo, p). ((hi * 2 ^ 16 + lo) * 2 ^ 96, p))
     [(0x2400, 0xcb00, 32), (0x2606, 0x4700, 32), (0x2803, 0xf800, 32), (0x2405, 0xb500, 32),
      (0x2405, 0x8100, 32), (0x2a06, 0x98c0, 29), (0x2c0f, 0xf248, 32)]"

text \<open>\<open>addr in network\<close>: the leading bits agree.\<close>

definition in_network :: "nat \<Rightarrow> int \<Rightarrow> int \<times> nat \<Rightarrow> bool" where
  "in_network width addr net \<longleftrightarrow>
     (case net of (base, p) \<Rightarrow> addr div 2 ^ (width - p) = base div 2 ^ (width - p))"

definition is_cloudflare_ip :: "(string \<Rightarrow> ip_address option) \<Rightarrow> string \<Rightarrow> bool" where
  "is_cloudflare_ip parse_ip value =
     (case parse_ip value of
        None \<Rightarrow> False
      | Some (IPv4 a) \<Rightarrow> list_ex (in_network 32 a) CLOUDFLARE_V4
      | Some (IPv6 a) \<Rightarrow> list_ex (in_network 128 a) CLOUDFLARE_V6)"

record request =
  rq_headers :: "string \<rightharpoonup> string"
  rq_client_host :: "string option"
  rq_path :: string

definition header :: "request \<Rightarrow> string \<Rightarrow> string" where
  "header rq name = clean_note (rq_headers rq name)"

definition client_ip :: "(string \<Rightarrow> ip_address option) \<Rightarrow> request \<Rightarrow> string" where
  "client_ip parse_ip rq =
     (let fly_ip = header rq ''fly-client-ip''; cf_ip = header rq ''cf-connecting-ip''
      in if cf_ip \<noteq> [] \<and> fly_ip \<noteq> [] \<and> is_cloudflare_ip parse_ip fly_ip then cf_ip
         else if fly_ip \<noteq> [] then fly_ip
         else (case rq_client_host rq of
                 Some h \<Rightarrow> if h \<noteq> [] then h else ''unknown''
               | None \<Rightarrow> ''unknown''))"

section \<open>The sliding window\<close>

definition window :: int where
  "window = WINDOW_SECONDS * 1000000"

definition attempts_in_window :: "string \<Rightarrow> string \<Rightarrow> int \<Rightarrow> throttle_event list \<Rightarrow> throttle_event list" where
  "attempts_in_window route ip start rows =
     filter (\<lambda>e. t_route e = route \<and> t_ip e = ip \<and> t_created_at e \<ge> start) rows"

definition expire :: "string \<Rightarrow> int \<Rightarrow> throttle_event list \<Rightarrow> throttle_event list" where
  "expire route start rows = filter (\<lambda>e. \<not> (t_route e = route \<and> t_created_at e < start)) rows"

definition rate_limited_event :: "string \<Rightarrow> string \<Rightarrow> int \<Rightarrow> string \<Rightarrow> audit_event" where
  "rate_limited_event ip route limit path = (event0 ''auth.rate_limited'')
     \<lparr>ae_resource_type := Some ''auth'', ae_resource_id := Some route,
      ae_payload := JObj [(''ip'', JStr ip), (''route'', JStr route), (''limit_per_hour'', JInt limit),
        (''window_seconds'', JInt WINDOW_SECONDS), (''path'', JStr path)]\<rparr>"

definition set_throttle :: "(throttle_event list \<Rightarrow> throttle_event list) \<Rightarrow> db \<Rightarrow> db" where
  "set_throttle f d = d\<lparr>throttle_events := f (throttle_events d)\<rparr>"

definition enforce_ip_rate_limit ::
  "(string \<Rightarrow> ip_address option) \<Rightarrow> (string \<rightharpoonup> string) \<Rightarrow> request \<Rightarrow> string \<Rightarrow> session
    \<Rightarrow> (limit_error + unit) \<times> session" where
  "enforce_ip_rate_limit parse_ip env rq route s =
     (case route_limit env route of
        Inl e \<Rightarrow> (Inl e, s)
      | Inr limit \<Rightarrow>
          if limit \<le> 0 then (Inr (), s)
          else
           (let ip = client_ip parse_ip rq; now = clock s; start = now - window;
                s1 = on_working (set_throttle (expire route start)) s;
                current = int (length (attempts_in_window route ip start (throttle_events (working s1))));
                s2 = on_working (set_throttle (\<lambda>rows. rows @ [\<lparr>t_ip = ip, t_route = route, t_created_at = now\<rparr>])) s1
            in if current \<ge> limit
               then (Inl (RateLimited limit),
                     commit (if current = limit
                             then on_working (add_event (stamp s (rate_limited_event ip route limit (rq_path rq)))) s2
                             else s2))
               else (Inr (), commit s2)))"

section \<open>Runs of attempts\<close>

fun throttle_run ::
  "(string \<Rightarrow> ip_address option) \<Rightarrow> (string \<rightharpoonup> string) \<Rightarrow> (request \<times> string \<times> int) list \<Rightarrow> session
    \<Rightarrow> (limit_error + unit) list \<times> session" where
  "throttle_run parse_ip env [] s = ([], s)"
| "throttle_run parse_ip env ((rq, route, t) # as) s =
     (case enforce_ip_rate_limit parse_ip env rq route (s\<lparr>clock := t\<rparr>) of
        (r, s') \<Rightarrow> map_prod (Cons r) id (throttle_run parse_ip env as s'))"

text \<open>The attempts of a run that count for an address and a route, in a window, and were let through.\<close>

definition in_window :: "int \<Rightarrow> int \<Rightarrow> bool" where
  "in_window from t \<longleftrightarrow> from \<le> t \<and> t \<le> from + window"

definition let_through ::
  "(string \<Rightarrow> ip_address option) \<Rightarrow> string \<Rightarrow> string \<Rightarrow> int \<Rightarrow> (request \<times> string \<times> int) list
    \<Rightarrow> (limit_error + unit) list \<Rightarrow> nat" where
  "let_through parse_ip route ip from as rs =
     length (filter (\<lambda>((rq, route', t), r). route' = route \<and> client_ip parse_ip rq = ip \<and> in_window from t \<and> r = Inr ())
       (zip as rs))"

definition is_throttle_row :: "string \<Rightarrow> string \<Rightarrow> int \<Rightarrow> audit_event \<Rightarrow> bool" where
  "is_throttle_row route ip from e \<longleftrightarrow> ae_action e = ''auth.rate_limited'' \<and> ae_resource_id e = Some route
     \<and> jget ''ip'' (ae_payload e) = Some (JStr ip) \<and> in_window from (ae_timestamp e)"

definition throttle_rows :: "string \<Rightarrow> string \<Rightarrow> int \<Rightarrow> db \<Rightarrow> nat" where
  "throttle_rows route ip from d = length (filter (is_throttle_row route ip from) (audit_rows d))"

definition recent :: "string \<Rightarrow> string \<Rightarrow> int \<Rightarrow> db \<Rightarrow> nat" where
  "recent route ip from d = length (attempts_in_window route ip from (throttle_events d))"

lemma throttle_tables [simp, frame_simps]:
  "throttle_events (set_throttle f d) = f (throttle_events d)"
  "audit_rows (set_throttle f d) = audit_rows d"
  by (simp_all add: set_throttle_def)

lemma stamp_rate_limited:
  "stamp s (rate_limited_event ip route limit path) = (rate_limited_event ip route limit path)\<lparr>ae_timestamp := clock s\<rparr>"
  by (simp add: stamp_def rate_limited_event_def event0_def py_truthy_def)

lemma rate_limited_row:
  "is_throttle_row route ip from ((rate_limited_event ip' route' limit path)\<lparr>ae_timestamp := t\<rparr>)
     \<longleftrightarrow> route' = route \<and> ip' = ip \<and> in_window from t"
  by (auto simp: is_throttle_row_def rate_limited_event_def event0_def jget_def)

lemma expire_keeps:
  assumes "start \<le> from"
  shows "attempts_in_window route ip from (expire route' start rows) = attempts_in_window route ip from rows"
  using assms by (induction rows) (auto simp: attempts_in_window_def expire_def)

lemma expire_other_route:
  "route' \<noteq> route \<Longrightarrow> attempts_in_window route ip from (expire route' start rows) = attempts_in_window route ip from rows"
  by (induction rows) (auto simp: attempts_in_window_def expire_def)

lemma attempts_mono: "from \<le> from' \<Longrightarrow>
    length (attempts_in_window route ip from' rows) \<le> length (attempts_in_window route ip from rows)"
  by (induction rows) (auto simp: attempts_in_window_def)

text \<open>One attempt, as it bears on the count of an address and a route since some instant.\<close>

lemma one_attempt:
  assumes "enforce_ip_rate_limit parse_ip env rq route' s = (r, s')" and "clock s - window \<le> from"
  shows "route' = route \<and> client_ip parse_ip rq = ip \<and> route_limit env route = Inr limit \<and> 0 < limit \<Longrightarrow>
      recent route ip from (working s') = recent route ip from (working s) + (if from \<le> clock s then 1 else 0)
      \<and> (r = Inr () \<longrightarrow> int (recent route ip from (working s)) < limit)
      \<and> (if \<exists>n. r = Inl (RateLimited n) \<and> throttle_rows route ip from (working s') \<noteq> throttle_rows route ip from (working s)
         then int (recent route ip from (working s)) \<le> limit \<and> from \<le> clock s
           \<and> throttle_rows route ip from (working s') = Suc (throttle_rows route ip from (working s))
         else throttle_rows route ip from (working s') = throttle_rows route ip from (working s))"
    and "\<not> (route' = route \<and> client_ip parse_ip rq = ip) \<Longrightarrow>
      recent route ip from (working s') = recent route ip from (working s)
      \<and> throttle_rows route ip from (working s') = throttle_rows route ip from (working s)"
proof -
  let ?rows = "throttle_events (working s)"
  show "recent route ip from (working s') = recent route ip from (working s) + (if from \<le> clock s then 1 else 0)
      \<and> (r = Inr () \<longrightarrow> int (recent route ip from (working s)) < limit)
      \<and> (if \<exists>n. r = Inl (RateLimited n) \<and> throttle_rows route ip from (working s') \<noteq> throttle_rows route ip from (working s)
         then int (recent route ip from (working s)) \<le> limit \<and> from \<le> clock s
           \<and> throttle_rows route ip from (working s') = Suc (throttle_rows route ip from (working s))
         else throttle_rows route ip from (working s') = throttle_rows route ip from (working s))"
    if "route' = route \<and> client_ip parse_ip rq = ip \<and> route_limit env route = Inr limit \<and> 0 < limit"
  proof -
    have le: "recent route ip from (working s)
        \<le> length (attempts_in_window route ip (clock s - window) (expire route (clock s - window) ?rows))"
      using attempts_mono [OF assms(2), of route ip ?rows] expire_keeps [of "clock s - window" "clock s - window"]
      by (simp add: recent_def)
    have new: "length (attempts_in_window route ip from (expire route (clock s - window) ?rows @ [\<lparr>t_ip = ip, t_route = route, t_created_at = clock s\<rparr>]))
        = recent route ip from (working s) + (if from \<le> clock s then 1 else 0)"
      using expire_keeps [OF assms(2), of route ip route ?rows] by (simp add: recent_def attempts_in_window_def)
    show ?thesis
      using assms(1) that le new
      by (auto simp: enforce_ip_rate_limit_def Let_def recent_def throttle_rows_def stamp_rate_limited
          rate_limited_row in_window_def split: if_splits)
  qed
  show "recent route ip from (working s') = recent route ip from (working s)
      \<and> throttle_rows route ip from (working s') = throttle_rows route ip from (working s)"
    if "\<not> (route' = route \<and> client_ip parse_ip rq = ip)"
  proof -
    have keep: "attempts_in_window route ip from (expire route' (clock s - window) ?rows) = attempts_in_window route ip from ?rows"
      by (rule expire_keeps) (rule assms(2))
    then have "attempts_in_window route ip from (expire route' (clock s - window) ?rows
        @ [\<lparr>t_ip = client_ip parse_ip rq, t_route = route', t_created_at = clock s\<rparr>]) = attempts_in_window route ip from ?rows"
      using that by (auto simp: attempts_in_window_def)
    then show ?thesis
      using assms(1) that
      by (auto simp: enforce_ip_rate_limit_def Let_def recent_def throttle_rows_def stamp_rate_limited
          rate_limited_row split: if_splits sum.splits)
  qed
qed

lemma late_attempt:
  assumes "enforce_ip_rate_limit parse_ip env rq route' s = (r, s')" and "from + window < clock s"
  shows "throttle_rows route ip from (working s') = throttle_rows route ip from (working s)"
  using assms
  by (auto simp: enforce_ip_rate_limit_def Let_def throttle_rows_def stamp_rate_limited
      rate_limited_row in_window_def split: if_splits sum.splits)

lemma late_run:
  assumes "\<And>rq route' t. (rq, route', t) \<in> set as \<Longrightarrow> from + window < t"
  shows "let_through parse_ip route ip from as (fst (throttle_run parse_ip env as s)) = 0
    \<and> throttle_rows route ip from (working (snd (throttle_run parse_ip env as s))) = throttle_rows route ip from (working s)"
  using assms
proof (induction as arbitrary: s)
  case (Cons a as)
  obtain rq route' t where a: "a = (rq, route', t)" by (cases a)
  obtain r s' where e: "enforce_ip_rate_limit parse_ip env rq route' (s\<lparr>clock := t\<rparr>) = (r, s')"
    by (cases "enforce_ip_rate_limit parse_ip env rq route' (s\<lparr>clock := t\<rparr>)")
  have late: "from + window < t" using Cons.prems [of rq route' t] a by simp
  then have "throttle_rows route ip from (working s') = throttle_rows route ip from (working s)"
    using late_attempt [OF e] by simp
  moreover have "\<not> in_window from t" using late by (simp add: in_window_def)
  ultimately show ?case
    using Cons.IH [of s'] Cons.prems by (auto simp: a e let_through_def)
qed (simp add: let_through_def)

lemma run_bound:
  assumes "sorted (map (\<lambda>(_, _, t). t) as)" and "route_limit env route = Inr limit" and "0 < limit"
  shows "int (let_through parse_ip route ip from as (fst (throttle_run parse_ip env as s)))
      \<le> max 0 (limit - int (recent route ip from (working s)))
    \<and> int (throttle_rows route ip from (working (snd (throttle_run parse_ip env as s))))
      \<le> int (throttle_rows route ip from (working s)) + max 0 (limit + 1 - int (recent route ip from (working s)))"
  using assms(1)
proof (induction as arbitrary: s)
  case (Cons a as)
  obtain rq route' t where a: "a = (rq, route', t)" by (cases a)
  obtain r s' where e: "enforce_ip_rate_limit parse_ip env rq route' (s\<lparr>clock := t\<rparr>) = (r, s')"
    by (cases "enforce_ip_rate_limit parse_ip env rq route' (s\<lparr>clock := t\<rparr>)")
  show ?case
  proof (cases "from + window < t")
    case True
    have late: "\<And>rq' route'' t'. (rq', route'', t') \<in> set (a # as) \<Longrightarrow> from + window < t'"
      using Cons.prems True by (force simp: a)
    have "let_through parse_ip route ip from (a # as) (fst (throttle_run parse_ip env (a # as) s)) = 0
      \<and> throttle_rows route ip from (working (snd (throttle_run parse_ip env (a # as) s))) = throttle_rows route ip from (working s)"
      using late by (rule late_run)
    then show ?thesis by simp
  next
    case False
    then have w: "clock (s\<lparr>clock := t\<rparr>) - window \<le> from" by simp
    have IH: "int (let_through parse_ip route ip from as (fst (throttle_run parse_ip env as s')))
        \<le> max 0 (limit - int (recent route ip from (working s')))"
      "int (throttle_rows route ip from (working (snd (throttle_run parse_ip env as s'))))
        \<le> int (throttle_rows route ip from (working s')) + max 0 (limit + 1 - int (recent route ip from (working s')))"
      using Cons.IH [of s'] Cons.prems by (simp_all add: a)
    have run: "throttle_run parse_ip env (a # as) s
        = (r # fst (throttle_run parse_ip env as s'), snd (throttle_run parse_ip env as s'))"
      by (simp add: a e map_prod_def split_def)
    have count: "let_through parse_ip route ip from (a # as) (r # rs)
        = (if route' = route \<and> client_ip parse_ip rq = ip \<and> in_window from t \<and> r = Inr () then 1 else 0)
          + let_through parse_ip route ip from as rs" for rs
      by (simp add: let_through_def a)
    show ?thesis
    proof (cases "route' = route \<and> client_ip parse_ip rq = ip")
      case True
      have one: "recent route ip from (working s') = recent route ip from (working s) + (if from \<le> t then 1 else 0)"
        "r = Inr () \<Longrightarrow> int (recent route ip from (working s)) < limit"
        "throttle_rows route ip from (working s') = throttle_rows route ip from (working s)
         \<or> int (recent route ip from (working s)) \<le> limit \<and> from \<le> t
           \<and> throttle_rows route ip from (working s') = Suc (throttle_rows route ip from (working s))"
        using one_attempt(1) [OF e w] True assms(2,3) by (auto split: if_splits)
      have "from \<le> t \<longleftrightarrow> in_window from t" using False by (simp add: in_window_def)
      with one IH run count [of "fst (throttle_run parse_ip env as s')"] show ?thesis
        by (auto split: if_splits)
    next
      case False
      with one_attempt(2) [OF e w False] IH run count [of "fst (throttle_run parse_ip env as s')"]
      show ?thesis by auto
    qed
  qed
qed (simp add: let_through_def)

section \<open>Properties\<close>

definition sample_request_from :: "string \<Rightarrow> request" where
  "sample_request_from ip = \<lparr>rq_headers = [''fly-client-ip'' \<mapsto> ip], rq_client_host = None, rq_path = ''/login''\<rparr>"


text \<open>The bound on the rows is reached: with a limit of one, a client that knocks once an hour is
  refused and logged at every knock after the first.\<close>

definition steady_knocks :: "(request \<times> string \<times> int) list" where
  "steady_knocks =
     [(sample_request_from ''9.9.9.9'', ''auth.register'', 0),
      (sample_request_from ''9.9.9.9'', ''auth.register'', 3600000000),
      (sample_request_from ''9.9.9.9'', ''auth.register'', 7200000000)]"

definition one_an_hour :: "string \<rightharpoonup> string" where
  "one_an_hour = [''LEGALISE_RATE_LIMIT_REGISTER_PER_HOUR'' \<mapsto> ''1'']"

lemma one_an_hour_limit: "route_limit one_an_hour ''auth.register'' = Inr 1"
  by code_simp

lemma sample_ip: "client_ip (\<lambda>_. None) (sample_request_from ''9.9.9.9'') = ''9.9.9.9''"
  by code_simp

lemma steady_run:
  "throttle_run (\<lambda>_. None) one_an_hour steady_knocks (open_session empty_db 0) = (rs, s) \<Longrightarrow>
     rs = [Inr (), Inl (RateLimited 1), Inl (RateLimited 1)]
     \<and> throttle_rows ''auth.register'' ''9.9.9.9'' 3600000000 (working s) = 2"
  by (auto simp: steady_knocks_def enforce_ip_rate_limit_def one_an_hour_limit sample_ip Let_def
      window_def WINDOW_SECONDS_def expire_def attempts_in_window_def throttle_rows_def
      stamp_rate_limited rate_limited_row in_window_def open_session_def empty_db_def)


text \<open>C38. A client that reaches the origin without Cloudflare cannot choose its bucket: unless the
  address set by the Fly proxy lies in a published Cloudflare range, the address a request
  counts for does not depend on the \<open>CF-Connecting-IP\<close> header.\<close>

theorem forged_header_is_ignored:
  assumes "\<not> is_cloudflare_ip parse_ip (header rq ''fly-client-ip'')"
  shows "client_ip parse_ip (rq\<lparr>rq_headers := (rq_headers rq)(''cf-connecting-ip'' := v)\<rparr>) = client_ip parse_ip rq"
  using assms by (cases "rq_client_host rq") (simp_all add: client_ip_def header_def Let_def)

theorem forged_header_is_ignored_witness:
  "client_ip (\<lambda>_. Some (IPv4 (v4 9 9 9 9))) ((sample_request_from ''9.9.9.9'')
     \<lparr>rq_headers := [''fly-client-ip'' \<mapsto> ''9.9.9.9'', ''cf-connecting-ip'' \<mapsto> ''1.2.3.4'']\<rparr>) = ''9.9.9.9''"
proof -
  have no: "\<not> is_cloudflare_ip (\<lambda>_. Some (IPv4 (v4 9 9 9 9))) h" for h
    by (simp add: is_cloudflare_ip_def CLOUDFLARE_V4_def in_network_def v4_def)
  have "client_ip (\<lambda>_. Some (IPv4 (v4 9 9 9 9))) (sample_request_from ''9.9.9.9'') = ''9.9.9.9''"
    by (simp add: client_ip_def header_def sample_request_from_def clean_note_def py_strip_def py_lstrip_def py_isspace_def)
  with forged_header_is_ignored [OF no, of "sample_request_from ''9.9.9.9''" "Some ''1.2.3.4''"]
  show ?thesis by (simp add: sample_request_from_def fun_upd_twist)
qed

end
