(* ===== verification/Jobs.thy ===== *)
theory Jobs
  imports Database
begin

text \<open>
  Durable jobs: the row and its states (\<open>app/models/job.py\<close>), the write paths of
  \<open>app/core/jobs.py\<close> and the cap they read from \<open>app/core/limits.py\<close>. A job object of the
  session is the row of its id in the working database. The queue is a parameter: what handing
  an id to Redis does, the name of the exception it ends in or nothing. A commit flushes the rows;
  PostgreSQL refuses a row whose text is longer than its \<open>String(n)\<close> column.
\<close>

section \<open>States\<close>

definition JOB_STATUS_QUEUED :: string where "JOB_STATUS_QUEUED = ''queued''"
definition JOB_STATUS_RUNNING :: string where "JOB_STATUS_RUNNING = ''running''"
definition JOB_STATUS_SUCCEEDED :: string where "JOB_STATUS_SUCCEEDED = ''succeeded''"
definition JOB_STATUS_FAILED :: string where "JOB_STATUS_FAILED = ''failed''"
definition JOB_STATUS_CANCELLED :: string where "JOB_STATUS_CANCELLED = ''cancelled''"

definition JOB_ACTIVE_STATUSES :: "string list" where
  "JOB_ACTIVE_STATUSES = [JOB_STATUS_QUEUED, JOB_STATUS_RUNNING]"

definition JOB_KIND_EXPORT :: string where "JOB_KIND_EXPORT = ''export''"
definition JOB_KIND_INDEX :: string where "JOB_KIND_INDEX = ''index''"

definition BACKGROUND_JOB_KINDS :: "string list" where
  "BACKGROUND_JOB_KINDS = [JOB_KIND_INDEX]"

lemmas job_statuses = JOB_STATUS_QUEUED_def JOB_STATUS_RUNNING_def JOB_STATUS_SUCCEEDED_def
  JOB_STATUS_FAILED_def JOB_STATUS_CANCELLED_def

definition finished_status :: "string \<Rightarrow> bool" where
  "finished_status st \<longleftrightarrow> st \<in> {JOB_STATUS_SUCCEEDED, JOB_STATUS_FAILED, JOB_STATUS_CANCELLED}"

text \<open>The widths of the columns.\<close>

definition within :: "nat \<Rightarrow> string option \<Rightarrow> bool" where
  "within n v = (case v of None \<Rightarrow> True | Some x \<Rightarrow> length x \<le> n)"

definition row_fits :: "job \<Rightarrow> bool" where
  "row_fits j \<longleftrightarrow> length (j_kind j) \<le> 64 \<and> length (j_status j) \<le> 32 \<and> within 128 (j_stage j)
     \<and> within 128 (j_error_code j) \<and> within 2048 (j_error_message j)"

definition commit_jobs :: "session \<Rightarrow> session option" where
  "commit_jobs s = (if list_all row_fits (jobs (working s)) then Some (commit s) else None)"

section \<open>The cap\<close>

definition ACTIVE_JOBS_LIMIT :: "(string \<rightharpoonup> string) \<Rightarrow> int option" where
  "ACTIVE_JOBS_LIMIT env = py_int (case env ''LEGALISE_LIMIT_ACTIVE_JOBS'' of None \<Rightarrow> ''3'' | Some v \<Rightarrow> v)"

definition get_active_job_count :: "uuid \<Rightarrow> string list \<Rightarrow> db \<Rightarrow> int" where
  "get_active_job_count user_id exclude d =
     int (length (filter (\<lambda>j. j_created_by_id j = user_id \<and> j_status j \<in> set JOB_ACTIVE_STATUSES
        \<and> j_kind j \<notin> set exclude) (jobs d)))"

section \<open>Write paths\<close>

datatype job_error =
    ActiveJobLimitReached uuid int int
  | JobEnqueueFailed uuid
  | JobRowRefused

definition job_event :: "string \<Rightarrow> job \<Rightarrow> (string \<times> json) list \<Rightarrow> audit_event" where
  "job_event action j payload = (event0 action)
     \<lparr>ae_actor_id := Some (j_created_by_id j), ae_matter_id := Some (j_matter_id j),
      ae_module := Some (j_kind j), ae_resource_type := Some ''job'', ae_resource_id := Some (j_id j),
      ae_payload := JObj payload\<rparr>"

definition new_job :: "uuid \<Rightarrow> uuid \<Rightarrow> uuid \<Rightarrow> string \<Rightarrow> json \<Rightarrow> job" where
  "new_job jid matter_id user_id kind payload =
     \<lparr>j_id = jid, j_matter_id = matter_id, j_created_by_id = user_id, j_kind = kind,
      j_status = JOB_STATUS_QUEUED, j_stage = None, j_progress = None, j_input_payload = payload,
      j_result_payload = None, j_error_code = None, j_error_message = None,
      j_started_at = None, j_finished_at = None\<rparr>"

definition add_job :: "job \<Rightarrow> db \<Rightarrow> db" where
  "add_job j d = d\<lparr>jobs := jobs d @ [j]\<rparr>"

definition create_job ::
  "int \<Rightarrow> uuid \<Rightarrow> uuid \<Rightarrow> uuid \<Rightarrow> string \<Rightarrow> json \<Rightarrow> session \<Rightarrow> (job_error + job) \<times> session" where
  "create_job cap jid matter_id user_id kind payload s =
     (let active = get_active_job_count user_id BACKGROUND_JOB_KINDS (working s) in
      if kind \<notin> set BACKGROUND_JOB_KINDS \<and> active \<ge> cap
      then (Inl (ActiveJobLimitReached user_id active cap), s)
      else (let j = new_job jid matter_id user_id kind payload
            in (Inr j, audit_log (job_event (''module.'' @ kind @ ''.job.queued'') j
                         [(''kind'', JStr kind), (''job_id'', JStr jid)]) (on_working (add_job j) s))))"

definition set_job :: "uuid \<Rightarrow> (job \<Rightarrow> job) \<Rightarrow> db \<Rightarrow> db" where
  "set_job jid f d = d\<lparr>jobs := update_where (\<lambda>j. j_id j = jid) f (jobs d)\<rparr>"

definition find_job :: "uuid \<Rightarrow> db \<Rightarrow> job option" where
  "find_job jid d = find (\<lambda>j. j_id j = jid) (jobs d)"

text \<open>The optional arguments of \<open>update_status\<close>.\<close>

record job_update =
  ju_stage :: "string option"
  ju_progress :: "int option"
  ju_result_payload :: "json option"
  ju_error_code :: "string option"
  ju_error_message :: "string option"

definition no_update :: job_update where
  "no_update = \<lparr>ju_stage = None, ju_progress = None, ju_result_payload = None, ju_error_code = None,
     ju_error_message = None\<rparr>"

definition orelse :: "'a option \<Rightarrow> 'a option \<Rightarrow> 'a option" where
  "orelse a b = (case a of None \<Rightarrow> b | Some x \<Rightarrow> Some x)"

definition with_status :: "int \<Rightarrow> string \<Rightarrow> job_update \<Rightarrow> job \<Rightarrow> job" where
  "with_status now st u j = j
     \<lparr>j_status := st,
      j_started_at := (if st = JOB_STATUS_RUNNING then Some now else j_started_at j),
      j_finished_at := (if st \<noteq> JOB_STATUS_RUNNING \<and> finished_status st then Some now else j_finished_at j),
      j_stage := orelse (ju_stage u) (j_stage j),
      j_progress := orelse (ju_progress u) (j_progress j),
      j_result_payload := orelse (ju_result_payload u) (j_result_payload j),
      j_error_code := orelse (ju_error_code u) (j_error_code j),
      j_error_message := orelse (ju_error_message u) (j_error_message j)\<rparr>"

definition action_suffix :: "string \<Rightarrow> string" where
  "action_suffix st = (case map_of [(JOB_STATUS_RUNNING, ''started''), (JOB_STATUS_SUCCEEDED, ''completed''),
      (JOB_STATUS_FAILED, ''failed''), (JOB_STATUS_CANCELLED, ''cancelled'')] st of
      None \<Rightarrow> st | Some x \<Rightarrow> x)"

text \<open>\<open>if value: payload[key] = value\<close>\<close>

definition when_given :: "string \<Rightarrow> string option \<Rightarrow> (string \<times> json) list" where
  "when_given key v = (case v of None \<Rightarrow> [] | Some x \<Rightarrow> if x = [] then [] else [(key, JStr x)])"

definition status_event :: "job \<Rightarrow> string \<Rightarrow> job_update \<Rightarrow> audit_event" where
  "status_event j st u = job_event (''module.'' @ j_kind j @ ''.job.'' @ action_suffix st) j
     ([(''job_id'', JStr (j_id j)), (''status'', JStr st)] @ when_given ''error_code'' (ju_error_code u)
       @ when_given ''error_message'' (ju_error_message u))"

definition update_status :: "job \<Rightarrow> string \<Rightarrow> job_update \<Rightarrow> session \<Rightarrow> session" where
  "update_status j st u s =
     audit_log (status_event j st u) (on_working (set_job (j_id j) (with_status (clock s) st u)) s)"

definition update_stage :: "job \<Rightarrow> string \<Rightarrow> int option \<Rightarrow> session \<Rightarrow> session" where
  "update_stage j stage progress s =
     on_working (set_job (j_id j) (\<lambda>j. j\<lparr>j_stage := Some stage, j_progress := orelse progress (j_progress j)\<rparr>)) s"

definition append_event :: "job \<Rightarrow> string \<Rightarrow> (string \<times> json) list \<Rightarrow> session \<Rightarrow> session" where
  "append_event j action payload s = audit_log (job_event action j payload) s"

text \<open>What an upload or an export does after its commit. The error is raised after the commit.\<close>

definition enqueue_or_mark_failed ::
  "(uuid \<Rightarrow> string option) \<Rightarrow> job \<Rightarrow> session \<Rightarrow> (job_error + unit) \<times> session" where
  "enqueue_or_mark_failed enqueue j s =
     (case enqueue (j_id j) of
        None \<Rightarrow> (Inr (), s)
      | Some exc \<Rightarrow>
          (let s1 = update_status j JOB_STATUS_FAILED
               (no_update\<lparr>ju_error_code := Some ''enqueue_failed'',
                  ju_error_message := Some (''Failed to enqueue '' @ j_kind j @ '' job: '' @ exc)\<rparr>) s
           in (case commit_jobs s1 of
                 None \<Rightarrow> (Inl JobRowRefused, rollback s1)
               | Some s2 \<Rightarrow> (Inl (JobEnqueueFailed (j_id j)), s2))))"

end
