(* ===== verification/Lifecycle.thy ===== *)
theory Lifecycle
  imports Jobs Artifacts Capabilities
begin

text \<open>
  The life of a matter: who may open it (\<open>app/core/matter_access.py\<close>), its destructive tombstone
  (\<open>app/core/matter_lifecycle.py\<close>) with the two callers it has, the route
  \<open>DELETE /api/matters/{slug}\<close> (\<open>app/api/matters.py\<close>) and the retention sweep
  (\<open>app/tools/retention_sweep.py\<close>), and the two storage backends' \<open>delete_prefix\<close>
  (\<open>app/core/storage.py\<close>). A bucket lists its objects in the order the backend lists them; the
  replies of an S3 server are parameters.
\<close>

section \<open>Deleting a prefix\<close>

type_synonym bucket = "(string \<times> bytes) list"

datatype storage_error = StorageListFailed | StorageDeleteFailed

definition list_keys :: "string \<Rightarrow> bucket \<Rightarrow> string list" where
  "list_keys prefix b = filter (starts_with prefix) (map fst b)"

definition keep :: "(string \<Rightarrow> bool) \<Rightarrow> bucket \<Rightarrow> bucket" where
  "keep P b = filter (P \<circ> fst) b"

definition delete_object :: "string \<Rightarrow> bucket \<Rightarrow> bucket" where
  "delete_object key b = keep (\<lambda>k. k \<noteq> key) b"

definition local_delete_prefix :: "string \<Rightarrow> bucket \<Rightarrow> (storage_error + nat) \<times> bucket" where
  "local_delete_prefix prefix b =
     (Inr (length (list_keys prefix b)), foldl (\<lambda>b k. delete_object k b) b (list_keys prefix b))"

text \<open>
  \<open>delete_objects\<close> takes 1000 keys at a time. A call may raise (\<open>call_fails i\<close>); a call that
  returns lists in its answer the keys the server did not delete (\<open>refused\<close>), which the code
  does not read.
\<close>

definition S3_BATCH :: nat where "S3_BATCH = 1000"

function s3_batches ::
  "(nat \<Rightarrow> bool) \<Rightarrow> (string \<Rightarrow> bool) \<Rightarrow> nat \<Rightarrow> string list \<Rightarrow> nat \<Rightarrow> bucket \<Rightarrow> (storage_error + nat) \<times> bucket" where
  "s3_batches call_fails refused i keys deleted b =
     (if keys = [] then (Inr deleted, b)
      else if call_fails i then (Inl StorageDeleteFailed, b)
      else s3_batches call_fails refused (Suc i) (drop S3_BATCH keys) (deleted + length (take S3_BATCH keys))
             (keep (\<lambda>k. k \<notin> set (take S3_BATCH keys) \<or> refused k) b))"
  by pat_completeness auto

termination
  by (relation "measure (\<lambda>(_, _, _, keys, _, _). length keys)") (auto simp: S3_BATCH_def)

declare s3_batches.simps [simp del]

definition s3_delete_prefix ::
  "bool \<Rightarrow> (nat \<Rightarrow> bool) \<Rightarrow> (string \<Rightarrow> bool) \<Rightarrow> string \<Rightarrow> bucket \<Rightarrow> (storage_error + nat) \<times> bucket" where
  "s3_delete_prefix list_fails call_fails refused prefix b =
     (if list_fails then (Inl StorageListFailed, b)
      else s3_batches call_fails refused 0 (list_keys prefix b) 0 b)"

section \<open>Matters\<close>

definition STATUS_OPEN :: string where "STATUS_OPEN = ''open''"

definition resolve_owned_open_matter :: "string \<Rightarrow> uuid \<Rightarrow> db \<Rightarrow> matter option" where
  "resolve_owned_open_matter slug user_id d =
     find (\<lambda>m. m_slug m = slug \<and> m_created_by_id m = user_id \<and> m_status m \<noteq> STATUS_ARCHIVED) (matters d)"

section \<open>The tombstone\<close>

datatype lifecycle_error =
    MatterHasActiveJobs int
  | StorageDelete storage_error
  | MatterNotFound string

record tombstone_result =
  tr_export_count :: int
  tr_had_export :: bool
  tr_grants_revoked :: nat

definition active_job_count :: "uuid \<Rightarrow> db \<Rightarrow> int" where
  "active_job_count mid d =
     int (length (filter (\<lambda>j. j_matter_id j = mid \<and> j_status j \<in> set JOB_ACTIVE_STATUSES
        \<and> j_kind j \<notin> set BACKGROUND_JOB_KINDS) (jobs d)))"

definition export_count_of :: "uuid \<Rightarrow> db \<Rightarrow> int" where
  "export_count_of mid d =
     int (length (filter (\<lambda>j. j_matter_id j = mid \<and> j_kind j = JOB_KIND_EXPORT
        \<and> j_status j = JOB_STATUS_SUCCEEDED) (jobs d)))"

definition matter_event :: "string \<Rightarrow> uuid option \<Rightarrow> matter \<Rightarrow> string \<Rightarrow> (string \<times> json) list \<Rightarrow> audit_event" where
  "matter_event action actor m res_type payload = (event0 action)
     \<lparr>ae_actor_id := actor, ae_matter_id := Some (m_id m), ae_resource_type := Some res_type,
      ae_resource_id := Some (m_slug m), ae_payload := JObj payload\<rparr>"

definition deleted_event :: "string \<Rightarrow> uuid option \<Rightarrow> matter \<Rightarrow> int \<Rightarrow> (string \<times> json) list \<Rightarrow> audit_event" where
  "deleted_event action actor m exports payload =
     matter_event action actor m ''matter''
       (dict_merge [(''title'', JStr (m_title m)), (''had_export'', JBool (exports > 0)), (''export_count'', JInt exports)] payload)"

definition warning_event :: "uuid option \<Rightarrow> matter \<Rightarrow> audit_event" where
  "warning_event actor m = matter_event ''matter.deleted_without_export'' actor m ''matter''
     [(''warning'', JStr ''Matter deleted without a prior successful export.'')]"

definition revoked_event :: "uuid option \<Rightarrow> matter \<Rightarrow> nat \<Rightarrow> audit_event" where
  "revoked_event actor m n = matter_event ''module.grant.revoked'' actor m ''capability_grant''
     [(''count'', JInt (int n)), (''reason'', JStr ''matter_archived'')]"

definition archive :: "uuid \<Rightarrow> db \<Rightarrow> db" where
  "archive mid d = d\<lparr>matters := update_where (\<lambda>m. m_id m = mid) (\<lambda>m. m\<lparr>m_status := STATUS_ARCHIVED\<rparr>) (matters d)\<rparr>"

definition matter_grant :: "uuid \<Rightarrow> grant \<Rightarrow> bool" where
  "matter_grant mid g \<longleftrightarrow> g_scope_type g = ''matter'' \<and> g_scope_id g = Some mid"

definition drop_grants :: "uuid \<Rightarrow> db \<Rightarrow> db" where
  "drop_grants mid d = d\<lparr>grants := filter (\<lambda>g. \<not> matter_grant mid g) (grants d)\<rparr>"

text \<open>The rows staged once the bytes are gone, and the number of grants revoked.\<close>

definition tombstone_rows ::
  "matter \<Rightarrow> uuid option \<Rightarrow> string \<Rightarrow> (string \<times> json) list \<Rightarrow> bool \<Rightarrow> int \<Rightarrow> session \<Rightarrow> nat \<times> session" where
  "tombstone_rows m actor action payload warn_without_export exports s =
     (let mid = m_id m;
          s1 = audit_log (deleted_event action actor m exports payload) s;
          s2 = (if warn_without_export \<and> exports = 0 then audit_log (warning_event actor m) s1 else s1);
          s3 = on_working (archive mid) s2;
          revoked = length (filter (matter_grant mid) (grants (working s3)));
          s4 = on_working (drop_grants mid) s3
      in (revoked, if revoked > 0 then audit_log (revoked_event actor m revoked) s4 else s4))"

definition tombstone_matter ::
  "(string \<Rightarrow> 'b \<Rightarrow> (storage_error + nat) \<times> 'b) \<Rightarrow> matter \<Rightarrow> uuid option \<Rightarrow> string \<Rightarrow> (string \<times> json) list \<Rightarrow> bool
    \<Rightarrow> 'b \<times> session \<Rightarrow> (lifecycle_error + tombstone_result) \<times> 'b \<times> session" where
  "tombstone_matter delete m actor action payload warn_without_export bs =
     (let (b, s) = bs; active = active_job_count (m_id m) (working s) in
      if active > 0 then (Inl (MatterHasActiveJobs active), b, s)
      else
       (let exports = export_count_of (m_id m) (working s) in
        case delete (Artifacts.matter_prefix (m_created_by_id m) (m_id m)) b of
          (Inl e, b') \<Rightarrow> (Inl (StorageDelete e), b', s)
        | (Inr _, b') \<Rightarrow>
            (case tombstone_rows m actor action payload warn_without_export exports s of
               (revoked, s') \<Rightarrow>
                 (Inr \<lparr>tr_export_count = exports, tr_had_export = exports > 0, tr_grants_revoked = revoked\<rparr>, b', s'))))"

text \<open>The route: an exception drops the session, so its open transaction rolls back.\<close>

definition delete_matter ::
  "(string \<Rightarrow> 'b \<Rightarrow> (storage_error + nat) \<times> 'b) \<Rightarrow> string \<Rightarrow> uuid \<Rightarrow> 'b \<times> session
    \<Rightarrow> (lifecycle_error + unit) \<times> 'b \<times> session" where
  "delete_matter delete slug user_id bs =
     (case find (\<lambda>m. m_slug m = slug \<and> m_created_by_id m = user_id) (matters (working (snd bs))) of
        None \<Rightarrow> (Inl (MatterNotFound slug), fst bs, rollback (snd bs))
      | Some m \<Rightarrow>
          if m_status m = STATUS_ARCHIVED then (Inl (MatterNotFound slug), fst bs, rollback (snd bs))
          else (case tombstone_matter delete m (Some user_id) ''matter.deleted'' [] True bs of
                  (Inl e, b, s) \<Rightarrow> (Inl e, b, rollback s)
                | (Inr _, b, s) \<Rightarrow> (Inr (), b, commit s)))"

section \<open>The retention sweep\<close>

text \<open>Dates compare by year, month and day; \<open>isoformat\<close> pads them.\<close>

definition date_key :: "date \<Rightarrow> int" where
  "date_key dt = (case dt of (y, m, d) \<Rightarrow> (y * 100 + m) * 100 + d)"

definition pad :: "nat \<Rightarrow> int \<Rightarrow> string" where
  "pad n i = (let t = int_str i in replicate (n - length t) (CHR ''0'') @ t)"

definition date_isoformat :: "date \<Rightarrow> string" where
  "date_isoformat dt = (case dt of (y, m, d) \<Rightarrow> pad 4 y @ ''-'' @ pad 2 m @ ''-'' @ pad 2 d)"

definition expired :: "date \<Rightarrow> matter \<Rightarrow> bool" where
  "expired today m = (case m_retention_until m of None \<Rightarrow> False
     | Some u \<Rightarrow> date_key u < date_key today \<and> m_status m \<noteq> STATUS_ARCHIVED)"

definition take_limit :: "nat option \<Rightarrow> 'a list \<Rightarrow> 'a list" where
  "take_limit limit xs = (case limit of None \<Rightarrow> xs | Some n \<Rightarrow> take n xs)"

definition select_expired :: "date \<Rightarrow> nat option \<Rightarrow> db \<Rightarrow> matter list" where
  "select_expired today limit d =
     take_limit limit (sort_key (\<lambda>m. date_key (the (m_retention_until m))) (filter (expired today) (matters d)))"

datatype sweep_exit = EXIT_OK | EXIT_FAIL | EXIT_PARTIAL

definition sweep_payload :: "matter \<Rightarrow> (string \<times> json) list" where
  "sweep_payload m =
     [(''retention_until'', jstr_opt (map_option date_isoformat (m_retention_until m))), (''purged_by'', JStr ''retention_sweep'')]"

text \<open>
  One iteration per matter; the counts are purged and failed. A rollback expires the rows the
  session has loaded. Whether the next read of an attribute of such a row raises, as it does on
  an \<open>AsyncSession\<close>, is the parameter \<open>expires\<close>: the read stands outside the \<open>try\<close>, so the
  exception leaves the loop (None).
\<close>

fun sweep_loop ::
  "bool \<Rightarrow> (string \<Rightarrow> 'b \<Rightarrow> (storage_error + nat) \<times> 'b) \<Rightarrow> matter list \<Rightarrow> nat \<times> nat \<Rightarrow> 'b \<times> session
    \<Rightarrow> (nat \<times> nat) option \<times> 'b \<times> session" where
  "sweep_loop expires delete [] counts bs = (Some counts, bs)"
| "sweep_loop expires delete (m # ms) (purged, failed) bs =
     (if expires \<and> failed > 0 then (None, bs)
      else case tombstone_matter delete m None ''matter.retention.purged'' (sweep_payload m) True bs of
          (Inr _, b, s) \<Rightarrow> sweep_loop expires delete ms (Suc purged, failed) (b, commit s)
        | (Inl _, b, s) \<Rightarrow> sweep_loop expires delete ms (purged, Suc failed) (b, rollback s))"

definition sweep ::
  "bool \<Rightarrow> (string \<Rightarrow> 'b \<Rightarrow> (storage_error + nat) \<times> 'b) \<Rightarrow> bool \<Rightarrow> date \<Rightarrow> nat option \<Rightarrow> 'b \<times> session
    \<Rightarrow> sweep_exit \<times> 'b \<times> session" where
  "sweep expires delete apply today limit bs =
     (let selected = select_expired today limit (working (snd bs)) in
      if selected = [] \<or> \<not> apply then (EXIT_OK, bs)
      else (case sweep_loop expires delete selected (0, 0) bs of
              (None, bs') \<Rightarrow> (EXIT_FAIL, bs')
            | (Some (_, failed), bs') \<Rightarrow> (if failed > 0 then EXIT_PARTIAL else EXIT_OK, bs')))"

section \<open>What the backends promise\<close>

text \<open>
  What the tombstone relies on: a deletion that succeeds leaves no object under the prefix, and
  no deletion touches another object.
\<close>

definition outside :: "string \<Rightarrow> bucket \<Rightarrow> bucket" where
  "outside p b = keep (\<lambda>k. \<not> starts_with p k) b"

lemma keep_keep: "keep P (keep Q b) = keep (\<lambda>k. P k \<and> Q k) b"
  by (simp add: keep_def) (rule filter_cong, auto)

lemma keep_cong: "(\<And>k. k \<in> fst ` set b \<Longrightarrow> P k = Q k) \<Longrightarrow> keep P b = keep Q b"
  unfolding keep_def by (rule filter_cong) auto

lemma keep_keys: "k \<in> fst ` set (keep P b) \<longleftrightarrow> P k \<and> k \<in> fst ` set b"
  by (auto simp: keep_def)

lemma keep_map_of: "P k \<Longrightarrow> map_of (keep P b) k = map_of b k"
  by (induction b) (auto simp: keep_def)

lemma in_list_keys: "k \<in> set (list_keys p b) \<longleftrightarrow> starts_with p k \<and> k \<in> fst ` set b"
  by (auto simp: list_keys_def)

locale prefix_store =
  fixes delete :: "string \<Rightarrow> bucket \<Rightarrow> (storage_error + nat) \<times> bucket"
  assumes gone: "delete p b = (Inr n, b') \<Longrightarrow> b' = outside p b"
    and others: "delete p b = (r, b') \<Longrightarrow> outside p b' = outside p b"
begin

lemma swept: "delete p b = (Inr n, b') \<Longrightarrow> k \<in> fst ` set b' \<Longrightarrow> \<not> starts_with p k"
  using gone [of p b n b'] by (simp add: outside_def keep_keys)

lemma spared:
  assumes "delete p b = (r, b')" and "\<not> starts_with p k"
  shows "map_of b' k = map_of b k"
proof -
  have "map_of (outside p x) k = map_of x k" for x
    unfolding outside_def by (rule keep_map_of) (rule assms(2))
  then show ?thesis using others [OF assms(1)] by metis
qed

end

lemma foldl_delete_object: "foldl (\<lambda>b k. delete_object k b) b ks = keep (\<lambda>k. k \<notin> set ks) b"
proof (induction ks arbitrary: b)
  case (Cons a ks)
  then show ?case by (simp add: delete_object_def keep_keep) (rule keep_cong, auto)
qed (simp add: keep_def)

lemma local_delete_prefix_exact:
  "local_delete_prefix p b = (Inr (length (list_keys p b)), outside p b)"
  unfolding local_delete_prefix_def foldl_delete_object outside_def
  by (simp, rule keep_cong) (simp add: in_list_keys)

text \<open>What the S3 batches leave behind, whichever call raises and whatever the server refuses.\<close>

lemma s3_batches_exact:
  assumes "s3_batches call_fails refused i keys deleted b = (r, b')"
  shows "\<exists>D \<subseteq> set keys. b' = keep (\<lambda>k. k \<notin> D \<or> refused k) b
    \<and> (\<forall>n. r = Inr n \<longrightarrow> D = set keys \<and> n = deleted + length keys)"
  using assms
proof (induction call_fails refused i keys deleted b arbitrary: r b' rule: s3_batches.induct)
  case (1 call_fails refused i keys deleted b)
  let ?batch = "take S3_BATCH keys" and ?rest = "drop S3_BATCH keys"
  have all: "set keys = set ?batch \<union> set ?rest" by (metis append_take_drop_id set_append)
  have none: "keep (\<lambda>k. k \<notin> {} \<or> refused k) b = b" by (simp add: keep_def)
  show ?case
  proof (cases "keys = [] \<or> call_fails i")
    case True
    then have "b' = b" and "keys = [] \<or> r = Inl StorageDeleteFailed" and "keys = [] \<Longrightarrow> r = Inr deleted"
      using 1(2) by (subst (asm) s3_batches.simps, simp split: if_splits)+
    with none show ?thesis by (intro exI [where x = "{}"]) auto
  next
    case False
    then have "s3_batches call_fails refused (Suc i) ?rest (deleted + length ?batch)
        (keep (\<lambda>k. k \<notin> set ?batch \<or> refused k) b) = (r, b')"
      using 1(2) by (subst (asm) s3_batches.simps) simp
    then have "\<exists>D \<subseteq> set ?rest. b' = keep (\<lambda>k. k \<notin> D \<or> refused k) (keep (\<lambda>k. k \<notin> set ?batch \<or> refused k) b)
        \<and> (\<forall>n. r = Inr n \<longrightarrow> D = set ?rest \<and> n = deleted + length ?batch + length ?rest)"
      using False by (intro 1(1)) auto
    then obtain D where D: "D \<subseteq> set ?rest"
        "b' = keep (\<lambda>k. k \<notin> D \<or> refused k) (keep (\<lambda>k. k \<notin> set ?batch \<or> refused k) b)"
        "\<forall>n. r = Inr n \<longrightarrow> D = set ?rest \<and> n = deleted + length ?batch + length ?rest" by blast
    have "b' = keep (\<lambda>k. k \<notin> set ?batch \<union> D \<or> refused k) b"
      unfolding D(2) keep_keep by (rule keep_cong) auto
    moreover have "length ?batch + length ?rest = length keys" by simp
    ultimately show ?thesis
      using D(1,3) all by (intro exI [where x = "set ?batch \<union> D"]) (auto simp del: length_take length_drop)
  qed
qed

lemma s3_delete_prefix_cases:
  assumes "s3_delete_prefix list_fails call_fails refused p b = (r, b')"
  obtains D where "D \<subseteq> set (list_keys p b)" and "b' = keep (\<lambda>k. k \<notin> D \<or> refused k) b"
    and "\<And>n. r = Inr n \<Longrightarrow> D = set (list_keys p b) \<and> n = length (list_keys p b)"
proof (cases list_fails)
  case True
  with assms have "r = Inl StorageListFailed" "b' = b" by (simp_all add: s3_delete_prefix_def)
  then show thesis by (intro that [of "{}"]) (simp_all add: keep_def)
next
  case False
  with assms have "s3_batches call_fails refused 0 (list_keys p b) 0 b = (r, b')" by (simp add: s3_delete_prefix_def)
  from s3_batches_exact [OF this] that show thesis by auto
qed

lemma s3_delete_prefix_exact:
  assumes "s3_delete_prefix list_fails call_fails refused p b = (r, b')"
  shows "outside p b' = outside p b"
    and "r = Inr n \<Longrightarrow> b' = keep (\<lambda>k. \<not> starts_with p k \<or> refused k) b \<and> n = length (list_keys p b)"
proof -
  obtain D where D: "D \<subseteq> set (list_keys p b)" "b' = keep (\<lambda>k. k \<notin> D \<or> refused k) b"
    "\<And>n. r = Inr n \<Longrightarrow> D = set (list_keys p b) \<and> n = length (list_keys p b)"
    by (rule s3_delete_prefix_cases [OF assms]) (rule that)
  have "starts_with p k" if "k \<in> D" for k using D(1) that in_list_keys by blast
  then show "outside p b' = outside p b"
    unfolding D(2) outside_def keep_keep by (intro keep_cong) auto
  show "b' = keep (\<lambda>k. \<not> starts_with p k \<or> refused k) b \<and> n = length (list_keys p b)" if "r = Inr n"
  proof
    show "b' = keep (\<lambda>k. \<not> starts_with p k \<or> refused k) b"
      unfolding D(2) using D(3) [OF that] by (intro keep_cong) (simp add: in_list_keys)
    show "n = length (list_keys p b)" using D(3) [OF that] by simp
  qed
qed

interpretation local_store: prefix_store local_delete_prefix
  by unfold_locales (simp_all add: local_delete_prefix_exact outside_def keep_keep)

interpretation s3_store: prefix_store "s3_delete_prefix list_fails call_fails (\<lambda>_. False)" for list_fails call_fails
proof unfold_locales
  fix p b r n b'
  show "outside p b' = outside p b" if "s3_delete_prefix list_fails call_fails (\<lambda>_. False) p b = (r, b')"
    by (rule s3_delete_prefix_exact(1) [OF that])
  show "b' = outside p b" if "s3_delete_prefix list_fails call_fails (\<lambda>_. False) p b = (Inr n, b')"
    using s3_delete_prefix_exact(2) [OF that refl] by (simp add: outside_def)
qed

section \<open>What a tombstone does\<close>

lemma lifecycle_tables [simp, frame_simps]:
  "audit_rows (archive mid d) = audit_rows d"
  "grants (archive mid d) = grants d"
  "jobs (archive mid d) = jobs d"
  "matters (drop_grants mid d) = matters d"
  "jobs (drop_grants mid d) = jobs d"
  "audit_rows (drop_grants mid d) = audit_rows d"
  "matters (archive mid d) = update_where (\<lambda>m. m_id m = mid) (\<lambda>m. m\<lparr>m_status := STATUS_ARCHIVED\<rparr>) (matters d)"
  "grants (drop_grants mid d) = filter (\<lambda>g. \<not> matter_grant mid g) (grants d)"
  by (simp_all add: archive_def drop_grants_def)

definition tombstone_events :: "uuid option \<Rightarrow> string \<Rightarrow> (string \<times> json) list \<Rightarrow> bool \<Rightarrow> matter \<Rightarrow> db \<Rightarrow> audit_event list" where
  "tombstone_events actor action payload warn m d =
     (let exports = export_count_of (m_id m) d; revoked = length (filter (matter_grant (m_id m)) (grants d))
      in [deleted_event action actor m exports payload]
         @ (if warn \<and> exports = 0 then [warning_event actor m] else [])
         @ (if revoked > 0 then [revoked_event actor m revoked] else []))"

lemma stamp_same_clock: "stamp (audit_log e s) = stamp s" "stamp (on_working f s) = stamp s"
  by (simp_all add: stamp_def fun_eq_iff)

lemma tombstone_rows_exact:
  assumes "tombstone_rows m actor action payload warn (export_count_of (m_id m) (working s)) s = (n, s')"
  shows "durable s' = durable s" and "clock s' = clock s"
    and "audit_rows (working s') = audit_rows (working s) @ map (stamp s) (tombstone_events actor action payload warn m (working s))"
    and "matters (working s') = update_where (\<lambda>x. m_id x = m_id m) (\<lambda>x. x\<lparr>m_status := STATUS_ARCHIVED\<rparr>) (matters (working s))"
    and "grants (working s') = filter (\<lambda>g. \<not> matter_grant (m_id m) g) (grants (working s))"
    and "jobs (working s') = jobs (working s)"
    and "n = length (filter (matter_grant (m_id m)) (grants (working s)))"
proof -
  define w where "w = (warn \<and> export_count_of (m_id m) (working s) = 0)"
  define v where "v = (0 < length (filter (matter_grant (m_id m)) (grants (working s))))"
  note run = assms [unfolded tombstone_rows_def Let_def, folded w_def]
  show "durable s' = durable s" and "clock s' = clock s"
    and "matters (working s') = update_where (\<lambda>x. m_id x = m_id m) (\<lambda>x. x\<lparr>m_status := STATUS_ARCHIVED\<rparr>) (matters (working s))"
    and "grants (working s') = filter (\<lambda>g. \<not> matter_grant (m_id m) g) (grants (working s))"
    and "jobs (working s') = jobs (working s)"
    and "n = length (filter (matter_grant (m_id m)) (grants (working s)))"
    using run by (auto split: if_splits)
  show "audit_rows (working s') = audit_rows (working s) @ map (stamp s) (tombstone_events actor action payload warn m (working s))"
    using run unfolding tombstone_events_def Let_def w_def [symmetric] v_def [symmetric]
    by (cases w; cases v) (auto simp: stamp_same_clock v_def)
qed

lemma tombstone_cases:
  assumes "tombstone_matter delete m actor action payload warn (b, s) = (r, b', s')"
  obtains (active) "0 < active_job_count (m_id m) (working s)" "r = Inl (MatterHasActiveJobs (active_job_count (m_id m) (working s)))"
      "b' = b" "s' = s"
    | (storage) e where "active_job_count (m_id m) (working s) \<le> 0" "delete (Artifacts.matter_prefix (m_created_by_id m) (m_id m)) b = (Inl e, b')"
      "r = Inl (StorageDelete e)" "s' = s"
    | (gone) n res where "active_job_count (m_id m) (working s) \<le> 0" "delete (Artifacts.matter_prefix (m_created_by_id m) (m_id m)) b = (Inr n, b')"
      "r = Inr res" "durable s' = durable s" "clock s' = clock s"
      "audit_rows (working s') = audit_rows (working s) @ map (stamp s) (tombstone_events actor action payload warn m (working s))"
      "matters (working s') = update_where (\<lambda>x. m_id x = m_id m) (\<lambda>x. x\<lparr>m_status := STATUS_ARCHIVED\<rparr>) (matters (working s))"
      "grants (working s') = filter (\<lambda>g. \<not> matter_grant (m_id m) g) (grants (working s))"
      "jobs (working s') = jobs (working s)"
proof (cases "0 < active_job_count (m_id m) (working s)")
  case True
  then show thesis using assms by (intro active) (auto simp: tombstone_matter_def Let_def)
next
  case False
  obtain q b1 where q: "delete (Artifacts.matter_prefix (m_created_by_id m) (m_id m)) b = (q, b1)" by fastforce
  show thesis
  proof (cases q)
    case (Inl e)
    with assms False q show thesis by (intro storage [of e]) (simp_all add: tombstone_matter_def Let_def)
  next
    case (Inr n)
    obtain k s1 where k: "tombstone_rows m actor action payload warn (export_count_of (m_id m) (working s)) s = (k, s1)"
      by fastforce
    have "tombstone_matter delete m actor action payload warn (b, s)
        = (Inr \<lparr>tr_export_count = export_count_of (m_id m) (working s), tr_had_export = export_count_of (m_id m) (working s) > 0,
            tr_grants_revoked = k\<rparr>, b1, s1)"
      using False by (simp add: tombstone_matter_def Let_def q Inr k)
    then have e: "b' = b1" "s' = s1" "\<exists>res. r = Inr res" using assms by simp_all
    from e(3) obtain res where "r = Inr res" by blast
    moreover from q Inr e(1) have "delete (Artifacts.matter_prefix (m_created_by_id m) (m_id m)) b = (Inr n, b')" by simp
    ultimately show thesis
      using False tombstone_rows_exact [OF k] unfolding e(2) [symmetric] by (intro gone) simp_all
  qed
qed

lemma s3_never_raises: "\<exists>n b'. s3_delete_prefix False (\<lambda>_. False) refused p b = (Inr n, b')"
proof -
  have "\<exists>n b'. s3_batches (\<lambda>_. False) refused i keys deleted b = (Inr n, b')" for i keys deleted b
  proof (induction "\<lambda>_ :: nat. False" refused i keys deleted b rule: s3_batches.induct)
    case (1 refused i keys deleted b)
    then show ?case by (subst s3_batches.simps) auto
  qed
  then show ?thesis by (simp add: s3_delete_prefix_def)
qed

lemma archived_everywhere:
  assumes "x \<in> set (update_where (\<lambda>x. m_id x = i) (\<lambda>x. x\<lparr>m_status := STATUS_ARCHIVED\<rparr>) ms)" and "m_id x = i"
  shows "m_status x = STATUS_ARCHIVED"
proof -
  from assms(1) obtain y where "y \<in> set ms" and "x = (if m_id y = i then y\<lparr>m_status := STATUS_ARCHIVED\<rparr> else y)"
    unfolding update_where_def by auto
  with assms(2) show ?thesis by (cases "m_id y = i") simp_all
qed

lemma granted_without_matter:
  assumes "grants d' = filter (\<lambda>g. \<not> matter_grant i g) (grants d)"
  shows "granted_at user plugin skill cap mid d' \<longleftrightarrow> mid \<noteq> Some i \<and> granted_at user plugin skill cap mid d"
  unfolding granted_at_def assms
  by (cases mid) (auto simp: list_ex_iff matter_grant_def)

text \<open>What the route does with the outcome of the tombstone.\<close>

lemma delete_matter_cases:
  assumes "delete_matter delete slug u (b, open_session d t) = (r, b', s')"
  obtains (missing) "r = Inl (MatterNotFound slug)" "b' = b" "durable s' = d" "working s' = d"
      "\<And>m. find (\<lambda>m. m_slug m = slug \<and> m_created_by_id m = u) (matters d) = Some m \<Longrightarrow> m_status m = STATUS_ARCHIVED"
    | (found) m r1 s1 where "find (\<lambda>m. m_slug m = slug \<and> m_created_by_id m = u) (matters d) = Some m"
      "m_status m \<noteq> STATUS_ARCHIVED"
      "tombstone_matter delete m (Some u) ''matter.deleted'' [] True (b, open_session d t) = (r1, b', s1)"
      "(\<exists>e. r1 = Inl e \<and> r = Inl e \<and> s' = rollback s1) \<or> (\<exists>res. r1 = Inr res \<and> r = Inr () \<and> s' = commit s1)"
proof (cases "find (\<lambda>m. m_slug m = slug \<and> m_created_by_id m = u) (matters d)")
  case None
  with assms show thesis by (intro missing) (auto simp: delete_matter_def open_session_def)
next
  case (Some m)
  have f: "find (\<lambda>m. m_slug m = slug \<and> m_created_by_id m = u) (matters (working (open_session d t))) = Some m"
    using Some by (simp add: open_session_def)
  show thesis
  proof (cases "m_status m = STATUS_ARCHIVED")
    case True
    with assms f Some show thesis by (intro missing) (auto simp: delete_matter_def open_session_def)
  next
    case False
    obtain r1 b1 s1 where t: "tombstone_matter delete m (Some u) ''matter.deleted'' [] True (b, open_session d t) = (r1, b1, s1)"
      by (metis prod.collapse)
    have "(r, b', s') = (case r1 of Inl e \<Rightarrow> (Inl e, b1, rollback s1) | Inr _ \<Rightarrow> (Inr (), b1, commit s1))"
      unfolding assms [symmetric] by (cases r1) (simp_all add: delete_matter_def f False t)
    then show thesis using t by (intro found [OF Some False, of r1 s1]) (auto split: sum.splits)
  qed
qed

section \<open>Properties\<close>


text \<open>The deletion fails closed, whatever the storage backend: when the route answers with an error
  the database is the one before the request, no object is gone unless storage itself failed,
  and the error says why - the owner has no open matter of that slug, or jobs of the matter are
  active.\<close>

theorem deletion_fails_closed:
  assumes "delete_matter delete slug u (b, open_session d t) = (Inl e, b', s')"
    and "distinct (map (\<lambda>m. (m_created_by_id m, m_slug m)) (matters d))"
  shows "durable s' = d \<and> working s' = d \<and> (b' = b \<or> (\<exists>se. e = StorageDelete se))
    \<and> (case e of MatterNotFound sl \<Rightarrow> sl = slug \<and> resolve_owned_open_matter slug u d = None
       | MatterHasActiveJobs n \<Rightarrow> (\<exists>m. resolve_owned_open_matter slug u d = Some m \<and> n = active_job_count (m_id m) d \<and> 0 < n)
       | StorageDelete se \<Rightarrow> (\<exists>m. resolve_owned_open_matter slug u d = Some m
           \<and> delete (Artifacts.matter_prefix u (m_id m)) b = (Inl se, b')))"
proof -
  have uniq: "x = y" if "x \<in> set (matters d)" "y \<in> set (matters d)" "m_slug x = m_slug y" "m_created_by_id x = m_created_by_id y" for x y
    using assms(2) that by (auto simp: distinct_map inj_on_def)
  from assms(1) show ?thesis
  proof (cases rule: delete_matter_cases)
    case missing
    have "resolve_owned_open_matter slug u d = None"
    proof (rule ccontr)
      assume "resolve_owned_open_matter slug u d \<noteq> None"
      then obtain x where x: "x \<in> set (matters d)" "m_slug x = slug" "m_created_by_id x = u" "m_status x \<noteq> STATUS_ARCHIVED"
        unfolding resolve_owned_open_matter_def using find_SomeD by fastforce
      have "find (\<lambda>m. m_slug m = slug \<and> m_created_by_id m = u) (matters d) = Some x"
        by (rule find_unique) (use x uniq in auto)
      with missing(5) x(4) show False by blast
    qed
    with missing show ?thesis by simp
  next
    case (found m r1 s1)
    from found(4) have r1: "r1 = Inl e" and s': "s' = rollback s1" by auto
    from found(1) have m: "m \<in> set (matters d)" "m_slug m = slug" "m_created_by_id m = u"
      using find_SomeD by fastforce+
    have res: "resolve_owned_open_matter slug u d = Some m"
      unfolding resolve_owned_open_matter_def by (rule find_unique) (use m found(2) uniq in auto)
    from found(3) [unfolded r1] show ?thesis
    proof (cases rule: tombstone_cases)
      case active
      with res m s' show ?thesis by (simp add: open_session_def)
    next
      case (storage se)
      with res m s' show ?thesis by (simp add: open_session_def)
    qed simp
  qed
qed

definition sample_matter_row :: "uuid \<Rightarrow> date option \<Rightarrow> matter" where
  "sample_matter_row i until = \<lparr>m_id = i, m_slug = i, m_title = ''Claim'', m_status = ''open'',
     m_privilege_posture = ''B_mixed'', m_created_by_id = ''u'', m_retention_until = until, m_default_model_id = ''stub-echo'',
     m_matter_type = ''employment_tribunal'', m_cause = None, m_case_theory = None,
     m_pivot_fact = None, m_facts = JObj [], m_opened_at = 0, m_closed_at = None\<rparr>"

definition sample_job :: "uuid \<Rightarrow> uuid \<Rightarrow> job" where
  "sample_job i mid = new_job i mid ''u'' ''export'' (JObj [])"

definition two_objects :: bucket where
  "two_objects = [(''users/u/matters/a/documents/d/x'', ''1''), (''users/u/matters/b/documents/e/y'', ''2'')]"

definition one_matter :: db where
  "one_matter = empty_db\<lparr>matters := [sample_matter_row ''a'' None]\<rparr>"

lemma delete_one_matter:
  "fst (delete_matter (s3_delete_prefix False (\<lambda>_. False) (\<lambda>_. False)) ''a'' ''u'' (two_objects, open_session one_matter 5)) = Inr ()"
  by (simp add: delete_matter_def open_session_def one_matter_def empty_db_def sample_matter_row_def STATUS_ARCHIVED_def
      tombstone_matter_def active_job_count_def s3_delete_prefix_def list_keys_def two_objects_def
      Artifacts.matter_prefix_def s3_batches.simps S3_BATCH_def Let_def split_def)


theorem deletion_fails_closed_witness:
  "\<exists>s'. delete_matter (\<lambda>_ b. (Inl StorageDeleteFailed, b)) ''a'' ''u'' (two_objects, open_session one_matter 5)
      = (Inl (StorageDelete StorageDeleteFailed), two_objects, s') \<and> durable s' = one_matter"
proof -
  obtain s' where run: "delete_matter (\<lambda>_ b. (Inl StorageDeleteFailed, b)) ''a'' ''u'' (two_objects, open_session one_matter 5)
      = (Inl (StorageDelete StorageDeleteFailed), two_objects, s')"
    by (simp add: delete_matter_def open_session_def one_matter_def empty_db_def sample_matter_row_def STATUS_ARCHIVED_def
      tombstone_matter_def active_job_count_def Let_def)
  with deletion_fails_closed [OF run] show ?thesis by (simp add: one_matter_def)
qed

text \<open>A refusal passes as success: the answer to a batch call lists the keys the server did not
  delete, and the code does not look at it. Whatever it refuses, the route answers 204 and the
  matter is archived, with every refused object still in the bucket and no open matter left
  through which to delete it.\<close>

theorem refused_objects_survive:
  assumes "resolve_owned_open_matter slug u d = Some m" and "active_job_count (m_id m) d \<le> 0"
    and "distinct (map (\<lambda>m. (m_created_by_id m, m_slug m)) (matters d))"
  shows "\<exists>b' s'. delete_matter (s3_delete_prefix False (\<lambda>_. False) refused) slug u (b, open_session d t) = (Inr (), b', s')
    \<and> (\<forall>k \<in> fst ` set b. refused k \<longrightarrow> k \<in> fst ` set b')
    \<and> (\<forall>v slug' x. resolve_owned_open_matter slug' v (durable s') = Some x \<longrightarrow> m_id x \<noteq> m_id m)"
proof -
  let ?del = "s3_delete_prefix False (\<lambda>_. False) refused"
  from assms(1) have m: "m \<in> set (matters d)" "m_slug m = slug" "m_created_by_id m = u" "m_status m \<noteq> STATUS_ARCHIVED"
    unfolding resolve_owned_open_matter_def using find_SomeD by fastforce+
  have f: "find (\<lambda>m. m_slug m = slug \<and> m_created_by_id m = u) (matters d) = Some m"
    using m(1-3) assms(3) by (intro find_unique) (auto simp: distinct_map inj_on_def)
  obtain r b' s' where run: "delete_matter ?del slug u (b, open_session d t) = (r, b', s')" by (metis prod.collapse)
  then show ?thesis
  proof (cases rule: delete_matter_cases)
    case missing
    from missing(5) [OF f] m(4) show ?thesis by simp
  next
    case (found m' r1 s1)
    from found(1) f have m': "m' = m" by simp
    have w: "working (open_session d t) = d" by (simp add: open_session_def)
    from found(3) show ?thesis
    proof (cases rule: tombstone_cases)
      case active
      with assms(2) w m' show ?thesis by simp
    next
      case (storage e)
      with s3_never_raises [of refused "Artifacts.matter_prefix (m_created_by_id m') (m_id m')" b] show ?thesis by simp
    next
      case (gone n res)
      have s': "r = Inr ()" "s' = commit s1" using found(4) gone(3) by auto
      have "b' = keep (\<lambda>k. \<not> starts_with (Artifacts.matter_prefix (m_created_by_id m') (m_id m')) k \<or> refused k) b"
        using s3_delete_prefix_exact(2) [OF gone(2) refl] by simp
      then have "\<forall>k \<in> fst ` set b. refused k \<longrightarrow> k \<in> fst ` set b'" by (simp add: keep_keys)
      moreover have "m_status x = STATUS_ARCHIVED" if "x \<in> set (matters (working s1))" "m_id x = m_id m" for x
        using that unfolding gone(7) m' by (rule archived_everywhere)
      then have "resolve_owned_open_matter slug' v (durable s') = Some x \<longrightarrow> m_id x \<noteq> m_id m" for slug' v x
        unfolding resolve_owned_open_matter_def s' using find_SomeD by fastforce
      ultimately show ?thesis using run s'(1) by blast
    qed
  qed
qed

theorem refused_objects_survive_witness:
  "\<exists>b' s'. delete_matter (s3_delete_prefix False (\<lambda>_. False) (\<lambda>_. True)) ''a'' ''u'' (two_objects, open_session one_matter 5) = (Inr (), b', s')
     \<and> ''users/u/matters/a/documents/d/x'' \<in> fst ` set b'"
proof -
  have "resolve_owned_open_matter ''a'' ''u'' one_matter = Some (sample_matter_row ''a'' None)"
    "active_job_count (m_id (sample_matter_row ''a'' None)) one_matter \<le> 0"
    "distinct (map (\<lambda>m. (m_created_by_id m, m_slug m)) (matters one_matter))"
    by (simp_all add: resolve_owned_open_matter_def one_matter_def empty_db_def sample_matter_row_def STATUS_ARCHIVED_def
        active_job_count_def)
  from refused_objects_survive [OF this, of "\<lambda>_. True" two_objects 5]
  show ?thesis by (elim ex_forward conjE) (simp add: two_objects_def)
qed

subsection \<open>Sweeps\<close>

definition storage_total :: "(string \<Rightarrow> 'b \<Rightarrow> (storage_error + nat) \<times> 'b) \<Rightarrow> bool" where
  "storage_total delete \<longleftrightarrow> (\<forall>p b. \<exists>n b'. delete p b = (Inr n, b'))"

definition all_expired :: "date \<Rightarrow> db \<Rightarrow> matter list" where
  "all_expired today d = select_expired today None d"

lemma select_is_take: "select_expired today (Some n) d = take n (all_expired today d)"
  by (simp add: all_expired_def select_expired_def take_limit_def)

lemma all_expired_set: "set (all_expired today d) = {m \<in> set (matters d). expired today m}"
  by (auto simp: all_expired_def select_expired_def take_limit_def)

lemma all_expired_distinct: "distinct (map m_id (matters d)) \<Longrightarrow> distinct (map m_id (all_expired today d))"
  by (auto simp: all_expired_def select_expired_def take_limit_def distinct_map inj_on_def)

lemma expired_after_archive:
  assumes "matters d' = update_where (\<lambda>x. m_id x = i) (\<lambda>x. x\<lparr>m_status := STATUS_ARCHIVED\<rparr>) (matters d)"
  shows "all_expired today d' = filter (\<lambda>x. m_id x \<noteq> i) (all_expired today d)"
proof -
  have "filter (expired today) (update_where (\<lambda>x. m_id x = i) (\<lambda>x. x\<lparr>m_status := STATUS_ARCHIVED\<rparr>) ms)
      = filter (\<lambda>x. m_id x \<noteq> i) (filter (expired today) ms)" for ms
    by (induction ms) (auto simp: expired_def split: option.splits)
  then show ?thesis
    unfolding all_expired_def select_expired_def take_limit_def by (simp add: assms filter_sort)
qed

text \<open>A matter without active jobs is purged when storage does not fail; one with active jobs is not.\<close>

lemma purge_step:
  assumes "active_job_count (m_id m) (working s) \<le> 0" and "storage_total delete"
  obtains res b' s' where "tombstone_matter delete m a act pl w (b, s) = (Inr res, b', s')"
    and "all_expired today (working s') = filter (\<lambda>x. m_id x \<noteq> m_id m) (all_expired today (working s))"
    and "jobs (working s') = jobs (working s)" and "clock s' = clock s"
proof -
  obtain r b' s' where run: "tombstone_matter delete m a act pl w (b, s) = (r, b', s')" by (metis prod.collapse)
  then show thesis
  proof (cases rule: tombstone_cases)
    case active
    with assms(1) show thesis by simp
  next
    case (storage e)
    with assms(2) show thesis unfolding storage_total_def by (metis prod.inject Inl_Inr_False)
  next
    case (gone n res)
    show thesis by (rule that [OF run [unfolded gone(3)] expired_after_archive [OF gone(7)] gone(9,5)])
  qed
qed

lemma stuck_step:
  assumes "0 < active_job_count (m_id m) (working s)"
  shows "tombstone_matter delete m a act pl w (b, s) = (Inl (MatterHasActiveJobs (active_job_count (m_id m) (working s))), b, s)"
  using assms by (simp add: tombstone_matter_def Let_def)

lemma active_count_jobs: "jobs d' = jobs d \<Longrightarrow> active_job_count i d' = active_job_count i d"
  by (simp add: active_job_count_def)

lemma loop_purges:
  assumes "\<forall>m \<in> set ms. active_job_count (m_id m) (working s) \<le> 0" and "storage_total delete" and "durable s = working s"
  shows "\<exists>b' s'. sweep_loop expires delete (ms @ rest) (p, 0) (b, s) = sweep_loop expires delete rest (p + length ms, 0) (b', s')
    \<and> all_expired today (working s') = filter (\<lambda>x. m_id x \<notin> m_id ` set ms) (all_expired today (working s))
    \<and> jobs (working s') = jobs (working s) \<and> durable s' = working s'"
  using assms
proof (induction ms arbitrary: p b s)
  case Nil
  then show ?case by auto
next
  case (Cons m ms)
  from Cons.prems(1) have z: "active_job_count (m_id m) (working s) \<le> 0" by simp
  obtain res b1 s1 where t: "tombstone_matter delete m None ''matter.retention.purged'' (sweep_payload m) True (b, s) = (Inr res, b1, s1)"
    and e: "all_expired today (working s1) = filter (\<lambda>x. m_id x \<noteq> m_id m) (all_expired today (working s))"
    and j: "jobs (working s1) = jobs (working s)"
    by (rule purge_step [OF z Cons.prems(2), where a = None and act = "''matter.retention.purged''" and pl = "sweep_payload m"
          and w = True and b = b and today = today]) (rule that)
  have "\<forall>x \<in> set ms. active_job_count (m_id x) (working (commit s1)) \<le> 0"
    using Cons.prems(1) active_count_jobs [OF j] by simp
  from Cons.IH [OF this Cons.prems(2), of "Suc p" b1] obtain b' s' where
    "sweep_loop expires delete (ms @ rest) (Suc p, 0) (b1, commit s1) = sweep_loop expires delete rest (Suc p + length ms, 0) (b', s')"
    "all_expired today (working s') = filter (\<lambda>x. m_id x \<notin> m_id ` set ms) (all_expired today (working s1))"
    "jobs (working s') = jobs (working s1)" "durable s' = working s'" by auto
  then show ?case
    using t e j by (intro exI [where x = b'] exI [where x = s']) (auto intro: filter_cong)
qed

lemma filter_drop_ids:
  assumes "distinct (map f xs)"
  shows "filter (\<lambda>x. f x \<notin> f ` set (take n xs)) xs = drop n xs"
proof -
  have "filter (\<lambda>x. f x \<notin> f ` set (take n xs)) (take n xs) = []" by (simp add: filter_empty_conv)
  moreover have "filter (\<lambda>x. f x \<notin> f ` set (take n xs)) (drop n xs) = drop n xs"
  proof (rule filter_True, rule ballI)
    fix x
    assume "x \<in> set (drop n xs)"
    moreover have "distinct (map f (take n xs) @ map f (drop n xs))"
      using assms by (metis append_take_drop_id map_append)
    ultimately show "f x \<notin> f ` set (take n xs)" by auto
  qed
  ultimately show ?thesis by (metis append_Nil append_take_drop_id filter_append)
qed

text \<open>The daily runs of the sweep with a limit.\<close>

fun sweeps ::
  "bool \<Rightarrow> (string \<Rightarrow> 'b \<Rightarrow> (storage_error + nat) \<times> 'b) \<Rightarrow> date \<Rightarrow> nat \<Rightarrow> nat \<Rightarrow> 'b \<times> session \<Rightarrow> 'b \<times> session" where
  "sweeps expires delete today n 0 bs = bs"
| "sweeps expires delete today n (Suc k) bs = sweeps expires delete today n k (snd (sweep expires delete True today (Some n) bs))"

lemma sweep_purges:
  assumes "\<forall>m \<in> set (all_expired today (working s)). active_job_count (m_id m) (working s) \<le> 0" and "storage_total delete"
    and "durable s = working s" and "distinct (map m_id (all_expired today (working s)))"
  shows "\<exists>b' s'. sweep expires delete True today (Some n) (b, s) = (EXIT_OK, b', s')
    \<and> all_expired today (working s') = drop n (all_expired today (working s))
    \<and> jobs (working s') = jobs (working s) \<and> durable s' = working s'"
proof (cases "select_expired today (Some n) (working s) = []")
  case True
  then have "drop n (all_expired today (working s)) = all_expired today (working s)" by (auto simp: select_is_take)
  with True assms(3) show ?thesis by (simp add: sweep_def)
next
  case False
  let ?ms = "take n (all_expired today (working s))"
  have "\<forall>m \<in> set ?ms. active_job_count (m_id m) (working s) \<le> 0" using assms(1) by (auto dest: in_set_takeD)
  from loop_purges [OF this assms(2,3), of expires "[]" 0 b today] obtain b' s' where
    "sweep_loop expires delete ?ms (0, 0) (b, s) = (Some (length ?ms, 0), b', s')"
    "all_expired today (working s') = drop n (all_expired today (working s))"
    "jobs (working s') = jobs (working s)" "durable s' = working s'"
    using filter_drop_ids [OF assms(4), of n] by auto
  with False show ?thesis by (auto simp: sweep_def select_is_take)
qed

lemma sweeps_purge:
  assumes "\<forall>m \<in> set (all_expired today (working s)). active_job_count (m_id m) (working s) \<le> 0" and "storage_total delete"
    and "durable s = working s" and "distinct (map m_id (all_expired today (working s)))"
  shows "all_expired today (working (snd (sweeps expires delete today n k (b, s)))) = drop (k * n) (all_expired today (working s))"
  using assms
proof (induction k arbitrary: b s)
  case (Suc k)
  obtain b' s' where r: "sweep expires delete True today (Some n) (b, s) = (EXIT_OK, b', s')"
    and e: "all_expired today (working s') = drop n (all_expired today (working s))"
    and j: "jobs (working s') = jobs (working s)" and d: "durable s' = working s'"
    using sweep_purges [OF Suc.prems, of expires n b] by blast
  have "\<forall>m \<in> set (all_expired today (working s')). active_job_count (m_id m) (working s') \<le> 0"
    using Suc.prems(1) active_count_jobs [OF j] by (auto simp: e dest: in_set_dropD)
  moreover have "distinct (map m_id (all_expired today (working s')))"
    using Suc.prems(4) by (simp add: e drop_map [symmetric])
  ultimately have "all_expired today (working (snd (sweeps expires delete today n k (b', s')))) = drop (k * n) (all_expired today (working s'))"
    by (intro Suc.IH) (simp_all add: Suc.prems(2) d)
  then show ?case by (simp add: r e add.commute)
qed simp

text \<open>C18. The sweep gets there: with a limit of \<open>n\<close> matters a run, when none of the matters past their
  retention date has active jobs and storage does not fail, \<open>k\<close> runs leave exactly the expired
  matters after the first \<open>k * n\<close>, longest-lapsed first, so \<open>k\<close> runs with \<open>k * n\<close> at least their
  number leave none - whatever an expired row does on a read.\<close>

theorem sweeps_purge_everything:
  assumes "\<forall>m \<in> set (matters d). expired today m \<longrightarrow> active_job_count (m_id m) d \<le> 0"
    and "storage_total delete" and "distinct (map m_id (matters d))"
  shows "select_expired today None (working (snd (sweeps expires delete today n k (b, open_session d t))))
      = drop (k * n) (select_expired today None d)
    \<and> (length (select_expired today None d) \<le> k * n \<longrightarrow>
        (\<forall>m \<in> set (matters (working (snd (sweeps expires delete today n k (b, open_session d t))))). \<not> expired today m))"
proof -
  have w: "working (open_session d t) = d" "durable (open_session d t) = d" by (simp_all add: open_session_def)
  have "\<forall>m \<in> set (all_expired today d). active_job_count (m_id m) d \<le> 0"
    using assms(1) by (simp add: all_expired_set)
  with sweeps_purge [of today "open_session d t" delete expires n k b, unfolded w] all_expired_distinct [OF assms(3)] assms(2)
  have e: "all_expired today (working (snd (sweeps expires delete today n k (b, open_session d t)))) = drop (k * n) (all_expired today d)"
    by simp
  moreover have "\<not> expired today m" if "length (all_expired today d) \<le> k * n"
    and "m \<in> set (matters (working (snd (sweeps expires delete today n k (b, open_session d t)))))" for m
  proof -
    from e that(1) have "all_expired today (working (snd (sweeps expires delete today n k (b, open_session d t)))) = []" by simp
    then show ?thesis
      using all_expired_set [of today "working (snd (sweeps expires delete today n k (b, open_session d t)))"] that(2) by auto
  qed
  ultimately show ?thesis unfolding all_expired_def by blast
qed

definition lapsed :: db where
  "lapsed = empty_db\<lparr>matters := [sample_matter_row ''a'' (Some (2024, 5, 1)), sample_matter_row ''b'' (Some (2023, 5, 1)),
     sample_matter_row ''c'' None]\<rparr>"

lemma lapsed_expired:
  "select_expired (2025, 1, 1) None lapsed = [sample_matter_row ''b'' (Some (2023, 5, 1)), sample_matter_row ''a'' (Some (2024, 5, 1))]"
  by (simp add: select_expired_def lapsed_def expired_def sample_matter_row_def STATUS_ARCHIVED_def date_key_def take_limit_def)

theorem sweeps_purge_everything_witness:
  "select_expired (2025, 1, 1) None (working (snd (sweeps True local_delete_prefix (2025, 1, 1) 1 1 (two_objects, open_session lapsed 0))))
     = [sample_matter_row ''a'' (Some (2024, 5, 1))]
   \<and> filter (expired (2025, 1, 1))
        (matters (working (snd (sweeps True local_delete_prefix (2025, 1, 1) 1 2 (two_objects, open_session lapsed 0))))) = []"
proof -
  have "\<forall>m \<in> set (matters lapsed). expired (2025, 1, 1) m \<longrightarrow> active_job_count (m_id m) lapsed \<le> 0"
    by (simp add: lapsed_def empty_db_def active_job_count_def)
  moreover have "storage_total local_delete_prefix"
    by (simp add: storage_total_def local_delete_prefix_exact)
  moreover have "distinct (map m_id (matters lapsed))" by (simp add: lapsed_def sample_matter_row_def)
  ultimately show ?thesis
    using sweeps_purge_everything [of lapsed "(2025, 1, 1)" local_delete_prefix True 1 1 two_objects 0]
      sweeps_purge_everything [of lapsed "(2025, 1, 1)" local_delete_prefix True 1 2 two_objects 0]
    by (simp add: lapsed_expired filter_empty_conv)
qed

text \<open>C22. A matter that cannot be purged holds up the rest. The sweep with a limit of \<open>n\<close> selects the
  longest-lapsed matters whether or not they can be purged: while those have active jobs, run
  after run changes nothing and ends in an error, however many other matters are past their
  date. And without a limit, the first failure ends the run: the rows a rollback expires cannot be
  read, so none of the matters behind it is purged.\<close>

theorem stuck_matters_hold_up_the_sweep:
  assumes "\<forall>m \<in> set (take n (select_expired today None d)). 0 < active_job_count (m_id m) d"
    and "select_expired today None d = before @ stuck # behind" and "behind \<noteq> []"
    and "\<forall>m \<in> set before. active_job_count (m_id m) d \<le> 0" and "0 < active_job_count (m_id stuck) d"
    and "storage_total delete" and "distinct (map m_id (matters d))"
  shows "sweeps expires delete today n k (b, open_session d t) = (b, open_session d t)
    \<and> (0 < n \<longrightarrow> fst (sweep expires delete True today (Some n) (b, open_session d t)) \<noteq> EXIT_OK)
    \<and> fst (sweep True delete True today None (b, open_session d t)) = EXIT_FAIL
    \<and> select_expired today None (working (snd (snd (sweep True delete True today None (b, open_session d t))))) = stuck # behind"
proof -
  let ?s = "open_session d t"
  have w: "working ?s = d" "durable ?s = d" "rollback ?s = ?s" by (simp_all add: open_session_def rollback_def)
  have ae: "select_expired today None x = all_expired today x" for x by (simp add: all_expired_def)
  have loop: "\<exists>r. sweep_loop expires delete ms (0, f) (b, ?s) = (r, b, ?s) \<and> (ms \<noteq> [] \<or> 0 < f \<longrightarrow> r = None \<or> (\<exists>p q. r = Some (p, Suc q)))"
    if "\<forall>m \<in> set ms. 0 < active_job_count (m_id m) d" for ms f
    using that
  proof (induction ms arbitrary: f)
    case Nil
    then show ?case by (cases f) auto
  next
    case (Cons m ms)
    have st: "0 < active_job_count (m_id m) (working ?s)" using Cons.prems w by simp
    show ?case
    proof (cases "expires \<and> 0 < f")
      case True
      then show ?thesis by simp
    next
      case False
      have "sweep_loop expires delete (m # ms) (0, f) (b, ?s) = sweep_loop expires delete ms (0, Suc f) (b, ?s)"
        unfolding sweep_loop.simps if_not_P [OF False] by (simp add: stuck_step [OF st] w)
      with Cons.IH [of "Suc f"] Cons.prems show ?thesis by auto
    qed
  qed
  let ?ms = "take n (all_expired today d)"
  obtain r where r: "sweep_loop expires delete ?ms (0, 0) (b, ?s) = (r, b, ?s)" "?ms \<noteq> [] \<longrightarrow> r = None \<or> (\<exists>p q. r = Some (p, Suc q))"
    using loop [of ?ms 0] assms(1) by (auto simp: ae)
  have one: "sweep expires delete True today (Some n) (b, ?s)
      = (if ?ms = [] then EXIT_OK else case r of None \<Rightarrow> EXIT_FAIL | Some (_, f) \<Rightarrow> if f > 0 then EXIT_PARTIAL else EXIT_OK, b, ?s)"
    by (simp add: sweep_def select_is_take w r(1) Let_def split: option.split prod.split)
  then have "snd (sweep expires delete True today (Some n) (b, ?s)) = (b, ?s)" by simp
  then have "sweeps expires delete today n k (b, ?s) = (b, ?s)" by (induction k) simp_all
  moreover have "0 < n \<longrightarrow> fst (sweep expires delete True today (Some n) (b, ?s)) \<noteq> EXIT_OK"
    using r(2) assms(2) by (auto simp: one ae split: option.splits)
  moreover have "fst (sweep True delete True today None (b, ?s)) = EXIT_FAIL
      \<and> all_expired today (working (snd (snd (sweep True delete True today None (b, ?s))))) = stuck # behind"
  proof -
    have "\<forall>m \<in> set before. active_job_count (m_id m) (working ?s) \<le> 0" using assms(4) w by simp
    from loop_purges [OF this assms(6), of True "stuck # behind" 0 b today] w obtain b' s' where
      run: "sweep_loop True delete (before @ stuck # behind) (0, 0) (b, ?s) = sweep_loop True delete (stuck # behind) (length before, 0) (b', s')"
      and left: "all_expired today (working s') = filter (\<lambda>x. m_id x \<notin> m_id ` set before) (all_expired today d)"
      and j: "jobs (working s') = jobs d" and dur: "durable s' = working s'" by auto
    have st: "0 < active_job_count (m_id stuck) (working s')" using assms(5) active_count_jobs [OF j] by simp
    obtain x xs where behind: "behind = x # xs" using assms(3) by (cases behind) auto
    have roll: "rollback s' = s'" using dur by (simp add: rollback_def)
    have stop: "sweep_loop True delete (stuck # behind) (length before, 0) (b', s') = (None, b', s')"
      by (simp add: behind stuck_step [OF st] roll)
    have full: "sweep True delete True today None (b, ?s) = (EXIT_FAIL, b', s')"
      unfolding sweep_def by (simp add: w assms(2) run [unfolded stop] Let_def del: sweep_loop.simps)
    have "filter (\<lambda>x. m_id x \<notin> m_id ` set before) (all_expired today d) = stuck # behind"
      using filter_drop_ids [OF all_expired_distinct [OF assms(7), of today], of "length before"] assms(2) by (simp add: ae)
    with full left show ?thesis by simp
  qed
  ultimately show ?thesis unfolding ae by blast
qed

theorem stuck_matters_hold_up_the_sweep_witness:
  "sweeps True local_delete_prefix (2025, 1, 1) 1 7 (two_objects, open_session (lapsed\<lparr>jobs := [sample_job ''j'' ''b'']\<rparr>) 0)
     = (two_objects, open_session (lapsed\<lparr>jobs := [sample_job ''j'' ''b'']\<rparr>) 0)
   \<and> fst (sweep True local_delete_prefix True (2025, 1, 1) None (two_objects, open_session (lapsed\<lparr>jobs := [sample_job ''j'' ''b'']\<rparr>) 0)) = EXIT_FAIL"
proof -
  let ?d = "lapsed\<lparr>jobs := [sample_job ''j'' ''b'']\<rparr>"
  let ?b = "sample_matter_row ''b'' (Some (2023, 5, 1))" and ?a = "sample_matter_row ''a'' (Some (2024, 5, 1))"
  have sel: "select_expired (2025, 1, 1) None ?d = [] @ ?b # [?a]"
    using lapsed_expired by (simp add: select_expired_def)
  have stuck: "0 < active_job_count (m_id ?b) ?d"
    by (simp add: active_job_count_def sample_matter_row_def sample_job_def new_job_def JOB_ACTIVE_STATUSES_def
        BACKGROUND_JOB_KINDS_def JOB_KIND_INDEX_def)
  have "\<forall>m \<in> set (take 1 (select_expired (2025, 1, 1) None ?d)). 0 < active_job_count (m_id m) ?d"
    using stuck unfolding sel by simp
  from stuck_matters_hold_up_the_sweep [OF this sel _ _ stuck, of local_delete_prefix True 7 two_objects 0]
  show ?thesis
    by (simp add: storage_total_def local_delete_prefix_exact) (simp add: lapsed_def sample_matter_row_def)
qed

end
