(* ===== verification/Chunking.thy ===== *)
theory Chunking
  imports Prelude
begin

text \<open>
  Splitting a document body into overlapping chunks (\<open>app/core/chunking.py\<close>): the choice of a
  break and the loop that walks the text. Offsets are naturals, \<open>text[a:b]\<close> is \<open>slice a b\<close>;
  the overlap, which a caller may give as a negative number, is an integer.
\<close>

section \<open>Finding a break\<close>

definition slice :: "nat \<Rightarrow> nat \<Rightarrow> string \<Rightarrow> string" where
  "slice a b s = take (b - a) (drop a s)"

text \<open>\<open>text.rfind(pat, lo, hi)\<close>: the last occurrence inside the bounds.\<close>

definition rfind :: "string \<Rightarrow> string \<Rightarrow> nat \<Rightarrow> nat \<Rightarrow> nat option" where
  "rfind pat s lo hi =
     find (\<lambda>i. slice i (i + length pat) s = pat) (rev [lo ..< Suc (min hi (length s)) - length pat])"

text \<open>
  \<open>finditer\<close> of a sentence terminator, an optional closing quote or bracket, with white space
  behind it: the end offsets of the matches. The group is greedy, and the match is retried
  without it; matches do not overlap.
\<close>

definition sentence_terminator :: "char \<Rightarrow> bool" where
  "sentence_terminator c \<longleftrightarrow> c \<in> {CHR ''.'', CHR ''!'', CHR ''?''}"

definition closing_mark :: "char \<Rightarrow> bool" where
  "closing_mark c \<longleftrightarrow> c \<in> {CHR 0x22, CHR 0x27, CHR '')'', CHR '']''}"

fun sentence_ends :: "nat \<Rightarrow> string \<Rightarrow> nat list" where
  "sentence_ends i (c # d # e # r) =
     (if sentence_terminator c \<and> closing_mark d \<and> py_isspace e then (i + 2) # sentence_ends (i + 2) (e # r)
      else if sentence_terminator c \<and> py_isspace d then (i + 1) # sentence_ends (i + 1) (d # e # r)
      else sentence_ends (i + 1) (d # e # r))"
| "sentence_ends i [c, d] = (if sentence_terminator c \<and> py_isspace d then [i + 1] else [])"
| "sentence_ends i _ = []"

definition line_break :: char where
  "line_break = CHR 0x0A"

definition best_break :: "string \<Rightarrow> nat \<Rightarrow> nat \<Rightarrow> nat" where
  "best_break s min_break hard_end =
     (if min_break \<ge> hard_end then hard_end
      else case rfind [line_break, line_break] s min_break hard_end of
          Some i \<Rightarrow> i + 2
        | None \<Rightarrow> (case rfind [line_break] s min_break hard_end of
              Some i \<Rightarrow> i + 1
            | None \<Rightarrow> (case sentence_ends 0 (slice min_break hard_end s) of
                  [] \<Rightarrow> hard_end
                | ends \<Rightarrow> min_break + List.last ends + 1)))"

section \<open>Walking the text\<close>

record chunk =
  ch_index :: nat
  ch_text :: string
  ch_start :: nat
  ch_end :: nat

definition chunk_end :: "string \<Rightarrow> nat \<Rightarrow> nat \<Rightarrow> nat" where
  "chunk_end s target pos =
     (let hard_end = min (pos + target) (length s)
      in if hard_end \<ge> length s then length s else best_break s (pos + target div 2) hard_end)"

definition next_pos :: "nat \<Rightarrow> nat \<Rightarrow> nat \<Rightarrow> nat" where
  "next_pos overlap pos e = (if e - overlap \<le> pos then pos + 1 else e - overlap)"

function chunk_from :: "string \<Rightarrow> nat \<Rightarrow> nat \<Rightarrow> nat \<Rightarrow> nat \<Rightarrow> chunk list" where
  "chunk_from s target overlap index pos =
     (if pos < length s
      then (let e = chunk_end s target pos;
                c = \<lparr>ch_index = index, ch_text = slice pos e s, ch_start = pos, ch_end = e\<rparr>
            in if e \<ge> length s then [c]
               else c # chunk_from s target overlap (index + 1) (next_pos overlap pos e))
      else [])"
  by pat_completeness auto

termination
  by (relation "measure (\<lambda>(s, _, _, _, pos). length s - pos)") (auto simp: next_pos_def)

declare chunk_from.simps [simp del]

datatype chunk_error = TargetNotPositive

definition clamp_overlap :: "int \<Rightarrow> nat \<Rightarrow> nat" where
  "clamp_overlap overlap_chars target = nat (max 0 (min overlap_chars (int target - 1)))"

definition chunk_text :: "string \<Rightarrow> int \<Rightarrow> int \<Rightarrow> chunk_error + chunk list" where
  "chunk_text s target_chars overlap_chars =
     (if target_chars \<le> 0 then Inl TargetNotPositive
      else if py_strip s = [] then Inr []
      else if int (length s) \<le> target_chars
        then Inr [\<lparr>ch_index = 0, ch_text = s, ch_start = 0, ch_end = length s\<rparr>]
      else Inr (chunk_from s (nat target_chars) (clamp_overlap overlap_chars (nat target_chars)) 0 0))"

section \<open>A break lies inside its window\<close>

lemma rfind_bounds: "rfind pat s lo hi = Some i \<Longrightarrow> lo \<le> i \<and> i + length pat \<le> min hi (length s)"
  unfolding rfind_def by (drule find_SomeD) auto

lemma sentence_ends_bounds: "e \<in> set (sentence_ends i w) \<Longrightarrow> i < e \<and> e < i + length w"
  by (induction i w rule: sentence_ends.induct) (fastforce split: if_splits)+

lemma slice_length: "b \<le> length s \<Longrightarrow> length (slice a b s) = b - a"
  by (simp add: slice_def)

lemma best_break_bounds:
  assumes "min_break < hard_end" and "hard_end \<le> length s"
  shows "min_break < best_break s min_break hard_end \<and> best_break s min_break hard_end \<le> hard_end"
proof (cases "rfind [line_break, line_break] s min_break hard_end")
  case (Some i)
  with rfind_bounds [OF Some] assms show ?thesis by (simp add: best_break_def)
next
  case None
  note nn = this
  show ?thesis
  proof (cases "rfind [line_break] s min_break hard_end")
    case (Some i)
    with nn rfind_bounds [OF Some] assms show ?thesis by (simp add: best_break_def)
  next
    case None
    show ?thesis
    proof (cases "sentence_ends 0 (slice min_break hard_end s)")
      case Nil
      with nn None assms show ?thesis by (simp add: best_break_def)
    next
      case (Cons e es)
      have "List.last (e # es) < hard_end - min_break"
        using sentence_ends_bounds [of "List.last (e # es)" 0 "slice min_break hard_end s"] assms
          last_in_set [of "e # es"]
        by (simp add: slice_length Cons del: last.simps)
      with nn None Cons assms show ?thesis by (simp add: best_break_def del: last.simps)
    qed
  qed
qed

lemma chunk_end_bounds:
  assumes "pos < length s" and "0 < target"
  shows "pos < chunk_end s target pos \<and> chunk_end s target pos \<le> length s \<and> chunk_end s target pos \<le> pos + target"
proof (cases "pos + target \<ge> length s")
  case True
  with assms show ?thesis by (simp add: chunk_end_def)
next
  case False
  then have "pos + target div 2 < pos + target" "pos + target \<le> length s" using assms(2) by simp_all
  from best_break_bounds [OF this] False show ?thesis by (simp add: chunk_end_def Let_def)
qed

section \<open>The chunks tile the text\<close>

definition good_chunk :: "string \<Rightarrow> nat \<Rightarrow> chunk \<Rightarrow> bool" where
  "good_chunk s target c \<longleftrightarrow> ch_text c = slice (ch_start c) (ch_end c) s
     \<and> ch_start c < ch_end c \<and> ch_end c \<le> length s \<and> ch_end c - ch_start c \<le> target"

definition follows :: "nat \<Rightarrow> chunk \<Rightarrow> chunk \<Rightarrow> bool" where
  "follows overlap c d \<longleftrightarrow> ch_index d = Suc (ch_index c) \<and> ch_start c < ch_start d
     \<and> ch_start d \<le> ch_end c \<and> ch_end c - ch_start d \<le> overlap"

fun tiles :: "string \<Rightarrow> nat \<Rightarrow> nat \<Rightarrow> nat \<Rightarrow> nat \<Rightarrow> chunk list \<Rightarrow> bool" where
  "tiles s target overlap i pos [] = False"
| "tiles s target overlap i pos [c] =
     (ch_index c = i \<and> ch_start c = pos \<and> ch_end c = length s \<and> good_chunk s target c)"
| "tiles s target overlap i pos (c # d # cs) =
     (ch_index c = i \<and> ch_start c = pos \<and> good_chunk s target c \<and> follows overlap c d
      \<and> tiles s target overlap (Suc i) (ch_start d) (d # cs))"

lemma tiles_hd: "tiles s target overlap i pos (c # cs) \<Longrightarrow> ch_index c = i \<and> ch_start c = pos"
  by (cases cs) auto

lemma chunk_from_tiles:
  assumes "pos < length s" and "0 < target" and "overlap < target"
  shows "tiles s target overlap index pos (chunk_from s target overlap index pos)"
  using assms
proof (induction s target overlap index pos rule: chunk_from.induct)
  case (1 s target overlap index pos)
  let ?e = "chunk_end s target pos"
  let ?c = "\<lparr>ch_index = index, ch_text = slice pos ?e s, ch_start = pos, ch_end = ?e\<rparr>"
  note b = chunk_end_bounds [OF 1(2,3)]
  have good: "good_chunk s target ?c" using b by (simp add: good_chunk_def le_diff_conv)
  show ?case
  proof (cases "?e \<ge> length s")
    case True
    with 1(2) good b show ?thesis by (subst chunk_from.simps) (simp add: Let_def)
  next
    case False
    let ?p = "next_pos overlap pos ?e"
    have p: "pos < ?p" "?p \<le> ?e" "?e - ?p \<le> overlap" using b by (auto simp: next_pos_def)
    with False have "tiles s target overlap (index + 1) ?p (chunk_from s target overlap (index + 1) ?p)"
      using 1(1) [OF 1(2) refl refl] 1(3,4) by simp
    moreover from this obtain d ds where d: "chunk_from s target overlap (index + 1) ?p = d # ds"
      by (cases "chunk_from s target overlap (index + 1) ?p") auto
    ultimately have "follows overlap ?c d \<and> ch_start d = ?p"
      using tiles_hd p by (force simp: follows_def)
    moreover have "chunk_from s target overlap index pos = ?c # d # ds"
      using 1(2) False d by (subst chunk_from.simps) (simp add: Let_def)
    ultimately show ?thesis
      using good d \<open>tiles s target overlap (index + 1) ?p _\<close> by simp
  qed
qed

lemma tiles_chunks:
  "tiles s target overlap i pos cs \<Longrightarrow>
     (\<forall>k < length cs. good_chunk s target (cs ! k) \<and> ch_index (cs ! k) = i + k)
     \<and> (\<forall>k. Suc k < length cs \<longrightarrow> follows overlap (cs ! k) (cs ! Suc k))
     \<and> cs \<noteq> [] \<and> ch_start (cs ! 0) = pos \<and> ch_end (cs ! (length cs - 1)) = length s
     \<and> pos + length cs \<le> length s"
proof (induction s target overlap i pos cs rule: tiles.induct)
  case (2 s target overlap i pos c)
  then show ?case by (auto simp: good_chunk_def)
next
  case (3 s target overlap i pos c d cs)
  then have IH: "(\<forall>k < length (d # cs). good_chunk s target ((d # cs) ! k) \<and> ch_index ((d # cs) ! k) = Suc i + k)"
      "\<And>k. Suc k < length (d # cs) \<Longrightarrow> follows overlap ((d # cs) ! k) ((d # cs) ! Suc k)"
      "ch_end ((d # cs) ! (length (d # cs) - 1)) = length s" "ch_start d + length (d # cs) \<le> length s"
    and hd: "ch_index c = i" "ch_start c = pos" "good_chunk s target c" "follows overlap c d" by auto
  have "good_chunk s target ((c # d # cs) ! k) \<and> ch_index ((c # d # cs) ! k) = i + k"
    if "k < length (c # d # cs)" for k
    using that IH(1) hd by (cases k) auto
  moreover have "follows overlap ((c # d # cs) ! k) ((c # d # cs) ! Suc k)" if "Suc k < length (c # d # cs)" for k
    using that IH(2) hd(4) by (cases k) auto
  moreover have "pos + length (c # d # cs) \<le> length s" using IH(4) hd(2,4) by (simp add: follows_def)
  ultimately show ?case using IH(3) hd(2) by simp
qed simp

text \<open>What is left of the chunks without their overlaps.\<close>

fun reassemble :: "chunk list \<Rightarrow> string" where
  "reassemble [] = []"
| "reassemble [c] = ch_text c"
| "reassemble (c # d # cs) = take (ch_start d - ch_start c) (ch_text c) @ reassemble (d # cs)"

lemma slice_split: "a \<le> m \<Longrightarrow> m \<le> b \<Longrightarrow> take (m - a) (slice a b s) @ drop m s = drop a s"
  by (simp add: slice_def min_def) (metis append_take_drop_id drop_drop le_add_diff_inverse2)

lemma reassemble_tiles: "tiles s target overlap i pos cs \<Longrightarrow> reassemble cs = drop pos s"
proof (induction s target overlap i pos cs rule: tiles.induct)
  case (2 s target overlap i pos c)
  then show ?case by (auto simp: good_chunk_def slice_def)
next
  case (3 s target overlap i pos c d cs)
  then show ?case
    using slice_split [of "ch_start c" "ch_start d" "ch_end c" s] by (auto simp: good_chunk_def follows_def)
qed simp

lemma chunk_text_tiles:
  assumes "chunk_text s target_chars overlap_chars = Inr cs" and "py_strip s \<noteq> []"
  shows "0 < target_chars \<and> tiles s (nat target_chars) (clamp_overlap overlap_chars (nat target_chars)) 0 0 cs"
proof -
  have ne: "s \<noteq> []" using assms(2) by (auto simp: py_strip_def py_lstrip_def)
  have pos: "0 < target_chars" using assms(1) by (auto simp: chunk_text_def split: if_splits)
  then have "clamp_overlap overlap_chars (nat target_chars) < nat target_chars"
    by (auto simp: clamp_overlap_def)
  with chunk_from_tiles [of 0 s "nat target_chars"] assms ne pos show ?thesis
    by (auto simp: chunk_text_def good_chunk_def slice_def split: if_splits)
qed

section \<open>Properties\<close>

text \<open>C14. The chunks cover the text: on a text that is not blank there is a first chunk at offset 0
  and a last one ending with the text; every chunk is the non-empty slice of the text between
  its offsets, at most the target size long, and numbered by its place; the next chunk starts
  after the start and not after the end of the one before, overlapping it by no more than the
  clamped overlap; and there are never more chunks than characters.\<close>

theorem chunks_cover_the_text:
  assumes "chunk_text s target_chars overlap_chars = Inr cs" and "py_strip s \<noteq> []"
  shows "cs \<noteq> [] \<and> ch_start (cs ! 0) = 0 \<and> ch_end (cs ! (length cs - 1)) = length s
    \<and> length cs \<le> length s
    \<and> (\<forall>k < length cs. ch_index (cs ! k) = k
         \<and> ch_text (cs ! k) = slice (ch_start (cs ! k)) (ch_end (cs ! k)) s
         \<and> ch_start (cs ! k) < ch_end (cs ! k) \<and> ch_end (cs ! k) \<le> length s
         \<and> int (ch_end (cs ! k) - ch_start (cs ! k)) \<le> target_chars)
    \<and> (\<forall>k. Suc k < length cs \<longrightarrow>
         ch_start (cs ! k) < ch_start (cs ! Suc k) \<and> ch_start (cs ! Suc k) \<le> ch_end (cs ! k)
         \<and> int (ch_end (cs ! k) - ch_start (cs ! Suc k)) \<le> max 0 (min overlap_chars (target_chars - 1)))"
proof -
  from chunk_text_tiles [OF assms] have pos: "0 < target_chars"
    and t: "tiles s (nat target_chars) (clamp_overlap overlap_chars (nat target_chars)) 0 0 cs" by simp_all
  note all = tiles_chunks [OF t]
  then have good: "\<And>k. k < length cs \<Longrightarrow> good_chunk s (nat target_chars) (cs ! k) \<and> ch_index (cs ! k) = k"
    and next_ok: "\<And>k. Suc k < length cs \<Longrightarrow> follows (clamp_overlap overlap_chars (nat target_chars)) (cs ! k) (cs ! Suc k)"
    by simp_all
  have "int (ch_end (cs ! k) - ch_start (cs ! k)) \<le> target_chars" if "k < length cs" for k
    using good [OF that] pos unfolding good_chunk_def by linarith
  moreover have "int (ch_end (cs ! k) - ch_start (cs ! Suc k)) \<le> max 0 (min overlap_chars (target_chars - 1))"
    if "Suc k < length cs" for k
    using next_ok [OF that] pos unfolding follows_def clamp_overlap_def by linarith
  ultimately show ?thesis using all good next_ok by (simp add: good_chunk_def follows_def)
qed

definition sample_text :: string where
  "sample_text = ''One. Two! Three'' @ [line_break] @ ''Four five six.''"

lemma sample_chunks:
  "chunk_text sample_text 12 3 = Inr (chunk_from sample_text 12 3 0 0) \<and> py_strip sample_text \<noteq> []"
  by (simp add: chunk_text_def sample_text_def clamp_overlap_def py_strip_def py_lstrip_def py_isspace_def
      line_break_def Let_def)

theorem chunks_cover_the_text_witness:
  "chunk_from sample_text 12 3 0 0 \<noteq> [] \<and> length (chunk_from sample_text 12 3 0 0) \<le> 30"
  using chunks_cover_the_text [of sample_text 12 3 "chunk_from sample_text 12 3 0 0"] sample_chunks
  by (simp add: sample_text_def)

text \<open>Nothing is lost and nothing is added: dropping from each chunk what the next one repeats
  and joining the rest gives back the text.\<close>

theorem chunks_reassemble:
  assumes "chunk_text s target_chars overlap_chars = Inr cs" and "py_strip s \<noteq> []"
  shows "reassemble cs = s"
  using reassemble_tiles chunk_text_tiles [OF assms] by fastforce

theorem chunks_reassemble_witness:
  "reassemble (chunk_from sample_text 12 3 0 0) = sample_text"
  using chunks_reassemble [of sample_text 12 3 "chunk_from sample_text 12 3 0 0"] sample_chunks by simp

end
