(* ===== verification/Indexing.thy ===== *)
theory Indexing
  imports Chunking Database
begin

text \<open>
  Indexing documents and searching them (\<open>app/core/indexing.py\<close>, \<open>app/core/retrieval.py\<close>). The
  embedding backend is a parameter: a batch of texts yields vectors or the message of an
  exception. So are the two rankings PostgreSQL computes, the cosine distance of vectors and the
  full-text match with its rank, and the floating-point sum of the fused scores: scores are of
  an arbitrary linear order. The database lists rows of equal rank in the order of the table.
\<close>

section \<open>Indexing a document\<close>

definition INDEX_PENDING :: string where "INDEX_PENDING = ''pending''"
definition INDEX_INDEXED :: string where "INDEX_INDEXED = ''indexed''"
definition INDEX_FAILED :: string where "INDEX_FAILED = ''failed''"
definition INDEX_EMPTY :: string where "INDEX_EMPTY = ''empty''"

lemmas index_statuses = INDEX_PENDING_def INDEX_INDEXED_def INDEX_FAILED_def INDEX_EMPTY_def

definition EMBED_BATCH_SIZE :: nat where "EMBED_BATCH_SIZE = 64"

definition body_text :: "uuid \<Rightarrow> db \<Rightarrow> string" where
  "body_text did d = (case extracted_body_for did d of None \<Rightarrow> [] | Some b \<Rightarrow> b_extracted_text b)"

definition drop_chunks :: "uuid \<Rightarrow> db \<Rightarrow> db" where
  "drop_chunks did d = d\<lparr>doc_chunks := filter (\<lambda>c. dc_document_id c \<noteq> did) (doc_chunks d)\<rparr>"

definition set_document :: "uuid \<Rightarrow> (document \<Rightarrow> document) \<Rightarrow> db \<Rightarrow> db" where
  "set_document did f d = d\<lparr>documents := update_where (\<lambda>x. doc_id x = did) f (documents d)\<rparr>"

definition mark_indexed :: "string \<Rightarrow> int \<Rightarrow> document \<Rightarrow> document" where
  "mark_indexed st now x = x\<lparr>doc_index_status := st, doc_indexed_at := Some now\<rparr>"

definition mark_failed :: "document \<Rightarrow> document" where
  "mark_failed x = x\<lparr>doc_index_status := INDEX_FAILED\<rparr>"

text \<open>The vectors of the chunks, batch by batch, by the index of the chunk.\<close>

function embed_batches ::
  "(string list \<Rightarrow> string + vector list) \<Rightarrow> chunk list \<Rightarrow> (nat \<rightharpoonup> vector) \<Rightarrow> string + (nat \<rightharpoonup> vector)" where
  "embed_batches embed_texts cs vs =
     (if cs = [] then Inr vs
      else (let batch = take EMBED_BATCH_SIZE cs
            in case embed_texts (map ch_text batch) of
                 Inl msg \<Rightarrow> Inl msg
               | Inr vectors \<Rightarrow> embed_batches embed_texts (drop EMBED_BATCH_SIZE cs)
                   (vs(map ch_index batch [\<mapsto>] vectors))))"
  by pat_completeness auto

termination
  by (relation "measure (\<lambda>(_, cs, _). length cs)") (auto simp: EMBED_BATCH_SIZE_def)

declare embed_batches.simps [simp del]

definition chunk_row :: "uuid \<Rightarrow> document \<Rightarrow> chunk \<Rightarrow> vector \<Rightarrow> doc_chunk" where
  "chunk_row cid doc c v = \<lparr>dc_id = cid, dc_document_id = doc_id doc, dc_matter_id = doc_matter_id doc,
     dc_chunk_index = ch_index c, dc_text = ch_text c, dc_char_start = ch_start c, dc_char_end = ch_end c,
     dc_embedding = Some v\<rparr>"

text \<open>The insertions stop at a chunk without a vector, with the \<open>KeyError\<close> of its index.\<close>

primrec add_chunks ::
  "(nat \<Rightarrow> uuid) \<Rightarrow> document \<Rightarrow> (nat \<rightharpoonup> vector) \<Rightarrow> chunk list \<Rightarrow> db \<Rightarrow> (string + unit) \<times> db" where
  "add_chunks fresh doc vs [] d = (Inr (), d)"
| "add_chunks fresh doc vs (c # cs) d =
     (case vs (ch_index c) of
        None \<Rightarrow> (Inl (int_str (int (ch_index c))), d)
      | Some v \<Rightarrow> add_chunks fresh doc vs cs
          (d\<lparr>doc_chunks := doc_chunks d @ [chunk_row (fresh (ch_index c)) doc c v]\<rparr>))"

text \<open>\<open>Inl\<close> is the message of the exception that is raised again, \<open>Inr\<close> the status.\<close>

definition index_document ::
  "(string list \<Rightarrow> string + vector list) \<Rightarrow> (nat \<Rightarrow> uuid) \<Rightarrow> document \<Rightarrow> session
    \<Rightarrow> (string + string) \<times> session" where
  "index_document embed_texts fresh doc s =
     (let did = doc_id doc; finish = (\<lambda>st. on_working (set_document did (mark_indexed st (clock s))));
          failed = on_working (set_document did mark_failed)
      in case chunk_text (body_text did (working s)) 2000 200 of
           Inl TargetNotPositive \<Rightarrow> (Inl ''target_chars must be positive'', failed s)
         | Inr chunks \<Rightarrow>
             (let s1 = on_working (drop_chunks did) s in
              if chunks = [] then (Inr INDEX_EMPTY, finish INDEX_EMPTY s1)
              else (case embed_batches embed_texts chunks Map.empty of
                      Inl msg \<Rightarrow> (Inl msg, failed s1)
                    | Inr vs \<Rightarrow>
                        (case add_chunks fresh doc vs chunks (working s1) of
                           (Inl msg, d) \<Rightarrow> (Inl msg, failed (on_working (\<lambda>_. d) s1))
                         | (Inr _, d) \<Rightarrow> (Inr INDEX_INDEXED, finish INDEX_INDEXED (on_working (\<lambda>_. d) s1))))))"

text \<open>Every document of a matter; the summary counts the statuses in the order indexed, empty, failed.\<close>

fun reindex_loop ::
  "(string list \<Rightarrow> string + vector list) \<Rightarrow> (uuid \<Rightarrow> nat \<Rightarrow> uuid) \<Rightarrow> document list \<Rightarrow> session
    \<Rightarrow> nat \<times> nat \<times> nat \<Rightarrow> (nat \<times> nat \<times> nat) \<times> session" where
  "reindex_loop embed_texts fresh [] s n = (n, s)"
| "reindex_loop embed_texts fresh (doc # docs) s (i, e, f) =
     (case index_document embed_texts (fresh (doc_id doc)) doc s of
        (r, s') \<Rightarrow> reindex_loop embed_texts fresh docs s'
          (case r of Inl _ \<Rightarrow> (i, e, Suc f)
           | Inr st \<Rightarrow> if st = INDEX_INDEXED then (Suc i, e, f) else (i, Suc e, f)))"

definition reindex_matter ::
  "(string list \<Rightarrow> string + vector list) \<Rightarrow> (uuid \<Rightarrow> nat \<Rightarrow> uuid) \<Rightarrow> uuid \<Rightarrow> session
    \<Rightarrow> (nat \<times> nat \<times> nat) \<times> session" where
  "reindex_matter embed_texts fresh mid s =
     reindex_loop embed_texts fresh (filter (\<lambda>x. doc_matter_id x = mid) (documents (working s))) s (0, 0, 0)"

section \<open>Retrieval\<close>

definition CANDIDATE_POOL :: nat where "CANDIDATE_POOL = 40"

record candidate =
  cd_chunk_id :: uuid
  cd_document_id :: uuid
  cd_chunk_index :: nat
  cd_text :: string
  cd_char_start :: nat
  cd_char_end :: nat

definition row_to_candidate :: "doc_chunk \<Rightarrow> candidate" where
  "row_to_candidate c = \<lparr>cd_chunk_id = dc_id c, cd_document_id = dc_document_id c, cd_chunk_index = dc_chunk_index c,
     cd_text = dc_text c, cd_char_start = dc_char_start c, cd_char_end = dc_char_end c\<rparr>"

text \<open>The join with the parent document and the two conditions both queries share.\<close>

definition searchable :: "uuid \<Rightarrow> db \<Rightarrow> doc_chunk \<Rightarrow> bool" where
  "searchable mid d c \<longleftrightarrow> dc_matter_id c = mid
     \<and> list_ex (\<lambda>x. doc_id x = dc_document_id c \<and> doc_index_status x = INDEX_INDEXED) (documents d)"

definition vector_candidates ::
  "(vector \<Rightarrow> vector \<Rightarrow> 'f :: linorder) \<Rightarrow> uuid \<Rightarrow> vector \<Rightarrow> nat \<Rightarrow> db \<Rightarrow> candidate list" where
  "vector_candidates distance mid q n d =
     map row_to_candidate (take n (sort_key (\<lambda>c. distance (the (dc_embedding c)) q)
       (filter (\<lambda>c. searchable mid d c \<and> dc_embedding c \<noteq> None) (doc_chunks d))))"

text \<open>\<open>ts_rank\<close> of a chunk that matches the query.\<close>

definition keyword_candidates ::
  "(string \<Rightarrow> string \<Rightarrow> ('f :: linorder) option) \<Rightarrow> uuid \<Rightarrow> string \<Rightarrow> nat \<Rightarrow> db \<Rightarrow> candidate list" where
  "keyword_candidates ts_rank mid q n d =
     map row_to_candidate (take n (rev (sort_key (\<lambda>c. the (ts_rank q (dc_text c)))
       (rev (filter (\<lambda>c. searchable mid d c \<and> ts_rank q (dc_text c) \<noteq> None) (doc_chunks d))))))"

record 'f hit =
  h_document_id :: uuid
  h_chunk_index :: nat
  h_text :: string
  h_char_start :: nat
  h_char_end :: nat
  h_score :: 'f

text \<open>
  Reciprocal-rank fusion: \<open>share rank\<close> is \<open>1.0 / (60 + rank)\<close>, \<open>addf\<close> the addition and \<open>zerof\<close>
  the 0.0 a chunk starts from. The two dictionaries are kept as one association list, in the
  order the chunks are first met; the later list's columns replace the earlier ones.
\<close>

fun fuse_list ::
  "(nat \<Rightarrow> 'f) \<Rightarrow> ('f \<Rightarrow> 'f \<Rightarrow> 'f) \<Rightarrow> 'f \<Rightarrow> nat \<Rightarrow> candidate list \<Rightarrow> (uuid \<times> candidate \<times> 'f) list
    \<Rightarrow> (uuid \<times> candidate \<times> 'f) list" where
  "fuse_list share addf zerof rank [] acc = acc"
| "fuse_list share addf zerof rank (c # cs) acc =
     fuse_list share addf zerof (Suc rank) cs
       (assoc_put (cd_chunk_id c)
          (c, addf (case map_of acc (cd_chunk_id c) of None \<Rightarrow> zerof | Some (_, x) \<Rightarrow> x) (share rank)) acc)"

definition to_hit :: "candidate \<times> 'f \<Rightarrow> 'f hit" where
  "to_hit cx = (case cx of (c, x) \<Rightarrow>
     \<lparr>h_document_id = cd_document_id c, h_chunk_index = cd_chunk_index c, h_text = cd_text c,
      h_char_start = cd_char_start c, h_char_end = cd_char_end c, h_score = x\<rparr>)"

definition ranked ::
  "(nat \<Rightarrow> 'f :: linorder) \<Rightarrow> ('f \<Rightarrow> 'f \<Rightarrow> 'f) \<Rightarrow> 'f \<Rightarrow> candidate list \<Rightarrow> candidate list \<Rightarrow> nat
    \<Rightarrow> (uuid \<times> candidate \<times> 'f) list" where
  "ranked share addf zerof vector_hits keyword_hits k =
     take k (rev (sort_key (\<lambda>(_, _, x). x) (rev
       (fuse_list share addf zerof 1 keyword_hits (fuse_list share addf zerof 1 vector_hits [])))))"

definition fuse ::
  "(nat \<Rightarrow> 'f :: linorder) \<Rightarrow> ('f \<Rightarrow> 'f \<Rightarrow> 'f) \<Rightarrow> 'f \<Rightarrow> candidate list \<Rightarrow> candidate list \<Rightarrow> nat \<Rightarrow> 'f hit list" where
  "fuse share addf zerof vector_hits keyword_hits k =
     map (\<lambda>(_, cx). to_hit cx) (ranked share addf zerof vector_hits keyword_hits k)"

text \<open>The vector path may fail as a whole: embedding the query, or the comparison in the database.\<close>

definition search_documents ::
  "(nat \<Rightarrow> 'f :: linorder) \<Rightarrow> ('f \<Rightarrow> 'f \<Rightarrow> 'f) \<Rightarrow> 'f \<Rightarrow> (string \<Rightarrow> string + vector)
    \<Rightarrow> (vector \<Rightarrow> vector \<Rightarrow> 'f) option \<Rightarrow> (string \<Rightarrow> string \<Rightarrow> 'f option)
    \<Rightarrow> uuid \<Rightarrow> string \<Rightarrow> int \<Rightarrow> db \<Rightarrow> 'f hit list" where
  "search_documents share addf zerof embed_query distance ts_rank mid query k d =
     (if k \<le> 0 \<or> py_strip query = [] then []
      else (let pool = max (nat k) CANDIDATE_POOL;
                keyword_hits = keyword_candidates ts_rank mid query pool d;
                vector_hits = (case (embed_query query, distance) of
                    (Inr q, Some dist) \<Rightarrow> vector_candidates dist mid q pool d
                  | _ \<Rightarrow> [])
            in fuse share addf zerof vector_hits keyword_hits (nat k)))"

text \<open>
  The ellipsis is U+2026, outside the characters of the model; \<open>ellipsis\<close> stands for its text.
\<close>

definition read_document :: "string \<Rightarrow> uuid \<Rightarrow> uuid \<Rightarrow> int \<Rightarrow> db \<Rightarrow> string option" where
  "read_document ellipsis mid did char_budget d =
     (if \<not> list_ex (\<lambda>x. doc_id x = did \<and> doc_matter_id x = mid) (documents d) then None
      else (let t = body_text did d in
        if char_budget \<le> 0 then Some []
        else if int (length t) \<le> char_budget then Some t
        else Some (rev (py_lstrip (rev (take (nat char_budget) t))) @ ellipsis)))"

section \<open>What indexing stores\<close>

definition chunk_of :: "doc_chunk \<Rightarrow> chunk" where
  "chunk_of r = \<lparr>ch_index = dc_chunk_index r, ch_text = dc_text r, ch_start = dc_char_start r, ch_end = dc_char_end r\<rparr>"

definition rows_of :: "uuid \<Rightarrow> db \<Rightarrow> doc_chunk list" where
  "rows_of did d = filter (\<lambda>c. dc_document_id c = did) (doc_chunks d)"

definition other_rows :: "uuid \<Rightarrow> db \<Rightarrow> doc_chunk list" where
  "other_rows did d = filter (\<lambda>c. dc_document_id c \<noteq> did) (doc_chunks d)"

lemma indexing_tables [simp, frame_simps]:
  "doc_chunks (set_document did f d) = doc_chunks d"
  "documents (drop_chunks did d) = documents d"
  "doc_bodies (set_document did f d) = doc_bodies d"
  "doc_bodies (drop_chunks did d) = doc_bodies d"
  "rows_of did (drop_chunks did d) = []"
  "other_rows did (drop_chunks did d) = other_rows did d"
  "rows_of did (set_document did f d) = rows_of did d"
  "other_rows did (set_document did f d) = other_rows did d"
  by (simp_all add: set_document_def drop_chunks_def rows_of_def other_rows_def)

lemma add_chunks_rows:
  assumes "add_chunks fresh doc vs cs d = (r, d')"
  shows "other_rows (doc_id doc) d' = other_rows (doc_id doc) d"
    and "documents d' = documents d" and "doc_bodies d' = doc_bodies d"
    and "r = Inr () \<Longrightarrow> map chunk_of (rows_of (doc_id doc) d') = map chunk_of (rows_of (doc_id doc) d) @ cs
      \<and> (\<forall>x \<in> set (rows_of (doc_id doc) d'). x \<in> set (rows_of (doc_id doc) d)
          \<or> dc_matter_id x = doc_matter_id doc \<and> dc_embedding x \<noteq> None)"
  using assms
proof (induction cs arbitrary: d)
  case (Cons c cs)
  {
    case 1
    then show ?case using Cons.IH(1) by (auto simp: other_rows_def chunk_row_def split: option.splits)
  next
    case 2
    then show ?case using Cons.IH(2) by (auto split: option.splits)
  next
    case 3
    then show ?case using Cons.IH(3) by (auto split: option.splits)
  next
    case 4
    then obtain v where v: "vs (ch_index c) = Some v" by (auto split: option.splits)
    define d2 where "d2 = d\<lparr>doc_chunks := doc_chunks d @ [chunk_row (fresh (ch_index c)) doc c v]\<rparr>"
    have run: "add_chunks fresh doc vs cs d2 = (r, d')" using 4(2) v by (simp add: d2_def)
    have one: "map chunk_of (rows_of (doc_id doc) d2) = map chunk_of (rows_of (doc_id doc) d) @ [c]"
      by (simp add: d2_def rows_of_def chunk_row_def chunk_of_def)
    have new: "x \<in> set (rows_of (doc_id doc) d2) \<Longrightarrow>
        x \<in> set (rows_of (doc_id doc) d) \<or> dc_matter_id x = doc_matter_id doc \<and> dc_embedding x \<noteq> None" for x
      by (auto simp: d2_def rows_of_def chunk_row_def)
    from Cons.IH(4) [OF 4(1) run] show ?case using one new by auto
  }
qed simp_all

lemma set_document_status:
  assumes "find (\<lambda>x. doc_id x = did) (documents d) = Some doc" and "\<And>x. doc_id (f x) = doc_id x"
  shows "find (\<lambda>x. doc_id x = did) (documents (set_document did f d)) = Some (f doc)"
  using assms by (auto simp: set_document_def update_where_def find_Some_iff nth_map)

lemma body_text_cong: "doc_bodies d' = doc_bodies d \<Longrightarrow> body_text did d' = body_text did d"
  by (simp add: body_text_def extracted_body_for_def body_of_def)

section \<open>Properties\<close>

text \<open>What a search can find is what the document says: when indexing a document succeeds, the
  rows stored for it rebuild its extracted text character by character, each carries a vector and
  the document's matter, the rows of other documents are those of before, and the document is
  marked indexed - or, exactly when the text is blank, has no rows and is marked empty.\<close>

theorem indexed_rows_rebuild_the_body:
  assumes "index_document embed_texts fresh doc s = (Inr st, s')"
    and "find (\<lambda>x. doc_id x = doc_id doc) (documents (working s)) = Some doc"
  shows "(st = INDEX_EMPTY \<longleftrightarrow> py_strip (body_text (doc_id doc) (working s)) = [])
    \<and> (st = INDEX_EMPTY \<and> rows_of (doc_id doc) (working s') = []
       \<or> st = INDEX_INDEXED
         \<and> reassemble (map chunk_of (rows_of (doc_id doc) (working s'))) = body_text (doc_id doc) (working s))
    \<and> (\<forall>r \<in> set (rows_of (doc_id doc) (working s')). dc_matter_id r = doc_matter_id doc \<and> dc_embedding r \<noteq> None)
    \<and> other_rows (doc_id doc) (working s') = other_rows (doc_id doc) (working s)
    \<and> find (\<lambda>x. doc_id x = doc_id doc) (documents (working s'))
        = Some (doc\<lparr>doc_index_status := st, doc_indexed_at := Some (clock s)\<rparr>)
    \<and> body_text (doc_id doc) (working s') = body_text (doc_id doc) (working s)"
proof -
  let ?t = "body_text (doc_id doc) (working s)" and ?d1 = "drop_chunks (doc_id doc) (working s)"
  obtain cs where cs: "chunk_text ?t 2000 200 = Inr cs"
    by (cases "chunk_text ?t 2000 200") (auto simp: chunk_text_def split: if_splits)
  have blank: "cs = [] \<longleftrightarrow> py_strip ?t = []"
  proof (cases "py_strip ?t = []")
    case False
    from chunk_text_tiles [OF cs False] have "tiles ?t (nat 2000) (clamp_overlap 200 (nat 2000)) 0 0 cs" by simp
    then have "cs \<noteq> []" by auto
    with False show ?thesis by simp
  qed (use cs in \<open>simp add: chunk_text_def\<close>)
  have ne: "INDEX_INDEXED \<noteq> INDEX_EMPTY" by (simp add: index_statuses)
  show ?thesis
  proof (cases "cs = []")
    case True
    then have s': "st = INDEX_EMPTY"
      "working s' = set_document (doc_id doc) (mark_indexed INDEX_EMPTY (clock s)) ?d1"
      using assms(1) cs by (auto simp: index_document_def Let_def)
    have "find (\<lambda>x. doc_id x = doc_id doc) (documents (working s')) = Some (mark_indexed INDEX_EMPTY (clock s) doc)"
      unfolding s' by (rule set_document_status) (simp_all add: assms(2) mark_indexed_def)
    moreover have "body_text (doc_id doc) (working s') = ?t" unfolding s' by (rule body_text_cong) simp
    ultimately show ?thesis using s' True blank by (simp add: mark_indexed_def)
  next
    case False
    then obtain vs where vs: "embed_batches embed_texts cs Map.empty = Inr vs"
      using assms(1) cs by (auto simp: index_document_def Let_def split: sum.splits)
    obtain r d where d: "add_chunks fresh doc vs cs ?d1 = (r, d)" by fastforce
    have run: "index_document embed_texts fresh doc s = (case r of
        Inl msg \<Rightarrow> (Inl msg, on_working (set_document (doc_id doc) mark_failed)
          (on_working (\<lambda>_. d) (on_working (drop_chunks (doc_id doc)) s)))
      | Inr _ \<Rightarrow> (Inr INDEX_INDEXED, on_working (set_document (doc_id doc) (mark_indexed INDEX_INDEXED (clock s)))
          (on_working (\<lambda>_. d) (on_working (drop_chunks (doc_id doc)) s))))"
      using False by (simp add: index_document_def Let_def cs vs d split: sum.split)
    have s': "r = Inr ()" "st = INDEX_INDEXED"
      "working s' = set_document (doc_id doc) (mark_indexed INDEX_INDEXED (clock s)) d"
      using assms(1) unfolding run by (auto split: sum.splits)
    note rows = add_chunks_rows [OF d]
    from rows(4) [OF s'(1)] have "map chunk_of (rows_of (doc_id doc) d) = cs" by simp
    moreover have "reassemble cs = ?t"
      using chunk_text_tiles [OF cs] False blank reassemble_tiles by fastforce
    moreover have "find (\<lambda>x. doc_id x = doc_id doc) (documents (working s')) = Some (mark_indexed INDEX_INDEXED (clock s) doc)"
      unfolding s' by (rule set_document_status) (simp_all add: rows(2) assms(2) mark_indexed_def)
    moreover have "body_text (doc_id doc) (working s') = ?t" unfolding s' by (rule body_text_cong) (simp add: rows(3))
    ultimately show ?thesis
      using s' rows(1) rows(4) [OF s'(1)] ne False blank by (simp add: mark_indexed_def)
  qed
qed

definition sample_document :: document where
  "sample_document = \<lparr>doc_id = ''d'', doc_matter_id = ''m'', doc_index_status = ''pending'', doc_indexed_at = None, doc_filename = ''f'', doc_mime_type = ''text/plain'',
     doc_size_bytes = 0, doc_sha256 = ''h'', doc_storage_uri = None, doc_uploaded_at = 0, doc_uploaded_by_id = ''u'',
     doc_tag = None, doc_from_disclosure = False,
     doc_disclosure_ref = None\<rparr>"

definition sample_library :: db where
  "sample_library = empty_db\<lparr>documents := [sample_document],
     doc_bodies := [\<lparr>b_document_id = ''d'', b_kind = ''extracted'', b_extracted_text = ''Notice of claim.'',
       b_extraction_method = ''passthrough'', b_extracted_at = 0, b_char_count = 16, b_page_count = None,
       b_error_reason = None, b_mapping = None, b_engine = None, b_anonymised_at = None\<rparr>]\<rparr>"

definition one_vector :: "string list \<Rightarrow> string + vector list" where
  "one_vector ts = Inr (map (\<lambda>_. [(1, 0)]) ts)"

theorem indexed_rows_rebuild_the_body_witness:
  "\<exists>s'. index_document one_vector (\<lambda>_. ''c'') sample_document (open_session sample_library 7) = (Inr INDEX_INDEXED, s')
     \<and> reassemble (map chunk_of (rows_of ''d'' (working s'))) = ''Notice of claim.''"
proof -
  let ?s = "open_session sample_library 7"
  have body: "body_text ''d'' (working ?s) = ''Notice of claim.''"
    by (simp add: body_text_def extracted_body_for_def body_of_def open_session_def sample_library_def BODY_KIND_EXTRACTED_def)
  obtain s' where s': "index_document one_vector (\<lambda>_. ''c'') sample_document ?s = (Inr INDEX_INDEXED, s')"
    by (simp add: index_document_def body sample_document_def chunk_text_def py_strip_def py_lstrip_def py_isspace_def
        embed_batches.simps one_vector_def EMBED_BATCH_SIZE_def Let_def)
  have "find (\<lambda>x. doc_id x = doc_id sample_document) (documents (working ?s)) = Some sample_document"
    by (simp add: open_session_def sample_library_def)
  from indexed_rows_rebuild_the_body [OF s' this] body s' show ?thesis
    by (auto simp: sample_document_def index_statuses py_strip_def py_lstrip_def py_isspace_def)
qed

subsection \<open>What a search returns\<close>

definition fused_from :: "candidate set \<Rightarrow> (uuid \<times> candidate \<times> 'f) list \<Rightarrow> bool" where
  "fused_from C acc \<longleftrightarrow> distinct (map fst acc) \<and> (\<forall>(i, c, x) \<in> set acc. c \<in> C \<and> cd_chunk_id c = i)"

lemma fuse_list_from:
  "fused_from C acc \<Longrightarrow> set cs \<subseteq> C \<Longrightarrow> fused_from C (fuse_list share addf zerof rank cs acc)"
proof (induction cs arbitrary: rank acc)
  case (Cons c cs)
  let ?x = "addf (case map_of acc (cd_chunk_id c) of None \<Rightarrow> zerof | Some (_, x) \<Rightarrow> x) (share rank)"
  have "fused_from C (assoc_put (cd_chunk_id c) (c, ?x) acc)"
    unfolding fused_from_def
  proof (intro conjI ballI)
    show "distinct (map fst (assoc_put (cd_chunk_id c) (c, ?x) acc))"
      using Cons.prems(1) by (intro assoc_put_distinct) (simp add: fused_from_def)
    fix e
    assume "e \<in> set (assoc_put (cd_chunk_id c) (c, ?x) acc)"
    then consider "e = (cd_chunk_id c, c, ?x)" | "e \<in> set acc" using assoc_put_in by fastforce
    then show "case e of (i, c, x) \<Rightarrow> c \<in> C \<and> cd_chunk_id c = i"
    proof cases
      case 1
      with Cons.prems(2) show ?thesis by simp
    next
      case 2
      with Cons.prems(1) show ?thesis unfolding fused_from_def by blast
    qed
  qed
  with Cons show ?case by simp
qed simp

lemma ranked_from:
  assumes "set vs \<subseteq> C" and "set ks \<subseteq> C"
  shows "fused_from C (ranked share addf zerof vs ks k)"
    and "sorted_wrt (\<ge>) (map (\<lambda>(_, _, x). x) (ranked share addf zerof vs ks k))"
    and "length (ranked share addf zerof vs ks k) \<le> k"
proof -
  define acc where "acc = fuse_list share addf zerof 1 ks (fuse_list share addf zerof 1 vs [])"
  define srt where "srt = rev (sort_key (\<lambda>(_, _, x). x) (rev acc))"
  have r: "ranked share addf zerof vs ks k = take k srt"
    by (simp add: ranked_def srt_def acc_def)
  have "fused_from C acc"
    unfolding acc_def by (intro fuse_list_from assms) (simp add: fused_from_def)
  then have "distinct (map fst srt)" and mem: "\<forall>(i, c, x) \<in> set srt. c \<in> C \<and> cd_chunk_id c = i"
    by (simp_all add: fused_from_def srt_def distinct_map)
  then show "fused_from C (ranked share addf zerof vs ks k)"
    unfolding r fused_from_def take_map [symmetric] by (blast intro: distinct_take dest: in_set_takeD)
  have "sorted (map (\<lambda>(_, _, x). x) (sort_key (\<lambda>(_, _, x). x) (rev acc)))" by (rule sorted_sort_key)
  then have "sorted_wrt (\<ge>) (map (\<lambda>(_, _, x). x) srt)"
    by (simp add: srt_def rev_map [symmetric] sorted_wrt_rev)
  then show "sorted_wrt (\<ge>) (map (\<lambda>(_, _, x). x) (ranked share addf zerof vs ks k))"
    unfolding r take_map [symmetric] by (rule sorted_wrt_take)
  show "length (ranked share addf zerof vs ks k) \<le> k" unfolding r by simp
qed

lemma candidates_searchable:
  "set (vector_candidates dist mid q n d) \<subseteq> row_to_candidate ` {c \<in> set (doc_chunks d). searchable mid d c}"
  "set (keyword_candidates rank mid qs n d) \<subseteq> row_to_candidate ` {c \<in> set (doc_chunks d). searchable mid d c}"
  by (auto simp: vector_candidates_def keyword_candidates_def dest!: in_set_takeD)

text \<open>C16. A search never leaves its matter: whatever the two rankings answer and whether or not the
  vector path fails, each hit shows the columns of a stored chunk of that matter whose document
  is marked indexed; no chunk appears twice, at most \<open>k\<close> hits come back, and their scores do
  not increase.\<close>

theorem search_stays_in_the_matter:
  fixes share :: "nat \<Rightarrow> 'f :: linorder"
  assumes "search_documents share addf zerof embed_query distance ts_rank mid query k d = hits"
  shows "\<exists>rows. length rows = length hits \<and> distinct (map dc_id rows)
    \<and> (\<forall>i < length hits. rows ! i \<in> set (doc_chunks d) \<and> dc_matter_id (rows ! i) = mid
        \<and> (\<exists>x \<in> set (documents d). doc_id x = dc_document_id (rows ! i) \<and> doc_index_status x = INDEX_INDEXED)
        \<and> h_document_id (hits ! i) = dc_document_id (rows ! i) \<and> h_text (hits ! i) = dc_text (rows ! i)
        \<and> h_char_start (hits ! i) = dc_char_start (rows ! i) \<and> h_char_end (hits ! i) = dc_char_end (rows ! i))
    \<and> int (length hits) \<le> max 0 k \<and> sorted_wrt (\<ge>) (map h_score hits)"
proof (cases "k \<le> 0 \<or> py_strip query = []")
  case False
  let ?C = "row_to_candidate ` {c \<in> set (doc_chunks d). searchable mid d c}"
  obtain vs ks where v: "set vs \<subseteq> ?C" "set ks \<subseteq> ?C" and hits: "hits = fuse share addf zerof vs ks (nat k)"
  proof -
    let ?pool = "max (nat k) CANDIDATE_POOL"
    let ?vs = "case (embed_query query, distance) of
        (Inr q, Some dist) \<Rightarrow> vector_candidates dist mid q ?pool d | _ \<Rightarrow> []"
    have sub: "set ?vs \<subseteq> ?C"
    proof (cases "embed_query query")
      case (Inr q)
      then show ?thesis by (cases distance) (simp_all add: candidates_searchable(1))
    qed simp
    have eq: "hits = fuse share addf zerof ?vs (keyword_candidates ts_rank mid query ?pool d) (nat k)"
      using assms False by (auto simp: search_documents_def Let_def)
    show thesis by (rule that [OF sub candidates_searchable(2) eq])
  qed
  define rk where "rk = ranked share addf zerof vs ks (nat k)"
  note rk = ranked_from [OF v, of share addf zerof "nat k", folded rk_def]
  define pick where "pick cx = (SOME c. c \<in> set (doc_chunks d) \<and> searchable mid d c \<and> row_to_candidate c = fst (snd cx))"
    for cx :: "uuid \<times> candidate \<times> 'f"
  have pick: "pick cx \<in> set (doc_chunks d) \<and> searchable mid d (pick cx) \<and> row_to_candidate (pick cx) = fst (snd cx)
      \<and> dc_id (pick cx) = fst cx" if "cx \<in> set rk" for cx
  proof -
    from rk(1) that obtain c where "c \<in> set (doc_chunks d) \<and> searchable mid d c \<and> row_to_candidate c = fst (snd cx)"
      by (cases cx) (force simp: fused_from_def)
    then have p: "pick cx \<in> set (doc_chunks d) \<and> searchable mid d (pick cx) \<and> row_to_candidate (pick cx) = fst (snd cx)"
      unfolding pick_def by (rule someI)
    moreover from p have "dc_id (pick cx) = cd_chunk_id (fst (snd cx))" by (metis row_to_candidate_def candidate.select_convs(1))
    ultimately show ?thesis using rk(1) that by (cases cx) (force simp: fused_from_def)
  qed
  have h: "hits = map (\<lambda>cx. to_hit (snd cx)) rk"
    by (simp add: hits fuse_def rk_def split_def)
  have ids: "map dc_id (map pick rk) = map fst rk" using pick by simp
  have "distinct (map dc_id (map pick rk))" unfolding ids using rk(1) by (simp add: fused_from_def)
  moreover have scores: "map h_score hits = map (\<lambda>(_, _, x). x) rk" by (simp add: h to_hit_def split_def)
  have "sorted_wrt (\<ge>) (map h_score hits)" unfolding scores by (rule rk(2))
  moreover have "int (length hits) \<le> max 0 k" using rk(3) False unfolding h length_map by linarith
  moreover have "pick (rk ! i) \<in> set (doc_chunks d) \<and> dc_matter_id (pick (rk ! i)) = mid
        \<and> (\<exists>x \<in> set (documents d). doc_id x = dc_document_id (pick (rk ! i)) \<and> doc_index_status x = INDEX_INDEXED)
        \<and> h_document_id (to_hit (snd (rk ! i))) = dc_document_id (pick (rk ! i))
        \<and> h_text (to_hit (snd (rk ! i))) = dc_text (pick (rk ! i))
        \<and> h_char_start (to_hit (snd (rk ! i))) = dc_char_start (pick (rk ! i))
        \<and> h_char_end (to_hit (snd (rk ! i))) = dc_char_end (pick (rk ! i))" if "i < length rk" for i
  proof -
    from pick [OF nth_mem [OF that]] have p: "pick (rk ! i) \<in> set (doc_chunks d)" "searchable mid d (pick (rk ! i))"
      "fst (snd (rk ! i)) = row_to_candidate (pick (rk ! i))" by simp_all
    then show ?thesis by (auto simp: searchable_def list_ex_iff to_hit_def split_def row_to_candidate_def)
  qed
  ultimately show ?thesis
    by (intro exI [where x = "map pick rk"]) (simp add: h)
qed (use assms in \<open>simp add: search_documents_def\<close>)

definition two_matters :: db where
  "two_matters = empty_db\<lparr>
     documents := [\<lparr>doc_id = ''d'', doc_matter_id = ''m'', doc_index_status = ''indexed'', doc_indexed_at = Some 1, doc_filename = ''f'', doc_mime_type = ''text/plain'',
     doc_size_bytes = 0, doc_sha256 = ''h'', doc_storage_uri = None, doc_uploaded_at = 0, doc_uploaded_by_id = ''u'',
     doc_tag = None, doc_from_disclosure = False,
     doc_disclosure_ref = None\<rparr>,
       \<lparr>doc_id = ''e'', doc_matter_id = ''other'', doc_index_status = ''indexed'', doc_indexed_at = Some 1, doc_filename = ''f'', doc_mime_type = ''text/plain'',
     doc_size_bytes = 0, doc_sha256 = ''h'', doc_storage_uri = None, doc_uploaded_at = 0, doc_uploaded_by_id = ''u'',
     doc_tag = None, doc_from_disclosure = False,
     doc_disclosure_ref = None\<rparr>],
     doc_chunks := [chunk_row ''1'' (sample_document\<lparr>doc_id := ''e'', doc_matter_id := ''other''\<rparr>)
         \<lparr>ch_index = 0, ch_text = ''claim'', ch_start = 0, ch_end = 5\<rparr> [(1, 0)],
       chunk_row ''2'' sample_document \<lparr>ch_index = 0, ch_text = ''claim'', ch_start = 0, ch_end = 5\<rparr> [(1, 0)]]\<rparr>"

theorem search_stays_in_the_matter_witness:
  "map h_document_id (search_documents (\<lambda>r. - int r) (+) 0 (\<lambda>_. Inl ''none'') None
      (\<lambda>q t. if q = t then Some 1 else None) ''m'' ''claim'' 8 two_matters) = [''d'']
   \<and> (\<exists>rows :: doc_chunk list. length rows = 1 \<and> dc_matter_id (rows ! 0) = ''m'')"
proof -
  let ?hits = "search_documents (\<lambda>r. - int r) (+) 0 (\<lambda>_. Inl ''none'') None
      (\<lambda>q t. if q = t then Some 1 else None) ''m'' ''claim'' 8 two_matters"
  have ids: "map h_document_id ?hits = [''d'']"
    by (simp add: search_documents_def keyword_candidates_def searchable_def two_matters_def empty_db_def chunk_row_def
        sample_document_def py_strip_def py_lstrip_def py_isspace_def CANDIDATE_POOL_def INDEX_INDEXED_def
        fuse_def ranked_def row_to_candidate_def to_hit_def Let_def)
  then have one: "length ?hits = 1" by (metis length_map One_nat_def length_Cons list.size(3))
  obtain hits where hits: "?hits = hits" by simp
  have "\<exists>rows :: doc_chunk list. length rows = length hits \<and> (\<forall>i < length hits. dc_matter_id (rows ! i) = ''m'')"
    using search_stays_in_the_matter [OF hits] by (elim ex_forward) simp
  with one ids show ?thesis unfolding hits by auto
qed

end
