(* ===== verification/Worker.thy ===== *)
theory Worker
  imports Lifecycle Indexing
begin

text \<open>
  The worker (\<open>app/worker.py\<close>): what happens to a job whose id comes off the queue. Building the
  export archive (\<open>app/core/exports.py\<close>), which reads the database and writes one object, is a
  parameter, as is the embedding backend; either may return, raise with a message, or be
  cancelled - the queue cancels a task that runs longer than its timeout, and the
  cancellation is no \<open>Exception\<close>. A run is given the committed database and the clock readings
  of its two sessions, and yields the committed database it leaves. (The dash of one message, U+2014, is
  written as a hyphen.)
\<close>

datatype 'a pipeline = Returned 'a | Raised string | Cancelled

datatype run_result = Finished | JobNotFound | RowVanished | DataError | RunCancelled

definition export_job :: "(matter \<Rightarrow> uuid \<Rightarrow> db \<Rightarrow> string pipeline) \<Rightarrow> job \<Rightarrow> matter \<Rightarrow> session \<Rightarrow> json pipeline \<times> session" where
  "export_job export j m s =
     (let s1 = commit (update_stage j ''building_zip'' (Some 10) s)
      in (case export m (j_id j) (working s1) of
            Returned key \<Rightarrow> Returned (JObj [(''export_key'', JStr key)])
          | Raised msg \<Rightarrow> Raised msg
          | Cancelled \<Rightarrow> Cancelled, s1))"

definition indexed_event :: "string \<Rightarrow> job \<Rightarrow> matter \<Rightarrow> document \<Rightarrow> string \<Rightarrow> audit_event" where
  "indexed_event backend j m doc st = (event0 ''document.indexed'')
     \<lparr>ae_actor_id := Some (j_created_by_id j), ae_matter_id := Some (m_id m), ae_module := Some ''retrieval'',
      ae_resource_type := Some ''document'', ae_resource_id := Some (doc_id doc),
      ae_payload := JObj [(''index_status'', JStr st), (''embedding_backend'', JStr backend)]\<rparr>"

definition document_missing :: "uuid \<Rightarrow> matter \<Rightarrow> string" where
  "document_missing did m = ''document '' @ did @ '' not found for matter '' @ m_id m @ '' - deleted before indexing ran''"

definition index_job ::
  "(string list \<Rightarrow> string + vector list) \<Rightarrow> string \<Rightarrow> (nat \<Rightarrow> uuid) \<Rightarrow> job \<Rightarrow> matter \<Rightarrow> session \<Rightarrow> json pipeline \<times> session" where
  "index_job embed_texts backend fresh j m s =
     (case jget ''document_id'' (j_input_payload j) of
        Some (JStr did) \<Rightarrow>
          if did = [] then (Raised ''index job is missing input_payload['document_id']'', s)
          else
           (let s1 = commit (update_stage j ''embedding'' (Some 50) s) in
            case find (\<lambda>x. doc_id x = did \<and> doc_matter_id x = m_id m) (documents (working s1)) of
              None \<Rightarrow> (Raised (document_missing did m), s1)
            | Some doc \<Rightarrow>
                (case index_document embed_texts fresh doc s1 of
                   (Inl msg, s2) \<Rightarrow> (Raised msg, s2)
                 | (Inr st, s2) \<Rightarrow>
                     (Returned (JObj [(''document_id'', JStr (doc_id doc)), (''index_status'', JStr st)]),
                      audit_log (indexed_event backend j m doc st) s2)))
      | _ \<Rightarrow> (Raised ''index job is missing input_payload['document_id']'', s))"

definition dispatch ::
  "(matter \<Rightarrow> uuid \<Rightarrow> db \<Rightarrow> string pipeline) \<Rightarrow> (string list \<Rightarrow> string + vector list) \<Rightarrow> string \<Rightarrow> (nat \<Rightarrow> uuid)
    \<Rightarrow> job \<Rightarrow> matter \<Rightarrow> session \<Rightarrow> json pipeline \<times> session" where
  "dispatch export embed_texts backend fresh j m s =
     (if j_kind j = JOB_KIND_EXPORT then export_job export j m s
      else if j_kind j = JOB_KIND_INDEX then index_job embed_texts backend fresh j m s
      else (Raised (''unknown job kind: '' @ j_kind j), s))"

definition failure :: "string \<Rightarrow> string \<Rightarrow> job_update" where
  "failure code msg = no_update\<lparr>ju_error_code := Some code, ju_error_message := Some msg\<rparr>"

definition success :: "json \<Rightarrow> job_update" where
  "success result = no_update\<lparr>ju_result_payload := Some result, ju_stage := Some ''complete'', ju_progress := Some 100\<rparr>"

text \<open>The end of a session: a refused flush leaves the committed database as it is.\<close>

definition commit_or_raise :: "session \<Rightarrow> run_result \<times> db" where
  "commit_or_raise s = (case commit_jobs s of None \<Rightarrow> (DataError, durable s) | Some s' \<Rightarrow> (Finished, durable s'))"

text \<open>The first session: the job becomes running. The second: the pipeline and its outcome.\<close>

definition start_run :: "uuid \<Rightarrow> session \<Rightarrow> (run_result \<times> db) + session" where
  "start_run jid s =
     (case find_job jid (working s) of
        None \<Rightarrow> Inl (JobNotFound, durable s)
      | Some j \<Rightarrow>
          (case find (\<lambda>m. m_id m = j_matter_id j) (matters (working s)) of
             None \<Rightarrow> Inl (commit_or_raise (update_status j JOB_STATUS_FAILED
                 (failure ''matter_not_found'' (''matter '' @ j_matter_id j @ '' not found'')) s))
           | Some m \<Rightarrow>
               (case commit_jobs (update_status j JOB_STATUS_RUNNING no_update s) of
                  None \<Rightarrow> Inl (DataError, durable s)
                | Some s' \<Rightarrow> Inr s')))"

definition finish_run ::
  "(job \<Rightarrow> matter \<Rightarrow> session \<Rightarrow> json pipeline \<times> session) \<Rightarrow> uuid \<Rightarrow> session \<Rightarrow> run_result \<times> db" where
  "finish_run pipe jid s =
     (case find_job jid (working s) of
        None \<Rightarrow> (RowVanished, durable s)
      | Some j \<Rightarrow>
          (case find (\<lambda>m. m_id m = j_matter_id j) (matters (working s)) of
             None \<Rightarrow> (RowVanished, durable s)
           | Some m \<Rightarrow>
               (case pipe j m s of
                  (Cancelled, s') \<Rightarrow> (RunCancelled, durable s')
                | (Raised msg, s') \<Rightarrow> commit_or_raise (update_status j JOB_STATUS_FAILED (failure ''pipeline_error'' msg) s')
                | (Returned result, s') \<Rightarrow> commit_or_raise (update_status j JOB_STATUS_SUCCEEDED (success result) s'))))"

definition run_job ::
  "(matter \<Rightarrow> uuid \<Rightarrow> db \<Rightarrow> string pipeline) \<Rightarrow> (string list \<Rightarrow> string + vector list) \<Rightarrow> string \<Rightarrow> (nat \<Rightarrow> uuid)
    \<Rightarrow> uuid \<Rightarrow> db \<Rightarrow> int \<Rightarrow> int \<Rightarrow> run_result \<times> db" where
  "run_job export embed_texts backend fresh jid d t1 t2 =
     (case start_run jid (open_session d t1) of
        Inl r \<Rightarrow> r
      | Inr s \<Rightarrow> finish_run (dispatch export embed_texts backend fresh) jid (open_session (durable s) t2))"

text \<open>The daily sweep, behind its setting.\<close>

definition scheduled_retention_sweep ::
  "bool \<Rightarrow> bool \<Rightarrow> (string \<Rightarrow> 'b \<Rightarrow> (storage_error + nat) \<times> 'b) \<Rightarrow> date \<Rightarrow> nat option \<Rightarrow> 'b \<times> session \<Rightarrow> 'b \<times> session" where
  "scheduled_retention_sweep enabled expires delete today limit bs =
     (if enabled then snd (sweep expires delete True today limit bs) else bs)"

section \<open>How the steps of a run change the job\<close>

lemma update_where_compose:
  assumes "\<And>x. j_id (g x) = j_id x"
  shows "update_where (\<lambda>x. j_id x = i) f (update_where (\<lambda>x. j_id x = i) g rows) = update_where (\<lambda>x. j_id x = i) (f \<circ> g) rows"
  by (simp add: update_where_def assms)

lemma with_status_owner [simp]:
  "j_id (with_status now st u j) = j_id j" "j_created_by_id (with_status now st u j) = j_created_by_id j"
  "j_kind (with_status now st u j) = j_kind j" "j_matter_id (with_status now st u j) = j_matter_id j"
  "j_status (with_status now st u j) = st"
  by (simp_all add: with_status_def)

lemma job_tables [simp, frame_simps]:
  "jobs (set_job i f d) = update_where (\<lambda>x. j_id x = i) f (jobs d)"
  "matters (set_job i f d) = matters d"
  "audit_rows (set_job i f d) = audit_rows d"
  "documents (set_job i f d) = documents d"
  "jobs (set_document did g d) = jobs d"
  "jobs (drop_chunks did d) = jobs d"
  "matters (set_document did g d) = matters d"
  "matters (drop_chunks did d) = matters d"
  by (simp_all add: set_job_def set_document_def drop_chunks_def)

lemma update_status_session [simp]:
  "jobs (working (update_status j st u s)) = update_where (\<lambda>x. j_id x = j_id j) (with_status (clock s) st u) (jobs (working s))"
  "matters (working (update_status j st u s)) = matters (working s)"
  "durable (update_status j st u s) = durable s"
  "clock (update_status j st u s) = clock s"
  by (simp_all add: update_status_def)

lemma find_job_update:
  assumes "\<And>x. j_id (f x) = j_id x" and "jobs d' = update_where (\<lambda>x. j_id x = i) f (jobs d)"
  shows "find_job i d' = map_option f (find_job i d)"
proof -
  have "find (\<lambda>j. j_id j = i) (update_where (\<lambda>x. j_id x = i) f rows) = map_option f (find (\<lambda>j. j_id j = i) rows)" for rows
    by (induction rows) (auto simp: assms(1))
  then show ?thesis by (simp add: find_job_def assms(2))
qed

lemma find_job_id: "find_job i d = Some j \<Longrightarrow> j_id j = i"
  unfolding find_job_def using find_SomeD by fastforce

lemma add_chunks_jobs: "add_chunks fresh doc vs cs d = (r, d') \<Longrightarrow> jobs d' = jobs d \<and> matters d' = matters d"
proof (induction cs arbitrary: d)
  case (Cons c cs)
  show ?case
  proof (cases "vs (ch_index c)")
    case None
    with Cons.prems show ?thesis by simp
  next
    case (Some v)
    with Cons.prems Cons.IH [of "d\<lparr>doc_chunks := doc_chunks d @ [chunk_row (fresh (ch_index c)) doc c v]\<rparr>"] show ?thesis by simp
  qed
qed simp

lemma index_document_session:
  assumes "index_document embed_texts fresh doc s = (r, s')"
  shows "jobs (working s') = jobs (working s)" and "matters (working s') = matters (working s)"
    and "durable s' = durable s" and "clock s' = clock s"
  using assms by (auto simp: index_document_def Let_def dest: add_chunks_jobs split: sum.splits chunk_error.splits if_splits prod.splits)

text \<open>The pipelines touch no more of a job than its stage and progress, and commit that.\<close>

definition staged :: "string \<Rightarrow> int \<Rightarrow> job \<Rightarrow> job" where
  "staged stage p j = j\<lparr>j_stage := Some stage, j_progress := Some p\<rparr>"

definition stage_step :: "(job \<Rightarrow> job) \<Rightarrow> bool" where
  "stage_step g \<longleftrightarrow> g = id \<or> (\<exists>stage p. length stage \<le> 128 \<and> g = staged stage p)"

lemma stage_step_keeps:
  assumes "stage_step g"
  shows "j_id (g x) = j_id x" "j_status (g x) = j_status x" "j_kind (g x) = j_kind x" "j_created_by_id (g x) = j_created_by_id x"
    "j_matter_id (g x) = j_matter_id x" "j_started_at (g x) = j_started_at x" "j_finished_at (g x) = j_finished_at x"
    "j_error_code (g x) = j_error_code x" "j_error_message (g x) = j_error_message x" "row_fits x \<Longrightarrow> row_fits (g x)"
  using assms by (auto simp: stage_step_def staged_def row_fits_def within_def)

lemma update_stage_jobs:
  "jobs (working (update_stage j stage (Some p) s)) = update_where (\<lambda>x. j_id x = j_id j) (staged stage p) (jobs (working s))"
  "matters (working (update_stage j stage (Some p) s)) = matters (working s)"
  "clock (update_stage j stage (Some p) s) = clock s"
  by (simp_all add: update_stage_def orelse_def staged_def [abs_def])

lemma update_where_id [simp]: "update_where P id rows = rows"
  by (induction rows) simp_all

lemma dispatch_session:
  assumes "dispatch export embed_texts backend fresh j m s = (r, s')" and "durable s = working s"
  obtains g where "stage_step g" and "jobs (working s') = update_where (\<lambda>x. j_id x = j_id j) g (jobs (working s))"
    and "jobs (durable s') = jobs (working s')" and "clock s' = clock s"
proof -
  consider "s' = s" | stage p where "length stage \<le> 128" "jobs (working s') = jobs (working (update_stage j stage (Some p) s))"
      "jobs (durable s') = jobs (working s')" "clock s' = clock s"
  proof (cases "j_kind j = JOB_KIND_EXPORT")
    case True
    with assms(1) have "s' = commit (update_stage j ''building_zip'' (Some 10) s)"
      by (simp add: dispatch_def export_job_def Let_def)
    then show thesis by (intro that(2) [of "''building_zip''" 10]) (simp_all add: update_stage_jobs)
  next
    case False
    show thesis
    proof (cases "s' = s")
      case False
      note ns = this
      have idx: "dispatch export embed_texts backend fresh j m s = index_job embed_texts backend fresh j m s"
        using assms(1) \<open>j_kind j \<noteq> JOB_KIND_EXPORT\<close> ns by (auto simp: dispatch_def split: if_splits)
      from assms(1) ns have "index_job embed_texts backend fresh j m s = (r, s')" "s' \<noteq> s" unfolding idx by simp_all
      then obtain did where did: "jget ''document_id'' (j_input_payload j) = Some (JStr did)" "did \<noteq> []"
        by (auto simp: index_job_def split: option.splits json.splits if_splits)
      let ?s1 = "commit (update_stage j ''embedding'' (Some 50) s)"
      have run: "(r, s') = (case find (\<lambda>x. doc_id x = did \<and> doc_matter_id x = m_id m) (documents (working ?s1)) of
              None \<Rightarrow> (Raised (document_missing did m), ?s1)
            | Some doc \<Rightarrow> (case index_document embed_texts fresh doc ?s1 of
                   (Inl msg, s2) \<Rightarrow> (Raised msg, s2)
                 | (Inr st, s2) \<Rightarrow>
                     (Returned (JObj [(''document_id'', JStr (doc_id doc)), (''index_status'', JStr st)]),
                      audit_log (indexed_event backend j m doc st) s2)))"
        using assms(1) idx by (simp add: index_job_def did Let_def)
      have "jobs (working s') = jobs (working ?s1) \<and> jobs (durable s') = jobs (working s') \<and> clock s' = clock ?s1"
      proof (cases "find (\<lambda>x. doc_id x = did \<and> doc_matter_id x = m_id m) (documents (working ?s1))")
        case None
        with run show ?thesis by simp
      next
        case (Some doc)
        obtain r2 s2 where i: "index_document embed_texts fresh doc ?s1 = (r2, s2)" by fastforce
        note f = index_document_session [OF i]
        show ?thesis using run [unfolded Some option.case i prod.case] f by (cases r2) simp_all
      qed
      then show thesis by (intro that(2) [of "''embedding''" 50]) (simp_all add: update_stage_jobs)
    qed (rule that(1))
  qed
  then show thesis
  proof cases
    case 1
    then show ?thesis using assms(2) by (intro that [of id]) (simp_all add: stage_step_def)
  next
    case (2 stage p)
    then show ?thesis by (intro that [of "staged stage p"]) (auto simp: stage_step_def update_stage_jobs)
  qed
qed

section \<open>What a run leaves behind\<close>

definition started :: "int \<Rightarrow> job \<Rightarrow> job" where
  "started t = with_status t JOB_STATUS_RUNNING no_update"

lemma started_owner [simp]:
  "j_id (started t j) = j_id j" "j_kind (started t j) = j_kind j" "j_created_by_id (started t j) = j_created_by_id j"
  "j_matter_id (started t j) = j_matter_id j" "j_status (started t j) = JOB_STATUS_RUNNING"
  by (simp_all add: started_def)

definition all_fit :: "db \<Rightarrow> bool" where
  "all_fit d \<longleftrightarrow> list_all row_fits (jobs d)"

lemma commit_jobs_Some: "commit_jobs s = Some s' \<longleftrightarrow> all_fit (working s) \<and> s' = commit s"
  by (auto simp: commit_jobs_def all_fit_def)

lemma commit_or_raise_cases:
  "commit_or_raise s = (if all_fit (working s) then (Finished, working s) else (DataError, durable s))"
  by (simp add: commit_or_raise_def commit_jobs_def all_fit_def)

lemma all_fit_update: "all_fit d \<Longrightarrow> (\<And>x. row_fits x \<Longrightarrow> row_fits (f x)) \<Longrightarrow> jobs d' = update_where P f (jobs d) \<Longrightarrow> all_fit d'"
  by (auto simp: all_fit_def list_all_iff set_update_where)

datatype run_move = Kept | Stuck "job \<Rightarrow> job" | Ended "job \<Rightarrow> job" string job_update

fun move_fun :: "int \<Rightarrow> int \<Rightarrow> run_move \<Rightarrow> job \<Rightarrow> job" where
  "move_fun t1 t2 Kept = id"
| "move_fun t1 t2 (Stuck g) = g \<circ> started t1"
| "move_fun t1 t2 (Ended g st u) = with_status t2 st u \<circ> g"

fun move_ok :: "int \<Rightarrow> run_move \<Rightarrow> bool" where
  "move_ok t1 Kept = True"
| "move_ok t1 (Stuck g) = stage_step g"
| "move_ok t1 (Ended g st u) = (st \<in> {JOB_STATUS_FAILED, JOB_STATUS_SUCCEEDED} \<and> (\<exists>h. stage_step h \<and> g = h \<circ> started t1))"

lemma run_job_effect:
  assumes "run_job export embed_texts backend fresh jid d t1 t2 = (r, d')" and "find_job jid d = Some j"
  shows "(\<exists>u. r = Finished \<and> jobs d' = update_where (\<lambda>x. j_id x = jid) (with_status t1 JOB_STATUS_FAILED u) (jobs d) \<and> all_fit d'
           \<and> ju_error_code u \<noteq> None)
    \<or> (\<exists>mv. move_ok t1 mv \<and> jobs d' = update_where (\<lambda>x. j_id x = jid) (move_fun t1 t2 mv) (jobs d)
        \<and> (r = Finished \<longleftrightarrow> (\<exists>g st u. mv = Ended g st u)) \<and> (all_fit d \<or> mv \<noteq> Kept \<longrightarrow> all_fit d'))"
proof -
  have jid: "j_id j = jid" using find_job_id [OF assms(2)] .
  let ?s = "open_session d t1"
  have w: "working ?s = d" "durable ?s = d" "clock ?s = t1" by (simp_all add: open_session_def)
  have fj: "find_job jid (working ?s) = Some j" by (simp add: w assms(2))
  have kept: "move_ok t1 Kept \<and> jobs d' = update_where (\<lambda>x. j_id x = jid) (move_fun t1 t2 Kept) (jobs d)
      \<and> (all_fit d \<or> Kept \<noteq> Kept \<longrightarrow> all_fit d')" if "d' = d" using that by simp
  show ?thesis
  proof (cases "find (\<lambda>m. m_id m = j_matter_id j) (matters (working ?s))")
    case None
    define u where "u = failure ''matter_not_found'' (''matter '' @ j_matter_id j @ '' not found'')"
    have "(r, d') = commit_or_raise (update_status j JOB_STATUS_FAILED u ?s)"
      using assms(1) unfolding run_job_def start_run_def fj option.case None u_def by simp
    moreover have "ju_error_code u \<noteq> None" by (simp add: u_def failure_def)
    ultimately show ?thesis
    proof (cases "all_fit (working (update_status j JOB_STATUS_FAILED u ?s))")
      case True
      with \<open>(r, d') = _\<close> \<open>ju_error_code u \<noteq> None\<close> show ?thesis
        by (intro disjI1 exI [where x = u]) (simp add: commit_or_raise_cases w jid)
    next
      case False
      with \<open>(r, d') = _\<close> have "r = DataError" "d' = d" by (simp_all add: commit_or_raise_cases w)
      with kept show ?thesis by (intro disjI2 exI [where x = Kept]) simp
    qed
  next
    case (Some m)
    let ?s1 = "update_status j JOB_STATUS_RUNNING no_update ?s"
    have j1: "jobs (working ?s1) = update_where (\<lambda>x. j_id x = jid) (started t1) (jobs d)"
      by (simp add: w jid started_def)
    show ?thesis
    proof (cases "all_fit (working ?s1)")
      case False
      then have "start_run jid ?s = Inl (DataError, durable ?s)"
        unfolding start_run_def fj option.case Some by (simp add: commit_jobs_def all_fit_def)
      with assms(1) have "d' = d \<and> r = DataError" by (simp add: run_job_def w)
      with kept show ?thesis by (intro disjI2 exI [where x = Kept]) simp
    next
      case True
      then have st: "start_run jid ?s = Inr (commit ?s1)"
        unfolding start_run_def fj option.case Some by (simp add: commit_jobs_def all_fit_def)
      define s2 where "s2 = open_session (working ?s1) t2"
      have w2: "working s2 = working ?s1" "durable s2 = working ?s1" "clock s2 = t2" by (simp_all add: s2_def open_session_def)
      have fin: "(r, d') = finish_run (dispatch export embed_texts backend fresh) jid s2"
        using assms(1) by (simp add: run_job_def st s2_def)
      have "find_job jid (working s2) = Some (started t1 j)"
        unfolding w2 using find_job_update [OF _ j1] assms(2) by simp
      moreover have "find (\<lambda>m. m_id m = j_matter_id (started t1 j)) (matters (working s2)) = Some m"
        using Some by (simp add: w2 w)
      moreover obtain q s3 where q: "dispatch export embed_texts backend fresh (started t1 j) m s2 = (q, s3)" by fastforce
      ultimately have fr: "(r, d') = (case q of Cancelled \<Rightarrow> (RunCancelled, durable s3)
          | Raised msg \<Rightarrow> commit_or_raise (update_status (started t1 j) JOB_STATUS_FAILED (failure ''pipeline_error'' msg) s3)
          | Returned result \<Rightarrow> commit_or_raise (update_status (started t1 j) JOB_STATUS_SUCCEEDED (success result) s3))"
        using fin by (simp add: finish_run_def split: pipeline.splits)
      have same: "durable s2 = working s2" by (simp add: w2)
      obtain g where g: "stage_step g" "jobs (working s3) = update_where (\<lambda>x. j_id x = jid) g (jobs (working s2))"
        "jobs (durable s3) = jobs (working s3)" "clock s3 = t2"
        by (rule dispatch_session [OF q same]) (use jid w2 that in auto)
      have j3: "jobs (working s3) = update_where (\<lambda>x. j_id x = jid) (g \<circ> started t1) (jobs d)"
        unfolding g(2) w2 j1 by (rule update_where_compose) simp
      have fit3: "all_fit (durable s3)"
        using all_fit_update [OF True, of g "durable s3" "\<lambda>x. j_id x = jid"] stage_step_keeps(10) [OF g(1)] g(2,3) w2 by simp
      have stuck: "move_ok t1 (Stuck g) \<and> jobs (durable s3) = update_where (\<lambda>x. j_id x = jid) (move_fun t1 t2 (Stuck g)) (jobs d)"
        using g(1,3) j3 by simp
      have ended: "move_ok t1 (Ended (g \<circ> started t1) st u)
          \<and> jobs (working (update_status (started t1 j) st u s3)) = update_where (\<lambda>x. j_id x = jid) (move_fun t1 t2 (Ended (g \<circ> started t1) st u)) (jobs d)"
        if "st \<in> {JOB_STATUS_FAILED, JOB_STATUS_SUCCEEDED}" for st u
        using that g(1,4) jid update_where_compose [of "g \<circ> started t1" jid "with_status t2 st u" "jobs d"]
          stage_step_keeps(1) [OF g(1)] by (auto simp: j3)
      have commit: "\<exists>mv. move_ok t1 mv \<and> jobs d' = update_where (\<lambda>x. j_id x = jid) (move_fun t1 t2 mv) (jobs d)
          \<and> (r = Finished \<longleftrightarrow> (\<exists>g st u. mv = Ended g st u)) \<and> (all_fit d \<or> mv \<noteq> Kept \<longrightarrow> all_fit d')"
        if "(r, d') = commit_or_raise (update_status (started t1 j) st u s3)" and "st \<in> {JOB_STATUS_FAILED, JOB_STATUS_SUCCEEDED}" for st u
      proof (cases "all_fit (working (update_status (started t1 j) st u s3))")
        case True
        with that(1) have "r = Finished" "d' = working (update_status (started t1 j) st u s3)" by (simp_all add: commit_or_raise_cases)
        with ended [OF that(2), of u] True show ?thesis by (intro exI [where x = "Ended (g \<circ> started t1) st u"]) simp
      next
        case False
        with that(1) have "r = DataError" "d' = durable s3" by (simp_all add: commit_or_raise_cases)
        with stuck fit3 show ?thesis by (intro exI [where x = "Stuck g"]) simp
      qed
      show ?thesis
      proof (cases q)
        case (Returned x)
        with fr commit [of JOB_STATUS_SUCCEEDED] show ?thesis by simp
      next
        case (Raised msg)
        with fr commit [of JOB_STATUS_FAILED] show ?thesis by simp
      next
        case Cancelled
        with fr stuck fit3 show ?thesis by (intro disjI2 exI [where x = "Stuck g"]) simp
      qed
    qed
  qed
qed
section \<open>Reachable job tables\<close>

text \<open>
  The databases the job operations lead to: jobs are created under a cap and committed, a queued
  job may fail to be enqueued, the worker runs a job whose id it is handed while the job is
  active, and every other service leaves the table alone.
\<close>

inductive job_db ::
  "int \<Rightarrow> (matter \<Rightarrow> uuid \<Rightarrow> db \<Rightarrow> string pipeline) \<Rightarrow> (string list \<Rightarrow> string + vector list) \<Rightarrow> db \<Rightarrow> bool"
  for cap export embed_texts where
  job_start: "jobs d = [] \<Longrightarrow> job_db cap export embed_texts d"
| job_other: "job_db cap export embed_texts d \<Longrightarrow> jobs d' = jobs d \<Longrightarrow> job_db cap export embed_texts d'"
| job_create: "job_db cap export embed_texts d \<Longrightarrow> find_job jid d = None \<Longrightarrow>
    create_job cap jid mid u kind payload (open_session d t) = (Inr j, s) \<Longrightarrow> commit_jobs s = Some s' \<Longrightarrow>
    job_db cap export embed_texts (durable s')"
| job_enqueue: "job_db cap export embed_texts d \<Longrightarrow> find_job jid d = Some j \<Longrightarrow> j_status j = JOB_STATUS_QUEUED \<Longrightarrow>
    enqueue_or_mark_failed enqueue j (open_session d t) = (r, s) \<Longrightarrow> job_db cap export embed_texts (durable s)"
| job_run: "job_db cap export embed_texts d \<Longrightarrow> find_job jid d = Some j \<Longrightarrow> j_status j \<in> set JOB_ACTIVE_STATUSES \<Longrightarrow>
    run_job export embed_texts backend fresh jid d t1 t2 = (res, d') \<Longrightarrow> job_db cap export embed_texts d'"

definition lifecycle :: "job \<Rightarrow> bool" where
  "lifecycle j \<longleftrightarrow>
     (j_status j = JOB_STATUS_QUEUED \<and> j_started_at j = None \<and> j_finished_at j = None
      \<or> j_status j = JOB_STATUS_RUNNING \<and> j_started_at j \<noteq> None \<and> j_finished_at j = None
      \<or> j_status j \<in> {JOB_STATUS_SUCCEEDED, JOB_STATUS_FAILED} \<and> j_finished_at j \<noteq> None)"

definition jobs_ok :: "int \<Rightarrow> db \<Rightarrow> bool" where
  "jobs_ok cap d \<longleftrightarrow> distinct (map j_id (jobs d)) \<and> all_fit d \<and> (\<forall>j \<in> set (jobs d). lifecycle j)
     \<and> (\<forall>u. get_active_job_count u BACKGROUND_JOB_KINDS d \<le> max 0 cap)"

text \<open>A step that rewrites one active row without changing whose it is.\<close>

lemma jobs_ok_update:
  assumes "jobs_ok cap d" and "find_job jid d = Some j" and "j_status j \<in> set JOB_ACTIVE_STATUSES"
    and "jobs d' = update_where (\<lambda>x. j_id x = jid) f (jobs d)" and "all_fit d'"
    and "j_id (f j) = j_id j" and "j_created_by_id (f j) = j_created_by_id j" and "j_kind (f j) = j_kind j" and "lifecycle (f j)"
  shows "jobs_ok cap d'"
proof -
  have j: "j \<in> set (jobs d)" "j_id j = jid" using assms(2) find_SomeD unfolding find_job_def by fastforce+
  have uniq: "x = j" if "x \<in> set (jobs d)" "j_id x = jid" for x
    using assms(1) j that by (auto simp: jobs_ok_def distinct_map inj_on_def)
  have upd: "jobs d' = map (\<lambda>x. if x = j then f j else x) (jobs d)"
    unfolding assms(4) update_where_def
  proof (rule map_cong [OF refl])
    fix x
    assume "x \<in> set (jobs d)"
    note u = uniq [OF this]
    show "(if j_id x = jid then f x else x) = (if x = j then f j else x)"
    proof (cases "x = j")
      case False
      with u have "j_id x \<noteq> jid" by blast
      with False show ?thesis by simp
    qed (simp add: j(2))
  qed
  have "map j_id (jobs d') = map j_id (jobs d)"
    unfolding upd map_map by (rule map_cong) (auto simp: assms(6))
  moreover have "\<forall>x \<in> set (jobs d'). lifecycle x"
    using assms(1,9) unfolding upd jobs_ok_def by auto
  moreover have "get_active_job_count u BACKGROUND_JOB_KINDS d' \<le> get_active_job_count u BACKGROUND_JOB_KINDS d" for u
  proof -
    have "length (filter P (map (\<lambda>x. if x = j then f j else x) rows)) \<le> length (filter P rows)" if "P (f j) \<longrightarrow> P j" for P rows
      using that by (induction rows) auto
    then show ?thesis unfolding get_active_job_count_def upd using assms(3,7,8) by simp
  qed
  ultimately show ?thesis
    using assms(1,5) unfolding jobs_ok_def by (metis order_trans)
qed

lemma lifecycle_moves:
  assumes "lifecycle j"
  shows "st \<in> {JOB_STATUS_FAILED, JOB_STATUS_SUCCEEDED} \<Longrightarrow> lifecycle (with_status t st u j)"
    and "j_status j \<in> set JOB_ACTIVE_STATUSES \<Longrightarrow> stage_step g \<Longrightarrow> lifecycle (g (started t j))"
proof -
  show "st \<in> {JOB_STATUS_FAILED, JOB_STATUS_SUCCEEDED} \<Longrightarrow> lifecycle (with_status t st u j)"
    by (auto simp: lifecycle_def with_status_def finished_status_def job_statuses)
  show "lifecycle (g (started t j))" if "j_status j \<in> set JOB_ACTIVE_STATUSES" "stage_step g"
    using that(1) assms stage_step_keeps [OF that(2), of "started t j"]
    by (auto simp: lifecycle_def started_def with_status_def finished_status_def JOB_ACTIVE_STATUSES_def job_statuses)
qed

lemma jobs_ok_reachable: "job_db cap export embed_texts d \<Longrightarrow> jobs_ok cap d"
proof (induction rule: job_db.induct)
  case (job_start d)
  then show ?case by (simp add: jobs_ok_def all_fit_def get_active_job_count_def)
next
  case (job_other d d')
  then show ?case by (simp add: jobs_ok_def all_fit_def get_active_job_count_def)
next
  case (job_create d jid mid u kind payload t j s s')
  let ?new = "new_job jid mid u kind payload"
  have made: "jobs (working s) = jobs d @ [?new]"
    and cap: "kind \<in> set BACKGROUND_JOB_KINDS \<or> get_active_job_count u BACKGROUND_JOB_KINDS d < cap"
    using job_create.hyps(3) by (auto simp: create_job_def Let_def add_job_def open_session_def split: if_splits)
  have fit: "all_fit (working s)" and s': "s' = commit s" using job_create.hyps(4) by (simp_all add: commit_jobs_Some)
  have "j_id x \<noteq> jid" if "x \<in> set (jobs d)" for x
    using job_create.hyps(2) that find_NoneD unfolding find_job_def by fastforce
  then have "distinct (map j_id (jobs d @ [?new]))"
    using job_create.IH by (auto simp: jobs_ok_def new_job_def)
  moreover have "lifecycle ?new" by (simp add: lifecycle_def new_job_def)
  moreover have "get_active_job_count v BACKGROUND_JOB_KINDS (durable s') \<le> max 0 cap" for v
  proof -
    have le: "get_active_job_count v BACKGROUND_JOB_KINDS d \<le> max 0 cap" using job_create.IH by (simp add: jobs_ok_def)
    have "get_active_job_count v BACKGROUND_JOB_KINDS (durable s')
        = get_active_job_count v BACKGROUND_JOB_KINDS d + (if u = v \<and> kind \<notin> set BACKGROUND_JOB_KINDS then 1 else 0)"
      by (simp add: s' get_active_job_count_def made new_job_def JOB_ACTIVE_STATUSES_def)
    with le cap show ?thesis by auto
  qed
  ultimately show ?case
    using job_create.IH fit by (auto simp: jobs_ok_def s' made all_fit_def)
next
  case (job_enqueue d jid j enqueue t r s)
  have act: "j_status j \<in> set JOB_ACTIVE_STATUSES" using job_enqueue.hyps(3) by (simp add: JOB_ACTIVE_STATUSES_def)
  have lc: "lifecycle j" using job_enqueue.IH job_enqueue.hyps(2) find_SomeD unfolding jobs_ok_def find_job_def by fastforce
  have jid: "j_id j = jid" using find_job_id [OF job_enqueue.hyps(2)] .
  let ?s = "open_session d t"
  have w: "working ?s = d" "durable ?s = d" by (simp_all add: open_session_def)
  show ?case
  proof (cases "enqueue (j_id j)")
    case None
    with job_enqueue w show ?thesis by (simp add: enqueue_or_mark_failed_def)
  next
    case (Some exc)
    define u where "u = no_update\<lparr>ju_error_code := Some ''enqueue_failed'',
      ju_error_message := Some (''Failed to enqueue '' @ j_kind j @ '' job: '' @ exc)\<rparr>"
    define s1 where "s1 = update_status j JOB_STATUS_FAILED u ?s"
    have run: "(r, s) = (case commit_jobs s1 of None \<Rightarrow> (Inl JobRowRefused, rollback s1) | Some s2 \<Rightarrow> (Inl (JobEnqueueFailed (j_id j)), s2))"
      using job_enqueue.hyps(4) unfolding enqueue_or_mark_failed_def Some option.case Let_def s1_def u_def by (rule sym)
    show ?thesis
    proof (cases "all_fit (working s1)")
      case True
      then have "durable s = working s1" using run by (simp add: commit_jobs_def all_fit_def)
      moreover have "jobs (working s1) = update_where (\<lambda>x. j_id x = jid) (with_status t JOB_STATUS_FAILED u) (jobs d)"
        by (simp add: s1_def jid w) (simp add: open_session_def)
      ultimately show ?thesis
        using jobs_ok_update [OF job_enqueue.IH job_enqueue.hyps(2) act, of "durable s" "with_status t JOB_STATUS_FAILED u"]
          lifecycle_moves(1) [OF lc] True by simp
    next
      case False
      then have "durable s = d" using run by (simp add: commit_jobs_def all_fit_def s1_def w)
      with job_enqueue.IH show ?thesis by simp
    qed
  qed
next
  case (job_run d jid j backend fresh t1 t2 res d')
  have lc: "lifecycle j" using job_run.IH job_run.hyps(2) find_SomeD unfolding jobs_ok_def find_job_def by fastforce
  have fit: "all_fit d" using job_run.IH by (simp add: jobs_ok_def)
  note upd = jobs_ok_update [OF job_run.IH job_run.hyps(2,3)]
  from run_job_effect [OF job_run.hyps(4,2)] show ?case
  proof (elim disjE exE conjE)
    fix u
    assume "jobs d' = update_where (\<lambda>x. j_id x = jid) (with_status t1 JOB_STATUS_FAILED u) (jobs d)" and "all_fit d'"
    then show ?thesis
      using lifecycle_moves(1) [OF lc] by (intro upd [of d' "with_status t1 JOB_STATUS_FAILED u"]) simp_all
  next
    fix mv
    assume mv: "move_ok t1 mv" "jobs d' = update_where (\<lambda>x. j_id x = jid) (move_fun t1 t2 mv) (jobs d)"
      "all_fit d \<or> mv \<noteq> Kept \<longrightarrow> all_fit d'"
    show ?thesis
    proof (cases mv)
      case Kept
      with mv lc fit show ?thesis by (intro upd [of d' id]) simp_all
    next
      case (Stuck g)
      with mv lifecycle_moves(2) [OF lc job_run.hyps(3)] fit show ?thesis
        by (intro upd [of d' "move_fun t1 t2 mv"]) (simp_all add: stage_step_keeps)
    next
      case (Ended g st u)
      with mv obtain h where h: "stage_step h" "g = h \<circ> started t1" and st: "st \<in> {JOB_STATUS_FAILED, JOB_STATUS_SUCCEEDED}" by auto
      have "lifecycle (g j)" using lifecycle_moves(2) [OF lc job_run.hyps(3) h(1)] h(2) by simp
      then have "lifecycle (move_fun t1 t2 mv j)" using lifecycle_moves(1) [OF _ st] by (simp add: Ended)
      with mv fit h Ended show ?thesis
        by (intro upd [of d' "move_fun t1 t2 mv"]) (simp_all add: stage_step_keeps)
    qed
  qed
qed

section \<open>When a run ends\<close>

text \<open>What the embedding backend documents: one vector per text.\<close>

definition one_per_text :: "(string list \<Rightarrow> string + vector list) \<Rightarrow> bool" where
  "one_per_text embed_texts \<longleftrightarrow> (\<forall>ts vs. embed_texts ts = Inr vs \<longrightarrow> length vs = length ts)"

lemma embed_batches_total:
  assumes "one_per_text embed_texts"
  shows "case embed_batches embed_texts cs vs of Inl msg \<Rightarrow> \<exists>ts. embed_texts ts = Inl msg | Inr ws \<Rightarrow> dom ws = dom vs \<union> ch_index ` set cs"
  using assms
proof (induction embed_texts cs vs rule: embed_batches.induct)
  case (1 embed_texts cs vs)
  show ?case
  proof (cases "cs = []")
    case True
    then show ?thesis by (subst embed_batches.simps) simp
  next
    case False
    let ?b = "take EMBED_BATCH_SIZE cs"
    show ?thesis
    proof (cases "embed_texts (map ch_text ?b)")
      case (Inl msg)
      then show ?thesis using False by (subst embed_batches.simps) (auto simp: Let_def)
    next
      case (Inr us)
      then have len: "length us = length ?b" using 1(2) unfolding one_per_text_def by fastforce
      have "dom (vs(map ch_index ?b [\<mapsto>] us)) = dom vs \<union> ch_index ` set ?b"
        using len by (auto simp: dom_map_upds)
      moreover have "set cs = set ?b \<union> set (drop EMBED_BATCH_SIZE cs)" by (metis append_take_drop_id set_append)
      ultimately have eq: "dom (vs(map ch_index ?b [\<mapsto>] us)) \<union> ch_index ` set (drop EMBED_BATCH_SIZE cs) = dom vs \<union> ch_index ` set cs"
        by blast
      have step: "embed_batches embed_texts cs vs = embed_batches embed_texts (drop EMBED_BATCH_SIZE cs) (vs(map ch_index ?b [\<mapsto>] us))"
        by (subst embed_batches.simps) (simp add: False Inr Let_def)
      show ?thesis unfolding step using 1(1) [OF False refl Inr 1(2)] unfolding eq .
    qed
  qed
qed

lemma add_chunks_total: "\<forall>c \<in> set cs. vs (ch_index c) \<noteq> None \<Longrightarrow> \<exists>d'. add_chunks fresh doc vs cs d = (Inr (), d')"
  by (induction cs arbitrary: d) auto

lemma index_document_error:
  assumes "index_document embed_texts fresh doc s = (Inl msg, s')" and "one_per_text embed_texts"
  shows "\<exists>ts. embed_texts ts = Inl msg"
proof -
  obtain cs where cs: "chunk_text (body_text (doc_id doc) (working s)) 2000 200 = Inr cs"
    by (cases "chunk_text (body_text (doc_id doc) (working s)) 2000 200") (auto simp: chunk_text_def split: if_splits)
  have ne: "cs \<noteq> []" using assms(1) cs by (auto simp: index_document_def Let_def)
  note tot = embed_batches_total [OF assms(2), where cs = cs and vs = Map.empty]
  show ?thesis
  proof (cases "embed_batches embed_texts cs Map.empty")
    case (Inl m)
    then have "msg = m" using assms(1) ne by (simp add: index_document_def Let_def cs)
    with tot Inl show ?thesis by simp
  next
    case (Inr ws)
    then have "\<forall>c \<in> set cs. ws (ch_index c) \<noteq> None" using tot by auto
    from add_chunks_total [OF this] obtain d' where "add_chunks fresh doc ws cs (working (on_working (drop_chunks (doc_id doc)) s)) = (Inr (), d')"
      by blast
    then have False using assms(1) ne by (simp add: index_document_def Let_def cs Inr)
    then show ?thesis ..
  qed
qed

text \<open>The messages the pipelines raise, when those of the two parameters fit their column.\<close>

definition pipelines_end :: "(matter \<Rightarrow> uuid \<Rightarrow> db \<Rightarrow> string pipeline) \<Rightarrow> (string list \<Rightarrow> string + vector list) \<Rightarrow> bool" where
  "pipelines_end export embed_texts \<longleftrightarrow> one_per_text embed_texts
     \<and> (\<forall>ts msg. embed_texts ts = Inl msg \<longrightarrow> length msg \<le> 2048)
     \<and> (\<forall>m i d. export m i d \<noteq> Cancelled \<and> (\<forall>msg. export m i d = Raised msg \<longrightarrow> length msg \<le> 2048))"

lemma dispatch_ends:
  assumes "dispatch export embed_texts backend fresh j m s = (q, s')" and "pipelines_end export embed_texts"
    and "length (j_kind j) \<le> 64" and "length (m_id m) \<le> 36"
    and "\<And>did. jget ''document_id'' (j_input_payload j) = Some (JStr did) \<Longrightarrow> length did \<le> 36"
  shows "q \<noteq> Cancelled \<and> (\<forall>msg. q = Raised msg \<longrightarrow> length msg \<le> 2048)"
proof (cases "j_kind j = JOB_KIND_EXPORT")
  case True
  have "export m (j_id j) x \<noteq> Cancelled \<and> (\<forall>msg. export m (j_id j) x = Raised msg \<longrightarrow> length msg \<le> 2048)" for x
    using assms(2) by (simp add: pipelines_end_def)
  then show ?thesis
    using assms(1) True by (auto simp: dispatch_def export_job_def Let_def split: pipeline.splits)
next
  case False
  note nexp = this
  show ?thesis
  proof (cases "j_kind j = JOB_KIND_INDEX")
    case True
    have idx: "index_job embed_texts backend fresh j m s = (q, s')"
      using assms(1) nexp True by (simp add: dispatch_def)
    show ?thesis
    proof (cases "\<exists>did. jget ''document_id'' (j_input_payload j) = Some (JStr did) \<and> did \<noteq> []")
      case False
      then have "q = Raised ''index job is missing input_payload['document_id']''"
        using idx by (auto simp: index_job_def split: option.splits json.splits if_splits)
      then show ?thesis by simp
    next
      case True
      then obtain did where did: "jget ''document_id'' (j_input_payload j) = Some (JStr did)" "did \<noteq> []" by blast
      let ?s1 = "commit (update_stage j ''embedding'' (Some 50) s)"
      have run: "(q, s') = (case find (\<lambda>x. doc_id x = did \<and> doc_matter_id x = m_id m) (documents (working ?s1)) of
              None \<Rightarrow> (Raised (document_missing did m), ?s1)
            | Some doc \<Rightarrow> (case index_document embed_texts fresh doc ?s1 of
                   (Inl msg, s2) \<Rightarrow> (Raised msg, s2)
                 | (Inr st, s2) \<Rightarrow>
                     (Returned (JObj [(''document_id'', JStr (doc_id doc)), (''index_status'', JStr st)]),
                      audit_log (indexed_event backend j m doc st) s2)))"
        using idx by (simp add: index_job_def did Let_def)
      show ?thesis
      proof (cases "find (\<lambda>x. doc_id x = did \<and> doc_matter_id x = m_id m) (documents (working ?s1))")
        case None
        with run have "q = Raised (document_missing did m)" unfolding None option.case by simp
        then show ?thesis using assms(4) assms(5) [OF did(1)] by (simp add: document_missing_def)
      next
        case (Some doc)
        obtain r2 s2 where i: "index_document embed_texts fresh doc ?s1 = (r2, s2)" by fastforce
        show ?thesis
        proof (cases r2)
          case (Inl msg)
          from index_document_error [OF i [unfolded Inl]] assms(2) have "length msg \<le> 2048"
            unfolding pipelines_end_def by blast
          then show ?thesis using run [unfolded Some option.case i Inl prod.case sum.case] by simp
        next
          case (Inr st)
          then show ?thesis using run [unfolded Some option.case i Inr prod.case sum.case] by simp
        qed
      qed
    qed
  next
    case False
    with nexp assms(1,3) show ?thesis by (auto simp: dispatch_def)
  qed
qed

lemma row_fits_status:
  assumes "row_fits x" and "length st \<le> 32" and "within 128 (ju_stage u)" and "within 128 (ju_error_code u)" and "within 2048 (ju_error_message u)"
  shows "row_fits (with_status t st u x)"
  using assms by (auto simp: row_fits_def with_status_def within_def orelse_def split: option.splits)

lemma started_fits: "row_fits x \<Longrightarrow> row_fits (started t x)"
  unfolding started_def by (rule row_fits_status) (simp_all add: no_update_def within_def job_statuses)

lemma failure_fits: "row_fits x \<Longrightarrow> length code \<le> 128 \<Longrightarrow> length msg \<le> 2048 \<Longrightarrow> row_fits (with_status t JOB_STATUS_FAILED (failure code msg) x)"
  by (rule row_fits_status) (simp_all add: failure_def no_update_def within_def job_statuses)

lemma success_fits: "row_fits x \<Longrightarrow> row_fits (with_status t JOB_STATUS_SUCCEEDED (success p) x)"
  by (rule row_fits_status) (simp_all add: success_def no_update_def within_def job_statuses)

lemma run_finishes:
  assumes "find_job jid d = Some j" and "all_fit d" and "length (j_matter_id j) \<le> 36"
    and "\<And>m s q s'. m_id m = j_matter_id j \<Longrightarrow> dispatch export embed_texts backend fresh (started t1 j) m s = (q, s')
      \<Longrightarrow> q \<noteq> Cancelled \<and> (\<forall>msg. q = Raised msg \<longrightarrow> length msg \<le> 2048)"
  shows "fst (run_job export embed_texts backend fresh jid d t1 t2) = Finished"
proof -
  have jid: "j_id j = jid" using find_job_id [OF assms(1)] .
  let ?s = "open_session d t1"
  have w: "working ?s = d" "durable ?s = d" "clock ?s = t1" by (simp_all add: open_session_def)
  have fj: "find_job jid (working ?s) = Some j" by (simp add: w assms(1))
  show ?thesis
  proof (cases "find (\<lambda>m. m_id m = j_matter_id j) (matters (working ?s))")
    case None
    have "all_fit (working (update_status j JOB_STATUS_FAILED (failure ''matter_not_found'' (''matter '' @ j_matter_id j @ '' not found'')) ?s))"
      by (rule all_fit_update [OF assms(2) failure_fits]) (use assms(3) in \<open>simp_all add: w\<close>)
    then show ?thesis
      unfolding run_job_def start_run_def fj option.case None by (simp add: commit_or_raise_cases)
  next
    case (Some m)
    let ?s1 = "update_status j JOB_STATUS_RUNNING no_update ?s"
    have j1: "jobs (working ?s1) = update_where (\<lambda>x. j_id x = jid) (started t1) (jobs d)" by (simp add: w jid started_def)
    have fit1: "all_fit (working ?s1)" by (rule all_fit_update [OF assms(2) started_fits j1])
    then have st: "start_run jid ?s = Inr (commit ?s1)"
      unfolding start_run_def fj option.case Some by (simp add: commit_jobs_def all_fit_def)
    define s2 where "s2 = open_session (working ?s1) t2"
    have w2: "working s2 = working ?s1" "durable s2 = working s2" by (simp_all add: s2_def open_session_def)
    obtain q s3 where q: "dispatch export embed_texts backend fresh (started t1 j) m s2 = (q, s3)" by fastforce
    have "find_job jid (working s2) = Some (started t1 j)"
      unfolding w2 using find_job_update [OF _ j1] assms(1) by simp
    moreover have "find (\<lambda>m. m_id m = j_matter_id (started t1 j)) (matters (working s2)) = Some m" using Some by (simp add: w2 w)
    ultimately have fr: "run_job export embed_texts backend fresh jid d t1 t2 = (case q of Cancelled \<Rightarrow> (RunCancelled, durable s3)
        | Raised msg \<Rightarrow> commit_or_raise (update_status (started t1 j) JOB_STATUS_FAILED (failure ''pipeline_error'' msg) s3)
        | Returned result \<Rightarrow> commit_or_raise (update_status (started t1 j) JOB_STATUS_SUCCEEDED (success result) s3))"
      using q by (simp add: run_job_def st s2_def finish_run_def split: pipeline.splits)
    have "m_id m = j_matter_id j" using Some find_SomeD by fastforce
    from assms(4) [OF this q] have qq: "q \<noteq> Cancelled" "\<And>msg. q = Raised msg \<Longrightarrow> length msg \<le> 2048" by auto
    obtain g where g: "stage_step g" "jobs (working s3) = update_where (\<lambda>x. j_id x = jid) g (jobs (working s2))"
      by (rule dispatch_session [OF q w2(2)]) (use jid that in auto)
    have fit3: "all_fit (working s3)"
      using all_fit_update [OF fit1, of g "working s3" "\<lambda>x. j_id x = jid"] stage_step_keeps(10) [OF g(1)] g(2) w2 by simp
    show ?thesis
    proof (cases q)
      case (Returned p)
      have "all_fit (working (update_status (started t1 j) JOB_STATUS_SUCCEEDED (success p) s3))"
        by (rule all_fit_update [OF fit3 success_fits]) simp_all
      then show ?thesis by (simp add: fr Returned commit_or_raise_cases)
    next
      case (Raised msg)
      have "all_fit (working (update_status (started t1 j) JOB_STATUS_FAILED (failure ''pipeline_error'' msg) s3))"
        by (rule all_fit_update [OF fit3 failure_fits]) (use qq(2) Raised in simp_all)
      then show ?thesis by (simp add: fr Raised commit_or_raise_cases)
    qed (use qq in simp)
  qed
qed

section \<open>Properties\<close>

definition quiet_export :: "matter \<Rightarrow> uuid \<Rightarrow> db \<Rightarrow> string pipeline" where
  "quiet_export m i d = Returned ''key''"

definition queued_db :: db where
  "queued_db = one_matter\<lparr>jobs := [sample_job ''j'' ''a'']\<rparr>"

lemma queued_db_reachable: "job_db 1 export embed_texts queued_db"
proof -
  have start: "job_db 1 export embed_texts one_matter" by (rule job_start) (simp add: one_matter_def empty_db_def)
  let ?s = "open_session one_matter 0"
  obtain s where s: "create_job 1 ''j'' ''a'' ''u'' ''export'' (JObj []) ?s = (Inr (sample_job ''j'' ''a''), s)"
    and made: "jobs (working s) = [sample_job ''j'' ''a'']"
    by (simp add: create_job_def get_active_job_count_def open_session_def one_matter_def empty_db_def sample_job_def
        add_job_def Let_def)
  have fits: "row_fits (sample_job ''j'' ''a'')"
    by (simp add: row_fits_def sample_job_def new_job_def within_def job_statuses)
  then have "commit_jobs s = Some (commit s)" by (simp add: commit_jobs_def made)
  from job_create [OF start _ s this] have "job_db 1 export embed_texts (durable (commit s))"
    by (simp add: find_job_def one_matter_def empty_db_def)
  then show ?thesis by (rule job_other) (simp add: made queued_db_def)
qed





text \<open>C21. A run ends: when the export and the embedding backend return or raise messages that fit their
  column, running an active job of a reachable database finishes, and the job is succeeded, or
  failed with an error code, at an instant; no other job is touched.\<close>

theorem runs_end:
  assumes "job_db cap export embed_texts d" and "find_job jid d = Some j" and "j_status j \<in> set JOB_ACTIVE_STATUSES"
    and "pipelines_end export embed_texts" and "length (j_matter_id j) \<le> 36"
    and "\<And>did. jget ''document_id'' (j_input_payload j) = Some (JStr did) \<Longrightarrow> length did \<le> 36"
  shows "\<exists>d' j'. run_job export embed_texts backend fresh jid d t1 t2 = (Finished, d') \<and> find_job jid d' = Some j'
    \<and> j_status j' \<in> {JOB_STATUS_SUCCEEDED, JOB_STATUS_FAILED} \<and> j_finished_at j' \<noteq> None
    \<and> (\<forall>i. i \<noteq> jid \<longrightarrow> find_job i d' = find_job i d)"
proof -
  have fit: "all_fit d" using jobs_ok_reachable [OF assms(1)] by (simp add: jobs_ok_def)
  then have kind: "length (j_kind j) \<le> 64"
    using assms(2) find_SomeD unfolding find_job_def all_fit_def list_all_iff row_fits_def by fastforce
  obtain d' where run: "run_job export embed_texts backend fresh jid d t1 t2 = (Finished, d')"
  proof -
    have "fst (run_job export embed_texts backend fresh jid d t1 t2) = Finished"
    proof (rule run_finishes [OF assms(2) fit assms(5)])
      fix m s q s'
      assume "m_id m = j_matter_id j" and "dispatch export embed_texts backend fresh (started t1 j) m s = (q, s')"
      then show "q \<noteq> Cancelled \<and> (\<forall>msg. q = Raised msg \<longrightarrow> length msg \<le> 2048)"
        using assms(4-6) kind by (intro dispatch_ends [of export embed_texts backend fresh "started t1 j" m s q s'])
          (simp_all add: started_def with_status_def)
    qed
    with that show thesis by (metis prod.collapse)
  qed
  have other: "find_job i x = find_job i d" if "jobs x = update_where (\<lambda>y. j_id y = jid) f (jobs d)" "\<And>y. j_id (f y) = j_id y" "i \<noteq> jid" for f x i
  proof -
    have "find (\<lambda>y. j_id y = i) (update_where (\<lambda>y. j_id y = jid) f rows) = find (\<lambda>y. j_id y = i) rows" for rows
      using that(2,3) by (induction rows) auto
    then show ?thesis by (simp add: find_job_def that(1))
  qed
  obtain st u g t where f: "jobs d' = update_where (\<lambda>x. j_id x = jid) (with_status t st u \<circ> g) (jobs d)"
    "st \<in> {JOB_STATUS_SUCCEEDED, JOB_STATUS_FAILED}" "\<And>x. j_id (g x) = j_id x"
  proof -
    from run_job_effect [OF run assms(2)] consider u where "jobs d' = update_where (\<lambda>x. j_id x = jid) (with_status t1 JOB_STATUS_FAILED u) (jobs d)"
      | mv g st u where "mv = Ended g st u" "move_ok t1 mv" "jobs d' = update_where (\<lambda>x. j_id x = jid) (move_fun t1 t2 mv) (jobs d)"
      by blast
    then show thesis
    proof cases
      case 1
      then show thesis by (intro that [of t1 JOB_STATUS_FAILED u id]) simp_all
    next
      case 2
      then show thesis by (intro that [of t2 st u g]) (auto simp: stage_step_keeps)
    qed
  qed
  have "find_job jid d' = Some (with_status t st u (g j))"
    using find_job_update [OF _ f(1)] assms(2) f(3) by simp
  moreover have "j_finished_at (with_status t st u (g j)) \<noteq> None"
    using f(2) by (auto simp: with_status_def finished_status_def job_statuses)
  ultimately show ?thesis using run f other [OF f(1)] by auto
qed

theorem runs_end_witness:
  "\<exists>d' j'. run_job quiet_export one_vector ''hash'' (\<lambda>_. ''c'') ''j'' queued_db 1 2 = (Finished, d')
     \<and> find_job ''j'' d' = Some j' \<and> j_finished_at j' \<noteq> None"
proof -
  have "find_job ''j'' queued_db = Some (sample_job ''j'' ''a'')"
    by (simp add: find_job_def queued_db_def sample_job_def new_job_def)
  moreover have "j_status (sample_job ''j'' ''a'') \<in> set JOB_ACTIVE_STATUSES"
    by (simp add: sample_job_def new_job_def JOB_ACTIVE_STATUSES_def)
  moreover have "pipelines_end quiet_export one_vector"
    by (simp add: pipelines_end_def one_per_text_def quiet_export_def one_vector_def)
  ultimately show ?thesis
    using runs_end [OF queued_db_reachable, of "''j''" "sample_job ''j'' ''a''" quiet_export one_vector "''hash''" "\<lambda>_. ''c''" 1 2]
    by (simp add: sample_job_def new_job_def jget_def) blast
qed

text \<open>A run that dies wedges the job. When an export is cancelled, as the queue does after its
  timeout, or raises a message longer than the column of the message, the job stays running: it
  holds a slot of its user, its matter cannot be deleted by anyone's request from then on, and the
  run ends without an end of the job being recorded.\<close>

theorem dead_runs_wedge_the_job:
  assumes "find_job jid d = Some j" and "all_fit d" and "j_kind j = JOB_KIND_EXPORT"
    and "find (\<lambda>m. m_id m = j_matter_id j) (matters d) = Some m"
    and "\<And>x. export m jid x = Cancelled \<or> (\<exists>msg. export m jid x = Raised msg \<and> 2048 < length msg)"
  shows "\<exists>r d' j'. run_job export embed_texts backend fresh jid d t1 t2 = (r, d') \<and> r \<noteq> Finished
    \<and> find_job jid d' = Some j' \<and> j_status j' = JOB_STATUS_RUNNING \<and> j_finished_at j' = j_finished_at j
    \<and> 0 < get_active_job_count (j_created_by_id j) BACKGROUND_JOB_KINDS d'
    \<and> (\<forall>delete :: string \<Rightarrow> bucket \<Rightarrow> (storage_error + nat) \<times> bucket. \<forall>actor act pl w b t.
         \<exists>n > 0. tombstone_matter delete m actor act pl w (b, open_session d' t) = (Inl (MatterHasActiveJobs n), b, open_session d' t))"
proof -
  have jid: "j_id j = jid" using find_job_id [OF assms(1)] .
  let ?s = "open_session d t1"
  have w: "working ?s = d" "durable ?s = d" "clock ?s = t1" by (simp_all add: open_session_def)
  have fj: "find_job jid (working ?s) = Some j" by (simp add: w assms(1))
  have fm: "find (\<lambda>m. m_id m = j_matter_id j) (matters (working ?s)) = Some m" by (simp add: w assms(4))
  let ?s1 = "update_status j JOB_STATUS_RUNNING no_update ?s"
  have j1: "jobs (working ?s1) = update_where (\<lambda>x. j_id x = jid) (started t1) (jobs d)" by (simp add: w jid started_def)
  have fit1: "all_fit (working ?s1)" by (rule all_fit_update [OF assms(2) started_fits j1])
  then have st: "start_run jid ?s = Inr (commit ?s1)"
    unfolding start_run_def fj option.case fm by (simp add: commit_jobs_def all_fit_def)
  define s2 where "s2 = open_session (working ?s1) t2"
  have w2: "working s2 = working ?s1" "durable s2 = working s2" "clock s2 = t2" by (simp_all add: s2_def open_session_def)
  have fj2: "find_job jid (working s2) = Some (started t1 j)"
    unfolding w2 using find_job_update [OF _ j1] assms(1) by simp
  have fm2: "find (\<lambda>m. m_id m = j_matter_id (started t1 j)) (matters (working s2)) = Some m" using fm by (simp add: w2 w)
  define s3 where "s3 = commit (update_stage (started t1 j) ''building_zip'' (Some 10) s2)"
  obtain q where q: "dispatch export embed_texts backend fresh (started t1 j) m s2 = (q, s3)"
    and dead: "q = Cancelled \<or> (\<exists>msg. q = Raised msg \<and> 2048 < length msg)"
    using assms(5) [of "working s3"]
    by (auto simp: dispatch_def assms(3) export_job_def Let_def s3_def [symmetric] jid)
  have j3: "jobs (durable s3) = update_where (\<lambda>x. j_id x = jid) (staged ''building_zip'' 10 \<circ> started t1) (jobs d)"
    "jobs (working s3) = jobs (durable s3)"
    by (simp_all add: s3_def update_stage_jobs jid w2 w started_def [symmetric] update_where_compose del: o_apply)
  let ?f = "staged ''building_zip'' 10 \<circ> started t1"
  have f3: "find_job jid (durable s3) = Some (?f j)"
    using find_job_update [OF _ j3(1)] assms(1) by (simp add: staged_def)
  have "\<exists>r. r \<noteq> Finished \<and> run_job export embed_texts backend fresh jid d t1 t2 = (r, durable s3)"
  proof (cases "q = Cancelled")
    case True
    then show ?thesis using q fj2 fm2 by (simp add: run_job_def st s2_def finish_run_def)
  next
    case False
    with dead obtain msg where msg: "q = Raised msg" "2048 < length msg" by blast
    let ?s4 = "update_status (started t1 j) JOB_STATUS_FAILED (failure ''pipeline_error'' msg) s3"
    have "?f j \<in> set (jobs (working s3))" using f3 find_SomeD unfolding find_job_def j3(2) by fastforce
    then have "with_status (clock s3) JOB_STATUS_FAILED (failure ''pipeline_error'' msg) (?f j) \<in> set (jobs (working ?s4))"
      using jid by (auto simp: set_update_where staged_def)
    moreover have "\<not> row_fits (with_status (clock s3) JOB_STATUS_FAILED (failure ''pipeline_error'' msg) (?f j))"
      using msg(2) by (simp add: row_fits_def with_status_def failure_def within_def orelse_def)
    ultimately have "\<not> all_fit (working ?s4)" by (auto simp: all_fit_def list_all_iff)
    then have "commit_or_raise ?s4 = (DataError, durable s3)" by (simp add: commit_or_raise_cases)
    then show ?thesis using q fj2 fm2 by (simp add: run_job_def st s2_def finish_run_def msg(1))
  qed
  then obtain r where r: "r \<noteq> Finished" "run_job export embed_texts backend fresh jid d t1 t2 = (r, durable s3)" by blast
  have in3: "?f j \<in> set (jobs (durable s3))" using f3 find_SomeD unfolding find_job_def by fastforce
  have running: "j_status (?f j) = JOB_STATUS_RUNNING" "j_finished_at (?f j) = j_finished_at j" "j_kind (?f j) = JOB_KIND_EXPORT"
    "j_created_by_id (?f j) = j_created_by_id j" "j_matter_id (?f j) = m_id m"
    using assms(3,4) find_SomeD by (fastforce simp: staged_def started_def with_status_def)+
  have slot: "0 < get_active_job_count (j_created_by_id j) BACKGROUND_JOB_KINDS (durable s3)"
    and busy: "0 < active_job_count (m_id m) (durable s3)"
    unfolding get_active_job_count_def active_job_count_def of_nat_0_less_iff
    by (rule length_pos_if_in_set [of "?f j"], simp only: set_filter mem_Collect_eq,
        use in3 running in \<open>simp add: JOB_ACTIVE_STATUSES_def BACKGROUND_JOB_KINDS_def JOB_KIND_INDEX_def JOB_KIND_EXPORT_def\<close>)+
  have "\<exists>n > 0. tombstone_matter delete m actor act pl w (b, open_session (durable s3) t)
      = (Inl (MatterHasActiveJobs n), b, open_session (durable s3) t)"
    for delete :: "string \<Rightarrow> bucket \<Rightarrow> (storage_error + nat) \<times> bucket" and actor act pl w b t
  proof -
    have pos: "0 < active_job_count (m_id m) (working (open_session (durable s3) t))" using busy by (simp add: open_session_def)
    show ?thesis by (rule exI, rule conjI, rule pos, rule stuck_step [OF pos])
  qed
  with r f3 running slot show ?thesis by blast
qed

theorem dead_runs_wedge_the_job_witness:
  "\<exists>r d' j'. run_job (\<lambda>_ _ _. Cancelled) one_vector ''hash'' (\<lambda>_. ''c'') ''j'' queued_db 1 2 = (r, d')
     \<and> find_job ''j'' d' = Some j' \<and> j_status j' = ''running''"
proof -
  have "find_job ''j'' queued_db = Some (sample_job ''j'' ''a'')" and "j_kind (sample_job ''j'' ''a'') = JOB_KIND_EXPORT"
    and "find (\<lambda>m. m_id m = j_matter_id (sample_job ''j'' ''a'')) (matters queued_db) = Some (sample_matter_row ''a'' None)"
    by (simp_all add: find_job_def queued_db_def one_matter_def sample_matter_row_def sample_job_def new_job_def JOB_KIND_EXPORT_def)
  moreover have "all_fit queued_db"
    using jobs_ok_reachable [OF queued_db_reachable [of quiet_export one_vector]] by (simp add: jobs_ok_def)
  ultimately show ?thesis
    using dead_runs_wedge_the_job [of "''j''" queued_db "sample_job ''j'' ''a''" "sample_matter_row ''a'' None" "\<lambda>_ _ _. Cancelled"
        one_vector "''hash''" "\<lambda>_. ''c''" 1 2] unfolding JOB_STATUS_RUNNING_def by blast
qed

end
