(* ===== verification/StructuredOutput.thy ===== *)
theory StructuredOutput
  imports Prelude
begin

text \<open>
  The helper that turns a model's reply into a validated object
  (\<open>app/core/structured_output.py\<close>): fences are stripped, the text is parsed, and when that
  fails the first balanced pair of braces is parsed instead. \<open>json.loads\<close> and the schema's
  validation are arguments.
\<close>

datatype structured_error =
    NoObjectFound
  | DecodeFailed
  | NotAnObject
  | ValidationFailed

text \<open>The scan: the depth, the text since the opening brace (reversed) once one is open.\<close>

fun balanced_scan :: "nat \<Rightarrow> string \<Rightarrow> string \<Rightarrow> string option" where
  "balanced_scan depth acc [] = None"
| "balanced_scan depth acc (c # cs) =
     (if c = CHR ''{'' then balanced_scan (Suc depth) (if depth = 0 then [c] else c # acc) cs
      else if c = CHR ''}'' then
        (if depth = 0 then balanced_scan 0 acc cs
         else if depth = 1 then Some (rev (c # acc))
         else balanced_scan (depth - 1) (c # acc) cs)
      else balanced_scan depth (c # acc) cs)"

definition find_first_balanced_object :: "string \<Rightarrow> string option" where
  "find_first_balanced_object text = balanced_scan 0 [] text"

definition fence :: string where
  "fence = replicate 3 (CHR 0x60)"

definition strip_fences :: "string \<Rightarrow> string" where
  "strip_fences raw =
     (let text = py_strip raw in
      if starts_with fence text then
        (let text = (case dropWhile (\<lambda>c. c \<noteq> CHR 0x0A) text of [] \<Rightarrow> text | _ # rest \<Rightarrow> rest);
             text = (if starts_with fence (rev text) then take (length text - 3) text else text)
         in py_strip text)
      else text)"

definition parse_model_json ::
  "(string \<Rightarrow> json option) \<Rightarrow> (json \<Rightarrow> 'm option) \<Rightarrow> string \<Rightarrow> structured_error + 'm" where
  "parse_model_json loads validate raw =
     (let stripped = strip_fences raw;
          parsed = (case loads stripped of
              Some j \<Rightarrow> Inr j
            | None \<Rightarrow>
                (case find_first_balanced_object stripped of
                   None \<Rightarrow> Inl NoObjectFound
                 | Some candidate \<Rightarrow> (case loads candidate of None \<Rightarrow> Inl DecodeFailed | Some j \<Rightarrow> Inr j)))
      in case parsed of
           Inl e \<Rightarrow> Inl e
         | Inr (JObj kvs) \<Rightarrow> (case validate (JObj kvs) of None \<Rightarrow> Inl ValidationFailed | Some m \<Rightarrow> Inr m)
         | Inr _ \<Rightarrow> Inl NotAnObject)"

end
