(* ===== verification/Anonymisation.thy ===== *)
theory Anonymisation
  imports Database StructuredOutput "HOL-Library.Product_Lexorder"
begin

text \<open>
  Anonymisation of documents (\<open>app/modules/anonymisation\<close>): the spans an analyser or a model
  reports are made disjoint, every original gets a stable token, the text is rewritten from
  right to left, and the redacted body with its mapping is stored and audited. The analyser
  (Presidio) and the model gateway's reply are arguments; scores are integers, of which only
  the order counts. The claims: what is stored can be turned back into the source
  text, tokens stay with their originals from run to run, and where neither holds.
\<close>

section \<open>Spans\<close>

record span =
  sp_start :: nat
  sp_end :: nat
  sp_type :: string
  sp_score :: int
  sp_original :: string

definition slice :: "nat \<Rightarrow> nat \<Rightarrow> string \<Rightarrow> string" where
  "slice i j s = take (j - i) (drop i s)"

text \<open>\<open>sort(key=..., reverse=True)\<close> keeps the order of equal elements.\<close>

definition sort_desc :: "('a \<Rightarrow> 'k::linorder) \<Rightarrow> 'a list \<Rightarrow> 'a list" where
  "sort_desc key xs = rev (sort_key key (rev xs))"

fun keep_disjoint :: "int \<Rightarrow> span list \<Rightarrow> span list" where
  "keep_disjoint last_end [] = []"
| "keep_disjoint last_end (s # ss) =
     (if int (sp_start s) < last_end then keep_disjoint last_end ss
      else s # keep_disjoint (int (sp_end s)) ss)"

definition dedupe :: "span list \<Rightarrow> span list" where
  "dedupe spans = sort_desc sp_start (keep_disjoint (- 1) (sort_key (\<lambda>s. (sp_start s, - sp_score s)) spans))"

text \<open>A result of the analyser: its offsets, its entity type and its score.\<close>

type_synonym recogniser = "string \<Rightarrow> json \<Rightarrow> string list option \<Rightarrow> (nat \<times> nat \<times> string \<times> int) list"

definition span_of :: "string \<Rightarrow> nat \<times> nat \<times> string \<times> int \<Rightarrow> span option" where
  "span_of text = (\<lambda>(i, j, ty, score).
     let original = slice i j text in
     if py_strip original = [] then None
     else Some \<lparr>sp_start = i, sp_end = j, sp_type = ty, sp_score = score, sp_original = original\<rparr>)"

datatype anon_error =
    DocumentNotFound
  | BodyNotAvailable
  | UnknownEngine string
  | EngineNotInstalled
  | GatewayFailed string

definition analyse ::
  "recogniser option \<Rightarrow> string \<Rightarrow> json \<Rightarrow> string list option \<Rightarrow> anon_error + span list" where
  "analyse engine text threshold types =
     (if text = [] then Inr []
      else case engine of
          None \<Rightarrow> Inl EngineNotInstalled
        | Some recognise \<Rightarrow> Inr (dedupe (List.map_filter (span_of text) (recognise text threshold types))))"

section \<open>Tokens\<close>

definition ENTITY_PREFIX_MAP :: "(string \<times> string) list" where
  "ENTITY_PREFIX_MAP =
     [(''PERSON'', ''PARTY''), (''ORG'', ''ORG''), (''ORGANIZATION'', ''ORG''), (''LOCATION'', ''ADDRESS''),
      (''GPE'', ''ADDRESS''), (''DATE_TIME'', ''DATE''), (''DATE'', ''DATE''), (''EMAIL_ADDRESS'', ''EMAIL''),
      (''PHONE_NUMBER'', ''PHONE''), (''UK_NHS'', ''NHS''), (''UK_NINO'', ''NI''), (''MONEY'', ''AMOUNT'')]"

text \<open>\<open>str.upper()\<close> over the first 256 code points; the two whose capital lies outside stay.\<close>

definition upper_char :: "char \<Rightarrow> string" where
  "upper_char c =
     (let n = (of_char c :: nat) in
      if 97 \<le> n \<and> n \<le> 122 \<or> 224 \<le> n \<and> n \<le> 254 \<and> n \<noteq> 247 then [char_of (n - 32)]
      else if n = 223 then ''SS'' else [c])"

definition py_upper :: "string \<Rightarrow> string" where
  "py_upper s = concat (map upper_char s)"

definition prefix_for :: "string \<Rightarrow> string" where
  "prefix_for entity_type = (case map_of ENTITY_PREFIX_MAP (py_upper entity_type) of Some p \<Rightarrow> p | None \<Rightarrow> ''ENTITY'')"

record token_meta =
  tm_type :: string
  tm_original :: string
  tm_occurrences :: int

definition meta_json :: "token_meta \<Rightarrow> json" where
  "meta_json m = JObj [(''entity_type'', JStr (tm_type m)), (''original'', JStr (tm_original m)),
     (''occurrences'', JInt (tm_occurrences m))]"

text \<open>The entries of a stored mapping's \<open>tokens\<close> that are objects: token, entity type, original.\<close>

definition meta_text :: "string \<Rightarrow> json \<Rightarrow> string" where
  "meta_text k meta = py_str (jget_or k (JStr []) meta)"

definition known_tokens :: "json option \<Rightarrow> (string \<times> string \<times> string) list" where
  "known_tokens existing =
     (case existing of
        None \<Rightarrow> []
      | Some j \<Rightarrow>
          (case jget ''tokens'' j of
             Some (JObj kvs) \<Rightarrow>
               List.map_filter (\<lambda>(tok, meta). case meta of
                   JObj _ \<Rightarrow> Some (tok, meta_text ''entity_type'' meta, meta_text ''original'' meta)
                 | _ \<Rightarrow> None) kvs
           | _ \<Rightarrow> []))"

text \<open>\<open>token.strip("[]").rsplit("_", 1)[-1]\<close>\<close>

definition strip_brackets :: "string \<Rightarrow> string" where
  "strip_brackets s = (let inner = (\<lambda>c. c \<in> set ''[]'')
     in rev (dropWhile inner (rev (dropWhile inner s))))"

definition token_suffix :: "string \<Rightarrow> int option" where
  "token_suffix tok = py_int (rev (takeWhile (\<lambda>c. c \<noteq> CHR ''_'') (rev (strip_brackets tok))))"

type_synonym counters = "string \<rightharpoonup> int"
type_synonym token_cache = "string \<times> string \<rightharpoonup> string"

fun seed_counters ::
  "(string \<times> string \<times> string) list \<Rightarrow> counters \<times> token_cache \<Rightarrow> counters \<times> token_cache" where
  "seed_counters [] st = st"
| "seed_counters ((tok, ty, original) # kvs) (counters, cache) =
     (let prefix = prefix_for ty in
      case token_suffix tok of
        None \<Rightarrow> seed_counters kvs (counters, cache)
      | Some suffix \<Rightarrow>
          seed_counters kvs
            (counters(prefix \<mapsto> max (case counters prefix of None \<Rightarrow> 0 | Some c \<Rightarrow> c) (suffix + 1)),
             if original \<noteq> [] then cache((prefix, original) \<mapsto> tok) else cache))"

record tok_state =
  ts_counters :: counters
  ts_cache :: token_cache
  ts_metas :: "(string \<times> token_meta) list"

definition token_text :: "string \<Rightarrow> int \<Rightarrow> string" where
  "token_text prefix i = ''['' @ prefix @ ''_'' @ int_str i @ '']''"

definition bump :: "string \<Rightarrow> (string \<times> token_meta) list \<Rightarrow> (string \<times> token_meta) list" where
  "bump tok metas = map (\<lambda>(t, m). if t = tok then (t, m\<lparr>tm_occurrences := tm_occurrences m + 1\<rparr>) else (t, m)) metas"

definition assign_token :: "span \<Rightarrow> tok_state \<Rightarrow> string \<times> tok_state" where
  "assign_token s st =
     (let prefix = prefix_for (sp_type s);
          fresh_meta = \<lparr>tm_type = sp_type s, tm_original = sp_original s, tm_occurrences = 0\<rparr>
      in case ts_cache st (prefix, sp_original s) of
           None \<Rightarrow>
             (let idx = (case ts_counters st prefix of None \<Rightarrow> 1 | Some c \<Rightarrow> c);
                  tok = token_text prefix idx
              in (tok, \<lparr>ts_counters = (ts_counters st)(prefix \<mapsto> idx + 1),
                    ts_cache = (ts_cache st)((prefix, sp_original s) \<mapsto> tok),
                    ts_metas = bump tok (dict_set tok fresh_meta (ts_metas st))\<rparr>))
         | Some tok \<Rightarrow>
             (tok, st\<lparr>ts_metas := bump tok
                (if map_of (ts_metas st) tok = None then dict_set tok fresh_meta (ts_metas st) else ts_metas st)\<rparr>))"

fun assign_all :: "span list \<Rightarrow> tok_state \<Rightarrow> (span \<times> string) list \<times> tok_state" where
  "assign_all [] st = ([], st)"
| "assign_all (s # ss) st =
     (case assign_token s st of
        (tok, st1) \<Rightarrow> (case assign_all ss st1 of (pairs, st2) \<Rightarrow> ((s, tok) # pairs, st2)))"

text \<open>\<open>chars[start:end] = token\<close>, for offsets that are not negative.\<close>

definition splice :: "nat \<Rightarrow> nat \<Rightarrow> string \<Rightarrow> string \<Rightarrow> string" where
  "splice i j tok chars = take i chars @ tok @ drop (max i j) chars"

fun replace_all :: "(span \<times> string) list \<Rightarrow> string \<Rightarrow> string" where
  "replace_all [] chars = chars"
| "replace_all ((s, tok) # pairs) chars = replace_all pairs (splice (sp_start s) (sp_end s) tok chars)"

definition span_json :: "span \<times> string \<Rightarrow> json" where
  "span_json = (\<lambda>(s, tok). JObj [(''start'', JInt (int (sp_start s))), (''end'', JInt (int (sp_end s))),
     (''token'', JStr tok), (''original'', JStr (sp_original s)), (''entity_type'', JStr (sp_type s))])"

definition mapping_json :: "(string \<times> token_meta) list \<Rightarrow> (span \<times> string) list \<Rightarrow> json" where
  "mapping_json metas pairs =
     JObj [(''tokens'', JObj (map (map_prod id meta_json) metas)), (''spans'', JList (map span_json pairs))]"

definition old_metas :: "(string \<times> string \<times> string) list \<Rightarrow> (string \<times> token_meta) list" where
  "old_metas known = foldl (\<lambda>metas (tok, ty, original).
     dict_set tok \<lparr>tm_type = ty, tm_original = original, tm_occurrences = 0\<rparr> metas) [] known"

definition tokenise :: "string \<Rightarrow> span list \<Rightarrow> json option \<Rightarrow> string \<times> json" where
  "tokenise text spans existing =
     (if spans = [] then (text, mapping_json [] [])
      else
        (let known = known_tokens existing;
             (counters, cache) = seed_counters known (Map.empty, Map.empty);
             st = \<lparr>ts_counters = counters, ts_cache = cache, ts_metas = old_metas known\<rparr>;
             (pairs, st') = assign_all (sort_key sp_start spans) st;
             pairs' = sort_desc (sp_start \<circ> fst) pairs
         in (replace_all pairs' text, mapping_json (ts_metas st') (sort_key (sp_start \<circ> fst) pairs'))))"

section \<open>The model's reply\<close>

text \<open>\<open>int(value)\<close> of a JSON value.\<close>

definition json_int :: "json \<Rightarrow> int option" where
  "json_int j = (case j of JInt i \<Rightarrow> Some i | JBool b \<Rightarrow> Some (if b then 1 else 0) | JStr s \<Rightarrow> py_int s | _ \<Rightarrow> None)"

definition claimed_type :: "json \<Rightarrow> string" where
  "claimed_type j = py_upper (py_str (jget_or ''entity_type'' (JStr ''PERSON'') j))"

definition claude_span :: "nat \<Rightarrow> nat \<Rightarrow> json \<Rightarrow> string \<Rightarrow> span" where
  "claude_span i j entry original =
     \<lparr>sp_start = i, sp_end = j, sp_type = claimed_type entry, sp_score = 9, sp_original = original\<rparr>"

text \<open>One entry of \<open>spans\<close>: used when its offsets are in the text and hold its original.\<close>

definition offset_span :: "string \<Rightarrow> json \<Rightarrow> span option" where
  "offset_span text s =
     (case s of
        JObj _ \<Rightarrow>
          (case (json_int (jget0 ''start'' s), json_int (jget0 ''end'' s)) of
             (Some i, Some j) \<Rightarrow>
               (let original = meta_text ''original'' s in
                if original = [] \<or> i < 0 \<or> j \<le> i \<or> int (length text) < j then None
                else if slice (nat i) (nat j) text \<noteq> original then None
                else Some (claude_span (nat i) (nat j) s original))
           | _ \<Rightarrow> None)
      | _ \<Rightarrow> None)"

type_synonym found = "(nat \<times> nat) list \<times> span list"

definition add_span :: "span \<Rightarrow> found \<Rightarrow> found" where
  "add_span s = (\<lambda>(seen, out). let key = (sp_start s, sp_end s) in
     if key \<in> set seen then (seen, out) else (key # seen, out @ [s]))"

definition offset_spans :: "string \<Rightarrow> json list \<Rightarrow> found \<Rightarrow> found" where
  "offset_spans text raw fnd =
     foldl (\<lambda>fnd s. case offset_span text s of None \<Rightarrow> fnd | Some sp \<Rightarrow> add_span sp fnd) fnd raw"

text \<open>\<open>text.find(sub, start)\<close>\<close>

fun index_in :: "string \<Rightarrow> string \<Rightarrow> nat option" where
  "index_in sub s =
     (if starts_with sub s then Some 0
      else case s of [] \<Rightarrow> None | _ # cs \<Rightarrow> map_option Suc (index_in sub cs))"

declare index_in.simps [simp del]

definition py_find :: "string \<Rightarrow> string \<Rightarrow> nat \<Rightarrow> nat option" where
  "py_find sub s start = map_option (\<lambda>i. start + i) (index_in sub (drop start s))"

definition MAX_HITS :: nat where "MAX_HITS = 50"

fun find_hits :: "nat \<Rightarrow> nat \<Rightarrow> string \<Rightarrow> json \<Rightarrow> string \<Rightarrow> found \<Rightarrow> found" where
  "find_hits 0 start text t original fnd = fnd"
| "find_hits (Suc left) start text t original fnd =
     (case py_find original text start of
        None \<Rightarrow> fnd
      | Some i \<Rightarrow>
          (let j = i + length original
           in find_hits left j text t original (add_span (claude_span i j t original) fnd)))"

definition token_spans :: "string \<Rightarrow> json list \<Rightarrow> found \<Rightarrow> found" where
  "token_spans text tokens fnd =
     foldl (\<lambda>fnd t. case t of
         JObj _ \<Rightarrow>
           (let original = meta_text ''original'' t in
            if length original < 2 then fnd else find_hits MAX_HITS 0 text t original fnd)
       | _ \<Rightarrow> fnd) fnd tokens"

definition spans_from_claude :: "json \<Rightarrow> string \<Rightarrow> span list" where
  "spans_from_claude envelope text =
     (let fnd = offset_spans text (jlist ''spans'' envelope) ([], []);
          fnd' = (if snd fnd = [] then token_spans text (jlist ''tokens'' envelope) fnd else fnd)
      in dedupe (snd fnd'))"

section \<open>Running an engine\<close>

record outcome =
  oc_redacted :: string
  oc_mapping :: json
  oc_engine :: string
  oc_entity_count :: nat

definition entity_count :: "json \<Rightarrow> nat" where
  "entity_count mapping = (case jget ''tokens'' mapping of Some (JObj kvs) \<Rightarrow> length kvs | _ \<Rightarrow> 0)"

definition outcome_of :: "string \<Rightarrow> string \<times> json \<Rightarrow> outcome" where
  "outcome_of engine = (\<lambda>(redacted, mapping).
     \<lparr>oc_redacted = redacted, oc_mapping = mapping, oc_engine = engine, oc_entity_count = entity_count mapping\<rparr>)"

definition run_presidio ::
  "recogniser option \<Rightarrow> string \<Rightarrow> json \<Rightarrow> string list option \<Rightarrow> json option \<Rightarrow> anon_error + outcome" where
  "run_presidio engine text threshold types existing =
     (case analyse engine text threshold types of
        Inl e \<Rightarrow> Inl e
      | Inr spans \<Rightarrow> Inr (outcome_of ''presidio'' (tokenise text spans existing)))"

definition MAX_CLAUDE_CHARS :: nat where "MAX_CLAUDE_CHARS = 32000"

definition claude_prompt :: "string \<Rightarrow> string" where
  "claude_prompt text =
     (let nl = [CHR 0x0A];
          payload_text = (if length text \<le> MAX_CLAUDE_CHARS then text
            else take (MAX_CLAUDE_CHARS - 200) text @ nl @ nl @ ''[... truncated for context window ...]'')
      in ''Identify every personally identifying span in the following '' @
         ''document body. Return the JSON envelope only.'' @ nl @ nl @
         ''--- DOCUMENT BODY ---'' @ nl @ payload_text @ nl @ ''--- END DOCUMENT BODY ---'')"

text \<open>The gateway's call takes the prompt; a reply that cannot be parsed is an empty envelope.\<close>

type_synonym gateway_call = "string \<Rightarrow> session \<Rightarrow> (anon_error + string) \<times> session"

definition parse_claude_envelope :: "(string \<Rightarrow> json option) \<Rightarrow> (json \<Rightarrow> json option) \<Rightarrow> string \<Rightarrow> json" where
  "parse_claude_envelope loads validate raw =
     (case parse_model_json loads validate raw of
        Inr envelope \<Rightarrow> envelope
      | Inl _ \<Rightarrow> JObj [(''tokens'', JList []), (''spans'', JList [])])"

definition run_claude ::
  "gateway_call \<Rightarrow> (string \<Rightarrow> json) \<Rightarrow> string \<Rightarrow> json option \<Rightarrow> session \<Rightarrow> (anon_error + outcome) \<times> session" where
  "run_claude call parse text existing s =
     (case call (claude_prompt text) s of
        (Inl e, s1) \<Rightarrow> (Inl e, s1)
      | (Inr reply, s1) \<Rightarrow>
          (Inr (outcome_of ''claude'' (tokenise text (spans_from_claude (parse reply) text) existing)), s1))"

definition AUTO_MIN_ENTITIES :: nat where "AUTO_MIN_ENTITIES = 3"
definition AUTO_MIN_CHARS :: nat where "AUTO_MIN_CHARS = 1000"

record anon_request =
  an_engine :: string
  an_entity_types :: "string list option"
  an_threshold :: json

definition run_engine ::
  "recogniser option \<Rightarrow> gateway_call \<Rightarrow> (string \<Rightarrow> json) \<Rightarrow> anon_request \<Rightarrow> string \<Rightarrow> json option \<Rightarrow> session
    \<Rightarrow> (anon_error + outcome) \<times> session" where
  "run_engine engine call parse q text existing s =
     (if an_engine q \<notin> {''presidio'', ''claude'', ''auto''} then (Inl (UnknownEngine (an_engine q)), s)
      else if an_engine q = ''claude'' then run_claude call parse text existing s
      else case run_presidio engine text (an_threshold q) (an_entity_types q) existing of
          Inl e \<Rightarrow> (Inl e, s)
        | Inr out \<Rightarrow>
            if an_engine q = ''auto'' \<and> oc_entity_count out < AUTO_MIN_ENTITIES \<and> length text > AUTO_MIN_CHARS
            then run_claude call parse text existing s
            else (Inr out, s))"

section \<open>The redacted body\<close>

definition redacted_body :: "uuid \<Rightarrow> doc_body \<Rightarrow> outcome \<Rightarrow> int \<Rightarrow> doc_body" where
  "redacted_body did body out now =
     \<lparr>b_document_id = did, b_kind = BODY_KIND_REDACTED, b_extracted_text = oc_redacted out,
      b_extraction_method = oc_engine out, b_extracted_at = now,
      b_char_count = int (length (oc_redacted out)), b_page_count = b_page_count body,
      b_error_reason = None, b_mapping = Some (oc_mapping out), b_engine = Some (oc_engine out),
      b_anonymised_at = Some now\<rparr>"

text \<open>Insert, or every field but the key of the one row overwritten.\<close>

definition put_body :: "doc_body \<Rightarrow> db \<Rightarrow> db" where
  "put_body b d =
     (case body_of (b_document_id b) (b_kind b) d of
        None \<Rightarrow> d\<lparr>doc_bodies := doc_bodies d @ [b]\<rparr>
      | Some _ \<Rightarrow> d\<lparr>doc_bodies := update_where
          (\<lambda>x. b_document_id x = b_document_id b \<and> b_kind x = b_kind b) (\<lambda>_. b) (doc_bodies d)\<rparr>)"

definition anon_event :: "string \<Rightarrow> uuid \<Rightarrow> uuid \<Rightarrow> uuid \<Rightarrow> (string \<times> json) list \<Rightarrow> audit_event" where
  "anon_event action actor mid did payload = (event0 action)
     \<lparr>ae_actor_id := Some actor, ae_matter_id := Some mid, ae_module := Some ''anonymisation'',
      ae_resource_type := Some ''document'', ae_resource_id := Some did, ae_payload := JObj payload\<rparr>"

definition run_event :: "anon_request \<Rightarrow> uuid \<Rightarrow> uuid \<Rightarrow> uuid \<Rightarrow> outcome \<Rightarrow> int \<Rightarrow> audit_event" where
  "run_event q actor mid did out latency_ms = anon_event ''module.anonymisation.run'' actor mid did
     [(''engine_requested'', JStr (an_engine q)), (''engine'', JStr (oc_engine out)),
      (''entity_count'', JInt (int (oc_entity_count out))), (''char_count'', JInt (int (length (oc_redacted out)))),
      (''latency_ms'', JInt latency_ms), (''threshold'', an_threshold q)]"

definition document_and_matter :: "uuid \<Rightarrow> db \<Rightarrow> (document \<times> matter) option" where
  "document_and_matter did d =
     (case find (\<lambda>x. doc_id x = did) (documents d) of
        None \<Rightarrow> None
      | Some doc \<Rightarrow> map_option (Pair doc) (find (\<lambda>m. m_id m = doc_matter_id doc) (matters d)))"

text \<open>The document of a matter the user owns and has not archived; anything else is not found.\<close>

definition load_owned_document :: "uuid \<Rightarrow> uuid \<Rightarrow> db \<Rightarrow> (document \<times> matter) option" where
  "load_owned_document did user_id d =
     (case document_and_matter did d of
        None \<Rightarrow> None
      | Some (doc, m) \<Rightarrow> if m_created_by_id m \<noteq> user_id \<or> m_status m = STATUS_ARCHIVED then None else Some (doc, m))"

definition anonymise_document ::
  "recogniser option \<Rightarrow> gateway_call \<Rightarrow> (string \<Rightarrow> json) \<Rightarrow> int \<Rightarrow> uuid \<Rightarrow> uuid \<Rightarrow> anon_request \<Rightarrow> session
    \<Rightarrow> (anon_error + outcome) \<times> session" where
  "anonymise_document engine call parse latency_ms did actor q s =
     (case load_owned_document did actor (working s) of
        None \<Rightarrow> (Inl DocumentNotFound, s)
      | Some (doc, m) \<Rightarrow>
          (case body_of (doc_id doc) BODY_KIND_EXTRACTED (working s) of
             None \<Rightarrow> (Inl BodyNotAvailable, s)
           | Some body \<Rightarrow>
               if b_extraction_method body = ''failed'' \<or> b_extracted_text body = [] then (Inl BodyNotAvailable, s)
               else
                 (let existing = body_of (doc_id doc) BODY_KIND_REDACTED (working s);
                      mapping = (case existing of None \<Rightarrow> None | Some b \<Rightarrow> b_mapping b)
                  in case run_engine engine call parse q (b_extracted_text body) mapping s of
                       (Inl e, s1) \<Rightarrow> (Inl e, s1)
                     | (Inr out, s1) \<Rightarrow>
                         (Inr out,
                          audit_log (run_event q actor (m_id m) (doc_id doc) out latency_ms)
                            (on_working (put_body (redacted_body (doc_id doc) body out (clock s1))) s1)))))"

text \<open>Deleting the redacted body, so the next run starts from nothing.\<close>

definition delete_anonymised :: "uuid \<Rightarrow> uuid \<Rightarrow> session \<Rightarrow> (anon_error + unit) \<times> session" where
  "delete_anonymised did user_id s =
     (case load_owned_document did user_id (working s) of
        None \<Rightarrow> (Inl DocumentNotFound, s)
      | Some (doc, m) \<Rightarrow>
          (case body_of (doc_id doc) BODY_KIND_REDACTED (working s) of
             None \<Rightarrow> (Inr (), s)
           | Some b \<Rightarrow>
               (Inr (), commit
                  (audit_log (anon_event ''module.anonymisation.deleted'' user_id (m_id m) (doc_id doc) [(''engine'', jstr_opt (b_engine b))])
                    (on_working (\<lambda>d. d\<lparr>doc_bodies := filter (\<lambda>x. \<not> (b_document_id x = doc_id doc \<and> b_kind x = BODY_KIND_REDACTED)) (doc_bodies d)\<rparr>) s)))))"

section \<open>Reading a redaction\<close>

record token_row =
  tr_token :: string
  tr_type :: string
  tr_original :: string
  tr_occurrences :: int

definition token_row_of :: "string \<Rightarrow> json \<Rightarrow> token_row" where
  "token_row_of tok meta =
     (let occ = jget_or ''occurrences'' (JInt 0) meta in
      \<lparr>tr_token = tok, tr_type = meta_text ''entity_type'' meta, tr_original = meta_text ''original'' meta,
       tr_occurrences = (if py_truthy occ then case json_int occ of Some i \<Rightarrow> i | None \<Rightarrow> 0 else 0)\<rparr>)"

text \<open>Ordered by the part of the token before its first underscore, then the token.\<close>

definition token_rows :: "json option \<Rightarrow> token_row list" where
  "token_rows mapping =
     (let toks = (case mapping of Some j \<Rightarrow> jget ''tokens'' j | None \<Rightarrow> None);
          rows = (case toks of
              Some (JObj kvs) \<Rightarrow> List.map_filter (\<lambda>(tok, meta). case meta of JObj _ \<Rightarrow> Some (token_row_of tok meta) | _ \<Rightarrow> None) kvs
            | _ \<Rightarrow> [])
      in sort_key (\<lambda>r. (takeWhile (\<lambda>c. c \<noteq> CHR ''_'') (tr_token r), tr_token r)) rows)"

definition redacted_result :: "doc_body \<Rightarrow> uuid \<times> string \<times> string \<times> int \<times> int \<times> token_row list" where
  "redacted_result b =
     (b_document_id b, b_extracted_text b,
      (case b_engine b of Some (c # cs) \<Rightarrow> c # cs
       | _ \<Rightarrow> if b_extraction_method b \<noteq> [] then b_extraction_method b else ''unknown''),
      (case b_anonymised_at b of Some t \<Rightarrow> t | None \<Rightarrow> b_extracted_at b), b_char_count b, token_rows (b_mapping b))"

definition get_anonymised :: "uuid \<Rightarrow> uuid \<Rightarrow> session \<Rightarrow> (uuid \<times> string \<times> string \<times> int \<times> int \<times> token_row list) option" where
  "get_anonymised did user_id s =
     (case load_owned_document did user_id (working s) of
        None \<Rightarrow> None
      | Some _ \<Rightarrow> map_option redacted_result (body_of did BODY_KIND_REDACTED (working s)))"

text \<open>Revealing the mapping leaves an audit row.\<close>

definition get_mapping :: "uuid \<Rightarrow> uuid \<Rightarrow> session \<Rightarrow> (token_row list \<times> json list) option \<times> session" where
  "get_mapping did user_id s =
     (case load_owned_document did user_id (working s) of
        None \<Rightarrow> (None, s)
      | Some (doc, m) \<Rightarrow>
          (case body_of (doc_id doc) BODY_KIND_REDACTED (working s) of
             None \<Rightarrow> (None, s)
           | Some b \<Rightarrow>
               (let toks = token_rows (b_mapping b);
                    spans = (case b_mapping b of Some j \<Rightarrow> jlist ''spans'' j | None \<Rightarrow> [])
                in (Some (toks, spans),
                    commit (audit_log (anon_event ''module.anonymisation.viewed'' user_id (m_id m) (doc_id doc)
                      [(''token_count'', JInt (int (length toks)))]) s)))))"

lemma document_and_matter_id: "document_and_matter did d = Some (doc, m) \<Longrightarrow> doc_id doc = did"
  by (auto simp: document_and_matter_def split: option.splits dest: find_SomeD)

lemma load_owned_document_SomeD:
  "load_owned_document did u d = Some (doc, m) \<Longrightarrow>
     doc_id doc = did \<and> m_created_by_id m = u \<and> m_status m \<noteq> STATUS_ARCHIVED \<and> document_and_matter did d = Some (doc, m)"
  by (auto simp: load_owned_document_def document_and_matter_id split: option.splits if_splits)

lemma mapping_is_never_read_silently:
  assumes "get_mapping did user_id s = (Some out, s')"
  shows "\<exists>e. audit_rows (durable s') = audit_rows (working s) @ [e] \<and> ae_actor_id e = Some user_id
    \<and> ae_action e = ''module.anonymisation.viewed'' \<and> ae_resource_id e = Some did
    \<and> (\<exists>doc m. load_owned_document did user_id (working s) = Some (doc, m))"
  using assms load_owned_document_SomeD [of did user_id "working s"]
  by (auto simp: get_mapping_def Let_def anon_event_def event0_def split: option.splits)

section \<open>Turning a redacted text back\<close>

text \<open>
  What the offsets, tokens and originals of a stored mapping promise a reader: walking the
  spans in order, copying what lies between them and putting each original in its token's place.
\<close>

definition stored_span :: "json \<Rightarrow> nat \<times> nat \<times> string \<times> string" where
  "stored_span j =
     (let num = (\<lambda>k. case jget k j of Some (JInt i) \<Rightarrow> nat i | _ \<Rightarrow> 0) in
      (num ''start'', num ''end'', py_str (jget0 ''token'' j), py_str (jget0 ''original'' j)))"

fun restore_from :: "nat \<Rightarrow> string \<Rightarrow> (nat \<times> nat \<times> string \<times> string) list \<Rightarrow> string" where
  "restore_from pos r [] = r"
| "restore_from pos r ((i, j, tok, original) # ss) =
     take (i - pos) r @ original @ restore_from j (drop (i - pos + length tok) r) ss"

definition restore :: "string \<Rightarrow> json \<Rightarrow> string" where
  "restore redacted mapping = restore_from 0 redacted (map stored_span (jlist ''spans'' mapping))"

text \<open>A span of the text, and spans in order without overlap.\<close>

definition in_text :: "string \<Rightarrow> span \<Rightarrow> bool" where
  "in_text text s \<longleftrightarrow> sp_start s < sp_end s \<and> sp_end s \<le> length text
     \<and> sp_original s = slice (sp_start s) (sp_end s) text"

fun spans_ok :: "string \<Rightarrow> nat \<Rightarrow> span list \<Rightarrow> bool" where
  "spans_ok text pos [] \<longleftrightarrow> True"
| "spans_ok text pos (s # ss) \<longleftrightarrow> pos \<le> sp_start s \<and> in_text text s \<and> spans_ok text (sp_end s) ss"

fun weave :: "nat \<Rightarrow> string \<Rightarrow> (span \<times> string) list \<Rightarrow> string" where
  "weave pos text [] = drop pos text"
| "weave pos text ((s, tok) # pairs) = slice pos (sp_start s) text @ tok @ weave (sp_end s) text pairs"

subsection \<open>Sorting spans\<close>

lemma sort_key_of_rev:
  assumes "sorted_wrt (\<lambda>x y. f x < (f y :: 'k::linorder)) xs"
  shows "sort_key f xs = xs" and "sort_key f (rev xs) = xs"
proof -
  from assms have "sorted_wrt (<) (map f xs)" by (simp add: sorted_wrt_map)
  then have d: "distinct (map f xs)" and srt: "sorted (map f xs)"
    by (simp_all add: strict_sorted_iff)
  from d have "inj_on f (set xs)" by (simp add: distinct_map)
  moreover have "sorted (map f (sort_key f ys))" for ys by simp
  ultimately show "sort_key f xs = xs" "sort_key f (rev xs) = xs"
    using d srt
    by (intro map_sorted_distinct_set_unique [of f]; simp add: distinct_map)+
qed

lemma sorted_map_mono_fst: "sorted (map (\<lambda>x. (f x, g x)) xs) \<Longrightarrow> sorted (map f xs)"
  for f :: "'a \<Rightarrow> 'b::linorder" and g :: "'a \<Rightarrow> 'c::linorder"
  by (induction xs) (auto simp: less_eq_prod_def)

lemma spans_ok_starts: "spans_ok src pos ss \<Longrightarrow> s \<in> set ss \<Longrightarrow> pos \<le> sp_start s"
  by (induction src pos ss rule: spans_ok.induct) (auto simp: in_text_def)

lemma spans_ok_sorted: "spans_ok src pos ss \<Longrightarrow> sorted_wrt (\<lambda>x y. sp_start x < sp_start y) ss"
proof (induction src pos ss rule: spans_ok.induct)
  case (2 src pos s ss)
  then have "sp_start s < sp_start y" if "y \<in> set ss" for y
    using spans_ok_starts [of src "sp_end s" ss y] that by (auto simp: in_text_def)
  with 2 show ?case by simp
qed simp

lemma keep_disjoint_ok:
  assumes "sorted (map sp_start ss)" and "\<forall>s \<in> set ss. in_text src s"
    and "\<forall>s \<in> set ss. l \<le> int (sp_start s) \<longrightarrow> pos \<le> sp_start s"
  shows "spans_ok src pos (keep_disjoint l ss)"
  using assms
proof (induction l ss arbitrary: pos rule: keep_disjoint.induct)
  case (2 l s ss)
  then show ?case by auto
qed simp

lemma dedupe_ok:
  assumes "\<forall>s \<in> set ss. in_text src s"
  shows "\<exists>ds. spans_ok src 0 ds \<and> dedupe ss = rev ds \<and> set ds \<subseteq> set ss"
proof -
  let ?srt = "sort_key (\<lambda>s. (sp_start s, - sp_score s)) ss"
  let ?ds = "keep_disjoint (- 1) ?srt"
  have "sorted (map (\<lambda>s. (sp_start s, - sp_score s)) ?srt)" by simp
  then have "sorted (map sp_start ?srt)"
    by (rule sorted_map_mono_fst)
  with assms have ok: "spans_ok src 0 ?ds" by (intro keep_disjoint_ok) simp_all
  have sub: "set (keep_disjoint l xs) \<subseteq> set xs" for l xs
    by (induction l xs rule: keep_disjoint.induct) auto
  from ok have "dedupe ss = rev ?ds"
    by (simp add: dedupe_def sort_desc_def sort_key_of_rev [OF spans_ok_sorted [OF ok]])
  with ok sub [of "- 1" ?srt] show ?thesis by auto
qed

subsection \<open>Replacing from right to left\<close>

lemma replace_all_append: "replace_all (ps @ qs) chars = replace_all qs (replace_all ps chars)"
  by (induction ps chars rule: replace_all.induct) simp_all

lemma take_slice: "i \<le> j \<Longrightarrow> j \<le> length s \<Longrightarrow> take j s = take i s @ slice i j s"
  using take_add [of i "j - i" s] by (simp add: slice_def)

lemma replace_weave:
  assumes "spans_ok src pos (map fst pairs)" and "pos \<le> length src"
  shows "replace_all (rev pairs) src = take pos src @ weave pos src pairs"
  using assms
proof (induction pairs arbitrary: pos)
  case (Cons p pairs)
  obtain s tok where [simp]: "p = (s, tok)" by (cases p)
  from Cons.prems have ok: "pos \<le> sp_start s" "sp_start s < sp_end s" "sp_end s \<le> length src"
    "spans_ok src (sp_end s) (map fst pairs)" by (auto simp: in_text_def)
  from Cons.IH [OF ok(4,3)] ok take_slice [of pos "sp_start s" src] show ?case
    by (simp add: replace_all_append splice_def)
qed simp

lemma stored_span_json [simp]:
  "stored_span (span_json (s, tok)) = (sp_start s, sp_end s, tok, sp_original s)"
  by (simp add: stored_span_def span_json_def jget_def jget0_def py_str_def)

lemma stored_spans [simp]: "jlist ''spans'' (mapping_json metas pairs) = map span_json pairs"
  by (simp add: mapping_json_def jlist_def jget_def)

lemma restore_weave:
  assumes "spans_ok src pos (map fst pairs)" and "pos \<le> length src"
  shows "restore_from pos (weave pos src pairs) (map (stored_span \<circ> span_json) pairs) = drop pos src"
  using assms
proof (induction pairs arbitrary: pos)
  case (Cons p pairs)
  obtain s tok where [simp]: "p = (s, tok)" by (cases p)
  from Cons.prems have ok: "pos \<le> sp_start s" "sp_start s < sp_end s" "sp_end s \<le> length src"
    "sp_original s = slice (sp_start s) (sp_end s) src" "spans_ok src (sp_end s) (map fst pairs)"
    by (auto simp: in_text_def)
  have split: "drop i src = slice i j src @ drop j src" if "i \<le> j" for i j
    using append_take_drop_id [of "j - i" "drop i src"] that by (simp add: slice_def)
  have len: "length (slice pos (sp_start s) src) = sp_start s - pos" using ok by (simp add: slice_def)
  from Cons.IH [OF ok(5,3)] ok len split [of pos "sp_start s"] split [of "sp_start s" "sp_end s"]
  show ?case by simp
qed simp

lemma assign_all_fst: "map fst (fst (assign_all ss st)) = ss"
  by (induction ss st rule: assign_all.induct) (auto split: prod.splits)

lemma tokenise_pairs:
  assumes "spans_ok src 0 ss" and "ss \<noteq> []"
  obtains pairs metas where "tokenise src (rev ss) existing = (weave 0 src pairs, mapping_json metas pairs)"
    and "map fst pairs = ss"
    and "(pairs, metas) = (case seed_counters (known_tokens existing) (Map.empty, Map.empty) of (counters, cache) \<Rightarrow>
       map_prod id ts_metas (assign_all ss
         \<lparr>ts_counters = counters, ts_cache = cache, ts_metas = old_metas (known_tokens existing)\<rparr>))"
proof -
  let ?known = "known_tokens existing"
  obtain counters cache where c: "seed_counters ?known (Map.empty, Map.empty) = (counters, cache)"
    by (cases "seed_counters ?known (Map.empty, Map.empty)")
  let ?st = "\<lparr>ts_counters = counters, ts_cache = cache, ts_metas = old_metas ?known\<rparr>"
  obtain pairs st' where a: "assign_all ss ?st = (pairs, st')" by (cases "assign_all ss ?st")
  with assign_all_fst [of ss ?st] have f: "map fst pairs = ss" by simp
  from spans_ok_sorted [OF assms(1)] have srt: "sort_key sp_start (rev ss) = ss" by (rule sort_key_of_rev)
  from spans_ok_sorted [OF assms(1)] have "sorted_wrt (\<lambda>x y. sp_start x < sp_start y) (map fst pairs)"
    by (simp only: f)
  then have "sorted_wrt (\<lambda>x y. (sp_start \<circ> fst) x < (sp_start \<circ> fst) y) pairs"
    by (simp add: sorted_wrt_map)
  note keys = sort_key_of_rev [OF this]
  have "sort_desc (sp_start \<circ> fst) pairs = rev pairs" by (simp add: sort_desc_def keys)
  with assms a c srt f replace_weave [of src 0 pairs]
  have "tokenise src (rev ss) existing = (weave 0 src pairs, mapping_json (ts_metas st') pairs)"
    by (simp add: tokenise_def Let_def keys)
  from that [OF this f] show ?thesis by (simp add: c a)
qed

lemma tokenise_restores:
  assumes "spans_ok src 0 ss"
  shows "restore (fst (tokenise src (rev ss) existing)) (snd (tokenise src (rev ss) existing)) = src"
proof (cases "ss = []")
  case True
  then show ?thesis by (simp add: tokenise_def restore_def)
next
  case False
  with assms obtain pairs metas where "tokenise src (rev ss) existing = (weave 0 src pairs, mapping_json metas pairs)"
    and "map fst pairs = ss" by (rule tokenise_pairs)
  with restore_weave [of src 0 pairs] assms show ?thesis by (simp add: restore_def)
qed

subsection \<open>Both engines report spans of the text\<close>

lemma starts_withD: "starts_with p s \<Longrightarrow> take (length p) s = p"
  by (auto simp: starts_with_iff)

lemma index_in_slice: "index_in sub s = Some i \<Longrightarrow> i + length sub \<le> length s \<and> slice i (i + length sub) s = sub"
proof (induction sub s arbitrary: i rule: index_in.induct)
  case (1 sub s)
  show ?case
  proof (cases "starts_with sub s")
    case True
    with 1 show ?thesis by (auto simp: index_in.simps [of sub s] slice_def starts_with_iff)
  next
    case False
    with 1 show ?thesis
    proof (cases s)
      case Nil
      with 1 False show ?thesis by (simp add: index_in.simps [of sub "[]"])
    next
      case (Cons c cs)
      with 1 False show ?thesis by (auto simp: index_in.simps [of sub "c # cs"] slice_def)
    qed
  qed
qed

lemma py_find_slice:
  assumes "py_find sub s start = Some i"
  shows "start \<le> i" and "sub = [] \<or> i + length sub \<le> length s" and "slice i (i + length sub) s = sub"
proof -
  from assms obtain k where k: "index_in sub (drop start s) = Some k" "i = start + k"
    by (auto simp: py_find_def)
  from index_in_slice [OF k(1)] k(2)
  show "start \<le> i" "sub = [] \<or> i + length sub \<le> length s" "slice i (i + length sub) s = sub"
    by (auto simp: slice_def add.commute)
qed

definition all_in_text :: "string \<Rightarrow> found \<Rightarrow> bool" where
  "all_in_text src fnd \<longleftrightarrow> (\<forall>s \<in> set (snd fnd). in_text src s)"

lemma add_span_in_text: "in_text src s \<Longrightarrow> all_in_text src fnd \<Longrightarrow> all_in_text src (add_span s fnd)"
  by (auto simp: all_in_text_def add_span_def Let_def split: prod.splits if_splits)

lemma offset_span_in_text: "offset_span src j = Some s \<Longrightarrow> in_text src s"
  by (auto simp: offset_span_def in_text_def claude_span_def Let_def split: json.splits option.splits if_splits)

lemma foldl_inv: "P x \<Longrightarrow> (\<And>x a. P x \<Longrightarrow> P (f x a)) \<Longrightarrow> P (foldl f x as)"
  by (induction "as" arbitrary: x) auto

lemma offset_spans_in_text: "all_in_text src fnd \<Longrightarrow> all_in_text src (offset_spans src raw fnd)"
  unfolding offset_spans_def
  by (erule foldl_inv) (auto split: option.splits intro: add_span_in_text dest: offset_span_in_text)

lemma find_hits_in_text:
  "all_in_text src fnd \<Longrightarrow> 2 \<le> length original \<Longrightarrow> all_in_text src (find_hits k start src t original fnd)"
proof (induction k arbitrary: start fnd)
  case (Suc k)
  show ?case
  proof (cases "py_find original src start")
    case (Some i)
    from py_find_slice [OF Some] Suc.prems(2) have "in_text src (claude_span i (i + length original) t original)"
      by (auto simp: in_text_def claude_span_def)
    with Suc Some show ?thesis by (simp add: Let_def add_span_in_text)
  qed (use Suc in simp)
qed simp

lemma token_spans_in_text: "all_in_text src fnd \<Longrightarrow> all_in_text src (token_spans src tokens fnd)"
  unfolding token_spans_def
  by (erule foldl_inv) (auto simp: Let_def find_hits_in_text split: json.splits)

lemma spans_from_claude_ok: "\<exists>ds. spans_ok src 0 ds \<and> spans_from_claude envelope src = rev ds"
proof -
  let ?fnd = "offset_spans src (jlist ''spans'' envelope) ([], [])"
  have "all_in_text src ?fnd" by (rule offset_spans_in_text) (simp add: all_in_text_def)
  then have "\<forall>s \<in> set (snd (if snd ?fnd = [] then token_spans src (jlist ''tokens'' envelope) ?fnd else ?fnd)). in_text src s"
    using token_spans_in_text [of src ?fnd] by (auto simp: all_in_text_def)
  from dedupe_ok [OF this] show ?thesis by (auto simp: spans_from_claude_def Let_def)
qed

text \<open>What the analyser documents of its results: they lie in the text it was given.\<close>

definition in_range :: "recogniser option \<Rightarrow> bool" where
  "in_range engine \<longleftrightarrow> (\<forall>recognise text threshold types. engine = Some recognise \<longrightarrow>
     (\<forall>(i, j, ty, score) \<in> set (recognise text threshold types). j \<le> length text))"

lemma analyse_ok:
  assumes "in_range engine" and "analyse engine src threshold types = Inr spans"
  shows "\<exists>ds. spans_ok src 0 ds \<and> spans = rev ds"
proof (cases "src = []")
  case True
  with assms show ?thesis by (intro exI [of _ "[]"]) (simp add: analyse_def)
next
  case False
  with assms obtain recognise where r: "engine = Some recognise"
    "spans = dedupe (List.map_filter (span_of src) (recognise src threshold types))"
    by (auto simp: analyse_def split: option.splits)
  have "\<forall>s \<in> set (List.map_filter (span_of src) (recognise src threshold types)). in_text src s"
  proof
    fix s
    assume "s \<in> set (List.map_filter (span_of src) (recognise src threshold types))"
    then obtain i j ty score where m: "(i, j, ty, score) \<in> set (recognise src threshold types)"
      "span_of src (i, j, ty, score) = Some s" by (fastforce simp: List.map_filter_def)
    from assms(1) r(1) m(1) have "j \<le> length src" by (fastforce simp: in_range_def)
    moreover have "i < j" if "py_strip (slice i j src) \<noteq> []"
      using that by (cases "i < j") (simp_all add: slice_def py_strip_def py_lstrip_def)
    ultimately show "in_text src s"
      using m(2) by (auto simp: span_of_def in_text_def Let_def split: if_splits)
  qed
  from dedupe_ok [OF this] r(2) show ?thesis by auto
qed

lemma outcome_of_simps [simp]:
  "oc_redacted (outcome_of e r) = fst r" "oc_mapping (outcome_of e r) = snd r"
  "oc_engine (outcome_of e r) = e" "oc_entity_count (outcome_of e r) = entity_count (snd r)"
  by (simp_all add: outcome_of_def split: prod.splits)

lemma run_engine_tokenises:
  assumes "in_range engine" and "run_engine engine call parse q src existing s = (Inr out, s')"
  shows "\<exists>ds. spans_ok src 0 ds \<and> out = outcome_of (oc_engine out) (tokenise src (rev ds) existing)"
proof -
  have claude: "\<exists>ds. spans_ok src 0 ds \<and> out = outcome_of (oc_engine out) (tokenise src (rev ds) existing)"
    if "run_claude call parse src existing s = (Inr out, s')"
  proof -
    from that obtain reply where o: "out = outcome_of ''claude'' (tokenise src (spans_from_claude (parse reply) src) existing)"
      by (auto simp: run_claude_def split: prod.splits sum.splits)
    from spans_from_claude_ok [of src "parse reply"] obtain ds where "spans_ok src 0 ds"
      "spans_from_claude (parse reply) src = rev ds" by blast
    with o show ?thesis by auto
  qed
  have presidio: "\<exists>ds. spans_ok src 0 ds \<and> out = outcome_of (oc_engine out) (tokenise src (rev ds) existing)"
    if "run_presidio engine src (an_threshold q) (an_entity_types q) existing = Inr out"
  proof -
    from that obtain spans where "analyse engine src (an_threshold q) (an_entity_types q) = Inr spans"
      and o: "out = outcome_of ''presidio'' (tokenise src spans existing)"
      by (auto simp: run_presidio_def split: sum.splits)
    from analyse_ok [OF assms(1) this(1)] o show ?thesis by auto
  qed
  from assms(2) claude presidio show ?thesis
    by (auto simp: run_engine_def split: if_splits sum.splits)
qed

subsection \<open>What is stored can be turned back\<close>

lemma body_of_put:
  "body_of did kind (put_body b d) =
     (if did = b_document_id b \<and> kind = b_kind b then Some b else body_of did kind d)"
proof (cases "body_of (b_document_id b) (b_kind b) d")
  case None
  then show ?thesis by (auto simp: put_body_def body_of_def find_append split: option.splits)
next
  case (Some old)
  let ?key = "\<lambda>x. b_document_id x = b_document_id b \<and> b_kind x = b_kind b"
  have hit: "find (\<lambda>x. b_document_id x = did \<and> b_kind x = kind) (update_where ?key (\<lambda>_. b) xs) = Some b"
    if "find (\<lambda>x. b_document_id x = did \<and> b_kind x = kind) xs = Some y" "did = b_document_id b" "kind = b_kind b" for xs y
    using that by (induction xs) (auto split: if_splits)
  have miss: "find (\<lambda>x. b_document_id x = did \<and> b_kind x = kind) (update_where ?key (\<lambda>_. b) xs)
      = find (\<lambda>x. b_document_id x = did \<and> b_kind x = kind) xs"
    if "\<not> (did = b_document_id b \<and> kind = b_kind b)" for xs
    using that by (induction xs) auto
  show ?thesis
  proof (cases "did = b_document_id b \<and> kind = b_kind b")
    case True
    with Some hit [of "doc_bodies d" old] show ?thesis by (auto simp: put_body_def body_of_def)
  next
    case False
    from Some miss [OF False, of "doc_bodies d"] show ?thesis unfolding if_not_P [OF False]
      by (simp add: put_body_def body_of_def)
  qed
qed

lemma body_of_add_event [simp]: "body_of did kind (add_event e d) = body_of did kind d"
  by (simp add: body_of_def)

lemma kinds_differ [simp]: "BODY_KIND_EXTRACTED \<noteq> BODY_KIND_REDACTED"
  by (simp add: BODY_KIND_EXTRACTED_def BODY_KIND_REDACTED_def)

text \<open>What the gateway's own writes leave alone.\<close>

definition keeps_bodies :: "gateway_call \<Rightarrow> bool" where
  "keeps_bodies call \<longleftrightarrow> (\<forall>prompt s. doc_bodies (working (snd (call prompt s))) = doc_bodies (working s))"

lemma run_engine_keeps_bodies:
  assumes "keeps_bodies call"
  shows "doc_bodies (working (snd (run_engine engine call parse q src existing s))) = doc_bodies (working s)"
proof -
  have "doc_bodies (working (snd (run_claude call parse src existing s))) = doc_bodies (working s)"
    using assms [unfolded keeps_bodies_def, rule_format, of "claude_prompt src" s]
    by (auto simp: run_claude_def split: prod.splits sum.splits)
  then show ?thesis by (simp add: run_engine_def split: sum.splits)
qed

lemma anonymise_document_stores:
  assumes "anonymise_document engine call parse latency_ms did actor q s = (Inr out, s')" and "keeps_bodies call"
  obtains body doc m s1 where "body_of did BODY_KIND_EXTRACTED (working s) = Some body"
    and "load_owned_document did actor (working s) = Some (doc, m)"
    and "run_engine engine call parse q (b_extracted_text body)
      (case body_of did BODY_KIND_REDACTED (working s) of None \<Rightarrow> None | Some b \<Rightarrow> b_mapping b) s = (Inr out, s1)"
    and "body_of did BODY_KIND_EXTRACTED (working s') = Some body"
    and "body_of did BODY_KIND_REDACTED (working s') = Some (redacted_body did body out (clock s1))"
proof -
  from assms(1) obtain doc m where l: "load_owned_document did actor (working s) = Some (doc, m)"
    by (auto simp: anonymise_document_def split: option.splits)
  then have [simp]: "doc_id doc = did" by (auto dest: load_owned_document_SomeD)
  from assms(1) l obtain body where b: "body_of did BODY_KIND_EXTRACTED (working s) = Some body"
    by (auto simp: anonymise_document_def split: option.splits)
  let ?mapping = "case body_of did BODY_KIND_REDACTED (working s) of None \<Rightarrow> None | Some b \<Rightarrow> b_mapping b"
  obtain r s1 where r: "run_engine engine call parse q (b_extracted_text body) ?mapping s = (r, s1)"
    by (cases "run_engine engine call parse q (b_extracted_text body) ?mapping s")
  from assms(1) l b r have o: "r = Inr out"
    and s': "s' = audit_log (run_event q actor (m_id m) did out latency_ms)
      (on_working (put_body (redacted_body did body out (clock s1))) s1)"
    by (auto simp: anonymise_document_def Let_def split: if_splits sum.splits)
  from run_engine_keeps_bodies [OF assms(2), of engine parse q "b_extracted_text body" ?mapping s] r
  have "body_of did BODY_KIND_EXTRACTED (working s1) = Some body" using b by (simp add: body_of_def)
  with s' have "body_of did BODY_KIND_EXTRACTED (working s') = Some body"
    "body_of did BODY_KIND_REDACTED (working s') = Some (redacted_body did body out (clock s1))"
    by (simp_all add: body_of_put redacted_body_def)
  with b l r o show ?thesis using that by blast
qed

text \<open>C22. A redaction can be undone by whoever holds the mapping, and only the reported spans
  change: after a successful run, by either engine, whatever a model replied and whatever mapping an
  earlier run left, walking the stored spans over the stored redacted text and putting each
  original back in its token's place gives the extracted text exactly.\<close>

theorem redaction_is_reversible:
  assumes "anonymise_document engine call parse latency_ms did actor q s = (Inr out, s')"
    and "in_range engine" and "keeps_bodies call"
  shows "\<exists>body b mapping. body_of did BODY_KIND_EXTRACTED (working s') = Some body
    \<and> body_of did BODY_KIND_REDACTED (working s') = Some b \<and> b_mapping b = Some mapping
    \<and> restore (b_extracted_text b) mapping = b_extracted_text body"
proof -
  from assms(1,3) obtain body doc m s1 where e: "body_of did BODY_KIND_EXTRACTED (working s') = Some body"
    "body_of did BODY_KIND_REDACTED (working s') = Some (redacted_body did body out (clock s1))"
    and r: "run_engine engine call parse q (b_extracted_text body)
      (case body_of did BODY_KIND_REDACTED (working s) of None \<Rightarrow> None | Some b \<Rightarrow> b_mapping b) s = (Inr out, s1)"
    by (rule anonymise_document_stores)
  from run_engine_tokenises [OF assms(2) r] tokenise_restores
  have "restore (oc_redacted out) (oc_mapping out) = b_extracted_text body"
    by (metis outcome_of_simps(1,2))
  with e show ?thesis by (simp add: redacted_body_def)
qed

section \<open>Tokens across runs\<close>

subsection \<open>Reading a token's number back\<close>

lemma digit_not: "c \<in> set (nat_str n) \<Longrightarrow> c \<noteq> CHR ''_'' \<and> c \<noteq> CHR ''['' \<and> c \<noteq> CHR '']'' \<and> c \<noteq> CHR ''-'' \<and> c \<noteq> CHR ''+'' \<and> \<not> py_isspace c"
  using nat_str_digits [of c n] by (auto simp: py_isspace_def)

lemma int_digits_append:
  "(\<forall>c \<in> set xs. 48 \<le> (of_char c :: nat) \<and> (of_char c :: nat) \<le> 57) \<Longrightarrow>
    int_digits seen v (xs @ ys) = int_digits (seen \<or> xs \<noteq> []) (foldl (\<lambda>v c. 10 * v + (of_char c - 48)) v xs) ys"
  by (induction xs arbitrary: seen v) (auto simp: Let_def)

lemma py_int_nat_str: "py_int (nat_str n) = Some (int n)"
proof -
  obtain c cs where c: "nat_str n = c # cs" by (cases "nat_str n") auto
  have "dropWhile py_isspace (nat_str n) = nat_str n" "dropWhile py_isspace (rev (nat_str n)) = rev (nat_str n)"
    using digit_not [of _ n] by (auto simp: dropWhile_eq_self_iff intro!: list.set_sel hd_in_set)
      (metis c list.set_sel(1) set_rev rev_is_Nil_conv list.distinct(1))+
  then have "py_strip (nat_str n) = nat_str n" by (simp add: py_strip_def py_lstrip_def)
  moreover have "int_digits False 0 (nat_str n) = Some n"
    using int_digits_append [of "nat_str n" False 0 "[]"] nat_str_digits [of _ n] digits_val_nat_str [of n]
    by (auto simp: digits_val_def less_Suc_eq_le [symmetric])
  ultimately show ?thesis using digit_not [of c n] by (simp add: py_int_def c)
qed

lemma prefix_for_cases:
  "prefix_for ty \<in> {''PARTY'', ''ORG'', ''ADDRESS'', ''DATE'', ''EMAIL'', ''PHONE'', ''NHS'', ''NI'', ''AMOUNT'', ''ENTITY''}"
  using map_of_SomeD [of ENTITY_PREFIX_MAP "py_upper ty"]
  by (cases "map_of ENTITY_PREFIX_MAP (py_upper ty)") (auto simp: prefix_for_def ENTITY_PREFIX_MAP_def)

lemma token_suffix_text:
  assumes "0 \<le> n"
  shows "token_suffix (token_text (prefix_for ty) n) = Some n"
proof -
  let ?p = "prefix_for ty" and ?d = "nat_str (nat n)"
  let ?br = "\<lambda>c. c \<in> set ''[]''"
  from prefix_for_cases [of ty] obtain a p where p: "?p = a # p" "\<not> ?br a" by auto
  obtain z ds where d: "rev ?d = z # ds" by (cases "rev ?d") auto
  then have z: "\<not> ?br z" using digit_not [of z "nat n"] by (metis list.set_intros(1) set_rev insert_iff list.set(1,2) empty_iff)
  have "token_text ?p n = CHR ''['' # ?p @ CHR ''_'' # ?d @ [CHR '']'']"
    using assms by (simp add: token_text_def int_str_def)
  then have "strip_brackets (token_text ?p n) = ?p @ CHR ''_'' # ?d"
    using p z by (simp add: strip_brackets_def Let_def d)
      (metis append_Cons d rev.simps(2) rev_append rev_rev_ident append_assoc append_Nil)
  moreover have "takeWhile (\<lambda>c. c \<noteq> CHR ''_'') (rev (?p @ CHR ''_'' # ?d)) = rev ?d"
  proof -
    have "c \<noteq> CHR ''_''" if "c \<in> set (rev ?d)" for c using digit_not [of c "nat n"] that by simp
    from takeWhile_append2 [OF this, of "rev ?d"] show ?thesis by simp
  qed
  ultimately show ?thesis using assms by (simp add: token_suffix_def py_int_nat_str)
qed

lemma token_text_inject:
  assumes "token_text (prefix_for a) n = token_text (prefix_for b) m" and "0 \<le> n" and "0 \<le> m"
  shows "prefix_for a = prefix_for b \<and> n = m"
proof -
  from assms token_suffix_text [of n a] token_suffix_text [of m b] have "n = m" by simp
  with assms(1) show ?thesis by (simp add: token_text_def)
qed

subsection \<open>The entries of a mapping and the state of a run\<close>

text \<open>Token, entity type and original of each entry; the key under which an original is known.\<close>

type_synonym entry = "string \<times> string \<times> string"

definition entries :: "(string \<times> token_meta) list \<Rightarrow> entry list" where
  "entries metas = map (\<lambda>(tok, m). (tok, tm_type m, tm_original m)) metas"

definition entry_key :: "entry \<Rightarrow> string \<times> string" where
  "entry_key = (\<lambda>(tok, ty, original). (prefix_for ty, original))"

definition entry_ok :: "entry \<Rightarrow> bool" where
  "entry_ok = (\<lambda>(tok, ty, original). original \<noteq> [] \<and> (\<exists>n \<ge> 1. tok = token_text (prefix_for ty) n))"

definition entries_ok :: "entry list \<Rightarrow> bool" where
  "entries_ok es \<longleftrightarrow> distinct (map fst es) \<and> distinct (map entry_key es) \<and> (\<forall>e \<in> set es. entry_ok e)"

definition agrees :: "entry list \<Rightarrow> counters \<times> token_cache \<Rightarrow> bool" where
  "agrees es st \<longleftrightarrow>
     (\<forall>k tok. snd st k = Some tok \<longleftrightarrow> (\<exists>e \<in> set es. k = entry_key e \<and> tok = fst e))
     \<and> (\<forall>e \<in> set es. \<forall>n. 1 \<le> n \<longrightarrow> fst e = token_text (fst (entry_key e)) n \<longrightarrow> (\<exists>c. fst st (fst (entry_key e)) = Some c \<and> n < c))
     \<and> (\<forall>p c. fst st p = Some c \<longrightarrow> 1 \<le> c)"

lemma agrees_add:
  assumes "agrees es (counters, cache)" and "entries_ok (es @ [(tok, ty, original)])"
    and "tok = token_text (prefix_for ty) n" and "1 \<le> n"
    and "n < c" and "\<forall>c0. counters (prefix_for ty) = Some c0 \<longrightarrow> c0 \<le> c"
  shows "agrees (es @ [(tok, ty, original)]) (counters(prefix_for ty \<mapsto> c), cache((prefix_for ty, original) \<mapsto> tok))"
proof -
  have new: "entry_key (tok, ty, original) = (prefix_for ty, original)" by (simp add: entry_key_def)
  from assms(2) have fresh: "entry_key e \<noteq> (prefix_for ty, original)" if "e \<in> set es" for e
    using that new by (force simp: entries_ok_def)
  from assms(1) have nums: "\<forall>e \<in> set es. \<forall>n. 1 \<le> n \<longrightarrow> fst e = token_text (fst (entry_key e)) n \<longrightarrow>
      (\<exists>c. counters (fst (entry_key e)) = Some c \<and> n < c)" by (simp add: agrees_def)
  have numbers: "\<exists>c'. (counters(prefix_for ty \<mapsto> c)) (fst (entry_key e)) = Some c' \<and> k < c'"
    if "e \<in> set (es @ [(tok, ty, original)])" "1 \<le> k" "fst e = token_text (fst (entry_key e)) k" for e k
  proof (cases "e = (tok, ty, original)")
    case True
    from that(3) have "tok = token_text (prefix_for ty) k" unfolding True by (simp add: new)
    then have "token_text (prefix_for ty) k = token_text (prefix_for ty) n" by (simp only: assms(3) [symmetric])
    from token_text_inject [OF this] that(2) assms(4,5) True show ?thesis by (simp add: new)
  next
    case False
    with that have e: "e \<in> set es" by auto
    from nums e that(2,3) obtain c' where "counters (fst (entry_key e)) = Some c'" "k < c'" by blast
    with assms(6) order_less_le_trans [of k c' c] show ?thesis
      by (cases "fst (entry_key e) = prefix_for ty") simp_all
  qed
  from assms(1) have cache: "\<forall>k t. cache k = Some t \<longleftrightarrow> (\<exists>e \<in> set es. k = entry_key e \<and> t = fst e)"
    and low: "\<forall>p c. counters p = Some c \<longrightarrow> 1 \<le> c" by (auto simp: agrees_def)
  have "(cache((prefix_for ty, original) \<mapsto> tok)) k = Some t \<longleftrightarrow>
      (\<exists>e \<in> set (es @ [(tok, ty, original)]). k = entry_key e \<and> t = fst e)" for k t
  proof (cases "k = (prefix_for ty, original)")
    case True
    with fresh new show ?thesis by (metis (no_types, lifting) UnE empty_iff fst_conv fun_upd_same in_set_conv_decomp
          list.set(1) list.set_intros(1) option.inject set_ConsD set_append)
  next
    case False
    with cache [rule_format, of k t] new show ?thesis by simp
  qed
  moreover have "1 \<le> c" using assms(4,5) by linarith
  ultimately show ?thesis using numbers low unfolding agrees_def by (simp del: set_append) 
qed

lemma entries_ok_prefix: "entries_ok (es @ fs) \<Longrightarrow> entries_ok es"
  by (simp add: entries_ok_def)

lemma seed_counters_agrees:
  assumes "agrees pre st" and "entries_ok (pre @ es)"
  shows "agrees (pre @ es) (seed_counters es st)"
  using assms
proof (induction es st arbitrary: pre rule: seed_counters.induct)
  case (2 tok ty original kvs counters cache)
  from "2.prems"(2) obtain n where n: "1 \<le> n" "tok = token_text (prefix_for ty) n" "original \<noteq> []"
    by (auto simp: entries_ok_def entry_ok_def)
  then have s: "token_suffix tok = Some n" by (simp add: token_suffix_text)
  let ?c = "max (case counters (prefix_for ty) of None \<Rightarrow> 0 | Some c \<Rightarrow> c) (n + 1)"
  have "agrees (pre @ [(tok, ty, original)])
      (counters(prefix_for ty \<mapsto> ?c), if original \<noteq> [] then cache((prefix_for ty, original) \<mapsto> tok) else cache)"
    unfolding if_P [OF n(3)] using "2.prems" n entries_ok_prefix [of "pre @ [(tok, ty, original)]" kvs] by (intro agrees_add) auto
  from "2.IH"(2) [OF refl s this] "2.prems"(2) n s show ?case by (simp add: Let_def)
qed simp

lemma agrees_empty: "agrees [] (Map.empty, Map.empty)"
  by (simp add: agrees_def)

subsection \<open>One span after another\<close>

lemma entries_simps [simp]: "entries [] = []" "entries (p # metas) = (fst p, tm_type (snd p), tm_original (snd p)) # entries metas"
  "entries (xs @ ys) = entries xs @ entries ys"
  by (auto simp: entries_def split: prod.splits)

lemma entries_bump [simp]: "entries (bump tok metas) = entries metas"
  by (induction metas) (auto simp: bump_def)

lemma dict_set_new: "k \<notin> fst ` set d \<Longrightarrow> dict_set k v d = d @ [(k, v)]"
  by (induction k v d rule: dict_set.induct) auto

lemma fst_entries: "fst ` set (entries metas) = fst ` set metas"
  by (induction metas) auto

definition state_ok :: "tok_state \<Rightarrow> bool" where
  "state_ok st \<longleftrightarrow> entries_ok (entries (ts_metas st)) \<and> agrees (entries (ts_metas st)) (ts_counters st, ts_cache st)"

definition has_token :: "entry list \<Rightarrow> span \<Rightarrow> string \<Rightarrow> bool" where
  "has_token es s tok \<longleftrightarrow> (\<exists>ty. (tok, ty, sp_original s) \<in> set es \<and> prefix_for ty = prefix_for (sp_type s))"

lemma assign_token_ok:
  assumes "state_ok st" and "sp_original s \<noteq> []" and "assign_token s st = (tok, st')"
  shows "state_ok st'" and "set (entries (ts_metas st)) \<subseteq> set (entries (ts_metas st'))"
    and "has_token (entries (ts_metas st')) s tok"
proof -
  let ?es = "entries (ts_metas st)" and ?p = "prefix_for (sp_type s)"
  let ?cs = "ts_counters st" and ?ca = "ts_cache st"
  from assms(1) have ok: "entries_ok ?es" and ag: "agrees ?es (?cs, ?ca)" by (simp_all add: state_ok_def)
  have "state_ok st' \<and> set ?es \<subseteq> set (entries (ts_metas st')) \<and> has_token (entries (ts_metas st')) s tok"
  proof (cases "?ca (?p, sp_original s)")
    case (Some t)
    with ag obtain e where "e \<in> set ?es" "(?p, sp_original s) = entry_key e" "t = fst e"
      by (auto simp: agrees_def)
    moreover obtain t' ty original where "e = (t', ty, original)" by (cases e)
    ultimately have e: "(t, ty, sp_original s) \<in> set ?es" "prefix_for ty = ?p"
      by (auto simp: entry_key_def)
    then have "t \<in> fst ` set (ts_metas st)" using fst_entries [of "ts_metas st"] by force
    then have "map_of (ts_metas st) t \<noteq> None" by (simp add: map_of_eq_None_iff)
    with Some assms(3) have "tok = t" "st' = st\<lparr>ts_metas := bump t (ts_metas st)\<rparr>"
      by (auto simp: assign_token_def Let_def)
    with ok ag e show ?thesis by (auto simp: state_ok_def has_token_def)
  next
    case None
    define idx where "idx = (case ?cs ?p of None \<Rightarrow> 1 | Some c \<Rightarrow> c)"
    define new where "new = token_text ?p idx"
    from ag have idx: "1 \<le> idx" by (auto simp: agrees_def idx_def split: option.splits)
    have fresh: "new \<notin> fst ` set ?es"
    proof
      assume "new \<in> fst ` set ?es"
      then obtain ty original where e: "(new, ty, original) \<in> set ?es" by auto
      with ok obtain n where n: "1 \<le> n" "new = token_text (prefix_for ty) n" by (auto simp: entries_ok_def entry_ok_def)
      with token_text_inject [of "sp_type s" idx ty n] idx have same: "prefix_for ty = ?p" "n = idx" by (auto simp: new_def)
      from ag e n obtain c where "?cs (prefix_for ty) = Some c" "n < c"
        unfolding agrees_def entry_key_def by fastforce
      with same show False by (simp add: idx_def)
    qed
    with None assms(3) fst_entries [of "ts_metas st"]
    have st': "tok = new" "st' = \<lparr>ts_counters = ?cs(?p \<mapsto> idx + 1), ts_cache = ?ca((?p, sp_original s) \<mapsto> new),
        ts_metas = bump new (ts_metas st @ [(new, \<lparr>tm_type = sp_type s, tm_original = sp_original s, tm_occurrences = 0\<rparr>)])\<rparr>"
      by (auto simp: assign_token_def Let_def idx_def [symmetric] new_def [symmetric] dict_set_new)
    have "(?p, sp_original s) \<notin> entry_key ` set ?es"
    proof
      assume "(?p, sp_original s) \<in> entry_key ` set ?es"
      then obtain e where "e \<in> set ?es" "(?p, sp_original s) = entry_key e" by blast
      with ag have "?ca (?p, sp_original s) = Some (fst e)" unfolding agrees_def snd_conv by blast
      with None show False by simp
    qed
    with ok fresh idx assms(2) have ok': "entries_ok (?es @ [(new, sp_type s, sp_original s)])"
      by (auto simp: entries_ok_def entry_ok_def entry_key_def new_def)
    have "agrees (?es @ [(new, sp_type s, sp_original s)]) (?cs(?p \<mapsto> idx + 1), ?ca((?p, sp_original s) \<mapsto> new))"
      by (rule agrees_add [OF ag ok' new_def idx]) (auto simp: idx_def)
    with ok' st' show ?thesis by (auto simp: state_ok_def has_token_def)
  qed
  then show "state_ok st'" "set ?es \<subseteq> set (entries (ts_metas st'))" "has_token (entries (ts_metas st')) s tok" by blast+
qed

lemma assign_all_ok:
  assumes "state_ok st" and "\<forall>s \<in> set ss. sp_original s \<noteq> []" and "assign_all ss st = (pairs, st')"
  shows "state_ok st' \<and> set (entries (ts_metas st)) \<subseteq> set (entries (ts_metas st'))
    \<and> (\<forall>(s, tok) \<in> set pairs. has_token (entries (ts_metas st')) s tok)"
  using assms
proof (induction ss st arbitrary: pairs rule: assign_all.induct)
  case (2 s ss st)
  obtain tok st1 where one: "assign_token s st = (tok, st1)" by (cases "assign_token s st")
  obtain rest where two: "assign_all ss st1 = (rest, st')" "pairs = (s, tok) # rest"
    using "2.prems"(3) one by (auto split: prod.splits)
  from assign_token_ok [OF "2.prems"(1) _ one] "2.prems"(2)
  have a: "state_ok st1" "set (entries (ts_metas st)) \<subseteq> set (entries (ts_metas st1))" "has_token (entries (ts_metas st1)) s tok"
    by auto
  with "2.IH" [OF one [symmetric] a(1) _ two(1)] "2.prems"(2) two show ?case
    by (auto simp: has_token_def)
qed auto

subsection \<open>A whole run\<close>

lemma old_metas_entries:
  assumes "distinct (map fst es)"
  shows "entries (old_metas es) = es"
proof -
  have "entries (foldl (\<lambda>metas (tok, ty, original).
      dict_set tok \<lparr>tm_type = ty, tm_original = original, tm_occurrences = 0\<rparr> metas) metas es) = entries metas @ es"
    if "distinct (map fst es)" "fst ` set metas \<inter> fst ` set es = {}" for metas
    using that
  proof (induction es arbitrary: metas)
    case (Cons e es)
    obtain tok ty original where [simp]: "e = (tok, ty, original)" by (cases e)
    let ?new = "(tok, \<lparr>tm_type = ty, tm_original = original, tm_occurrences = 0\<rparr>)"
    from Cons.prems have "tok \<notin> fst ` set metas" by auto
    then have "dict_set tok (snd ?new) metas = metas @ [?new]" by (simp add: dict_set_new)
    with Cons.IH [of "metas @ [?new]"] Cons.prems show ?case by auto
  qed simp
  from this [of "[]"] assms show ?thesis by (simp add: old_metas_def)
qed

lemma known_tokens_mapping [simp]: "known_tokens (Some (mapping_json metas pairs)) = entries metas"
proof -
  have "List.map_filter (\<lambda>(tok, meta). case meta of
      JObj _ \<Rightarrow> Some (tok, meta_text ''entity_type'' meta, meta_text ''original'' meta) | _ \<Rightarrow> None)
      (map (map_prod id meta_json) metas) = entries metas"
    by (induction metas) (auto simp: meta_json_def meta_text_def jget_or_def jget_def py_str_def)
  then show ?thesis by (simp add: known_tokens_def mapping_json_def jget_def)
qed

lemma known_tokens_None [simp]: "known_tokens None = []"
  by (simp add: known_tokens_def)

lemma seeded_state_ok:
  assumes "entries_ok es" and "seed_counters es (Map.empty, Map.empty) = (counters, cache)"
  shows "state_ok \<lparr>ts_counters = counters, ts_cache = cache, ts_metas = old_metas es\<rparr>"
    and "entries (old_metas es) = es"
proof -
  from assms(1) show e: "entries (old_metas es) = es" by (simp add: old_metas_entries entries_ok_def)
  from seed_counters_agrees [OF agrees_empty, of es] assms e
  show "state_ok \<lparr>ts_counters = counters, ts_cache = cache, ts_metas = old_metas es\<rparr>" by (simp add: state_ok_def)
qed

lemma in_text_original: "in_text src s \<Longrightarrow> sp_original s \<noteq> []"
  by (auto simp: in_text_def slice_def)

lemma spans_ok_originals: "spans_ok src pos ss \<Longrightarrow> \<forall>s \<in> set ss. sp_original s \<noteq> []"
  by (induction src pos ss rule: spans_ok.induct) (auto dest: in_text_original)

lemma tokenise_keeps_tokens:
  assumes "spans_ok src 0 ss" and "ss \<noteq> []" and "entries_ok (known_tokens existing)"
  obtains metas pairs where "tokenise src (rev ss) existing = (weave 0 src pairs, mapping_json metas pairs)"
    and "entries_ok (entries metas)" and "set (known_tokens existing) \<subseteq> set (entries metas)"
    and "\<forall>(s, tok) \<in> set pairs. has_token (entries metas) s tok"
proof -
  let ?es = "known_tokens existing"
  obtain counters cache where c: "seed_counters ?es (Map.empty, Map.empty) = (counters, cache)"
    by (cases "seed_counters ?es (Map.empty, Map.empty)")
  let ?st = "\<lparr>ts_counters = counters, ts_cache = cache, ts_metas = old_metas ?es\<rparr>"
  from seeded_state_ok [OF assms(3) c] have st: "state_ok ?st" "entries (old_metas ?es) = ?es" by simp_all
  obtain ps st' where a: "assign_all ss ?st = (ps, st')" by (cases "assign_all ss ?st")
  from tokenise_pairs [OF assms(1,2), of existing] obtain pairs metas
    where t: "tokenise src (rev ss) existing = (weave 0 src pairs, mapping_json metas pairs)"
      and p: "(pairs, metas) = (ps, ts_metas st')" using c a by auto
  from assign_all_ok [OF st(1) spans_ok_originals [OF assms(1)] a] st(2) p
  show ?thesis using that [OF t] by (simp add: state_ok_def)
qed

subsection \<open>The mappings a document's runs leave\<close>

text \<open>What can be stored for a document: nothing, or what a run over a stored mapping returned.\<close>

inductive stored_mapping :: "recogniser option \<Rightarrow> gateway_call \<Rightarrow> (string \<Rightarrow> json) \<Rightarrow> json option \<Rightarrow> bool"
  for engine call parse where
  cold: "stored_mapping engine call parse None"
| run: "stored_mapping engine call parse existing \<Longrightarrow>
    run_engine engine call parse q src existing s = (Inr out, s') \<Longrightarrow>
    stored_mapping engine call parse (Some (oc_mapping out))"

lemma run_engine_keeps_tokens:
  assumes "in_range engine" and "entries_ok (known_tokens existing)"
    and "run_engine engine call parse q src existing s = (Inr out, s')"
  shows "oc_redacted out = src \<and> oc_mapping out = mapping_json [] []
    \<or> (\<exists>metas pairs. oc_mapping out = mapping_json metas pairs \<and> pairs \<noteq> [] \<and> entries_ok (entries metas)
        \<and> set (known_tokens existing) \<subseteq> set (entries metas) \<and> (\<forall>(s, tok) \<in> set pairs. has_token (entries metas) s tok))"
proof -
  from run_engine_tokenises [OF assms(1,3)] obtain ds where ds: "spans_ok src 0 ds"
    and out: "out = outcome_of (oc_engine out) (tokenise src (rev ds) existing)" by blast
  show ?thesis
  proof (cases "ds = []")
    case True
    then have "tokenise src (rev ds) existing = (src, mapping_json [] [])" by (simp add: tokenise_def)
    with out show ?thesis by (metis fst_conv outcome_of_simps(1,2) snd_conv)
  next
    case False
    from tokenise_pairs [OF ds False, of existing] obtain ps ms
      where p: "tokenise src (rev ds) existing = (weave 0 src ps, mapping_json ms ps)" "map fst ps = ds" by metis
    from tokenise_keeps_tokens [OF ds False assms(2)] obtain metas pairs
      where t: "tokenise src (rev ds) existing = (weave 0 src pairs, mapping_json metas pairs)"
      and k: "entries_ok (entries metas)" "set (known_tokens existing) \<subseteq> set (entries metas)"
        "\<forall>(s, tok) \<in> set pairs. has_token (entries metas) s tok" by metis
    from p t have "map span_json ps = map span_json pairs" by (metis prod.inject stored_spans)
    with p False have "pairs \<noteq> []" by auto
    moreover from out t have "oc_mapping out = mapping_json metas pairs" by (metis outcome_of_simps(2) snd_conv)
    ultimately show ?thesis using k by blast
  qed
qed

lemma stored_mapping_ok:
  assumes "stored_mapping engine call parse existing" and "in_range engine"
  shows "entries_ok (known_tokens existing)"
  using assms
proof (induction rule: stored_mapping.induct)
  case cold
  then show ?case by (simp add: entries_ok_def)
next
  case (run existing q src s out s')
  from run_engine_keeps_tokens [OF run.prems run.IH [OF run.prems] run.hyps(2)] show ?case
    by (auto simp: entries_ok_def)
qed

text \<open>C23. Tokens keep their originals. Over any history of runs of a document, by either engine: a
  run that finds something keeps every token of the stored mapping with its entity type and its
  original, no token stands for two originals, no original of a bucket has two tokens, and every span
  it stores is replaced by the token of its original.\<close>

theorem tokens_keep_their_originals:
  assumes "stored_mapping engine call parse existing" and "in_range engine"
    and "run_engine engine call parse q src existing s = (Inr out, s')"
    and "jlist ''spans'' (oc_mapping out) \<noteq> []"
  shows "let es = known_tokens (Some (oc_mapping out)) in
    set (known_tokens existing) \<subseteq> set es
    \<and> distinct (map fst es) \<and> distinct (map (\<lambda>(tok, ty, original). (prefix_for ty, original)) es)
    \<and> set (map (\<lambda>(i, j, tok, original). (tok, original)) (map stored_span (jlist ''spans'' (oc_mapping out))))
        \<subseteq> set (map (\<lambda>(tok, ty, original). (tok, original)) es)"
proof -
  from run_engine_keeps_tokens [OF assms(2) stored_mapping_ok [OF assms(1,2)] assms(3)] assms(4)
  obtain metas pairs where m: "oc_mapping out = mapping_json metas pairs" and ok: "entries_ok (entries metas)"
    and sub: "set (known_tokens existing) \<subseteq> set (entries metas)"
    and tok: "\<forall>(s, tok) \<in> set pairs. has_token (entries metas) s tok" by (auto simp: mapping_json_def jlist_def jget_def)
  have "(tok, sp_original s) \<in> (\<lambda>(tok, ty, original). (tok, original)) ` set (entries metas)"
    if "(s, tok) \<in> set pairs" for s tok
    using tok that unfolding has_token_def by force
  then have "set (map (\<lambda>(i, j, tok, original). (tok, original)) (map stored_span (map span_json pairs)))
      \<subseteq> set (map (\<lambda>(tok, ty, original). (tok, original)) (entries metas))" by auto
  with m ok sub show ?thesis
    by (simp add: Let_def entries_ok_def entry_key_def)
qed

text \<open>A run can undo the redaction it was asked to improve. On the automatic path, when the
  analyser finds one or two entities of a long text, the model is asked instead; when its reply
  names no span of the text (or cannot be parsed), what is returned and stored is the source text
  itself with an empty mapping, and every token earlier runs gave out is forgotten: later runs number
  from 1 as if the document were new.\<close>

theorem failed_fallback_unredacts:
  assumes "an_engine q = ''auto''" and "length src > AUTO_MIN_CHARS"
    and "run_presidio engine src (an_threshold q) (an_entity_types q) existing = Inr found"
    and "oc_entity_count found < AUTO_MIN_ENTITIES"
    and "call (claude_prompt src) s = (Inr reply, s1)" and "spans_from_claude (parse reply) src = []"
  shows "\<exists>out. run_engine engine call parse q src existing s = (Inr out, s1)
    \<and> oc_redacted out = src \<and> known_tokens (Some (oc_mapping out)) = []
    \<and> tokenise any later (Some (oc_mapping out)) = tokenise any later None"
proof -
  let ?out = "outcome_of ''claude'' (src, mapping_json [] [])"
  from assms(5,6) have "run_claude call parse src existing s = (Inr ?out, s1)"
    by (simp add: run_claude_def tokenise_def)
  with assms(1-4) have "run_engine engine call parse q src existing s = (Inr ?out, s1)"
    by (simp add: run_engine_def)
  then show ?thesis by (intro exI [of _ ?out]) (simp add: tokenise_def)
qed

subsection \<open>Sample runs\<close>

definition two_people :: recogniser where
  "two_people = (\<lambda>text threshold types. filter (\<lambda>(i, j, ty, score). j \<le> length text)
     [(0, 3, ''PERSON'', 85), (8, 11, ''PERSON'', 85)])"

definition no_gateway :: gateway_call where
  "no_gateway = (\<lambda>prompt s. (Inr ''no reply'', s))"

definition empty_envelope :: "string \<Rightarrow> json" where
  "empty_envelope = parse_claude_envelope (\<lambda>_. None) Some"

definition presidio_request :: anon_request where
  "presidio_request = \<lparr>an_engine = ''presidio'', an_entity_types = None, an_threshold = JStr ''0.4''\<rparr>"

definition sample_source :: doc_body where
  "sample_source = \<lparr>b_document_id = ''d'', b_kind = BODY_KIND_EXTRACTED, b_extracted_text = ''Ann met Bob.'',
     b_extraction_method = ''plain'', b_extracted_at = 0, b_char_count = 12, b_page_count = None,
     b_error_reason = None, b_mapping = None, b_engine = None, b_anonymised_at = None\<rparr>"

definition anon_db :: db where
  "anon_db = empty_db\<lparr>documents := [\<lparr>doc_id = ''d'', doc_matter_id = ''m'', doc_index_status = ''pending'', doc_indexed_at = None, doc_filename = ''f'', doc_mime_type = ''text/plain'',
     doc_size_bytes = 0, doc_sha256 = ''h'', doc_storage_uri = None, doc_uploaded_at = 0, doc_uploaded_by_id = ''u'',
     doc_tag = None, doc_from_disclosure = False,
     doc_disclosure_ref = None\<rparr>],
     matters := [\<lparr>m_id = ''m'', m_slug = ''m'', m_title = ''m'', m_status = ''open'', m_privilege_posture = ''B'',
       m_created_by_id = ''u'', m_retention_until = None, m_default_model_id = ''stub-echo'',
     m_matter_type = ''employment_tribunal'', m_cause = None, m_case_theory = None,
     m_pivot_fact = None, m_facts = JObj [], m_opened_at = 0, m_closed_at = None\<rparr>],
     doc_bodies := [sample_source]\<rparr>"

definition sample_mapping :: json where
  "sample_mapping = mapping_json
     [(''[PARTY_1]'', \<lparr>tm_type = ''PERSON'', tm_original = ''Ann'', tm_occurrences = 1\<rparr>),
      (''[PARTY_2]'', \<lparr>tm_type = ''PERSON'', tm_original = ''Bob'', tm_occurrences = 1\<rparr>)]
     [(\<lparr>sp_start = 0, sp_end = 3, sp_type = ''PERSON'', sp_score = 85, sp_original = ''Ann''\<rparr>, ''[PARTY_1]''),
      (\<lparr>sp_start = 8, sp_end = 11, sp_type = ''PERSON'', sp_score = 85, sp_original = ''Bob''\<rparr>, ''[PARTY_2]'')]"

lemma two_people_in_range: "in_range (Some two_people)"
  by (auto simp: in_range_def two_people_def)

lemma no_gateway_keeps_bodies: "keeps_bodies no_gateway"
  by (simp add: keeps_bodies_def no_gateway_def)

lemma sample_run:
  "run_engine (Some two_people) no_gateway empty_envelope presidio_request ''Ann met Bob.'' existing s =
     (Inr (outcome_of ''presidio'' (tokenise ''Ann met Bob.''
        [\<lparr>sp_start = 8, sp_end = 11, sp_type = ''PERSON'', sp_score = 85, sp_original = ''Bob''\<rparr>,
         \<lparr>sp_start = 0, sp_end = 3, sp_type = ''PERSON'', sp_score = 85, sp_original = ''Ann''\<rparr>] existing)), s)"
proof -
  have "analyse (Some two_people) ''Ann met Bob.'' (JStr ''0.4'') None =
      Inr [\<lparr>sp_start = 8, sp_end = 11, sp_type = ''PERSON'', sp_score = 85, sp_original = ''Bob''\<rparr>,
         \<lparr>sp_start = 0, sp_end = 3, sp_type = ''PERSON'', sp_score = 85, sp_original = ''Ann''\<rparr>]"
    by code_simp
  then show ?thesis by (simp add: run_engine_def run_presidio_def presidio_request_def)
qed

lemma sample_tokenised:
  "tokenise ''Ann met Bob.''
     [\<lparr>sp_start = 8, sp_end = 11, sp_type = ''PERSON'', sp_score = 85, sp_original = ''Bob''\<rparr>,
      \<lparr>sp_start = 0, sp_end = 3, sp_type = ''PERSON'', sp_score = 85, sp_original = ''Ann''\<rparr>] None
   = (''[PARTY_1] met [PARTY_2].'', sample_mapping)"
  by code_simp

theorem redaction_is_reversible_witness:
  "case anonymise_document (Some two_people) no_gateway empty_envelope 7 ''d'' ''u'' presidio_request (open_session anon_db 9) of
     (Inr out, s') \<Rightarrow> oc_redacted out = ''[PARTY_1] met [PARTY_2].'' \<and>
       (\<exists>body b mapping. body_of ''d'' BODY_KIND_EXTRACTED (working s') = Some body
         \<and> body_of ''d'' BODY_KIND_REDACTED (working s') = Some b \<and> b_mapping b = Some mapping
         \<and> restore (b_extracted_text b) mapping = b_extracted_text body)
   | _ \<Rightarrow> False"
proof -
  let ?s = "open_session anon_db 9"
  have l: "load_owned_document ''d'' ''u'' (working ?s) = Some (hd (documents anon_db), hd (matters anon_db))"
    and b: "body_of ''d'' BODY_KIND_EXTRACTED (working ?s) = Some sample_source"
    and n: "body_of ''d'' BODY_KIND_REDACTED (working ?s) = None"
    by code_simp+
  have "doc_id (hd (documents anon_db)) = ''d''" "b_extracted_text sample_source = ''Ann met Bob.''"
    "b_extraction_method sample_source \<noteq> ''failed''" by code_simp+
  then obtain s' where r: "anonymise_document (Some two_people) no_gateway empty_envelope 7 ''d'' ''u'' presidio_request ?s
      = (Inr (outcome_of ''presidio'' (''[PARTY_1] met [PARTY_2].'', sample_mapping)), s')"
    by (simp add: anonymise_document_def l b n sample_run sample_tokenised Let_def)
  from redaction_is_reversible [OF r two_people_in_range no_gateway_keeps_bodies] show ?thesis
    by (simp add: r)
qed

lemma sample_rerun_known:
  "tokenise ''Ann met Bob.''
     [\<lparr>sp_start = 8, sp_end = 11, sp_type = ''PERSON'', sp_score = 85, sp_original = ''Bob''\<rparr>,
      \<lparr>sp_start = 0, sp_end = 3, sp_type = ''PERSON'', sp_score = 85, sp_original = ''Ann''\<rparr>] (Some sample_mapping)
   = (''[PARTY_1] met [PARTY_2].'', sample_mapping)"
  by code_simp

theorem tokens_keep_their_originals_witness:
  "set (known_tokens (Some sample_mapping)) \<subseteq> {(''[PARTY_1]'', ''PERSON'', ''Ann''), (''[PARTY_2]'', ''PERSON'', ''Bob'')}
   \<and> distinct (map (\<lambda>(tok, ty, original). (prefix_for ty, original)) (known_tokens (Some sample_mapping)))"
proof -
  let ?out = "outcome_of ''presidio'' (''[PARTY_1] met [PARTY_2].'', sample_mapping)"
  have one: "stored_mapping (Some two_people) no_gateway empty_envelope (Some (oc_mapping ?out))"
    using stored_mapping.run [OF stored_mapping.cold sample_run [where s = "open_session anon_db 9"]]
    by (simp add: sample_tokenised)
  have two: "run_engine (Some two_people) no_gateway empty_envelope presidio_request ''Ann met Bob.'' (Some (oc_mapping ?out))
      (open_session anon_db 9) = (Inr ?out, open_session anon_db 9)"
    by (simp add: sample_run sample_rerun_known)
  have "jlist ''spans'' (oc_mapping ?out) \<noteq> []" by (simp add: sample_mapping_def)
  from tokens_keep_their_originals [OF one two_people_in_range two this]
  show ?thesis by (simp add: Let_def) (simp add: sample_mapping_def)
qed

lemma tokenise_mapping: "snd (tokenise src spans existing) = snd (tokenise other spans existing)"
  by (simp add: tokenise_def Let_def split: prod.splits)

theorem failed_fallback_unredacts_witness:
  "case run_engine (Some two_people) no_gateway empty_envelope (presidio_request\<lparr>an_engine := ''auto''\<rparr>)
     (''Ann met Bob.'' @ replicate 1000 CHR ''x'') (Some sample_mapping) (open_session anon_db 9) of
     (Inr out, _) \<Rightarrow> oc_redacted out = ''Ann met Bob.'' @ replicate 1000 CHR ''x''
       \<and> fst (tokenise ''Bob'' [\<lparr>sp_start = 0, sp_end = 3, sp_type = ''PERSON'', sp_score = 85, sp_original = ''Bob''\<rparr>]
           (Some (oc_mapping out))) = ''[PARTY_1]''
   | _ \<Rightarrow> False"
proof -
  let ?src = "''Ann met Bob.'' @ replicate 1000 CHR ''x''"
  let ?q = "presidio_request\<lparr>an_engine := ''auto''\<rparr>"
  let ?s = "open_session anon_db 9"
  let ?later = "[\<lparr>sp_start = 0, sp_end = 3, sp_type = ''PERSON'', sp_score = 85, sp_original = ''Bob''\<rparr>]"
  let ?spans = "[\<lparr>sp_start = 8, sp_end = 11, sp_type = ''PERSON'', sp_score = 85, sp_original = ''Bob''\<rparr>,
       \<lparr>sp_start = 0, sp_end = 3, sp_type = ''PERSON'', sp_score = 85, sp_original = ''Ann''\<rparr>]"
  have "slice 0 3 ?src = ''Ann''" "slice 8 11 ?src = ''Bob''" by (simp_all add: slice_def)
  moreover have "py_strip ''Ann'' \<noteq> []" "py_strip ''Bob'' \<noteq> []" by code_simp+
  ultimately have "analyse (Some two_people) ?src (JStr ''0.4'') None = Inr (dedupe
      [\<lparr>sp_start = 0, sp_end = 3, sp_type = ''PERSON'', sp_score = 85, sp_original = ''Ann''\<rparr>,
       \<lparr>sp_start = 8, sp_end = 11, sp_type = ''PERSON'', sp_score = 85, sp_original = ''Bob''\<rparr>])"
    by (simp add: analyse_def two_people_def span_of_def)
  also have "\<dots> = Inr [\<lparr>sp_start = 8, sp_end = 11, sp_type = ''PERSON'', sp_score = 85, sp_original = ''Bob''\<rparr>,
       \<lparr>sp_start = 0, sp_end = 3, sp_type = ''PERSON'', sp_score = 85, sp_original = ''Ann''\<rparr>]" by code_simp
  finally have an: "analyse (Some two_people) ?src (an_threshold ?q) (an_entity_types ?q) = Inr ?spans"
    by (simp add: presidio_request_def)
  have "snd (tokenise ?src ?spans (Some sample_mapping)) = sample_mapping"
    using tokenise_mapping [of ?src ?spans "Some sample_mapping" "''Ann met Bob.''"] by (simp only: sample_rerun_known snd_conv)
  then obtain r where r: "tokenise ?src ?spans (Some sample_mapping) = (r, sample_mapping)" by (metis prod.collapse)
  have f: "run_presidio (Some two_people) ?src (an_threshold ?q) (an_entity_types ?q) (Some sample_mapping)
      = Inr (outcome_of ''presidio'' (r, sample_mapping))"
    by (simp only: run_presidio_def an sum.case r)
  have c: "oc_entity_count (outcome_of ''presidio'' (r, sample_mapping)) < AUTO_MIN_ENTITIES"
    by (simp add: entity_count_def sample_mapping_def mapping_json_def jget_def AUTO_MIN_ENTITIES_def)
  have e: "spans_from_claude (empty_envelope ''no reply'') ?src = []"
    by (simp add: empty_envelope_def parse_claude_envelope_def parse_model_json_def spans_from_claude_def
        offset_spans_def token_spans_def jlist_def jget_def dedupe_def sort_desc_def Let_def split: option.splits)
  have l: "length ?src > AUTO_MIN_CHARS" by (simp add: AUTO_MIN_CHARS_def)
  have g: "no_gateway (claude_prompt ?src) ?s = (Inr ''no reply'', ?s)" by (simp add: no_gateway_def)
  have a: "an_engine ?q = ''auto''" by simp
  from failed_fallback_unredacts [where call = no_gateway and parse = empty_envelope and reply = "''no reply''",
      OF a l f c g e, of "''Bob''" ?later]
  obtain out where out: "run_engine (Some two_people) no_gateway empty_envelope ?q ?src (Some sample_mapping) ?s = (Inr out, ?s)"
    "oc_redacted out = ?src" "tokenise ''Bob'' ?later (Some (oc_mapping out)) = tokenise ''Bob'' ?later None" by blast
  moreover have "fst (tokenise ''Bob'' ?later None) = ''[PARTY_1]''" by code_simp
  ultimately show ?thesis by (simp only: out prod.case sum.case)
qed

end
