(* ===== verification/EnvelopeStream.thy ===== *)
theory EnvelopeStream
  imports Prelude "HOL-Library.Sublist"
begin

text \<open>
  Streaming an assistant reply (\<open>app/modules/assistant/pipeline.py\<close>): the model answers with a JSON
  envelope, and the user is shown the growing value of its \<open>content\<close> field. Texts here are lists
  of code points, since the escapes of a JSON string reach all of Unicode. The claims: whatever
  the chunks, the deltas join up to the JSON string that is being sent; and a malformed escape
  makes the streamer raise.
\<close>

type_synonym codes = "nat list"

definition codes_of :: "string \<Rightarrow> codes" where
  "codes_of s = map of_char s"

section \<open>The first content field\<close>

text \<open>\<open>\s\<close> of a pattern on text: the code points Python counts as white space.\<close>

definition re_space :: "nat \<Rightarrow> bool" where
  "re_space c \<longleftrightarrow> 9 \<le> c \<and> c \<le> 13 \<or> 28 \<le> c \<and> c \<le> 32 \<or> c = 133 \<or> c = 160 \<or> c = 5760
     \<or> 8192 \<le> c \<and> c \<le> 8202 \<or> c \<in> {8232, 8233, 8239, 8287, 12288}"

definition FIELD_NAME :: codes where
  "FIELD_NAME = codes_of [CHR 0x22, CHR ''c'', CHR ''o'', CHR ''n'', CHR ''t'', CHR ''e'', CHR ''n'', CHR ''t'', CHR 0x22]"

text \<open>The pattern at the head of a text: what follows the match.\<close>

definition match_field :: "codes \<Rightarrow> codes option" where
  "match_field s =
     (if take (length FIELD_NAME) s \<noteq> FIELD_NAME then None
      else case dropWhile re_space (drop (length FIELD_NAME) s) of
          c # rest \<Rightarrow> if c \<noteq> 58 then None
            else (case dropWhile re_space rest of d # value \<Rightarrow> if d = 34 then Some value else None | [] \<Rightarrow> None)
        | [] \<Rightarrow> None)"

fun search_field :: "codes \<Rightarrow> codes option" where
  "search_field [] = None"
| "search_field (c # cs) = (case match_field (c # cs) of Some value \<Rightarrow> Some value | None \<Rightarrow> search_field cs)"

section \<open>Decoding a growing string\<close>

text \<open>
  \<open>int(text, 16)\<close>: white space, a sign, \<open>0x\<close>, and digits with single underscores between them.
  (It also reads the decimal digits of other scripts, which are left out.)
\<close>

definition hex_value :: "nat \<Rightarrow> nat option" where
  "hex_value c = (if 48 \<le> c \<and> c \<le> 57 then Some (c - 48) else if 65 \<le> c \<and> c \<le> 70 then Some (c - 55)
     else if 97 \<le> c \<and> c \<le> 102 then Some (c - 87) else None)"

fun hex_digits :: "bool \<Rightarrow> nat \<Rightarrow> codes \<Rightarrow> nat option" where
  "hex_digits seen v [] = (if seen then Some v else None)"
| "hex_digits seen v (c # cs) =
     (case hex_value c of
        Some d \<Rightarrow> hex_digits True (16 * v + d) cs
      | None \<Rightarrow> if c = 95 \<and> seen then hex_digits False v cs else None)"

text \<open>After \<open>0x\<close> one underscore may come first.\<close>

definition hex_body :: "codes \<Rightarrow> nat option" where
  "hex_body s =
     (case s of
        z # x # rest \<Rightarrow>
          if z = 48 \<and> (x = 120 \<or> x = 88)
          then (case rest of u # ds \<Rightarrow> if u = 95 then hex_digits False 0 ds else hex_digits False 0 rest | [] \<Rightarrow> None)
          else hex_digits False 0 s
      | _ \<Rightarrow> hex_digits False 0 s)"

definition parse_hex :: "codes \<Rightarrow> int option" where
  "parse_hex s =
     (case rev (dropWhile re_space (rev (dropWhile re_space s))) of
        [] \<Rightarrow> None
      | c # cs \<Rightarrow> if c = 45 then map_option (\<lambda>n. - int n) (hex_body cs)
          else if c = 43 then map_option int (hex_body cs) else map_option int (hex_body (c # cs)))"

definition JSON_STRING_ESCAPES :: "(nat \<times> nat) list" where
  "JSON_STRING_ESCAPES = [(34, 34), (92, 92), (47, 47), (98, 8), (102, 12), (110, 10), (114, 13), (116, 9)]"

definition short_escape :: "nat \<Rightarrow> nat" where
  "short_escape esc = (case map_of JSON_STRING_ESCAPES esc of Some c \<Rightarrow> c | None \<Rightarrow> esc)"

definition is_high :: "int \<Rightarrow> bool" where "is_high code \<longleftrightarrow> 0xD800 \<le> code \<and> code \<le> 0xDBFF"
definition is_low :: "int \<Rightarrow> bool" where "is_low code \<longleftrightarrow> 0xDC00 \<le> code \<and> code \<le> 0xDFFF"

definition REPLACEMENT :: nat where "REPLACEMENT = 0xFFFD"

text \<open>The low surrogate of the escape that follows a high one.\<close>

definition low_after :: "codes \<Rightarrow> int option" where
  "low_after low_esc =
     (if take 2 low_esc = [92, 117]
      then (case parse_hex (drop 2 low_esc) of Some low \<Rightarrow> if is_low low then Some low else None | None \<Rightarrow> None)
      else None)"

definition join_pair :: "int \<Rightarrow> int \<Rightarrow> nat" where
  "join_pair high low = nat (0x10000 + (high - 0xD800) * 1024 + (low - 0xDC00))"

text \<open>The loop: the text from the current position on. \<open>chr\<close> of a negative number raises.\<close>

datatype stream_error = ChrOutOfRange

abbreviation emit :: "nat \<Rightarrow> stream_error + codes \<Rightarrow> stream_error + codes" where
  "emit c r \<equiv> (case r of Inl e \<Rightarrow> Inl e | Inr out \<Rightarrow> Inr (c # out))"

function decode :: "codes \<Rightarrow> stream_error + codes" where
  "decode raw =
     (case raw of
        [] \<Rightarrow> Inr []
      | ch # rest \<Rightarrow>
          if ch = 34 then Inr []
          else if ch \<noteq> 92 then emit ch (decode rest)
          else case rest of
              [] \<Rightarrow> Inr []
            | esc # rest' \<Rightarrow>
                if esc \<noteq> 117 then emit (short_escape esc) (decode rest')
                else if length raw < 6 then Inr []
                else case parse_hex (take 4 rest') of
                    None \<Rightarrow> decode (drop 6 raw)
                  | Some code \<Rightarrow>
                      if is_high code then
                        (if length raw < 12 then Inr []
                         else case low_after (take 6 (drop 6 raw)) of
                             Some low \<Rightarrow> emit (join_pair code low) (decode (drop 12 raw))
                           | None \<Rightarrow> emit REPLACEMENT (decode (drop 6 raw)))
                      else if is_low code then emit REPLACEMENT (decode (drop 6 raw))
                      else if code < 0 then Inl ChrOutOfRange
                      else emit (nat code) (decode (drop 6 raw)))"
  by pat_completeness auto
termination by (relation "measure length") auto

declare decode.simps [simp del]

definition partial_envelope_content :: "codes \<Rightarrow> stream_error + codes" where
  "partial_envelope_content raw = (case search_field raw of None \<Rightarrow> Inr [] | Some value \<Rightarrow> decode value)"

section \<open>The streamer\<close>

record streamer =
  sr_raw :: codes
  sr_emitted :: nat

definition new_streamer :: streamer where
  "new_streamer = \<lparr>sr_raw = [], sr_emitted = 0\<rparr>"

text \<open>One chunk: the delta to show, if the content grew, and the streamer after it.\<close>

definition feed :: "codes \<Rightarrow> streamer \<Rightarrow> (stream_error + codes option) \<times> streamer" where
  "feed chunk st =
     (let raw = sr_raw st @ chunk; st1 = st\<lparr>sr_raw := raw\<rparr> in
      case partial_envelope_content raw of
        Inl e \<Rightarrow> (Inl e, st1)
      | Inr content \<Rightarrow>
          if sr_emitted st < length content
          then (Inr (Some (drop (sr_emitted st) content)), st1\<lparr>sr_emitted := length content\<rparr>)
          else (Inr None, st1))"

text \<open>A whole reply: the deltas until the chunks end or one of them raises.\<close>

fun stream :: "codes list \<Rightarrow> streamer \<Rightarrow> codes list \<times> stream_error option" where
  "stream [] st = ([], None)"
| "stream (chunk # chunks) st =
     (case feed chunk st of
        (Inl e, st1) \<Rightarrow> ([], Some e)
      | (Inr None, st1) \<Rightarrow> stream chunks st1
      | (Inr (Some d), st1) \<Rightarrow> (case stream chunks st1 of (ds, e) \<Rightarrow> (d # ds, e)))"

section \<open>More text only extends what was decoded\<close>

lemma emit_split:
  "emit c r = Inr out \<longleftrightarrow> (\<exists>o'. r = Inr o' \<and> out = c # o')" "emit c r = Inl e \<longleftrightarrow> r = Inl e"
  by (auto split: sum.splits)

text \<open>What decoding a longer text may change.\<close>

definition extends :: "stream_error + codes \<Rightarrow> stream_error + codes \<Rightarrow> bool" where
  "extends a b \<longleftrightarrow> (case a of Inl e \<Rightarrow> b = Inl e | Inr out \<Rightarrow> (\<forall>out'. b = Inr out' \<longrightarrow> prefix out out'))"

lemma extends_simps [simp]:
  "extends (Inr []) b" "extends a a" "extends a b \<Longrightarrow> extends (emit c a) (emit c b)"
  by (auto simp: extends_def split: sum.splits)

lemma decode_extends: "extends (decode raw) (decode (raw @ ext))"
proof (induction raw rule: decode.induct)
  case (1 raw)
  show ?case
  proof (cases raw)
    case Nil
    then show ?thesis by (simp add: decode.simps [of "[]"])
  next
    case raw: (Cons ch rest)
    note IH = "1.IH" [OF raw]
    have d: "drop n (raw @ ext) = drop n raw @ ext" "take n (raw @ ext) = take n raw" if "n \<le> length raw" for n
      using that by simp_all
    note step = decode.simps [of raw] decode.simps [of "raw @ ext"]
    consider "ch = 34" | "ch \<noteq> 34" "ch \<noteq> 92" | "ch = 92" "rest = []"
      | esc rest' where "ch = 92" "rest = esc # rest'" by (cases rest) auto
    then show ?thesis
    proof cases
      case 4
      consider "esc \<noteq> 117" | "esc = 117" "length raw < 6"
        | "esc = 117" "6 \<le> length raw" "parse_hex (take 4 rest') = None"
        | code where "esc = 117" "6 \<le> length raw" "parse_hex (take 4 rest') = Some code"
        by (cases "parse_hex (take 4 rest')"; cases "length raw < 6") auto
      then show ?thesis
      proof cases
        case 1
        with 4 raw IH(2) show ?thesis unfolding step by simp
      next
        case 2
        with 4 raw show ?thesis unfolding step by simp
      next
        case 3
        with 4 raw IH(3) show ?thesis unfolding step by simp
      next
        case code: 4
        consider "is_high code" "length raw < 12"
          | low where "is_high code" "12 \<le> length raw" "low_after (take 6 (drop 6 raw)) = Some low"
          | "is_high code" "12 \<le> length raw" "low_after (take 6 (drop 6 raw)) = None"
          | "\<not> is_high code" "is_low code" | "\<not> is_high code" "\<not> is_low code" "code < 0"
          | "\<not> is_high code" "\<not> is_low code" "0 \<le> code"
          by (cases "low_after (take 6 (drop 6 raw))"; cases "is_high code"; cases "is_low code"; cases "length raw < 12"; cases "code < 0") auto
        then show ?thesis
          unfolding step using code 4 raw IH(4-7) by cases simp_all
      qed
    qed (unfold step, use raw IH(1) in simp_all)
  qed
qed

subsection \<open>The field that is found stays the one found\<close>

text \<open>A match takes three quotes, and a text that could still become one has at most two.\<close>

lemma FIELD_NAME_quotes: "count_list FIELD_NAME 34 = 2" "length FIELD_NAME = 9"
  by (simp_all add: FIELD_NAME_def codes_of_def)

lemma spaces_quotes: "count_list (takeWhile re_space s) 34 = 0"
proof -
  have "34 \<notin> set (takeWhile re_space s)" by (auto dest: set_takeWhileD simp: re_space_def)
  then show ?thesis by (simp add: count_list_0_iff)
qed

lemma match_field_parts:
  assumes "match_field s = Some value"
  obtains ws1 ws2 where "s = FIELD_NAME @ ws1 @ 58 # ws2 @ 34 # value"
    and "count_list ws1 34 = 0" and "count_list ws2 34 = 0" "\<forall>c \<in> set ws1 \<union> set ws2. re_space c"
proof -
  let ?r = "drop (length FIELD_NAME) s"
  from assms obtain rest where n: "take (length FIELD_NAME) s = FIELD_NAME" "dropWhile re_space ?r = 58 # rest"
    "dropWhile re_space rest = 34 # value"
    by (auto simp: match_field_def split: if_splits list.splits)
  have "s = FIELD_NAME @ ?r" by (metis append_take_drop_id n(1))
  also have "?r = takeWhile re_space ?r @ 58 # rest" by (metis n(2) takeWhile_dropWhile_id)
  also have "rest = takeWhile re_space rest @ 34 # value" by (metis n(3) takeWhile_dropWhile_id)
  finally show ?thesis
    by (rule that [of "takeWhile re_space ?r" "takeWhile re_space rest"]) (auto simp: spaces_quotes dest: set_takeWhileD)
qed

lemma match_field_of_parts:
  assumes "\<forall>c \<in> set ws1 \<union> set ws2. re_space c"
  shows "match_field (FIELD_NAME @ ws1 @ 58 # ws2 @ 34 # value) = Some value"
proof -
  have "\<not> re_space 58" "\<not> re_space 34" by (simp_all add: re_space_def)
  with assms show ?thesis by (simp add: match_field_def dropWhile_append3)
qed

lemma match_field_extends: "match_field s = Some value \<Longrightarrow> match_field (s @ ext) = Some (value @ ext)"
  by (erule match_field_parts) (simp add: match_field_of_parts)

lemma search_field_quotes: "search_field s = Some value \<Longrightarrow> 3 \<le> count_list s 34"
proof (induction s rule: search_field.induct)
  case (2 c cs)
  show ?case
  proof (cases "match_field (c # cs)")
    case None
    with 2 have "3 \<le> count_list cs 34" by simp
    then show ?thesis by simp
  next
    case (Some v)
    then show ?thesis
      by (rule match_field_parts) (simp only: count_list_append count_list.simps FIELD_NAME_quotes, simp)
  qed
qed simp

lemma match_field_pending:
  assumes "match_field s = None" and "match_field (s @ ext) = Some value"
  shows "count_list s 34 \<le> 2"
proof -
  from assms(2) obtain ws1 ws2 where p: "s @ ext = (FIELD_NAME @ ws1 @ 58 # ws2) @ 34 # value"
    and c: "count_list ws1 34 = 0" "count_list ws2 34 = 0" and sp: "\<forall>c \<in> set ws1 \<union> set ws2. re_space c"
    by (rule match_field_parts) simp
  let ?head = "FIELD_NAME @ ws1 @ 58 # ws2"
  from iffD1 [OF append_eq_append_conv2 p] consider us where "s @ us = ?head"
    | us where "s = ?head @ us" "us @ ext = 34 # value" by blast
  then show ?thesis
  proof cases
    case 1
    have "count_list ?head 34 = 2" by (simp add: c FIELD_NAME_quotes)
    then have "count_list s 34 + count_list us 34 = 2" by (simp only: count_list_append flip: 1)
    then show ?thesis by simp
  next
    case 2
    show ?thesis
    proof (cases us)
      case Nil
      with 2 c show ?thesis by (simp add: FIELD_NAME_quotes)
    next
      case (Cons u us')
      with 2 have "s = FIELD_NAME @ ws1 @ 58 # ws2 @ 34 # us'" by simp
      with match_field_of_parts [OF sp] assms(1) show ?thesis by simp
    qed
  qed
qed

lemma search_field_extends: "search_field s = Some value \<Longrightarrow> search_field (s @ ext) = Some (value @ ext)"
proof (induction s rule: search_field.induct)
  case (2 c cs)
  show ?case
  proof (cases "match_field (c # cs)")
    case None
    with 2 have v: "search_field cs = Some value" "search_field (cs @ ext) = Some (value @ ext)" by simp_all
    have "match_field ((c # cs) @ ext) = None"
    proof (rule ccontr)
      assume "match_field ((c # cs) @ ext) \<noteq> None"
      then obtain v' where "match_field ((c # cs) @ ext) = Some v'" by blast
      from match_field_pending [OF None this] search_field_quotes [OF v(1)] show False by (simp split: if_splits)
    qed
    with v show ?thesis by simp
  next
    case (Some v)
    with 2 match_field_extends [OF Some, of ext] show ?thesis by simp
  qed
qed simp

lemma partial_content_extends: "extends (partial_envelope_content raw) (partial_envelope_content (raw @ ext))"
  using decode_extends search_field_extends [of raw _ ext]
  by (cases "search_field raw") (simp_all add: partial_envelope_content_def)

section \<open>The deltas join up\<close>

definition caught_up :: "streamer \<Rightarrow> codes \<Rightarrow> bool" where
  "caught_up st shown \<longleftrightarrow> partial_envelope_content (sr_raw st) = Inr shown \<and> sr_emitted st = length shown"

lemma feed_caught_up:
  assumes "caught_up st shown" and "partial_envelope_content (sr_raw st @ chunk) = Inr now"
  obtains d st1 where "now = shown @ d" and "caught_up st1 now" and "sr_raw st1 = sr_raw st @ chunk"
    and "feed chunk st = (Inr (if d = [] then None else Some d), st1)"
proof -
  from assms partial_content_extends [of "sr_raw st" chunk] have "prefix shown now"
    by (simp add: extends_def caught_up_def)
  then obtain d where d: "now = shown @ d" by (auto elim: prefixE)
  let ?st = "st\<lparr>sr_raw := sr_raw st @ chunk\<rparr>"
  show ?thesis
  proof (cases "d = []")
    case True
    with assms d show ?thesis by (intro that [of d ?st]) (simp_all add: caught_up_def feed_def Let_def)
  next
    case False
    with assms d show ?thesis
      by (intro that [of d "?st\<lparr>sr_emitted := length now\<rparr>"]) (simp_all add: caught_up_def feed_def Let_def)
  qed
qed

lemma stream_joins:
  assumes "caught_up st shown" and "partial_envelope_content (sr_raw st @ concat chunks) = Inr content"
  shows "\<exists>ds. stream chunks st = (ds, None) \<and> shown @ concat ds = content \<and> [] \<notin> set ds"
  using assms
proof (induction chunks arbitrary: st shown)
  case Nil
  then show ?case by (simp add: caught_up_def)
next
  case (Cons chunk chunks)
  from Cons.prems(2) partial_content_extends [of "sr_raw st @ chunk" "concat chunks"]
  obtain now where "partial_envelope_content (sr_raw st @ chunk) = Inr now"
    by (cases "partial_envelope_content (sr_raw st @ chunk)") (simp_all add: extends_def)
  with Cons.prems(1) obtain d st1 where f: "now = shown @ d" "caught_up st1 now" "sr_raw st1 = sr_raw st @ chunk"
    "feed chunk st = (Inr (if d = [] then None else Some d), st1)" by (rule feed_caught_up)
  from Cons.IH [OF f(2)] f(3) Cons.prems(2) obtain ds where "stream chunks st1 = (ds, None)" "now @ concat ds = content" "[] \<notin> set ds"
    by auto
  with f show ?case by (cases "d = []") auto
qed

lemma stream_raises:
  assumes "caught_up st shown" and "partial_envelope_content (sr_raw st @ concat chunks) = Inl e"
  shows "\<exists>ds. stream chunks st = (ds, Some e)"
  using assms
proof (induction chunks arbitrary: st shown)
  case Nil
  then show ?case by (simp add: caught_up_def)
next
  case (Cons chunk chunks)
  show ?case
  proof (cases "partial_envelope_content (sr_raw st @ chunk)")
    case (Inl e')
    with Cons.prems(2) partial_content_extends [of "sr_raw st @ chunk" "concat chunks"] have "e' = e" by (simp add: extends_def)
    with Inl show ?thesis by (simp add: feed_def Let_def)
  next
    case (Inr now)
    with Cons.prems(1) obtain d st1 where f: "now = shown @ d" "caught_up st1 now" "sr_raw st1 = sr_raw st @ chunk"
      "feed chunk st = (Inr (if d = [] then None else Some d), st1)" by (rule feed_caught_up)
    from Cons.IH [OF f(2)] f(3) Cons.prems(2) obtain ds where "stream chunks st1 = (ds, Some e)" by auto
    with f show ?thesis by (cases "d = []") auto
  qed
qed

section \<open>JSON strings\<close>

text \<open>The encodings of a text as the inside of a JSON string: a text has many.\<close>

definition hex_number :: "codes \<Rightarrow> nat" where
  "hex_number ds = foldl (\<lambda>v d. 16 * v + the (hex_value d)) 0 ds"

definition hex4 :: "codes \<Rightarrow> bool" where
  "hex4 ds \<longleftrightarrow> length ds = 4 \<and> (\<forall>d \<in> set ds. hex_value d \<noteq> None)"

inductive json_chars :: "codes \<Rightarrow> codes \<Rightarrow> bool" where
  stop: "json_chars [] []"
| plain: "json_chars (c # enc) (c # out)" if "json_chars enc out" "32 \<le> c" "c \<noteq> 34" "c \<noteq> 92"
| short: "json_chars (92 # esc # enc) (c # out)" if "json_chars enc out" "(esc, c) \<in> set JSON_STRING_ESCAPES"
| code: "json_chars (92 # 117 # ds @ enc) (hex_number ds # out)"
    if "json_chars enc out" "hex4 ds" "\<not> is_high (int (hex_number ds))" "\<not> is_low (int (hex_number ds))"
| pair: "json_chars (92 # 117 # hs @ 92 # 117 # ls @ enc) (join_pair (int (hex_number hs)) (int (hex_number ls)) # out)"
    if "json_chars enc out" "hex4 hs" "hex4 ls" "is_high (int (hex_number hs))" "is_low (int (hex_number ls))"

lemma hex_digits_number:
  "\<forall>d \<in> set ds. hex_value d \<noteq> None \<Longrightarrow> hex_digits seen v ds
     = (if seen \<or> ds \<noteq> [] then Some (foldl (\<lambda>v d. 16 * v + the (hex_value d)) v ds) else None)"
  by (induction ds arbitrary: seen v) auto

lemma hex_value_not: "hex_value d \<noteq> None \<Longrightarrow> \<not> re_space d \<and> d \<noteq> 45 \<and> d \<noteq> 43 \<and> d \<noteq> 120 \<and> d \<noteq> 88"
  by (auto simp: hex_value_def re_space_def split: if_splits)

lemma parse_hex4:
  assumes "hex4 ds"
  shows "parse_hex ds = Some (int (hex_number ds))"
proof -
  from assms obtain a b c d where ds: "ds = [a, b, c, d]"
    by (auto simp: hex4_def length_Suc_conv eval_nat_numeral)
  with assms have v: "hex_value a \<noteq> None" "hex_value b \<noteq> None" "hex_value c \<noteq> None" "hex_value d \<noteq> None"
    by (auto simp: hex4_def)
  then have "hex_body ds = Some (hex_number ds)"
    using hex_digits_number [of ds False 0] hex_value_not [of b] assms by (auto simp: hex_body_def hex_number_def hex4_def ds)
  with v hex_value_not show ?thesis by (auto simp: parse_hex_def ds)
qed

lemma short_escapes: "(esc, c) \<in> set JSON_STRING_ESCAPES \<Longrightarrow> short_escape esc = c \<and> esc \<noteq> 117"
  by (auto simp: JSON_STRING_ESCAPES_def short_escape_def)

lemma decode_json_chars:
  "json_chars enc out \<Longrightarrow> decode (enc @ rest) = map_sum id (\<lambda>r. out @ r) (decode rest)"
proof (induction rule: json_chars.induct)
  case stop
  show ?case by (cases "decode rest") simp_all
next
  case (plain enc out c)
  then show ?case by (cases "decode rest") (simp_all add: decode.simps [of "c # _"])
next
  case (short enc out esc c)
  with short_escapes [of esc c] show ?case by (cases "decode rest") (simp_all add: decode.simps [of "92 # _"])
next
  case (code enc out ds)
  then have "length ds = 4" by (simp add: hex4_def)
  with code parse_hex4 [of ds] show ?case by (cases "decode rest") (simp_all add: decode.simps [of "92 # _"])
next
  case (pair enc out hs ls)
  then have "length hs = 4" "length ls = 4" by (simp_all add: hex4_def)
  with pair parse_hex4 [of hs] parse_hex4 [of ls] show ?case
    by (cases "decode rest") (simp_all add: decode.simps [of "92 # _"] low_after_def)
qed

text \<open>C24. Streaming shows the reply as it is sent. Let the content field of an envelope hold any JSON
  encoding of a text, of any characters: however the provider cuts the envelope into chunks, through
  escapes and surrogate pairs too, no chunk raises, no empty delta is sent, and the deltas joined
  together are the text.\<close>

theorem streamed_deltas_are_the_content:
  assumes "search_field lead = Some []" and "json_chars enc out"
    and "concat chunks = lead @ enc @ 34 # post"
  shows "\<exists>ds. stream chunks new_streamer = (ds, None) \<and> concat ds = out \<and> [] \<notin> set ds"
proof -
  have "decode (34 # post) = Inr []" by (simp add: decode.simps)
  with search_field_extends [OF assms(1)] decode_json_chars [OF assms(2)] assms(3)
  have "partial_envelope_content (concat chunks) = Inr out" by (simp add: partial_envelope_content_def)
  moreover have "caught_up new_streamer []"
    by (simp add: caught_up_def new_streamer_def partial_envelope_content_def)
  ultimately show ?thesis using stream_joins [of new_streamer "[]" chunks out] by (simp add: new_streamer_def)
qed

text \<open>C38. A malformed escape ends the turn. The decoder reads the four characters of a \<open>\u\<close> escape
  with \<open>int(text, 16)\<close>, which takes a sign: after any well-formed text, \<open>\u-\<close> with three
  digits that are not all zero makes the streamer raise, in whatever chunks it arrives - although
  what it streams is for display only.\<close>

theorem signed_escape_raises:
  assumes "search_field lead = Some []" and "json_chars enc out"
    and "length ds = 3" and "\<forall>d \<in> set ds. hex_value d \<noteq> None" and "0 < hex_number ds"
    and "concat chunks = lead @ enc @ 92 # 117 # 45 # ds @ post"
  shows "\<exists>shown. stream chunks new_streamer = (shown, Some ChrOutOfRange)"
proof -
  have minus: "parse_hex (45 # ds) = Some (- int (hex_number ds))"
  proof -
    from assms(3) obtain a b c where ds: "ds = [a, b, c]" by (auto simp: length_Suc_conv eval_nat_numeral)
    with assms(4) have v: "hex_value a \<noteq> None" "hex_value b \<noteq> None" "hex_value c \<noteq> None" by auto
    then have "hex_body ds = Some (hex_number ds)"
      using hex_digits_number [of ds False 0] hex_value_not [of b] assms(4) by (auto simp: hex_body_def hex_number_def ds)
    moreover have "\<not> re_space 45" by (simp add: re_space_def)
    ultimately show ?thesis using v hex_value_not by (auto simp: parse_hex_def ds)
  qed
  then have "decode (92 # 117 # 45 # ds @ post) = Inl ChrOutOfRange"
    using assms(3,5) by (simp add: decode.simps [of "92 # _"] is_high_def is_low_def)
  then have "decode (enc @ 92 # 117 # 45 # ds @ post) = Inl ChrOutOfRange"
    by (simp add: decode_json_chars [OF assms(2)])
  with search_field_extends [OF assms(1)] assms(6)
  have "partial_envelope_content (concat chunks) = Inl ChrOutOfRange" by (simp add: partial_envelope_content_def)
  moreover have "caught_up new_streamer []"
    by (simp add: caught_up_def new_streamer_def partial_envelope_content_def)
  ultimately show ?thesis using stream_raises [of new_streamer "[]" chunks] by (simp add: new_streamer_def)
qed

subsection \<open>Sample replies\<close>

text \<open>The opening of an envelope, and an \<open>H\<close>, an e-acute, a smiling face and an exclamation mark.\<close>

definition sample_lead :: codes where
  "sample_lead = 123 # FIELD_NAME @ [58, 32, 34]"

definition sample_text :: codes where
  "sample_text = 72 # 92 # 117 # [48, 48, 101, 57] @ 92 # 117 # [100, 56, 51, 100] @ 92 # 117 # [100, 101, 48, 48] @ 33 # []"

lemma sample_lead_field: "search_field sample_lead = Some []"
  by (simp add: sample_lead_def match_field_def FIELD_NAME_def codes_of_def re_space_def)

lemma sample_text_chars: "json_chars sample_text [72, 233, 128512, 33]"
proof -
  have n: "hex_number [48, 48, 101, 57] = 233" "hex_number [100, 56, 51, 100] = 55357" "hex_number [100, 101, 48, 48] = 56832"
    "join_pair 55357 56832 = 128512"
    by (simp_all add: hex_number_def hex_value_def join_pair_def)
  have h: "hex4 [48, 48, 101, 57]" "hex4 [100, 56, 51, 100]" "hex4 [100, 101, 48, 48]"
    by (simp_all add: hex4_def hex_value_def)
  have s: "\<not> is_high 233" "\<not> is_low 233" "is_high 55357" "is_low 56832"
    by (simp_all add: is_high_def is_low_def)
  have "json_chars (33 # []) (33 # [])" by (rule json_chars.plain [OF json_chars.stop]) simp_all
  from json_chars.pair [OF this h(2,3)] have
    "json_chars (92 # 117 # [100, 56, 51, 100] @ 92 # 117 # [100, 101, 48, 48] @ 33 # []) (128512 # [33])" by (simp add: n s)
  from json_chars.code [OF this h(1)] have
    "json_chars (92 # 117 # [48, 48, 101, 57] @ 92 # 117 # [100, 56, 51, 100] @ 92 # 117 # [100, 101, 48, 48] @ 33 # []) (233 # [128512, 33])"
    by (simp add: n s)
  from json_chars.plain [OF this, of 72] show ?thesis unfolding sample_text_def by simp
qed

theorem streamed_deltas_are_the_content_witness:
  "\<exists>ds. stream [sample_lead @ [72, 92], [117, 48, 48, 101], [57, 92, 117, 100, 56, 51, 100, 92], [117, 100, 101, 48, 48, 33, 34, 125]]
      new_streamer = (ds, None) \<and> concat ds = [72, 233, 128512, 33] \<and> [] \<notin> set ds"
  by (rule streamed_deltas_are_the_content [OF sample_lead_field sample_text_chars, of _ "[125]"])
    (simp add: sample_text_def)

theorem signed_escape_raises_witness:
  "\<exists>shown. stream [sample_lead @ sample_text @ [92, 117, 45], [48, 48, 49, 34, 125]] new_streamer = (shown, Some ChrOutOfRange)"
  by (rule signed_escape_raises [OF sample_lead_field sample_text_chars, of "[48, 48, 49]" _ "[34, 125]"])
    (simp_all add: hex_value_def hex_number_def)

end
