(* ===== verification/ModelGateway.thy ===== *)
theory ModelGateway
  imports Capabilities
begin

text \<open>
  The model gateway (\<open>app/core/model_gateway.py\<close>): the posture in force, the choice of the provider,
  the key, the call, and the audit row of every outcome. Providers are entries of a registry; the
  stub is the code's own, the others are arguments, as are SHA-256, the decrypted keys of users and
  the measured latency. What is handed to a provider is part of the result, so that
  the claims can speak of what left the workspace.
\<close>

section \<open>Providers\<close>

definition KEYED_PROVIDERS :: "string list" where
  "KEYED_PROVIDERS = [''anthropic'', ''openai'', ''openrouter'']"

definition DEV_ENVIRONMENTS :: "string list" where
  "DEV_ENVIRONMENTS = [''development'', ''dev'', ''local'']"

definition provider_for_model :: "string option \<Rightarrow> string option" where
  "provider_for_model model_id =
     (case model_id of
        None \<Rightarrow> None
      | Some i \<Rightarrow>
          if i = [] then None
          else if CHR ''/'' \<in> set i then Some ''openrouter''
          else if starts_with ''claude-'' i then Some ''anthropic''
          else if starts_with ''gpt-'' i then Some ''openai''
          else if i \<in> set KEYED_PROVIDERS then Some i
          else None)"

datatype posture = A_CLEARED | B_MIXED | C_PAUSED

primrec posture_value :: "posture \<Rightarrow> string" where
  "posture_value A_CLEARED = ''A_cleared''"
| "posture_value B_MIXED = ''B_mixed''"
| "posture_value C_PAUSED = ''C_paused''"

definition parse_posture :: "string \<Rightarrow> posture option" where
  "parse_posture v = find (\<lambda>p. posture_value p = v) [A_CLEARED, B_MIXED, C_PAUSED]"

text \<open>The arguments a provider is called with.\<close>

record call_args =
  ca_prompt :: string
  ca_system :: "string option"
  ca_max_tokens :: "int option"
  ca_streams :: bool
  ca_model :: "string option"
  ca_meta_out :: bool
  ca_api_key :: "string option"

record upstream_error =
  ue_provider :: string
  ue_code :: string
  ue_status :: "int option"

record provider_reply =
  pr_text :: string
  pr_tokens_in :: int
  pr_tokens_out :: int
  pr_served_model :: "string option"
  pr_upstream :: "string option"

datatype provider_outcome = Replied provider_reply | Upstream upstream_error | Raised string

record provider =
  pv_name :: string
  pv_default_model :: "string option"
  pv_call :: "call_args \<Rightarrow> provider_outcome"

text \<open>The stub: the first line of the prompt, cut at 120 characters.\<close>

definition line_break :: "char \<Rightarrow> bool" where
  "line_break c \<longleftrightarrow> (let n = (of_char c :: nat) in 10 \<le> n \<and> n \<le> 13 \<or> 28 \<le> n \<and> n \<le> 30 \<or> n = 133)"

definition stub_call :: "string \<Rightarrow> call_args \<Rightarrow> provider_outcome" where
  "stub_call name args =
     (let prompt = ca_prompt args; stripped = py_strip prompt;
          head = (if stripped \<noteq> [] then take 120 (takeWhile (\<lambda>c. \<not> line_break c) stripped) else ''(empty)'');
          text = ''['' @ name @ ''] '' @ head
      in Replied \<lparr>pr_text = text, pr_tokens_in = max 1 (int (length prompt div 4)),
           pr_tokens_out = max 1 (int (length text div 4)), pr_served_model = None, pr_upstream = None\<rparr>)"

definition stub_provider :: "string \<Rightarrow> provider" where
  "stub_provider name = \<lparr>pv_name = name, pv_default_model = None, pv_call = stub_call name\<rparr>"

type_synonym providers = "(string \<times> provider) list"

definition new_gateway :: "providers \<Rightarrow> providers" where
  "new_gateway ps = (if map_of ps ''stub-echo'' = None then dict_set ''stub-echo'' (stub_provider ''stub-echo'') ps else ps)"

definition register_provider :: "provider \<Rightarrow> providers \<Rightarrow> providers" where
  "register_provider p ps = dict_set (pv_name p) p ps"

text \<open>A model id that leaves the tenant by its shape.\<close>

definition frontier_id :: "string \<Rightarrow> bool" where
  "frontier_id i \<longleftrightarrow> starts_with ''claude-'' i \<or> starts_with ''gpt-'' i \<or> CHR ''/'' \<in> set i"

definition select_provider :: "providers \<Rightarrow> string \<Rightarrow> posture \<Rightarrow> provider" where
  "select_provider ps requested p =
     (let by_name = (case provider_for_model (Some requested) of None \<Rightarrow> None | Some name \<Rightarrow> map_of ps name);
          routed = (case by_name of Some pv \<Rightarrow> pv
            | None \<Rightarrow> (case map_of ps requested of Some pv \<Rightarrow> pv
                | None \<Rightarrow> (case map_of ps ''stub-echo'' of Some pv \<Rightarrow> pv | None \<Rightarrow> stub_provider ''stub-echo'')))
      in case map_of ps ''ollama'' of
           Some local_pv \<Rightarrow> if p = B_MIXED \<and> frontier_id requested then local_pv else routed
         | None \<Rightarrow> routed)"

section \<open>A call\<close>

record gateway_settings =
  gs_default_model :: string
  gs_environment :: string
  gs_allow_server_key_fallback :: bool

type_synonym user_keys = "uuid \<Rightarrow> string \<Rightarrow> string option"

record model_request =
  mq_matter_id :: "uuid option"
  mq_actor_id :: "uuid option"
  mq_prompt :: string
  mq_model :: "string option"
  mq_posture :: "posture option"
  mq_system :: "string option"
  mq_max_tokens :: "int option"
  mq_resource_type :: "string option"
  mq_resource_id :: "string option"
  mq_payload :: "(string \<times> json) list"
  mq_caller_module :: "string option"
  mq_streams :: bool

record model_result =
  mr_text :: string
  mr_model_used :: string
  mr_prompt_hash :: string
  mr_response_hash :: string
  mr_token_count :: int
  mr_latency_ms :: int
  mr_provider :: string
  mr_tokens_in :: int
  mr_tokens_out :: int

datatype gateway_error =
    PrivilegePaused
  | MatterMissing
  | UnknownPosture
  | ModelDenied capability_denied
  | KeyMissing string
  | UpstreamFailed upstream_error
  | ProviderRaised string

text \<open>The posture in force: the matter's own, whatever the caller says.\<close>

definition effective_posture :: "model_request \<Rightarrow> db \<Rightarrow> gateway_error + posture" where
  "effective_posture q d =
     (case mq_matter_id q of
        Some mid \<Rightarrow>
          (case find (\<lambda>m. m_id m = mid) (matters d) of
             None \<Rightarrow> Inl MatterMissing
           | Some m \<Rightarrow> (case parse_posture (m_privilege_posture m) of None \<Rightarrow> Inl UnknownPosture | Some p \<Rightarrow> Inr p))
      | None \<Rightarrow> (case mq_posture q of Some p \<Rightarrow> Inr p | None \<Rightarrow> Inr B_MIXED))"

text \<open>The plugin and skill a call is attributed to, when the payload names both.\<close>

definition attribution :: "model_request \<Rightarrow> (uuid \<times> string \<times> string) option" where
  "attribution q =
     (case (mq_actor_id q, map_of (mq_payload q) ''plugin'', map_of (mq_payload q) ''skill'') of
        (Some a, Some pl, Some sk) \<Rightarrow> if py_truthy pl \<and> py_truthy sk then Some (a, py_str pl, py_str sk) else None
      | _ \<Rightarrow> None)"

definition requested_model :: "gateway_settings \<Rightarrow> model_request \<Rightarrow> string" where
  "requested_model gs q = (case mq_model q of Some (c # cs) \<Rightarrow> c # cs | _ \<Rightarrow> gs_default_model gs)"

definition gateway_event :: "string \<Rightarrow> model_request \<Rightarrow> string option \<Rightarrow> (string \<times> json) list \<Rightarrow> audit_event" where
  "gateway_event action q module_name payload = (event0 action)
     \<lparr>ae_actor_id := mq_actor_id q, ae_matter_id := mq_matter_id q, ae_module := module_name,
      ae_resource_type := mq_resource_type q, ae_resource_id := mq_resource_id q,
      ae_payload := JObj (dict_update payload (mq_payload q))\<rparr>"

definition key_missing_event :: "model_request \<Rightarrow> string \<Rightarrow> posture \<Rightarrow> string \<Rightarrow> audit_event" where
  "key_missing_event q requested p name =
     (let m = (case mq_caller_module q of Some (c # cs) \<Rightarrow> c # cs | _ \<Rightarrow> ''unknown'')
      in (gateway_event (''module.'' @ m @ ''.model.key_missing'') q (Some m)
           [(''requested_model'', JStr requested), (''posture'', JStr (posture_value p)), (''provider'', JStr name),
            (''error'', JObj [(''code'', JStr ''key_missing''), (''provider'', JStr name)])])
         \<lparr>ae_model_used := Some name\<rparr>)"

definition call_error_event ::
  "(string \<Rightarrow> string) \<Rightarrow> model_request \<Rightarrow> string \<Rightarrow> posture \<Rightarrow> string \<Rightarrow> string \<Rightarrow> int \<Rightarrow> upstream_error \<Rightarrow> audit_event" where
  "call_error_event sha q requested p name served latency e =
     (gateway_event ''model.call.error'' q (mq_caller_module q)
        [(''requested_model'', JStr requested), (''provider'', JStr name), (''posture'', JStr (posture_value p)),
         (''error'', JObj [(''code'', JStr (ue_code e)), (''provider'', JStr (ue_provider e)), (''upstream_status'', jint_opt (ue_status e))])])
       \<lparr>ae_model_used := Some served, ae_prompt_hash := Some (sha (mq_prompt q)), ae_latency_ms := Some latency\<rparr>"

definition call_event :: "model_request \<Rightarrow> string \<Rightarrow> posture \<Rightarrow> string option \<Rightarrow> model_result \<Rightarrow> audit_event" where
  "call_event q requested p upstream r =
     (gateway_event ''model.call'' q (mq_caller_module q)
        ([(''requested_model'', JStr requested), (''provider'', JStr (mr_provider r)), (''posture'', JStr (posture_value p))]
         @ (case upstream of Some (c # cs) \<Rightarrow> [(''upstream_provider'', JStr (c # cs))] | _ \<Rightarrow> [])))
       \<lparr>ae_model_used := Some (mr_model_used r), ae_prompt_hash := Some (mr_prompt_hash r),
        ae_response_hash := Some (mr_response_hash r), ae_token_count := Some (mr_token_count r),
        ae_tokens_in := Some (mr_tokens_in r), ae_tokens_out := Some (mr_tokens_out r), ae_latency_ms := Some (mr_latency_ms r)\<rparr>"

text \<open>The key of a keyed provider: the user's own, none in a development fallback, or missing.\<close>

definition resolve_key :: "gateway_settings \<Rightarrow> user_keys \<Rightarrow> model_request \<Rightarrow> string \<Rightarrow> unit + string option" where
  "resolve_key gs keys q name =
     (if name \<notin> set KEYED_PROVIDERS then Inr None
      else case (case mq_actor_id q of None \<Rightarrow> None | Some a \<Rightarrow> keys a name) of
          Some k \<Rightarrow> Inr (Some k)
        | None \<Rightarrow> if gs_environment gs \<in> set DEV_ENVIRONMENTS \<and> gs_allow_server_key_fallback gs then Inr None else Inl ())"

definition call_args_for :: "model_request \<Rightarrow> string \<Rightarrow> string \<Rightarrow> string option \<Rightarrow> call_args" where
  "call_args_for q requested name key =
     \<lparr>ca_prompt = mq_prompt q, ca_system = mq_system q, ca_max_tokens = mq_max_tokens q, ca_streams = mq_streams q,
      ca_model = (if name \<in> set KEYED_PROVIDERS \<and> requested \<noteq> name then Some requested else None),
      ca_meta_out = (name = ''openrouter''), ca_api_key = key\<rparr>"

definition served_model :: "provider \<Rightarrow> call_args \<Rightarrow> string" where
  "served_model pv args =
     (case ca_model args of Some (c # cs) \<Rightarrow> c # cs
      | _ \<Rightarrow> (case pv_default_model pv of Some (c # cs) \<Rightarrow> c # cs | _ \<Rightarrow> pv_name pv))"

definition model_result_for :: "(string \<Rightarrow> string) \<Rightarrow> model_request \<Rightarrow> provider \<Rightarrow> call_args \<Rightarrow> int \<Rightarrow> provider_reply \<Rightarrow> model_result" where
  "model_result_for sha q pv args latency r =
     \<lparr>mr_text = pr_text r,
      mr_model_used = (if ca_meta_out args then case pr_served_model r of Some (c # cs) \<Rightarrow> c # cs | _ \<Rightarrow> served_model pv args
                       else served_model pv args),
      mr_prompt_hash = sha (mq_prompt q), mr_response_hash = sha (pr_text r),
      mr_token_count = pr_tokens_in r + pr_tokens_out r, mr_latency_ms = latency, mr_provider = pv_name pv,
      mr_tokens_in = pr_tokens_in r, mr_tokens_out = pr_tokens_out r\<rparr>"

type_synonym sent = "(string \<times> call_args) option"

text \<open>From the chosen provider on.\<close>

definition dispatch_call ::
  "(string \<Rightarrow> string) \<Rightarrow> gateway_settings \<Rightarrow> user_keys \<Rightarrow> int \<Rightarrow> provider \<Rightarrow> posture \<Rightarrow> model_request \<Rightarrow> session
    \<Rightarrow> (gateway_error + model_result) \<times> sent \<times> session" where
  "dispatch_call sha gs keys latency pv p q s =
     (let requested = requested_model gs q; name = pv_name pv in
      case resolve_key gs keys q name of
        Inl _ \<Rightarrow> (Inl (KeyMissing name), None, audit_failure (key_missing_event q requested p name) s)
      | Inr key \<Rightarrow>
          (let args = call_args_for q requested name key in
           case pv_call pv args of
             Raised msg \<Rightarrow> (Inl (ProviderRaised msg), Some (name, args), s)
           | Upstream e \<Rightarrow>
               (Inl (UpstreamFailed e), Some (name, args),
                audit_failure (call_error_event sha q requested p name (served_model pv args) latency e) s)
           | Replied r \<Rightarrow>
               (let res = model_result_for sha q pv args latency r
                in (Inr res, Some (name, args),
                    audit_log (call_event q requested p (if ca_meta_out args then pr_upstream r else None) res) s))))"

definition gateway_call ::
  "(string \<Rightarrow> string) \<Rightarrow> gateway_settings \<Rightarrow> providers \<Rightarrow> user_keys \<Rightarrow> int \<Rightarrow> model_request \<Rightarrow> session
    \<Rightarrow> (gateway_error + model_result) \<times> sent \<times> session" where
  "gateway_call sha gs ps keys latency q s =
     (case effective_posture q (working s) of
        Inl e \<Rightarrow> (Inl e, None, s)
      | Inr p \<Rightarrow>
          if p = C_PAUSED then (Inl PrivilegePaused, None, s)
          else (case attribution q of
              None \<Rightarrow> dispatch_call sha gs keys latency (select_provider ps (requested_model gs q) p) p q s
            | Some (a, plugin, skill) \<Rightarrow>
                (case require_capability a plugin skill ''model.invoke'' None s of
                   (Inl e, s1) \<Rightarrow> (Inl (ModelDenied e), None, s1)
                 | (Inr _, s1) \<Rightarrow> dispatch_call sha gs keys latency (select_provider ps (requested_model gs q) p) p q s1)))"

definition select_provider_name :: "gateway_settings \<Rightarrow> providers \<Rightarrow> string option \<Rightarrow> posture \<Rightarrow> string" where
  "select_provider_name gs ps requested p =
     pv_name (select_provider ps (case requested of Some (c # cs) \<Rightarrow> c # cs | _ \<Rightarrow> gs_default_model gs) p)"

section \<open>Tools\<close>

text \<open>A registered tool: the two schemas and the handler, which works in the session of the caller and may
  raise, are arguments; the handler gets the validated input, the user and the matter.\<close>

record gateway_tool =
  gt_name :: string
  gt_input :: "json \<Rightarrow> json option"
  gt_output :: "json \<Rightarrow> json option"
  gt_handler :: "json \<Rightarrow> uuid \<Rightarrow> uuid option \<Rightarrow> session \<Rightarrow> (string + json) \<times> session"
  gt_posture_gated :: bool

type_synonym tools = "(string \<times> gateway_tool) list"

definition register_tool :: "gateway_tool \<Rightarrow> tools \<Rightarrow> tools" where
  "register_tool t ts = dict_set (gt_name t) t ts"

datatype tool_error =
    ToolNotFound
  | ToolDenied capability_denied
  | ToolInvalidInput
  | ToolPaused gateway_error
  | HandlerRaised string
  | ToolInvalidOutput

definition TOOL_WRITE_CAPABILITY :: "(string \<times> string) list" where
  "TOOL_WRITE_CAPABILITY = [(''generate_docx'', ''document.generated.write'')]"

text \<open>\<open>model.invoke\<close> first, then the write capability of the tool; a denial stops at the first.\<close>

fun require_all :: "uuid \<Rightarrow> string \<Rightarrow> string \<Rightarrow> string list \<Rightarrow> session \<Rightarrow> (capability_denied + unit) \<times> session" where
  "require_all user plugin skill [] s = (Inr (), s)"
| "require_all user plugin skill (c # cs) s =
     (case require_capability user plugin skill c None s of
        (Inl e, s1) \<Rightarrow> (Inl e, s1)
      | (Inr _, s1) \<Rightarrow> require_all user plugin skill cs s1)"

definition tool_capabilities :: "string \<Rightarrow> string option \<Rightarrow> string option \<Rightarrow> (string \<times> string \<times> string list) option" where
  "tool_capabilities name plugin skill =
     (case (plugin, skill) of
        (Some (p # ps), Some (k # ks)) \<Rightarrow>
          Some (p # ps, k # ks, ''model.invoke'' # (case map_of TOOL_WRITE_CAPABILITY name of None \<Rightarrow> [] | Some c \<Rightarrow> [c]))
      | _ \<Rightarrow> None)"

definition tool_posture :: "gateway_tool \<Rightarrow> uuid option \<Rightarrow> db \<Rightarrow> gateway_error option" where
  "tool_posture t mid d =
     (if \<not> gt_posture_gated t then None
      else case mid of None \<Rightarrow> Some PrivilegePaused
        | Some m \<Rightarrow> (case find (\<lambda>r. m_id r = m) (matters d) of
            None \<Rightarrow> Some MatterMissing
          | Some r \<Rightarrow> (case parse_posture (m_privilege_posture r) of
              None \<Rightarrow> Some UnknownPosture
            | Some p \<Rightarrow> if p = C_PAUSED then Some PrivilegePaused else None)))"

definition run_tool :: "gateway_tool \<Rightarrow> uuid \<Rightarrow> uuid option \<Rightarrow> json \<Rightarrow> session \<Rightarrow> (tool_error + json) \<times> session" where
  "run_tool t actor mid inputs s =
     (case gt_input t inputs of
        None \<Rightarrow> (Inl ToolInvalidInput, s)
      | Some v \<Rightarrow> (case tool_posture t mid (working s) of
            Some e \<Rightarrow> (Inl (ToolPaused e), s)
          | None \<Rightarrow> (case gt_handler t v actor mid s of
                (Inl msg, s1) \<Rightarrow> (Inl (HandlerRaised msg), s1)
              | (Inr r, s1) \<Rightarrow> (case gt_output t r of
                    None \<Rightarrow> (Inl ToolInvalidOutput, s1)
                  | Some out \<Rightarrow> (Inr out, s1)))))"

definition invoke_tool ::
  "tools \<Rightarrow> string \<Rightarrow> uuid \<Rightarrow> uuid option \<Rightarrow> json \<Rightarrow> string option \<Rightarrow> string option \<Rightarrow> session
    \<Rightarrow> (tool_error + json) \<times> session" where
  "invoke_tool ts name actor mid inputs plugin skill s =
     (case map_of ts name of
        None \<Rightarrow> (Inl ToolNotFound, s)
      | Some t \<Rightarrow> (case tool_capabilities name plugin skill of
            None \<Rightarrow> run_tool t actor mid inputs s
          | Some (p, k, caps) \<Rightarrow> (case require_all actor p k caps s of
                (Inl e, s1) \<Rightarrow> (Inl (ToolDenied e), s1)
              | (Inr _, s1) \<Rightarrow> run_tool t actor mid inputs s1)))"

section \<open>What leaves the workspace\<close>

definition keyed :: "provider \<Rightarrow> bool" where
  "keyed pv \<longleftrightarrow> pv_name pv \<in> set KEYED_PROVIDERS"

text \<open>The registry files every provider under its own name: so \<open>register_provider\<close> and the stub leave it.\<close>

definition names_agree :: "providers \<Rightarrow> bool" where
  "names_agree ps \<longleftrightarrow> list_all (\<lambda>(n, pv). pv_name pv = n) ps"

lemma names_agree_set: "names_agree ps \<Longrightarrow> names_agree (dict_set (pv_name pv) pv ps)"
  by (induction "pv_name pv" pv ps rule: dict_set.induct) (auto simp: names_agree_def)

lemma registry_agrees:
  "names_agree []" "names_agree ps \<Longrightarrow> names_agree (register_provider pv ps)" "names_agree ps \<Longrightarrow> names_agree (new_gateway ps)"
  using names_agree_set [of ps "stub_provider ''stub-echo''"]
  by (simp_all add: names_agree_def register_provider_def new_gateway_def names_agree_set [unfolded names_agree_def] stub_provider_def)

lemma names_agree_map_of: "names_agree ps \<Longrightarrow> map_of ps n = Some pv \<Longrightarrow> pv_name pv = n"
  by (auto simp: names_agree_def list_all_iff dest: map_of_SomeD)

lemma provider_for_keyed: "provider_for_model (Some i) = Some n \<Longrightarrow> n \<in> set KEYED_PROVIDERS"
  by (auto simp: provider_for_model_def KEYED_PROVIDERS_def split: if_splits)

lemma provider_for_frontier: "\<not> frontier_id i \<Longrightarrow> i \<notin> set KEYED_PROVIDERS \<Longrightarrow> provider_for_model (Some i) = None"
  by (simp add: provider_for_model_def frontier_id_def)

lemma mixed_stays_local:
  assumes "names_agree ps" "map_of ps ''ollama'' = Some local_pv" "requested \<notin> set KEYED_PROVIDERS"
  shows "\<not> keyed (select_provider ps requested B_MIXED)"
proof -
  have local_name: "pv_name local_pv = ''ollama''" using assms by (blast dest: names_agree_map_of)
  have stub: "\<not> keyed (case map_of ps requested of Some pv \<Rightarrow> pv
      | None \<Rightarrow> (case map_of ps ''stub-echo'' of Some pv \<Rightarrow> pv | None \<Rightarrow> stub_provider ''stub-echo''))"
    using names_agree_map_of [OF assms(1), of requested] names_agree_map_of [OF assms(1), of "''stub-echo''"] assms(3)
    by (auto simp: keyed_def KEYED_PROVIDERS_def stub_provider_def split: option.splits)
  show ?thesis
  proof (cases "frontier_id requested")
    case True
    then show ?thesis using assms(2) local_name by (simp add: select_provider_def keyed_def KEYED_PROVIDERS_def)
  next
    case False
    then show ?thesis using assms(2,3) stub by (simp add: select_provider_def provider_for_frontier)
  qed
qed

text \<open>A call that hands a prompt over has passed every guard.\<close>

definition passed_gate :: "model_request \<Rightarrow> session \<Rightarrow> bool" where
  "passed_gate q s = (case attribution q of None \<Rightarrow> True
     | Some (a, plugin, skill) \<Rightarrow> granted_at a plugin skill ''model.invoke'' None (working s))"

lemma gateway_reaches:
  assumes "gateway_call sha gs ps keys latency q s = (r, Some out, s')"
  obtains p where "effective_posture q (working s) = Inr p" "p \<noteq> C_PAUSED" "passed_gate q s"
    "dispatch_call sha gs keys latency (select_provider ps (requested_model gs q) p) p q s = (r, Some out, s')"
proof -
  from assms obtain p where p: "effective_posture q (working s) = Inr p" "p \<noteq> C_PAUSED"
    by (cases "effective_posture q (working s)") (auto simp: gateway_call_def split: if_splits)
  have "passed_gate q s \<and> dispatch_call sha gs keys latency (select_provider ps (requested_model gs q) p) p q s = (r, Some out, s')"
    using assms p by (auto simp: gateway_call_def passed_gate_def require_capability_def split: option.splits prod.splits if_splits)
  with p that show thesis by blast
qed

lemma dispatch_sends:
  assumes "dispatch_call sha gs keys latency pv p q s = (r, Some (name, args), s')"
  obtains key where "resolve_key gs keys q (pv_name pv) = Inr key" "name = pv_name pv"
    "args = call_args_for q (requested_model gs q) name key"
  using assms by (auto simp: dispatch_call_def Let_def split: sum.splits provider_outcome.splits)

text \<open>The keys a call may use.\<close>

definition key_allowed :: "gateway_settings \<Rightarrow> user_keys \<Rightarrow> model_request \<Rightarrow> string \<Rightarrow> string option \<Rightarrow> bool" where
  "key_allowed gs keys q name key =
     (if name \<notin> set KEYED_PROVIDERS then key = None
      else case key of Some k \<Rightarrow> (case mq_actor_id q of None \<Rightarrow> False | Some a \<Rightarrow> keys a name = Some k)
        | None \<Rightarrow> gs_environment gs \<in> set DEV_ENVIRONMENTS \<and> gs_allow_server_key_fallback gs)"

lemma resolve_key_allowed: "resolve_key gs keys q name = Inr key \<Longrightarrow> key_allowed gs keys q name key"
  by (auto simp: resolve_key_def key_allowed_def split: if_splits option.splits)

lemma posture_of_matter:
  assumes "effective_posture q d = Inr p" "mq_matter_id q = Some mid"
  shows "\<exists>m. m \<in> set (matters d) \<and> m_id m = mid \<and> m_privilege_posture m = posture_value p"
proof -
  from assms obtain m where m: "find (\<lambda>m. m_id m = mid) (matters d) = Some m" and "parse_posture (m_privilege_posture m) = Some p"
    by (auto simp: effective_posture_def split: option.splits)
  then have "m_privilege_posture m = posture_value p" by (auto simp: parse_posture_def split: if_splits)
  with m show ?thesis by (auto dest: find_SomeD)
qed

text \<open>C25. A prompt that reaches a provider is the prompt of the request, and it reaches one only if: the
  matter exists and its row, not the argument of the caller, carries a posture other than paused;
  a call attributed to a plugin and a skill is covered by the workspace grant \<open>model.invoke\<close>; on a
  mixed matter with a local model registered the provider is not one of the keyed ones, unless the
  model id is the bare name of one; and a keyed provider is called with the key of the
  acting user, or without a key in a development deployment that allows the fallback.\<close>

theorem prompts_leave_only_when_allowed:
  assumes "gateway_call sha gs ps keys latency q s = (r, Some (name, args), s')" and "names_agree ps"
  shows "ca_prompt args = mq_prompt q
    \<and> (\<exists>p. p \<noteq> C_PAUSED \<and> effective_posture q (working s) = Inr p
        \<and> (\<forall>mid. mq_matter_id q = Some mid \<longrightarrow>
              (\<exists>m. m \<in> set (matters (working s)) \<and> m_id m = mid \<and> m_privilege_posture m = posture_value p))
        \<and> (p = B_MIXED \<and> map_of ps ''ollama'' \<noteq> None \<and> requested_model gs q \<notin> set KEYED_PROVIDERS \<longrightarrow> name \<notin> set KEYED_PROVIDERS))
    \<and> (\<forall>a plugin skill. attribution q = Some (a, plugin, skill) \<longrightarrow>
          granted_at a plugin skill ''model.invoke'' None (working s))
    \<and> key_allowed gs keys q name (ca_api_key args)"
proof -
  obtain p where p: "effective_posture q (working s) = Inr p" "p \<noteq> C_PAUSED" "passed_gate q s"
    and call: "dispatch_call sha gs keys latency (select_provider ps (requested_model gs q) p) p q s = (r, Some (name, args), s')"
    by (rule gateway_reaches [OF assms(1)])
  obtain key where key: "resolve_key gs keys q name = Inr key"
    and name: "name = pv_name (select_provider ps (requested_model gs q) p)"
    and args: "args = call_args_for q (requested_model gs q) name key"
    using dispatch_sends [OF call] by metis
  have mixed: "p = B_MIXED \<and> map_of ps ''ollama'' \<noteq> None \<and> requested_model gs q \<notin> set KEYED_PROVIDERS \<longrightarrow> name \<notin> set KEYED_PROVIDERS"
    using mixed_stays_local [OF assms(2)] name by (auto simp: keyed_def)
  have row: "\<forall>mid. mq_matter_id q = Some mid \<longrightarrow>
      (\<exists>m. m \<in> set (matters (working s)) \<and> m_id m = mid \<and> m_privilege_posture m = posture_value p)"
    using posture_of_matter [OF p(1)] by blast
  have prompt: "ca_prompt args = mq_prompt q" and "ca_api_key args = key"
    by (simp_all add: args call_args_for_def)
  moreover have "\<forall>a plugin skill. attribution q = Some (a, plugin, skill) \<longrightarrow>
      granted_at a plugin skill ''model.invoke'' None (working s)"
    using p(3) by (auto simp: passed_gate_def split: option.splits)
  ultimately show ?thesis using mixed row p(1,2) resolve_key_allowed [OF key] by blast
qed
section \<open>What a call leaves behind\<close>

lemma gateway_event_fields [simp]:
  "ae_action (gateway_event act q m pl) = act" "ae_actor_id (gateway_event act q m pl) = mq_actor_id q"
  "ae_matter_id (gateway_event act q m pl) = mq_matter_id q"
  by (simp_all add: gateway_event_def event0_def)

definition row_of :: "model_request \<Rightarrow> string \<Rightarrow> audit_event \<Rightarrow> bool" where
  "row_of q action e \<longleftrightarrow> ae_action e = action \<and> ae_actor_id e = mq_actor_id q \<and> ae_matter_id e = mq_matter_id q"

definition key_missing_action :: "model_request \<Rightarrow> string" where
  "key_missing_action q = ''module.'' @ (case mq_caller_module q of Some (c # cs) \<Rightarrow> c # cs | _ \<Rightarrow> ''unknown'') @ ''.model.key_missing''"

text \<open>The record the code keeps of each outcome.\<close>

definition recorded ::
  "(string \<Rightarrow> string) \<Rightarrow> model_request \<Rightarrow> session \<Rightarrow> (gateway_error + model_result) \<times> sent \<times> session \<Rightarrow> bool" where
  "recorded sha q s outcome = (case outcome of
     (Inr res, out, s') \<Rightarrow>
       map_option fst out = Some (mr_provider res) \<and> durable s' = durable s
       \<and> (\<exists>e. working s' = add_event e (working s) \<and> row_of q ''model.call'' e
            \<and> ae_model_used e = Some (mr_model_used res)
            \<and> ae_prompt_hash e = Some (sha (mq_prompt q)) \<and> ae_response_hash e = Some (sha (mr_text res))
            \<and> ae_token_count e = Some (mr_tokens_in res + mr_tokens_out res))
   | (Inl (UpstreamFailed x), out, s') \<Rightarrow>
       out \<noteq> None
       \<and> (\<exists>e. durable s' = add_event e (durable s) \<and> working s' = add_event e (working s)
            \<and> row_of q ''model.call.error'' e \<and> ae_prompt_hash e = Some (sha (mq_prompt q)))
   | (Inl (KeyMissing name), out, s') \<Rightarrow>
       out = None
       \<and> (\<exists>e. durable s' = add_event e (durable s) \<and> working s' = add_event e (working s)
            \<and> row_of q (key_missing_action q) e \<and> ae_model_used e = Some name)
   | (Inl (ModelDenied x), out, s') \<Rightarrow>
       out = None
       \<and> (\<exists>e. durable s' = add_event e (working s) \<and> working s' = durable s'
            \<and> ae_action e = ''module.capability.denied'' \<and> ae_actor_id e = mq_actor_id q)
   | (Inl (ProviderRaised msg), out, s') \<Rightarrow> out \<noteq> None \<and> s' = s
   | (_, out, s') \<Rightarrow> out = None \<and> s' = s)"

lemma stamp_keeps:
  "ae_model_used (stamp s e) = ae_model_used e" "ae_prompt_hash (stamp s e) = ae_prompt_hash e"
  "ae_response_hash (stamp s e) = ae_response_hash e" "ae_token_count (stamp s e) = ae_token_count e"
  by (simp_all add: stamp_def)

lemma row_of_stamp:
  "row_of q ''model.call'' (stamp s (call_event q requested p up res))"
  "row_of q ''model.call.error'' (stamp s (call_error_event sha q requested p name served latency x))"
  "row_of q (key_missing_action q) (stamp s (key_missing_event q requested p name))"
  by (simp_all add: row_of_def call_event_def call_error_event_def key_missing_event_def key_missing_action_def Let_def)

lemma event_columns:
  "ae_model_used (call_event q requested p up res) = Some (mr_model_used res)"
  "ae_prompt_hash (call_event q requested p up res) = Some (mr_prompt_hash res)"
  "ae_response_hash (call_event q requested p up res) = Some (mr_response_hash res)"
  "ae_token_count (call_event q requested p up res) = Some (mr_token_count res)"
  "ae_prompt_hash (call_error_event sha q requested p name served latency x) = Some (sha (mq_prompt q))"
  "ae_model_used (key_missing_event q requested p name) = Some name"
  by (simp_all add: call_event_def call_error_event_def key_missing_event_def Let_def)

lemma dispatch_recorded:
  assumes "bound s"
  shows "recorded sha q s (dispatch_call sha gs keys latency pv p q s)"
proof (cases "resolve_key gs keys q (pv_name pv)")
  case (Inl u)
  let ?e = "stamp s (key_missing_event q (requested_model gs q) p (pv_name pv))"
  have "row_of q (key_missing_action q) ?e \<and> ae_model_used ?e = Some (pv_name pv)"
    by (simp add: row_of_stamp stamp_keeps event_columns)
  with Inl assms show ?thesis by (auto simp: dispatch_call_def recorded_def Let_def)
next
  case (Inr key)
  define args where "args = call_args_for q (requested_model gs q) (pv_name pv) key"
  show ?thesis
  proof (cases "pv_call pv args")
    case (Replied rep)
    let ?res = "model_result_for sha q pv args latency rep"
    let ?e = "stamp s (call_event q (requested_model gs q) p (if ca_meta_out args then pr_upstream rep else None) ?res)"
    have "row_of q ''model.call'' ?e \<and> ae_model_used ?e = Some (mr_model_used ?res)
        \<and> ae_prompt_hash ?e = Some (sha (mq_prompt q)) \<and> ae_response_hash ?e = Some (sha (mr_text ?res))
        \<and> ae_token_count ?e = Some (mr_tokens_in ?res + mr_tokens_out ?res)"
      by (simp add: row_of_stamp stamp_keeps event_columns) (simp add: model_result_for_def)
    moreover have "mr_provider ?res = pv_name pv" by (simp add: model_result_for_def)
    ultimately show ?thesis
      using Inr Replied by (auto simp: dispatch_call_def recorded_def Let_def simp flip: args_def)
  next
    case (Upstream x)
    let ?e = "stamp s (call_error_event sha q (requested_model gs q) p (pv_name pv) (served_model pv args) latency x)"
    have "row_of q ''model.call.error'' ?e \<and> ae_prompt_hash ?e = Some (sha (mq_prompt q))"
      by (simp add: row_of_stamp stamp_keeps event_columns)
    with Inr Upstream assms show ?thesis
      by (auto simp: dispatch_call_def recorded_def Let_def simp flip: args_def)
  next
    case (Raised msg)
    with Inr show ?thesis by (simp add: dispatch_call_def recorded_def Let_def flip: args_def)
  qed
qed

lemma attribution_actor: "attribution q = Some (a, plugin, skill) \<Longrightarrow> mq_actor_id q = Some a"
  by (auto simp: attribution_def split: option.splits if_splits)

lemma denial_recorded:
  assumes "attribution q = Some (a, plugin, skill)"
    and "require_capability a plugin skill ''model.invoke'' None s = (Inl x, s1)"
  shows "recorded sha q s (Inl (ModelDenied x), None, s1)"
proof -
  let ?e = "stamp s (denied_event a plugin skill ''model.invoke'' None)"
  have "ae_action ?e = ''module.capability.denied'' \<and> ae_actor_id ?e = mq_actor_id q"
    using attribution_actor [OF assms(1)] by (simp add: denied_event_def event0_def)
  moreover have "s1 = commit (audit_log (denied_event a plugin skill ''model.invoke'' None) s)"
    using assms(2) by (auto simp: require_capability_def split: if_splits)
  ultimately show ?thesis by (auto simp: recorded_def)
qed

lemma effective_posture_error: "effective_posture q d = Inl e \<Longrightarrow> e = MatterMissing \<or> e = UnknownPosture"
  by (auto simp: effective_posture_def split: option.splits)

text \<open>C31. Every outcome of a model call leaves the record the gateway promises. A reply adds one
  \<open>model.call\<close> row to the transaction of the caller, with the hashes of the prompt that was sent and of
  the text that is returned and the tokens of both. An upstream failure and a missing key leave a row that
  is committed whatever the caller does next, and so does a denied capability, together with all
  the pending work of the caller. A paused, missing or malformed matter leaves no trace and sends nothing;
  and any other exception of a provider leaves no row although the prompt was handed over.\<close>

theorem model_calls_are_on_the_record:
  assumes "bound s"
  shows "recorded sha q s (gateway_call sha gs ps keys latency q s)"
proof (cases "effective_posture q (working s)")
  case (Inl e)
  with effective_posture_error [OF Inl] show ?thesis by (auto simp: gateway_call_def recorded_def)
next
  case (Inr p)
  have gate: "recorded sha q s (gateway_call sha gs ps keys latency q s)"
    if "attribution q = Some (a, plugin, skill)" "p \<noteq> C_PAUSED" for a plugin skill
  proof (cases "granted_at a plugin skill ''model.invoke'' None (working s)")
    case True
    with that Inr dispatch_recorded [OF assms] show ?thesis by (simp add: gateway_call_def require_capability_def)
  next
    case False
    then obtain x s1 where x: "require_capability a plugin skill ''model.invoke'' None s = (Inl x, s1)"
      by (simp add: require_capability_def)
    with denial_recorded [OF that(1) x, of sha] that Inr show ?thesis by (simp add: gateway_call_def)
  qed
  show ?thesis
  proof (cases "p = C_PAUSED")
    case True
    with Inr show ?thesis by (simp add: gateway_call_def recorded_def)
  next
    case False
    with gate Inr dispatch_recorded [OF assms] show ?thesis
      by (cases "attribution q") (auto simp: gateway_call_def)
  qed
qed

section \<open>A mixed matter and the bare names\<close>

text \<open>The rule that keeps a mixed matter on the local model looks at the shape of the id, and the bare
  names \<open>anthropic\<close>, \<open>openai\<close> and \<open>openrouter\<close> have none of the shapes it looks for: with a local model
  registered the prompt of a mixed matter still goes to the keyed provider that is called so.\<close>

theorem bare_provider_names_leave_the_tenant:
  assumes "effective_posture q (working s) = Inr B_MIXED" and "map_of ps ''ollama'' = Some local_pv"
    and "requested_model gs q \<in> set KEYED_PROVIDERS" and "names_agree ps"
    and "map_of ps (requested_model gs q) = Some pv"
    and "attribution q = None" and "mq_actor_id q = Some a" and "keys a (requested_model gs q) = Some key"
  shows "\<exists>args. fst (snd (gateway_call sha gs ps keys latency q s)) = Some (requested_model gs q, args)
    \<and> ca_prompt args = mq_prompt q"
proof -
  let ?i = "requested_model gs q"
  have "\<not> frontier_id ?i" "provider_for_model (Some ?i) = Some ?i"
    using assms(3) by (auto simp: KEYED_PROVIDERS_def frontier_id_def provider_for_model_def)
  then have pv: "select_provider ps ?i B_MIXED = pv" using assms(2,5) by (simp add: select_provider_def)
  have name: "pv_name pv = ?i" using names_agree_map_of [OF assms(4,5)] .
  have "resolve_key gs keys q ?i = Inr (Some key)" using assms(3,7,8) by (simp add: resolve_key_def)
  then have "fst (snd (dispatch_call sha gs keys latency pv B_MIXED q s)) = Some (?i, call_args_for q ?i ?i (Some key))"
    by (simp add: dispatch_call_def name Let_def split: provider_outcome.splits)
  then show ?thesis using assms(1,6) by (simp add: gateway_call_def pv) (simp add: call_args_for_def)
qed

section \<open>When a tool runs\<close>

lemma require_all_granted:
  "fst (require_all user plugin skill caps s) = Inr ()
     \<longleftrightarrow> list_all (\<lambda>c. granted_at user plugin skill c None (working s)) caps"
  "list_all (\<lambda>c. granted_at user plugin skill c None (working s)) caps \<Longrightarrow> require_all user plugin skill caps s = (Inr (), s)"
  by (induction caps) (simp_all add: require_capability_def)

text \<open>A tool whose handler ran, or that answered, is registered; the plugin it acts for holds every capability
  it needs; and if it is gated the matter exists and is not paused.\<close>

theorem tools_run_only_when_allowed:
  assumes "invoke_tool ts name actor mid inputs plugin skill s = (r, s')"
    and "case r of Inr _ \<Rightarrow> True | Inl e \<Rightarrow> e = ToolInvalidOutput \<or> (\<exists>msg. e = HandlerRaised msg)"
  shows "\<exists>t. map_of ts name = Some t \<and> tool_posture t mid (working s) = None
    \<and> (\<forall>p k caps. tool_capabilities name plugin skill = Some (p, k, caps)
          \<longrightarrow> list_all (\<lambda>c. granted_at actor p k c None (working s)) caps)"
proof -
  have ran: "tool_posture t mid (working s) = None" if "run_tool t actor mid inputs s = (r, s')" for t
    using that assms(2) by (auto simp: run_tool_def split: option.splits sum.splits prod.splits)
  from assms obtain t where t: "map_of ts name = Some t" by (auto simp: invoke_tool_def split: option.splits)
  show ?thesis
  proof (cases "tool_capabilities name plugin skill")
    case None
    with assms(1) t ran show ?thesis by (auto simp: invoke_tool_def)
  next
    case (Some c)
    obtain p k caps where c: "c = (p, k, caps)" by (cases c)
    show ?thesis
    proof (cases "list_all (\<lambda>c. granted_at actor p k c None (working s)) caps")
      case True
      with assms(1) t ran Some c show ?thesis by (auto simp: invoke_tool_def require_all_granted(2))
    next
      case False
      then have "fst (require_all actor p k caps s) \<noteq> Inr ()" by (simp add: require_all_granted(1))
      with assms t Some c show ?thesis by (auto simp: invoke_tool_def split: sum.splits prod.splits)
    qed
  qed
qed

section \<open>Samples\<close>

definition sample_provider :: "string \<Rightarrow> provider" where
  "sample_provider name = \<lparr>pv_name = name, pv_default_model = Some ''local-7b'',
     pv_call = (\<lambda>args. Replied \<lparr>pr_text = ''ok'', pr_tokens_in = 3, pr_tokens_out = 1, pr_served_model = None, pr_upstream = None\<rparr>)\<rparr>"

definition sample_providers :: providers where
  "sample_providers = new_gateway (register_provider (sample_provider ''ollama'') (register_provider (sample_provider ''anthropic'') []))"

definition sample_settings :: gateway_settings where
  "sample_settings = \<lparr>gs_default_model = ''claude-opus'', gs_environment = ''production'', gs_allow_server_key_fallback = False\<rparr>"

definition sample_call :: "string \<Rightarrow> model_request" where
  "sample_call model = \<lparr>mq_matter_id = Some ''m'', mq_actor_id = Some ''u'', mq_prompt = ''p'', mq_model = Some model,
     mq_posture = Some A_CLEARED, mq_system = None, mq_max_tokens = None, mq_resource_type = None, mq_resource_id = None,
     mq_payload = [], mq_caller_module = None, mq_streams = False\<rparr>"

definition sample_mixed :: session where
  "sample_mixed = open_session (empty_db\<lparr>matters := [\<lparr>m_id = ''m'', m_slug = ''m'', m_title = ''t'', m_status = ''open'',
     m_privilege_posture = ''B_mixed'', m_created_by_id = ''u'', m_retention_until = None, m_default_model_id = ''stub-echo'',
     m_matter_type = ''employment_tribunal'', m_cause = None, m_case_theory = None,
     m_pivot_fact = None, m_facts = JObj [], m_opened_at = 0, m_closed_at = None\<rparr>]\<rparr>) 0"

lemma sample_providers_agree: "names_agree sample_providers"
  unfolding sample_providers_def by (intro registry_agrees)

lemma sample_calls:
  "fst (snd (gateway_call rev sample_settings sample_providers (\<lambda>u n. None) 5 (sample_call ''claude-opus'') sample_mixed))
     = Some (''ollama'', call_args_for (sample_call ''claude-opus'') ''claude-opus'' ''ollama'' None)"
  by code_simp

lemma prompts_leave_only_when_allowed_witness:
  "\<exists>p. p \<noteq> C_PAUSED \<and> effective_posture (sample_call ''claude-opus'') (working sample_mixed) = Inr p"
proof -
  obtain r s' where "gateway_call rev sample_settings sample_providers (\<lambda>u n. None) 5 (sample_call ''claude-opus'') sample_mixed
      = (r, Some (''ollama'', call_args_for (sample_call ''claude-opus'') ''claude-opus'' ''ollama'' None), s')"
    using sample_calls by (metis prod.collapse)
  from prompts_leave_only_when_allowed [OF this sample_providers_agree] show ?thesis by blast
qed

lemma model_calls_are_on_the_record_witness:
  "recorded rev (sample_call ''claude-opus'') sample_mixed
     (gateway_call rev sample_settings sample_providers (\<lambda>u n. None) 5 (sample_call ''claude-opus'') sample_mixed)"
proof -
  have "bound sample_mixed" by (simp add: sample_mixed_def open_session_def)
  from model_calls_are_on_the_record [OF this] show ?thesis .
qed

lemma bare_provider_names_leave_the_tenant_witness:
  "\<exists>args. fst (snd (gateway_call rev sample_settings sample_providers (\<lambda>u n. Some ''k'') 5 (sample_call ''anthropic'') sample_mixed))
       = Some (''anthropic'', args) \<and> ca_prompt args = ''p''"
proof -
  have model: "requested_model sample_settings (sample_call ''anthropic'') = ''anthropic''"
    by (simp add: requested_model_def sample_call_def)
  have "effective_posture (sample_call ''anthropic'') (working sample_mixed) = Inr B_MIXED"
    "map_of sample_providers ''ollama'' = Some (sample_provider ''ollama'')"
    "map_of sample_providers ''anthropic'' = Some (sample_provider ''anthropic'')"
    "attribution (sample_call ''anthropic'') = None" "mq_actor_id (sample_call ''anthropic'') = Some ''u''"
    "mq_prompt (sample_call ''anthropic'') = ''p''" "''anthropic'' \<in> set KEYED_PROVIDERS"
    by (simp_all add: effective_posture_def sample_mixed_def open_session_def sample_call_def parse_posture_def
        attribution_def sample_providers_def register_provider_def new_gateway_def sample_provider_def KEYED_PROVIDERS_def)
  with bare_provider_names_leave_the_tenant [where q = "sample_call ''anthropic''" and s = sample_mixed and gs = sample_settings
      and ps = sample_providers and keys = "\<lambda>u n. Some ''k''" and sha = rev and latency = 5, unfolded model, OF _ _ _ sample_providers_agree]
  show ?thesis by metis
qed

end
