(* ===== verification/DependencyResolver.thy ===== *)
theory DependencyResolver
  imports Prelude
begin

text \<open>
  The dependency check of a module (\<open>app/core/dependency_resolver.py\<close>): the versions that satisfy each
  entry of \<open>requires\<close>, and the depth-first search for cycles among the modules it names. The rows
  of installed modules and the registry of discovered ones are arguments, and so are the version parser
  and the specifiers of the \<open>packaging\<close> library. Manifests have passed their schema, so an id is a string.
\<close>

section \<open>Cycles\<close>

type_synonym graph = "(string \<times> string list) list"

definition neighbours :: "graph \<Rightarrow> string \<Rightarrow> string list" where
  "neighbours g n = (case map_of g n of None \<Rightarrow> [] | Some ns \<Rightarrow> ns)"

record dfs_state =
  ds_cycles :: "string list list"
  ds_visiting :: "string set"
  ds_visited :: "string set"
  ds_stack :: "string list"

definition dfs_start :: dfs_state where
  "dfs_start = \<lparr>ds_cycles = [], ds_visiting = {}, ds_visited = {}, ds_stack = []\<rparr>"

definition enter_node :: "string \<Rightarrow> dfs_state \<Rightarrow> dfs_state" where
  "enter_node n st = st\<lparr>ds_visiting := insert n (ds_visiting st), ds_stack := ds_stack st @ [n]\<rparr>"

definition leave_node :: "string \<Rightarrow> dfs_state \<Rightarrow> dfs_state" where
  "leave_node n st = st\<lparr>ds_stack := butlast (ds_stack st), ds_visiting := ds_visiting st - {n},
     ds_visited := insert n (ds_visited st)\<rparr>"

text \<open>The slice of the stack from the node onward.\<close>

definition report_cycle :: "string \<Rightarrow> dfs_state \<Rightarrow> dfs_state" where
  "report_cycle n st = st\<lparr>ds_cycles := ds_cycles st @
     [if n \<in> set (ds_stack st) then dropWhile (\<lambda>x. x \<noteq> n) (ds_stack st) @ [n] else [n]]\<rparr>"

text \<open>The search from each node of a list in turn; the search from one node goes through its neighbours.\<close>

function dfs_each :: "graph \<Rightarrow> string list \<Rightarrow> dfs_state \<Rightarrow> dfs_state" where
  "dfs_each g [] st = st"
| "dfs_each g (n # ns) st = dfs_each g ns
     (if n \<in> ds_visited st then st
      else if n \<in> ds_visiting st then report_cycle n st
      else leave_node n (dfs_each g (neighbours g n) (enter_node n st)))"
  by pat_completeness auto

definition met :: "dfs_state \<Rightarrow> string set" where
  "met st = ds_visiting st \<union> ds_visited st"

lemma met_steps [simp]:
  "met (enter_node n st) = insert n (met st)"
  "met (leave_node n st) = insert n (met st)"
  "met (report_cycle n st) = met st"
  by (auto simp: met_def enter_node_def leave_node_def report_cycle_def)

lemma dfs_each_meets: "dfs_each_dom (g, ns, st) \<Longrightarrow> met st \<subseteq> met (dfs_each g ns st)"
  by (induction g ns st rule: dfs_each.pinduct) (force simp: dfs_each.psimps)+

definition nodes_of :: "graph \<Rightarrow> string set" where
  "nodes_of g = fst ` set g \<union> \<Union> (set ` snd ` set g)"

lemma finite_nodes [simp]: "finite (nodes_of g - X)"
  by (auto simp: nodes_of_def)

lemma neighbours_outside: "n \<notin> nodes_of g \<Longrightarrow> neighbours g n = []"
  by (force simp: neighbours_def nodes_of_def split: option.splits dest: map_of_SomeD)

termination dfs_each
proof (relation "inv_image (finite_psubset <*lex*> less_than) (\<lambda>(g, ns, st). (nodes_of g - met st, length ns))")
  show "wf (inv_image (finite_psubset <*lex*> less_than) (\<lambda>(g, ns, st). (nodes_of g - met st, length ns)))" by auto
next
  fix g n ns and st :: dfs_state assume "n \<notin> ds_visited st" "n \<notin> ds_visiting st"
  then have "n \<notin> met st" by (simp add: met_def)
  then show "((g, neighbours g n, enter_node n st), (g, n # ns, st))
    \<in> inv_image (finite_psubset <*lex*> less_than) (\<lambda>(g, ns, st). (nodes_of g - met st, length ns))"
    by (cases "n \<in> nodes_of g") (auto simp: neighbours_outside finite_psubset_def)
next
  fix g n ns and st :: dfs_state
  assume "n \<notin> ds_visited st \<Longrightarrow> n \<notin> ds_visiting st \<Longrightarrow> dfs_each_dom (g, neighbours g n, enter_node n st)"
  then show "((g, ns, if n \<in> ds_visited st then st else if n \<in> ds_visiting st then report_cycle n st
        else leave_node n (dfs_each g (neighbours g n) (enter_node n st))), (g, n # ns, st))
    \<in> inv_image (finite_psubset <*lex*> less_than) (\<lambda>(g, ns, st). (nodes_of g - met st, length ns))"
    using dfs_each_meets [of g "neighbours g n" "enter_node n st"] by (auto simp: finite_psubset_def)
qed

definition dfs :: "graph \<Rightarrow> string \<Rightarrow> dfs_state \<Rightarrow> dfs_state" where
  "dfs g n st = dfs_each g [n] st"

text \<open>Cycles with the same sorted nodes are reported once.\<close>

fun dedupe_cycles :: "string list set \<Rightarrow> string list list \<Rightarrow> string list list" where
  "dedupe_cycles seen [] = []"
| "dedupe_cycles seen (c # cs) =
     (if sort c \<in> seen then dedupe_cycles seen cs else c # dedupe_cycles (insert (sort c) seen) cs)"

definition detect_cycles :: "graph \<Rightarrow> string list list" where
  "detect_cycles g = dedupe_cycles {} (ds_cycles (fold (dfs g) (map fst g) dfs_start))"

section \<open>Versions\<close>

text \<open>A discovered module: its id and its manifest, unless deriving it from an old format failed.\<close>

record registry_entry =
  en_module_id :: string
  en_manifest :: "json option"

datatype missing_reason = not_found | version_unsatisfied

record missing_dependency =
  md_module_id :: string
  md_required_version_spec :: json
  md_available_versions :: "string list"
  md_reason :: missing_reason

record resolution =
  rs_is_satisfied :: bool
  rs_missing :: "missing_dependency list"
  rs_cycles :: "string list list"
  rs_satisfied :: "(string \<times> string) list"

text \<open>\<open>Version\<close> and \<open>SpecifierSet\<close>: what they make of a string, or nothing when they raise.\<close>

type_synonym 'v packaging = "(string \<Rightarrow> 'v option) \<times> (json \<Rightarrow> ('v \<Rightarrow> bool) option)"

definition matches_spec :: "'v packaging \<Rightarrow> string \<Rightarrow> json \<Rightarrow> bool" where
  "matches_spec pk v spec \<longleftrightarrow>
     \<not> py_truthy spec
     \<or> (case (fst pk v, snd pk spec) of (Some version, Some spec_set) \<Rightarrow> spec_set version | _ \<Rightarrow> False)"

definition installed_versions :: "(string \<times> string) list \<Rightarrow> string \<Rightarrow> string list" where
  "installed_versions rows mid = map snd (filter (\<lambda>(i, v). i = mid) rows)"

definition entry_version :: "registry_entry \<Rightarrow> string option" where
  "entry_version e = (case en_manifest e of None \<Rightarrow> None
     | Some m \<Rightarrow> (case jget ''version'' m of Some (JStr v) \<Rightarrow> Some v | _ \<Rightarrow> None))"

definition discoverable_versions :: "registry_entry list \<Rightarrow> string \<Rightarrow> string list" where
  "discoverable_versions es mid = List.map_filter entry_version (filter (\<lambda>e. en_module_id e = mid) es)"

definition all_versions :: "(string \<times> string) list \<Rightarrow> registry_entry list \<Rightarrow> string \<Rightarrow> string list" where
  "all_versions rows es mid = sort (remdups (installed_versions rows mid @ discoverable_versions es mid))"

text \<open>The highest version, or the last one in the order of strings when one of them is no version.\<close>

definition best_version :: "('v::linorder) packaging \<Rightarrow> string list \<Rightarrow> string" where
  "best_version pk vs =
     (if list_ex (\<lambda>v. fst pk v = None) vs then last vs else max_by (\<lambda>v. the (fst pk v)) (hd vs) (tl vs))"

section \<open>Resolution\<close>

text \<open>Iterating over \<open>requires or []\<close>: a number has no elements to iterate over.\<close>

datatype resolver_error = NotIterable

definition requires_of :: "json \<Rightarrow> resolver_error + json list" where
  "requires_of m =
     (let r = jget0 ''requires'' m in
      if \<not> py_truthy r then Inr []
      else case r of JList xs \<Rightarrow> Inr xs | JObj kvs \<Rightarrow> Inr (map (JStr \<circ> fst) kvs)
        | JStr s \<Rightarrow> Inr (map (\<lambda>c. JStr [c]) s) | _ \<Rightarrow> Inl NotIterable)"

definition required_id :: "json \<Rightarrow> string option" where
  "required_id r = (case r of JObj kvs \<Rightarrow> (case map_of kvs ''module_id'' of Some (JStr i) \<Rightarrow> Some i | _ \<Rightarrow> None) | _ \<Rightarrow> None)"

definition required_spec :: "json \<Rightarrow> json" where
  "required_spec r = (let v = jget_or ''version'' (JStr []) r in if py_truthy v then v else JStr [])"

definition root_id :: "json \<Rightarrow> string" where
  "root_id m = (case jget ''id'' m of Some (JStr i) \<Rightarrow> i | _ \<Rightarrow> ''<root>'')"

fun graph_edges :: "string \<Rightarrow> string list \<Rightarrow> registry_entry list \<Rightarrow> graph \<Rightarrow> resolver_error + graph" where
  "graph_edges root direct [] g = Inr g"
| "graph_edges root direct (e # es) g =
     (if en_module_id e \<notin> set direct \<and> en_module_id e \<noteq> root then graph_edges root direct es g
      else case en_manifest e of None \<Rightarrow> graph_edges root direct es g
        | Some m \<Rightarrow> (case requires_of m of Inl x \<Rightarrow> Inl x
            | Inr rs \<Rightarrow> graph_edges root direct es (dict_set (en_module_id e) (List.map_filter required_id rs) g)))"

definition build_graph :: "json \<Rightarrow> registry_entry list \<Rightarrow> resolver_error + graph" where
  "build_graph m es = (case requires_of m of Inl x \<Rightarrow> Inl x
     | Inr rs \<Rightarrow> (let direct = List.map_filter required_id rs
         in graph_edges (root_id m) direct es [(root_id m, direct)]))"

text \<open>One entry of \<open>requires\<close>: skipped, missing or satisfied.\<close>

definition resolve_one ::
  "('v::linorder) packaging \<Rightarrow> (string \<times> string) list \<Rightarrow> registry_entry list \<Rightarrow> json
    \<Rightarrow> (missing_dependency + string \<times> string) option" where
  "resolve_one pk rows es r = (case required_id r of
     None \<Rightarrow> None
   | Some mid \<Rightarrow>
       (let spec = required_spec r; vs = all_versions rows es mid; matching = filter (\<lambda>v. matches_spec pk v spec) vs in
        if vs = [] then Some (Inl \<lparr>md_module_id = mid, md_required_version_spec = spec, md_available_versions = [], md_reason = not_found\<rparr>)
        else if matching = [] then Some (Inl \<lparr>md_module_id = mid, md_required_version_spec = spec, md_available_versions = vs,
          md_reason = version_unsatisfied\<rparr>)
        else Some (Inr (mid, best_version pk matching))))"

definition resolve_dependencies ::
  "('v::linorder) packaging \<Rightarrow> (string \<times> string) list \<Rightarrow> registry_entry list \<Rightarrow> json \<Rightarrow> resolver_error + resolution" where
  "resolve_dependencies pk rows es m = (case requires_of m of Inl x \<Rightarrow> Inl x
     | Inr rs \<Rightarrow>
         (let results = List.map_filter (resolve_one pk rows es) rs;
              missing = List.map_filter (\<lambda>x. case x of Inl d \<Rightarrow> Some d | Inr _ \<Rightarrow> None) results;
              satisfied = List.map_filter (\<lambda>x. case x of Inl _ \<Rightarrow> None | Inr p \<Rightarrow> Some p) results
          in case build_graph m es of Inl x \<Rightarrow> Inl x
            | Inr g \<Rightarrow> (let cycles = detect_cycles g in
                Inr \<lparr>rs_is_satisfied = (missing = [] \<and> cycles = []), rs_missing = missing, rs_cycles = cycles, rs_satisfied = satisfied\<rparr>)))"

section \<open>The search finds a cycle exactly if there is one\<close>

definition edges :: "graph \<Rightarrow> (string \<times> string) set" where
  "edges g = {(u, v). v \<in> set (neighbours g u)}"

text \<open>An elementary cycle, written with its first node again at the end.\<close>

definition cycle_of :: "graph \<Rightarrow> string list \<Rightarrow> bool" where
  "cycle_of g c \<longleftrightarrow> 2 \<le> length c \<and> hd c = last c \<and> distinct (tl c) \<and> successively (\<lambda>u v. (u, v) \<in> edges g) c"

lemma path_trancl: "successively (\<lambda>u v. (u, v) \<in> r) c \<Longrightarrow> 2 \<le> length c \<Longrightarrow> (hd c, last c) \<in> r\<^sup>+"
proof (induction c rule: induct_list012)
  case (3 x y zs)
  then show ?case by (cases zs) (auto intro: trancl_into_trancl2)
qed simp_all

lemma cycle_not_acyclic: "cycle_of g c \<Longrightarrow> \<not> acyclic (edges g)"
  unfolding cycle_of_def acyclic_def by (metis path_trancl)

text \<open>What is known of the search at any moment.\<close>

definition no_cycle_yet :: "graph \<Rightarrow> dfs_state \<Rightarrow> bool" where
  "no_cycle_yet g st \<longleftrightarrow> (\<forall>u\<in>ds_visited st. set (neighbours g u) \<subseteq> ds_visited st)
     \<and> acyclic (edges g \<inter> ds_visited st \<times> UNIV)"

definition search_ok :: "graph \<Rightarrow> dfs_state \<Rightarrow> bool" where
  "search_ok g st \<longleftrightarrow> ds_visiting st = set (ds_stack st) \<and> distinct (ds_stack st)
     \<and> ds_visiting st \<inter> ds_visited st = {} \<and> successively (\<lambda>u v. (u, v) \<in> edges g) (ds_stack st)
     \<and> (\<forall>c\<in>set (ds_cycles st). cycle_of g c) \<and> (ds_cycles st = [] \<longrightarrow> no_cycle_yet g st)"

lemma start_ok: "search_ok g dfs_start"
  by (simp add: search_ok_def dfs_start_def no_cycle_yet_def acyclic_def)

lemma enter_ok:
  assumes "search_ok g st" "n \<notin> ds_visited st" "n \<notin> ds_visiting st"
    and "ds_stack st \<noteq> [] \<Longrightarrow> (last (ds_stack st), n) \<in> edges g"
  shows "search_ok g (enter_node n st)"
  using assms by (auto simp: search_ok_def enter_node_def successively_append_iff no_cycle_yet_def)

lemma slice_is_cycle:
  assumes "successively (\<lambda>u v. (u, v) \<in> edges g) stack" "distinct stack" "n \<in> set stack" "(last stack, n) \<in> edges g"
  shows "cycle_of g (dropWhile (\<lambda>x. x \<noteq> n) stack @ [n])"
proof -
  obtain xs ys where stack: "stack = xs @ n # ys" and "n \<notin> set xs"
    using assms(3) by (metis split_list_first)
  then have slice: "dropWhile (\<lambda>x. x \<noteq> n) stack = n # ys" by (induction xs arbitrary: stack) auto
  have "last (n # ys) = last stack" using stack by simp
  moreover have "successively (\<lambda>u v. (u, v) \<in> edges g) (n # ys)" using assms(1) stack by (simp add: successively_append_iff)
  ultimately have "successively (\<lambda>u v. (u, v) \<in> edges g) ((n # ys) @ [n])"
    using assms(4) by (simp only: successively_append_iff) simp
  moreover have "distinct (ys @ [n])" using assms(2) stack by auto
  ultimately show ?thesis by (simp add: cycle_of_def slice)
qed

lemma report_ok:
  assumes "search_ok g st" "n \<in> ds_visiting st" "(last (ds_stack st), n) \<in> edges g"
  shows "search_ok g (report_cycle n st)"
  using assms slice_is_cycle [of g "ds_stack st" n] by (auto simp: search_ok_def report_cycle_def)

lemma acyclic_insert_closed:
  assumes closed: "\<forall>u\<in>V. set (neighbours g u) \<subseteq> V" and acyc: "acyclic (edges g \<inter> V \<times> UNIV)"
    and n: "n \<notin> V" "set (neighbours g n) \<subseteq> V"
  shows "acyclic (edges g \<inter> insert n V \<times> UNIV)"
proof (rule acyclicI, rule allI, rule notI)
  let ?R = "edges g \<inter> V \<times> UNIV" and ?S = "edges g \<inter> insert n V \<times> UNIV"
  have stays: "(x, y) \<in> ?R\<^sup>+ \<and> y \<in> V" if "(x, y) \<in> ?S\<^sup>+" "x \<in> V" for x y
    using that
  proof (induction rule: trancl_induct)
    case (base y)
    then show ?case using closed n(1) by (auto simp: edges_def)
  next
    case (step y z)
    then have "(y, z) \<in> ?R" using n(1) by auto
    then show ?case using step closed by (auto simp: edges_def intro: trancl_into_trancl)
  qed
  fix x assume cyc: "(x, x) \<in> ?S\<^sup>+"
  then obtain y where "(y, x) \<in> ?S" by (meson tranclE)
  then have "x \<in> V" using closed n(2) by (auto simp: edges_def)
  with stays [OF cyc] acyc show False by (auto simp: acyclic_def)
qed

lemma leave_ok:
  assumes "search_ok g st" "ds_stack st = stack @ [n]" "ds_cycles st = [] \<Longrightarrow> set (neighbours g n) \<subseteq> ds_visited st"
  shows "search_ok g (leave_node n st)"
proof -
  have "n \<notin> ds_visited st" using assms(1,2) by (auto simp: search_ok_def)
  then have "no_cycle_yet g (leave_node n st)" if "ds_cycles st = []"
    using assms(1,3) that acyclic_insert_closed [of "ds_visited st" g n]
    by (auto simp: search_ok_def no_cycle_yet_def leave_node_def)
  with assms show ?thesis by (auto simp: search_ok_def leave_node_def successively_append_iff)
qed

lemma dfs_each_ok:
  assumes "search_ok g st" and "ds_stack st \<noteq> [] \<Longrightarrow> set ns \<subseteq> set (neighbours g (last (ds_stack st)))"
  shows "search_ok g (dfs_each g ns st) \<and> ds_stack (dfs_each g ns st) = ds_stack st
    \<and> ds_visited st \<subseteq> ds_visited (dfs_each g ns st)
    \<and> (ds_cycles (dfs_each g ns st) = [] \<longrightarrow> ds_cycles st = [] \<and> set ns \<subseteq> ds_visited (dfs_each g ns st))"
  using assms
proof (induction g ns st rule: dfs_each.induct)
  case (2 g n ns st)
  have edge: "(last (ds_stack st), n) \<in> edges g" if "ds_stack st \<noteq> []"
    using 2(4) that by (auto simp: edges_def)
  let ?inner = "dfs_each g (neighbours g n) (enter_node n st)"
  define st1 where "st1 = (if n \<in> ds_visited st then st else if n \<in> ds_visiting st then report_cycle n st
    else leave_node n ?inner)"
  have one: "search_ok g st1 \<and> ds_stack st1 = ds_stack st \<and> ds_visited st \<subseteq> ds_visited st1
      \<and> (ds_cycles st1 = [] \<longrightarrow> ds_cycles st = [] \<and> n \<in> ds_visited st1)"
  proof -
    consider "n \<in> ds_visited st" | "n \<notin> ds_visited st" "n \<in> ds_visiting st" | "n \<notin> ds_visited st" "n \<notin> ds_visiting st" by blast
    then show ?thesis
    proof cases
      case 1
      with 2(3) show ?thesis by (simp add: st1_def)
    next
      case visiting: 2
      then have "ds_stack st \<noteq> []" using 2(3) by (auto simp: search_ok_def)
      with visiting report_ok [OF 2(3) visiting(2)] edge show ?thesis by (simp add: st1_def report_cycle_def)
    next
      case fresh: 3
      have enter: "search_ok g (enter_node n st)" by (rule enter_ok [OF 2(3) fresh edge])
      have ih: "search_ok g ?inner \<and> ds_stack ?inner = ds_stack st @ [n] \<and> ds_visited st \<subseteq> ds_visited ?inner
          \<and> (ds_cycles ?inner = [] \<longrightarrow> ds_cycles st = [] \<and> set (neighbours g n) \<subseteq> ds_visited ?inner)"
        using 2(1) [OF fresh enter] by (simp add: enter_node_def)
      with leave_ok [of g ?inner "ds_stack st" n] fresh show ?thesis by (auto simp: st1_def leave_node_def)
    qed
  qed
  define out where "out = dfs_each g ns st1"
  have out: "dfs_each g (n # ns) st = out" unfolding out_def st1_def by (rule dfs_each.simps(2))
  have "search_ok g out \<and> ds_stack out = ds_stack st1 \<and> ds_visited st1 \<subseteq> ds_visited out
    \<and> (ds_cycles out = [] \<longrightarrow> ds_cycles st1 = [] \<and> set ns \<subseteq> ds_visited out)"
    unfolding out_def using 2(2) [folded st1_def] one 2(4) by auto
  with one show ?case unfolding out by auto
qed simp

lemma fold_dfs: "fold (dfs g) ns st = dfs_each g ns st"
  by (induction ns arbitrary: st) (simp_all add: dfs_def)

lemma dedupe_set: "set (dedupe_cycles seen cs) \<subseteq> set cs"
  by (induction seen cs rule: dedupe_cycles.induct) auto

lemma dedupe_Nil [simp]: "dedupe_cycles {} cs = [] \<longleftrightarrow> cs = []"
  by (cases cs) auto

lemma edge_from_key: "(u, v) \<in> edges g \<Longrightarrow> u \<in> set (map fst g)"
  using map_of_eq_None_iff [of g u] by (cases "map_of g u") (auto simp: edges_def neighbours_def)

lemma edges_of_keys: "set (map fst g) \<subseteq> V \<Longrightarrow> edges g \<inter> V \<times> UNIV = edges g"
  using edge_from_key by auto

lemma search_result:
  "search_ok g (dfs_each g (map fst g) dfs_start)"
  "ds_cycles (dfs_each g (map fst g) dfs_start) = [] \<Longrightarrow> set (map fst g) \<subseteq> ds_visited (dfs_each g (map fst g) dfs_start)"
  using dfs_each_ok [OF start_ok, of "map fst g" g] by (simp_all add: dfs_start_def)

lemma cycles_sound: "set (detect_cycles g) \<subseteq> {c. cycle_of g c}"
proof -
  have "set (ds_cycles (dfs_each g (map fst g) dfs_start)) \<subseteq> {c. cycle_of g c}"
    using search_result(1) [of g] by (auto simp: search_ok_def)
  then show ?thesis using dedupe_set unfolding detect_cycles_def fold_dfs by blast
qed

lemma cycles_nil: "detect_cycles g = [] \<longleftrightarrow> acyclic (edges g)"
proof
  let ?out = "dfs_each g (map fst g) dfs_start"
  assume "detect_cycles g = []"
  then have "ds_cycles ?out = []" by (simp add: detect_cycles_def fold_dfs)
  then show "acyclic (edges g)"
    using search_result [of g] edges_of_keys [of g "ds_visited ?out"] by (auto simp: search_ok_def no_cycle_yet_def)
next
  assume "acyclic (edges g)"
  then show "detect_cycles g = []" using cycles_sound [of g] cycle_not_acyclic by (cases "detect_cycles g") auto
qed

text \<open>C26. The check of a dependency graph ends on every graph. Each list it reports is an elementary cycle, with
  its first node again at the end, and it reports none exactly if the graph has none; so it is
  exact although it does not list every cycle.\<close>

theorem cycles_found_iff_cyclic:
  "set (detect_cycles g) \<subseteq> {c. cycle_of g c} \<and> (detect_cycles g = [] \<longleftrightarrow> acyclic (edges g))"
  by (intro conjI cycles_sound cycles_nil)

section \<open>What a resolution says\<close>

lemma map_filter_set: "set (List.map_filter f xs) = {y. \<exists>x\<in>set xs. f x = Some y}"
  by (force simp: List.map_filter_def)

lemma side_of:
  "(case x of Inl d \<Rightarrow> Some d | Inr _ \<Rightarrow> None) = Some y \<longleftrightarrow> x = Inl y"
  "(case x of Inl _ \<Rightarrow> None | Inr p \<Rightarrow> Some p) = Some z \<longleftrightarrow> x = Inr z"
  by (cases x; auto)+

lemma versions_known: "set (all_versions rows es i) = set (installed_versions rows i) \<union> set (discoverable_versions es i)"
  by (simp add: all_versions_def)

definition matching :: "'v packaging \<Rightarrow> (string \<times> string) list \<Rightarrow> registry_entry list \<Rightarrow> string \<Rightarrow> json \<Rightarrow> string list" where
  "matching pk rows es i q = filter (\<lambda>v. matches_spec pk v (required_spec q)) (all_versions rows es i)"

lemma resolve_one_missing:
  "(\<exists>d. resolve_one pk rows es q = Some (Inl d)) \<longleftrightarrow> (\<exists>i. required_id q = Some i \<and> matching pk rows es i q = [])"
  by (auto simp: resolve_one_def matching_def Let_def split: option.splits if_splits)

lemma resolve_one_satisfied:
  "resolve_one pk rows es q = Some (Inr (i, v))
     \<longleftrightarrow> required_id q = Some i \<and> matching pk rows es i q \<noteq> [] \<and> v = best_version pk (matching pk rows es i q)"
  by (auto simp: resolve_one_def matching_def Let_def split: option.splits if_splits)

lemma best_version_in: "vs \<noteq> [] \<Longrightarrow> best_version pk vs \<in> set vs"
  using max_by_in [of "\<lambda>v. the (fst pk v)" "hd vs" "tl vs"] by (auto simp: best_version_def)

lemma best_version_ge:
  assumes "v \<in> set vs" "\<And>w. w \<in> set vs \<Longrightarrow> fst pk w \<noteq> None"
  shows "the (fst pk v) \<le> the (fst pk (best_version pk vs))"
proof -
  have "\<not> list_ex (\<lambda>v. fst pk v = None) vs" using assms(2) by (auto simp: list_ex_iff)
  then show ?thesis using assms(1) max_by_ge [of v "hd vs" "tl vs" "\<lambda>v. the (fst pk v)"]
    by (cases vs) (auto simp: best_version_def)
qed

text \<open>A manifest is satisfied exactly if every module it requires has an installed or a discovered version
  that meets its constraint, and the graph of its own and its direct dependencies' requirements has no
  cycle. What is reported for a requirement is a known version that meets the constraint, and no
  version that meets it is newer, as long as all of those are versions at all.\<close>

theorem resolution_exact:
  assumes "resolve_dependencies pk rows es m = Inr r"
  shows "\<exists>reqs g. requires_of m = Inr reqs \<and> build_graph m es = Inr g
    \<and> (rs_is_satisfied r \<longleftrightarrow> acyclic (edges g)
        \<and> (\<forall>q\<in>set reqs. \<forall>i. required_id q = Some i \<longrightarrow>
             (\<exists>v\<in>set (installed_versions rows i) \<union> set (discoverable_versions es i). matches_spec pk v (required_spec q))))
    \<and> (\<forall>i v. (i, v) \<in> set (rs_satisfied r) \<longrightarrow>
         (\<exists>q\<in>set reqs. required_id q = Some i \<and> v \<in> set (matching pk rows es i q)
            \<and> ((\<forall>w\<in>set (matching pk rows es i q). fst pk w \<noteq> None) \<longrightarrow>
                 (\<forall>w\<in>set (matching pk rows es i q). the (fst pk w) \<le> the (fst pk v)))))"
proof -
  from assms obtain reqs where reqs: "requires_of m = Inr reqs"
    by (auto simp: resolve_dependencies_def split: sum.splits)
  with assms obtain g where g: "build_graph m es = Inr g"
    by (auto simp: resolve_dependencies_def Let_def split: sum.splits)
  let ?missing = "List.map_filter (\<lambda>x. case x of Inl d \<Rightarrow> Some d | Inr _ \<Rightarrow> None) (List.map_filter (resolve_one pk rows es) reqs)"
  let ?satisfied = "List.map_filter (\<lambda>x. case x of Inl _ \<Rightarrow> None | Inr p \<Rightarrow> Some p) (List.map_filter (resolve_one pk rows es) reqs)"
  have r: "rs_is_satisfied r \<longleftrightarrow> ?missing = [] \<and> detect_cycles g = []" "rs_satisfied r = ?satisfied"
    using assms reqs g by (auto simp: resolve_dependencies_def Let_def)
  have "set ?missing = {d. \<exists>q\<in>set reqs. resolve_one pk rows es q = Some (Inl d)}"
    by (auto simp: map_filter_set side_of)
  then have "?missing = [] \<longleftrightarrow> {d. \<exists>q\<in>set reqs. resolve_one pk rows es q = Some (Inl d)} = {}"
    by (simp only: set_empty [symmetric])
  then have "?missing = [] \<longleftrightarrow> \<not> (\<exists>q\<in>set reqs. \<exists>d. resolve_one pk rows es q = Some (Inl d))"
    by (simp only:) blast
  then have none: "?missing = [] \<longleftrightarrow> \<not> (\<exists>q\<in>set reqs. \<exists>i. required_id q = Some i \<and> matching pk rows es i q = [])"
    by (simp only: resolve_one_missing)
  have sat: "?missing = [] \<longleftrightarrow> (\<forall>q\<in>set reqs. \<forall>i. required_id q = Some i \<longrightarrow>
      (\<exists>v\<in>set (installed_versions rows i) \<union> set (discoverable_versions es i). matches_spec pk v (required_spec q)))"
    unfolding none matching_def filter_empty_conv versions_known by blast
  have pairs: "\<exists>q\<in>set reqs. required_id q = Some i \<and> v \<in> set (matching pk rows es i q)
      \<and> ((\<forall>w\<in>set (matching pk rows es i q). fst pk w \<noteq> None) \<longrightarrow>
           (\<forall>w\<in>set (matching pk rows es i q). the (fst pk w) \<le> the (fst pk v)))"
    if mem: "(i, v) \<in> set ?satisfied" for i v
  proof -
    from mem obtain q where q: "q \<in> set reqs" "resolve_one pk rows es q = Some (Inr (i, v))"
      by (auto simp: map_filter_set side_of)
    then have "required_id q = Some i" "matching pk rows es i q \<noteq> []" "v = best_version pk (matching pk rows es i q)"
      by (simp_all add: resolve_one_satisfied)
    with q(1) show ?thesis using best_version_in [of "matching pk rows es i q" pk] best_version_ge [of _ "matching pk rows es i q" pk]
      by blast
  qed
  have "rs_is_satisfied r \<longleftrightarrow> acyclic (edges g)
      \<and> (\<forall>q\<in>set reqs. \<forall>i. required_id q = Some i \<longrightarrow>
           (\<exists>v\<in>set (installed_versions rows i) \<union> set (discoverable_versions es i). matches_spec pk v (required_spec q)))"
    unfolding r(1) sat cycles_nil by blast
  with reqs g pairs show ?thesis unfolding r(2) by blast
qed

text \<open>The graph is one level deep: entries that are neither the root nor a direct dependency play no part, so a
  cycle that runs through one of them is not seen.\<close>

lemma graph_edges_filter:
  "graph_edges root direct es g = graph_edges root direct (filter (\<lambda>e. en_module_id e \<in> set direct \<or> en_module_id e = root) es) g"
  by (induction root direct es g rule: graph_edges.induct) (auto split: option.splits sum.splits)

definition sample_manifest :: "string \<Rightarrow> string list \<Rightarrow> json" where
  "sample_manifest i reqs = JObj [(''id'', JStr i), (''version'', JStr ''1.0''),
     (''requires'', JList (map (\<lambda>q. JObj [(''module_id'', JStr q)]) reqs))]"

definition sample_entry :: "string \<Rightarrow> string list \<Rightarrow> registry_entry" where
  "sample_entry i reqs = \<lparr>en_module_id = i, en_manifest = Some (sample_manifest i reqs)\<rparr>"

lemma distant_cycle_passes:
  "resolve_dependencies ((\<lambda>v. Some (length v)), (\<lambda>j. None)) [] [sample_entry ''b'' [''c''], sample_entry ''c'' [''a'']]
     (sample_manifest ''a'' [''b''])
   = Inr \<lparr>rs_is_satisfied = True, rs_missing = [], rs_cycles = [], rs_satisfied = [(''b'', ''1.0'')]\<rparr>"
  by code_simp

lemma near_cycle_found:
  "detect_cycles [(''a'', [''b'']), (''b'', [''c'']), (''c'', [''a'', ''b''])] = [[''a'', ''b'', ''c'', ''a''], [''b'', ''c'', ''b'']]"
  by code_simp

lemma resolution_exact_witness:
  "(\<exists>reqs g. requires_of (sample_manifest ''a'' [''b'']) = Inr reqs
     \<and> build_graph (sample_manifest ''a'' [''b'']) [sample_entry ''b'' [''c''], sample_entry ''c'' [''a'']] = Inr g \<and> acyclic (edges g))"
  using resolution_exact [OF distant_cycle_passes] by fastforce

end
