(* ===== verification/Uploads.thy ===== *)
theory Uploads
  imports Artifacts CanonicalJson
begin

text \<open>
  What an upload has to pass: the checks of \<open>app/core/document_uploads.py\<close> on the declared type, the size
  and the first bytes, and the hosted limits of \<open>app/core/limits.py\<close>, counted from the tables on every
  call. The limits themselves, which come from environment variables, are an argument.
\<close>

section \<open>Files\<close>

definition MAX_UPLOAD_BYTES :: nat where "MAX_UPLOAD_BYTES = 25 * 1024 * 1024"

definition MIME_TO_FORMAT :: "(string \<times> string) list" where
  "MIME_TO_FORMAT =
     [(''application/pdf'', ''pdf''),
      (''application/vnd.openxmlformats-officedocument.wordprocessingml.document'', ''docx''),
      (''application/msword'', ''doc''), (''text/plain'', ''text''), (''text/markdown'', ''text''),
      (''application/rtf'', ''rtf''), (''text/rtf'', ''rtf'')]"

definition codes :: "bytes \<Rightarrow> nat list" where
  "codes b = map of_char b"

text \<open>Strict decoding of UTF-8: no overlong forms, no surrogates, nothing above U+10FFFF.\<close>

definition continuation :: "nat \<Rightarrow> bool" where
  "continuation b \<longleftrightarrow> 0x80 \<le> b \<and> b \<le> 0xBF"

definition second_byte :: "nat \<Rightarrow> nat \<Rightarrow> bool" where
  "second_byte a b \<longleftrightarrow> continuation b \<and> (a = 0xE0 \<longrightarrow> 0xA0 \<le> b) \<and> (a = 0xED \<longrightarrow> b \<le> 0x9F)
     \<and> (a = 0xF0 \<longrightarrow> 0x90 \<le> b) \<and> (a = 0xF4 \<longrightarrow> b \<le> 0x8F)"

fun utf8_valid :: "nat list \<Rightarrow> bool" where
  "utf8_valid [] \<longleftrightarrow> True"
| "utf8_valid (a # r) \<longleftrightarrow>
     (if a < 0x80 then utf8_valid r
      else case r of [] \<Rightarrow> False
        | b # r2 \<Rightarrow>
            if 0xC2 \<le> a \<and> a \<le> 0xDF then continuation b \<and> utf8_valid r2
            else case r2 of [] \<Rightarrow> False
              | c # r3 \<Rightarrow>
                  if 0xE0 \<le> a \<and> a \<le> 0xEF then second_byte a b \<and> continuation c \<and> utf8_valid r3
                  else case r3 of [] \<Rightarrow> False
                    | d # r4 \<Rightarrow> 0xF0 \<le> a \<and> a \<le> 0xF4 \<and> second_byte a b \<and> continuation c \<and> continuation d \<and> utf8_valid r4)"

definition magic :: "nat list \<Rightarrow> bytes \<Rightarrow> bool" where
  "magic m b \<longleftrightarrow> take (length m) (codes b) = m"

definition sniff_format :: "bytes \<Rightarrow> string option" where
  "sniff_format head =
     (if magic [0x25, 0x50, 0x44, 0x46, 0x2D] head then Some ''pdf''
      else if magic [0x50, 0x4B, 0x03, 0x04] head then Some ''docx''
      else if magic [0xD0, 0xCF, 0x11, 0xE0, 0xA1, 0xB1, 0x1A, 0xE1] head then Some ''doc''
      else if magic [0x7B, 0x5C, 0x72, 0x74, 0x66] head then Some ''rtf''
      else if utf8_valid (codes head) then Some ''text'' else None)"

datatype upload_error =
    UnsupportedMime "string option"
  | UploadTooLarge nat
  | MagicByteMismatch string "string option"

definition validate_upload_mime :: "string option \<Rightarrow> upload_error + string" where
  "validate_upload_mime content_type =
     (case content_type of None \<Rightarrow> Inl (UnsupportedMime None)
      | Some t \<Rightarrow> (case map_of MIME_TO_FORMAT t of None \<Rightarrow> Inl (UnsupportedMime (Some t)) | Some _ \<Rightarrow> Inr t))"

definition validate_upload_size :: "bytes \<Rightarrow> upload_error + unit" where
  "validate_upload_size contents = (if length contents > MAX_UPLOAD_BYTES then Inl (UploadTooLarge (length contents)) else Inr ())"

definition validate_upload_magic_bytes :: "string \<Rightarrow> bytes \<Rightarrow> upload_error + unit" where
  "validate_upload_magic_bytes content_type contents =
     (let declared = (case map_of MIME_TO_FORMAT content_type of None \<Rightarrow> [] | Some f \<Rightarrow> f);
          inferred = sniff_format (take 1024 contents)
      in if inferred \<noteq> Some declared then Inl (MagicByteMismatch declared inferred) else Inr ())"

section \<open>Limits\<close>

record limits =
  lim_matters_per_user :: int
  lim_documents_per_matter :: int
  lim_total_storage_bytes_per_user :: int
  lim_assistant_messages_per_day :: int
  lim_workflow_runs_per_day :: int
  lim_active_jobs :: int
  lim_generated_artefacts_per_day :: int
  lim_module_submissions_per_day :: int

record limit_exceeded =
  le_limit :: string
  le_current :: int
  le_max :: int

definition limit_check :: "string \<Rightarrow> int \<Rightarrow> int \<Rightarrow> limit_exceeded + unit" where
  "limit_check name current maximum =
     (if current \<ge> maximum then Inl \<lparr>le_limit = name, le_current = current, le_max = maximum\<rparr> else Inr ())"

text \<open>Instants are microseconds since an epoch that starts at midnight UTC.\<close>

definition DAY :: int where "DAY = 24 * 60 * 60 * 1000000"

definition today_utc_start :: "int \<Rightarrow> int" where
  "today_utc_start now = now - now mod DAY"

definition live_matter_of :: "uuid \<Rightarrow> matter \<Rightarrow> bool" where
  "live_matter_of user_id m \<longleftrightarrow> m_created_by_id m = user_id \<and> m_status m \<noteq> STATUS_ARCHIVED"

definition check_matter_create :: "limits \<Rightarrow> uuid \<Rightarrow> db \<Rightarrow> limit_exceeded + unit" where
  "check_matter_create lim user_id d =
     limit_check ''matters_per_user'' (int (length (filter (live_matter_of user_id) (matters d)))) (lim_matters_per_user lim)"

definition document_count :: "uuid \<Rightarrow> db \<Rightarrow> int" where
  "document_count mid d = int (length (filter (\<lambda>x. doc_matter_id x = mid) (documents d)))"

text \<open>The join of documents with the live matters of the user.\<close>

definition storage_used :: "uuid \<Rightarrow> db \<Rightarrow> int" where
  "storage_used user_id d =
     sum_list (map doc_size_bytes (filter (\<lambda>x. list_ex (\<lambda>m. m_id m = doc_matter_id x \<and> live_matter_of user_id m) (matters d)) (documents d)))"

definition check_document_upload :: "limits \<Rightarrow> uuid \<Rightarrow> uuid \<Rightarrow> int \<Rightarrow> db \<Rightarrow> limit_exceeded + unit" where
  "check_document_upload lim user_id mid content_length d =
     (case limit_check ''documents_per_matter'' (document_count mid d) (lim_documents_per_matter lim) of
        Inl e \<Rightarrow> Inl e
      | Inr _ \<Rightarrow>
          if storage_used user_id d + content_length > lim_total_storage_bytes_per_user lim
          then Inl \<lparr>le_limit = ''total_storage_bytes_per_user'', le_current = storage_used user_id d,
                   le_max = lim_total_storage_bytes_per_user lim\<rparr>
          else Inr ())"

definition check_assistant_message :: "limits \<Rightarrow> uuid \<Rightarrow> session \<Rightarrow> limit_exceeded + unit" where
  "check_assistant_message lim user_id s =
     limit_check ''assistant_messages_per_day''
       (int (length (filter (\<lambda>m. am_actor_id m = user_id \<and> am_role m = ''user'' \<and> am_created_at m \<ge> today_utc_start (clock s))
          (assistant_messages (working s))))) (lim_assistant_messages_per_day lim)"

text \<open>The audit rows of the user since midnight whose action passes a test.\<close>

definition actions_today :: "(string \<Rightarrow> bool) \<Rightarrow> uuid \<Rightarrow> session \<Rightarrow> int" where
  "actions_today P user_id s =
     int (length (filter (\<lambda>e. ae_actor_id e = Some user_id \<and> P (ae_action e) \<and> ae_timestamp e \<ge> today_utc_start (clock s))
        (audit_rows (working s))))"

definition ends_with :: "string \<Rightarrow> string \<Rightarrow> bool" where
  "ends_with suffix t \<longleftrightarrow> starts_with (rev suffix) (rev t)"

definition check_generated_artefact :: "limits \<Rightarrow> uuid \<Rightarrow> session \<Rightarrow> limit_exceeded + unit" where
  "check_generated_artefact lim user_id s =
     limit_check ''generated_artefacts_per_day'' (actions_today (ends_with ''.exported'') user_id s) (lim_generated_artefacts_per_day lim)"

definition check_workflow_run :: "limits \<Rightarrow> uuid \<Rightarrow> session \<Rightarrow> limit_exceeded + unit" where
  "check_workflow_run lim user_id s =
     limit_check ''workflow_runs_per_day'' (actions_today (\<lambda>a. a = ''module.capability.invoked'') user_id s) (lim_workflow_runs_per_day lim)"

definition check_module_submission :: "limits \<Rightarrow> uuid option \<Rightarrow> session \<Rightarrow> limit_exceeded + unit" where
  "check_module_submission lim user_id s =
     (if lim_module_submissions_per_day lim = 0
      then Inl \<lparr>le_limit = ''module_submissions_per_day'', le_current = 0, le_max = 0\<rparr>
      else case user_id of None \<Rightarrow> Inr ()
        | Some u \<Rightarrow> limit_check ''module_submissions_per_day''
            (actions_today (\<lambda>a. a = ''module.module.submission.opened'') u s) (lim_module_submissions_per_day lim))"

section \<open>A text cut inside a character\<close>

lemma codes_append: "codes (a @ b) = codes a @ codes b" "codes [] = []"
  by (simp_all add: codes_def)

lemma utf8_char_codes:
  "codes (utf8_char c) = (let n = of_char c in if n < 128 then [n] else [192 + n div 64, 128 + n mod 64])"
proof (cases "(of_char c :: nat) < 128")
  case False
  let ?n = "of_char c :: nat"
  have "?n div 64 < 4" "?n mod 64 < 64" by (simp_all add: div_less_iff_less_mult)
  with False show ?thesis by (simp add: codes_def utf8_char_def Let_def)
qed (simp add: codes_def utf8_char_def Let_def)

lemma utf8_valid_char: "utf8_valid (codes (utf8_char c) @ r) \<longleftrightarrow> utf8_valid r"
proof (cases "(of_char c :: nat) < 128")
  case False
  let ?n = "of_char c :: nat"
  have "?n div 64 < 4" by (simp add: div_less_iff_less_mult)
  moreover have "2 \<le> ?n div 64" using False by (simp add: less_eq_div_iff_mult_less_eq)
  ultimately have "?n div 64 = 2 \<or> ?n div 64 = 3" by linarith
  moreover have "?n mod 64 < 64" by simp
  ultimately show ?thesis using False by (auto simp: utf8_char_codes Let_def continuation_def)
qed (simp add: utf8_char_codes Let_def)

lemma utf8_valid_text: "utf8_valid (codes (utf8 t) @ r) \<longleftrightarrow> utf8_valid r"
  by (induction t arbitrary: r) (simp_all add: utf8_def codes_append utf8_valid_char) 

lemma utf8_append: "utf8 (s @ t) = utf8 s @ utf8 t" "utf8 (c # t) = utf8_char c @ utf8 t"
  by (simp_all add: utf8_def)

text \<open>The format is read off the first 1024 bytes, and those may end inside a character: a text whose
  1024th byte is the first of a character of two bytes is refused as binary although it is valid UTF-8.\<close>

theorem cut_character_is_refused:
  assumes "length (utf8 pre) = 1023" and "128 \<le> (of_char c :: nat)"
  shows "utf8_valid (codes (utf8 (pre @ c # rest)))
    \<and> (\<exists>x. validate_upload_magic_bytes ''text/plain'' (utf8 (pre @ c # rest)) = Inl (MagicByteMismatch ''text'' x))"
proof
  show "utf8_valid (codes (utf8 (pre @ c # rest)))" using utf8_valid_text [of "pre @ c # rest" "[]"] by simp
  let ?lead = "char_of (192 + of_char c div 64 :: nat) :: char"
  have "of_char c div 64 < (4 :: nat)" by (simp add: div_less_iff_less_mult)
  then have lead: "codes [?lead] = [192 + of_char c div 64]" by (simp add: codes_def)
  have "utf8_char c = ?lead # tl (utf8_char c)" using assms(2) by (simp add: utf8_char_def Let_def)
  then have "utf8 (pre @ c # rest) = utf8 pre @ ?lead # (tl (utf8_char c) @ utf8 rest)"
    by (metis append_Cons utf8_append)
  then have "take 1024 (utf8 (pre @ c # rest)) = utf8 pre @ [?lead]"
    using assms(1) by simp
  moreover have "\<not> utf8_valid (codes (utf8 pre @ [?lead]))"
    unfolding codes_append utf8_valid_text lead by simp
  ultimately have "sniff_format (take 1024 (utf8 (pre @ c # rest))) \<noteq> Some ''text''"
    by (simp add: sniff_format_def)
  then show "\<exists>x. validate_upload_magic_bytes ''text/plain'' (utf8 (pre @ c # rest)) = Inl (MagicByteMismatch ''text'' x)"
    by (simp add: validate_upload_magic_bytes_def Let_def MIME_TO_FORMAT_def)
qed

end
