(* ===== verification/DocumentVersions.thy ===== *)
theory DocumentVersions
  imports Uploads EditResolver Indexing Jobs Anonymisation Lifecycle
begin

text \<open>
  The life of a document: upload (\<open>app/api/matters.py\<close>), replacement by a new file, restoring an old
  version, editing by hand (\<open>app/api/document_routes/body_versions.py\<close>, \<open>common.py\<close>), the shared working
  draft (\<open>working_draft.py\<close>) and deletion (\<open>crud.py\<close>). What lies outside is one record of arguments: SHA-256,
  text extraction, the faults of the object store and of the job queue, the configured limits.
\<close>

section \<open>Surroundings\<close>

record extract_result =
  er_extracted_text :: string
  er_extraction_method :: string
  er_char_count :: int
  er_page_count :: "int option"
  er_error_reason :: "string option"

record surroundings =
  su_sha :: "bytes \<Rightarrow> string"
  su_extract :: "bytes \<Rightarrow> string \<Rightarrow> string \<Rightarrow> extract_result"
  su_backend :: string
  su_put_error :: "string \<Rightarrow> string option"
  su_get_error :: "string \<Rightarrow> string option"
  su_enqueue :: "uuid \<Rightarrow> string option"
  su_limits :: limits

record upload =
  up_filename :: "string option"
  up_content_type :: "string option"
  up_contents :: bytes

type_synonym world = "session \<times> object_store"

datatype doc_error =
    DocNotFound
  | UnknownTag string
  | UploadRefused upload_error
  | LimitReached limit_exceeded
  | StorageWriteFailed string
  | JobRefused job_error
  | VersionNotFound
  | NothingToRestore
  | OriginalUnavailable
  | InvalidBaseVersion
  | DraftConflict int "string option"
  | DraftEmpty
  | StorageDeleteRefused

definition VERSION_KIND_UPLOAD :: string where "VERSION_KIND_UPLOAD = ''upload''"
definition VERSION_KIND_RESTORED :: string where "VERSION_KIND_RESTORED = ''restored''"
definition VERSION_KIND_USER_EDIT :: string where "VERSION_KIND_USER_EDIT = ''user_edit''"

definition TAG_VALUES :: "string list" where
  "TAG_VALUES = [''disclosure'', ''draft'', ''cleared'', ''signed'']"

section \<open>Tables\<close>

text \<open>The extracted body of a document, written over or inserted.\<close>

definition set_extracted :: "uuid \<Rightarrow> int \<Rightarrow> extract_result \<Rightarrow> db \<Rightarrow> db" where
  "set_extracted did now er d =
     (case body_of did BODY_KIND_EXTRACTED d of
        None \<Rightarrow> d\<lparr>doc_bodies := doc_bodies d @
          [\<lparr>b_document_id = did, b_kind = BODY_KIND_EXTRACTED, b_extracted_text = er_extracted_text er,
            b_extraction_method = er_extraction_method er, b_extracted_at = now, b_char_count = er_char_count er,
            b_page_count = er_page_count er, b_error_reason = er_error_reason er, b_mapping = None, b_engine = None,
            b_anonymised_at = None\<rparr>]\<rparr>
      | Some _ \<Rightarrow> d\<lparr>doc_bodies := update_where (\<lambda>b. b_document_id b = did \<and> b_kind b = BODY_KIND_EXTRACTED)
          (\<lambda>b. b\<lparr>b_extracted_text := er_extracted_text er, b_extraction_method := er_extraction_method er,
             b_extracted_at := now, b_char_count := er_char_count er, b_page_count := er_page_count er,
             b_error_reason := er_error_reason er\<rparr>) (doc_bodies d)\<rparr>)"

definition add_document :: "document \<Rightarrow> db \<Rightarrow> db" where
  "add_document x d = d\<lparr>documents := documents d @ [x]\<rparr>"

text \<open>The file a document shows: name, type, size, hash, key, when and by whom.\<close>

definition point_at :: "uuid \<Rightarrow> string \<Rightarrow> string \<Rightarrow> int \<Rightarrow> string \<Rightarrow> string \<Rightarrow> int \<Rightarrow> uuid \<Rightarrow> db \<Rightarrow> db" where
  "point_at did filename mime nbytes sha key now by_id =
     set_document did (\<lambda>x. x\<lparr>doc_filename := filename, doc_mime_type := mime, doc_size_bytes := nbytes, doc_sha256 := sha,
       doc_storage_uri := Some key, doc_uploaded_at := now, doc_uploaded_by_id := by_id\<rparr>)"

definition doc_event :: "string \<Rightarrow> uuid \<Rightarrow> uuid \<Rightarrow> string \<Rightarrow> string \<Rightarrow> uuid \<Rightarrow> (string \<times> json) list \<Rightarrow> audit_event" where
  "doc_event action actor mid module_name res_type res_id payload = (event0 action)
     \<lparr>ae_actor_id := Some actor, ae_matter_id := Some mid, ae_module := (if module_name = [] then None else Some module_name),
      ae_resource_type := Some res_type, ae_resource_id := Some res_id, ae_payload := JObj payload\<rparr>"

definition write_failure_event :: "surroundings \<Rightarrow> uuid \<Rightarrow> uuid \<Rightarrow> string \<Rightarrow> uuid \<Rightarrow> string \<Rightarrow> string \<Rightarrow> (string \<times> json) list \<Rightarrow> audit_event" where
  "write_failure_event su actor mid res_type res_id key code extra =
     doc_event ''storage.put_bytes.failed'' actor mid ''storage'' res_type res_id
       (dict_update [(''storage_key'', JStr key), (''backend'', JStr (su_backend su)), (''error_code'', JStr code)] extra)"

section \<open>The first upload\<close>

definition extraction_event :: "uuid \<Rightarrow> uuid \<Rightarrow> uuid \<Rightarrow> string \<Rightarrow> extract_result \<Rightarrow> audit_event" where
  "extraction_event actor mid did mime er =
     (if er_extraction_method er = ''failed''
      then doc_event ''document.text_extraction_failed'' actor mid ''document_ingestion'' ''document'' did
             [(''reason'', jstr_opt (er_error_reason er)), (''mime_type'', JStr mime)]
      else doc_event ''document.text_extracted'' actor mid ''document_ingestion'' ''document'' did
             [(''method'', JStr (er_extraction_method er)), (''char_count'', JInt (er_char_count er)),
              (''page_count'', jint_opt (er_page_count er)), (''mime_type'', JStr mime)])"

text \<open>Type, size, limits and first bytes, in this order.\<close>

definition check_upload :: "surroundings \<Rightarrow> uuid \<Rightarrow> uuid \<Rightarrow> upload \<Rightarrow> db \<Rightarrow> doc_error + string" where
  "check_upload su user_id mid f d =
     (case validate_upload_mime (up_content_type f) of Inl e \<Rightarrow> Inl (UploadRefused e)
      | Inr mime \<Rightarrow> (case validate_upload_size (up_contents f) of Inl e \<Rightarrow> Inl (UploadRefused e)
        | Inr _ \<Rightarrow> (case check_document_upload (su_limits su) user_id mid (int (length (up_contents f))) d of Inl e \<Rightarrow> Inl (LimitReached e)
          | Inr _ \<Rightarrow> (case validate_upload_magic_bytes mime (up_contents f) of Inl e \<Rightarrow> Inl (UploadRefused e)
            | Inr _ \<Rightarrow> Inr mime))))"

definition first_document :: "surroundings \<Rightarrow> uuid \<Rightarrow> matter \<Rightarrow> upload \<Rightarrow> string \<Rightarrow> string option \<Rightarrow> bool \<Rightarrow> string option \<Rightarrow> uuid \<Rightarrow> int \<Rightarrow> document" where
  "first_document su did m f mime tag disclosure pref user_id now =
     \<lparr>doc_id = did, doc_matter_id = m_id m, doc_index_status = INDEX_PENDING, doc_indexed_at = None,
      doc_filename = or_text (up_filename f) ''untitled'', doc_mime_type = mime, doc_size_bytes = int (length (up_contents f)),
      doc_sha256 = su_sha su (up_contents f), doc_storage_uri = None, doc_uploaded_at = now, doc_uploaded_by_id = user_id,
      doc_tag = tag, doc_from_disclosure = disclosure, doc_disclosure_ref = pref\<rparr>"

definition first_version :: "uuid \<Rightarrow> document \<Rightarrow> string \<Rightarrow> uuid \<Rightarrow> doc_version" where
  "first_version vid doc key user_id =
     \<lparr>v_id = vid, v_document_id = doc_id doc, v_version_number = 1, v_kind = VERSION_KIND_UPLOAD,
      v_created_by_id = user_id, v_notes = None, v_resolved_text = None, v_storage_uri = Some key,
      v_filename = Some (doc_filename doc), v_mime_type = Some (doc_mime_type doc), v_size_bytes = Some (doc_size_bytes doc),
      v_sha256 = Some (doc_sha256 doc), v_resolved_json = None\<rparr>"

text \<open>The rows of a new document: its first version, its body, three rows in the log.\<close>

definition document_rows :: "surroundings \<Rightarrow> uuid \<Rightarrow> document \<Rightarrow> bytes \<Rightarrow> string \<Rightarrow> uuid \<Rightarrow> session \<Rightarrow> session" where
  "document_rows su vid doc contents key user_id s =
     (let did = doc_id doc; mid = doc_matter_id doc; er = su_extract su contents (doc_mime_type doc) (doc_filename doc);
          s2 = on_working (add_version (first_version vid doc key user_id))
            (on_working (set_document did (\<lambda>x. x\<lparr>doc_storage_uri := Some key\<rparr>)) s);
          s3 = audit_log (doc_event ''document.upload'' user_id mid [] ''document'' did
            [(''filename'', JStr (doc_filename doc)), (''sha256'', JStr (doc_sha256 doc)), (''tag'', jstr_opt (doc_tag doc)),
             (''from_disclosure'', JBool (doc_from_disclosure doc))]) s2
      in audit_log (extraction_event user_id mid did (doc_mime_type doc) er) (on_working (set_extracted did (clock s) er) s3))"

text \<open>The commit comes before the job is handed to the queue.\<close>

definition queue_indexing :: "surroundings \<Rightarrow> uuid \<Rightarrow> uuid \<Rightarrow> document \<Rightarrow> session \<Rightarrow> (doc_error + uuid) \<times> session" where
  "queue_indexing su jid user_id doc s =
     (case create_job (lim_active_jobs (su_limits su)) jid (doc_matter_id doc) user_id JOB_KIND_INDEX
             (JObj [(''document_id'', JStr (doc_id doc))]) s of
        (Inl e, s1) \<Rightarrow> (Inl (JobRefused e), rollback s1)
      | (Inr j, s1) \<Rightarrow> (case enqueue_or_mark_failed (su_enqueue su) j (commit s1) of
           (Inl e, s2) \<Rightarrow> (Inl (JobRefused e), s2)
         | (Inr _, s2) \<Rightarrow> (Inr (doc_id doc), s2)))"

definition upload_document ::
  "surroundings \<Rightarrow> uuid \<Rightarrow> uuid \<Rightarrow> uuid \<Rightarrow> string \<Rightarrow> upload \<Rightarrow> string option \<Rightarrow> bool \<Rightarrow> string option \<Rightarrow> uuid \<Rightarrow> world
    \<Rightarrow> (doc_error + uuid) \<times> world" where
  "upload_document su did vid jid slug f tag disclosure pref user_id w =
     (case w of (s, store) \<Rightarrow>
      case resolve_owned_open_matter slug user_id (working s) of
        None \<Rightarrow> (Inl DocNotFound, w)
      | Some m \<Rightarrow>
          if (case tag of None \<Rightarrow> False | Some t \<Rightarrow> t \<notin> set TAG_VALUES) then (Inl (UnknownTag (the tag)), w)
          else case check_upload su user_id (m_id m) f (working s) of
            Inl e \<Rightarrow> (Inl e, w)
          | Inr mime \<Rightarrow>
              (let doc = first_document su did m f mime tag disclosure pref user_id (clock s);
                   s1 = on_working (add_document doc) s; key = uploaded_key user_id (m_id m) did (doc_sha256 doc)
               in case su_put_error su key of
                 Some code \<Rightarrow> (Inl (StorageWriteFailed key),
                   (rollback (audit_failure (write_failure_event su user_id (m_id m) ''document'' did key code []) s1), store))
               | None \<Rightarrow>
                   (case queue_indexing su jid user_id doc (document_rows su vid doc (up_contents f) key user_id s1) of
                      (r, s2) \<Rightarrow> (r, (s2, store(key \<mapsto> up_contents f))))))"

section \<open>Later versions\<close>

text \<open>Two rows in the log: the version, and the extraction.\<close>

definition uploaded_event :: "uuid \<Rightarrow> uuid \<Rightarrow> uuid \<Rightarrow> doc_version \<Rightarrow> string \<Rightarrow> string \<Rightarrow> string \<Rightarrow> int \<Rightarrow> audit_event" where
  "uploaded_event actor mid did v filename sha mime nbytes =
     doc_event ''document.version.uploaded'' actor mid ''document_editor'' ''document_version'' (v_id v)
       [(''document_id'', JStr did), (''version_number'', JInt (v_version_number v)), (''filename'', JStr filename),
        (''sha256'', JStr sha), (''mime_type'', JStr mime), (''size_bytes'', JInt nbytes)]"

definition reextraction_event :: "uuid \<Rightarrow> uuid \<Rightarrow> uuid \<Rightarrow> doc_version \<Rightarrow> string \<Rightarrow> extract_result \<Rightarrow> audit_event" where
  "reextraction_event actor mid did v mime er =
     doc_event (if er_extraction_method er = ''failed'' then ''document.text_extraction_failed'' else ''document.text_extracted'')
       actor mid ''document_ingestion'' ''document'' did
       [(''version_id'', JStr (v_id v)), (''version_number'', JInt (v_version_number v)), (''method'', JStr (er_extraction_method er)),
        (''char_count'', JInt (er_char_count er)), (''page_count'', jint_opt (er_page_count er)), (''mime_type'', JStr mime),
        (''reason'', jstr_opt (er_error_reason er))]"

definition replacement_name :: "upload \<Rightarrow> document \<Rightarrow> string" where
  "replacement_name f doc = or_text (up_filename f) (or_text (Some (doc_filename doc)) ''untitled'')"

definition replacement_version ::
  "surroundings \<Rightarrow> uuid \<Rightarrow> document \<Rightarrow> matter \<Rightarrow> upload \<Rightarrow> string \<Rightarrow> string option \<Rightarrow> uuid \<Rightarrow> db \<Rightarrow> doc_version" where
  "replacement_version su vid doc m f mime notes user_id d =
     (let filename = replacement_name f doc; sha = su_sha su (up_contents f); er = su_extract su (up_contents f) mime filename
      in \<lparr>v_id = vid, v_document_id = doc_id doc, v_version_number = next_version_number (doc_id doc) d,
          v_kind = VERSION_KIND_UPLOAD, v_created_by_id = user_id,
          v_notes = Some (or_text notes (''Uploaded replacement file: '' @ filename)),
          v_resolved_text = (if er_extraction_method er \<noteq> ''failed'' then Some (er_extracted_text er) else None),
          v_storage_uri = Some (uploaded_key user_id (m_id m) (doc_id doc) sha), v_filename = Some filename, v_mime_type = Some mime,
          v_size_bytes = Some (int (length (up_contents f))), v_sha256 = Some sha, v_resolved_json = None\<rparr>)"

definition replace_file ::
  "surroundings \<Rightarrow> uuid \<Rightarrow> document \<Rightarrow> matter \<Rightarrow> upload \<Rightarrow> string \<Rightarrow> string option \<Rightarrow> uuid \<Rightarrow> world
    \<Rightarrow> (doc_error + doc_version) \<times> world" where
  "replace_file su vid doc m f mime notes user_id w =
     (case w of (s, store) \<Rightarrow>
       (let contents = up_contents f; sha = su_sha su contents; nbytes = int (length contents); filename = replacement_name f doc;
            key = uploaded_key user_id (m_id m) (doc_id doc) sha
        in case su_put_error su key of
          Some code \<Rightarrow> (Inl (StorageWriteFailed key),
            (rollback (audit_failure (write_failure_event su user_id (m_id m) ''document'' (doc_id doc) key code
               [(''version_upload'', JBool True)]) s), store))
        | None \<Rightarrow>
           (let er = su_extract su contents mime filename; v = replacement_version su vid doc m f mime notes user_id (working s);
                s1 = on_working (set_extracted (doc_id doc) (clock s) er)
                  (on_working (point_at (doc_id doc) filename mime nbytes sha key (clock s) user_id)
                    (on_working (add_version v) s));
                s2 = audit_log (reextraction_event user_id (m_id m) (doc_id doc) v mime er)
                  (audit_log (uploaded_event user_id (m_id m) (doc_id doc) v filename sha mime nbytes) s1)
            in (Inr v, (commit s2, store(key \<mapsto> contents))))))"

definition upload_version ::
  "surroundings \<Rightarrow> uuid \<Rightarrow> uuid \<Rightarrow> upload \<Rightarrow> string option \<Rightarrow> uuid \<Rightarrow> world \<Rightarrow> (doc_error + doc_version) \<times> world" where
  "upload_version su vid did f notes user_id w =
     (case load_owned_document did user_id (working (fst w)) of
        None \<Rightarrow> (Inl DocNotFound, w)
      | Some (doc, m) \<Rightarrow>
         (case validate_upload_mime (up_content_type f) of Inl e \<Rightarrow> (Inl (UploadRefused e), w)
          | Inr mime \<Rightarrow> (case validate_upload_size (up_contents f) of Inl e \<Rightarrow> (Inl (UploadRefused e), w)
            | Inr _ \<Rightarrow> (case validate_upload_magic_bytes mime (up_contents f) of Inl e \<Rightarrow> (Inl (UploadRefused e), w)
              | Inr _ \<Rightarrow> replace_file su vid doc m f mime notes user_id w))))"

text \<open>\<open>rsplit(".", 1)[0]\<close>.\<close>

definition before_last_dot :: "string \<Rightarrow> string" where
  "before_last_dot t = (case dropWhile (\<lambda>c. c \<noteq> CHR ''.'') (rev t) of [] \<Rightarrow> t | _ # r \<Rightarrow> rev r)"

text \<open>The name under which a version that is only text is restored.\<close>

definition text_filename :: "string \<Rightarrow> int \<Rightarrow> string" where
  "text_filename filename n =
     (if ends_with ''.txt'' (py_lower filename) then filename
      else before_last_dot filename @ ''-v'' @ int_str n @ ''.txt'')"

text \<open>What a version is restored to: the file as it was stored, or a text file made from its text.\<close>

record restoration =
  rn_filename :: string
  rn_mime_type :: string
  rn_storage_uri :: string
  rn_size_bytes :: int
  rn_sha256 :: string
  rn_resolved_text :: "string option"
  rn_body :: extract_result

definition restored_body :: "string option \<Rightarrow> string \<Rightarrow> int option \<Rightarrow> string option \<Rightarrow> extract_result" where
  "restored_body resolved_text extraction_method page_count error_reason =
     (let t = (case resolved_text of None \<Rightarrow> [] | Some t \<Rightarrow> t)
      in \<lparr>er_extracted_text = t, er_extraction_method = extraction_method, er_char_count = int (length t),
          er_page_count = page_count, er_error_reason = error_reason\<rparr>)"

definition restore_file :: "surroundings \<Rightarrow> doc_version \<Rightarrow> document \<Rightarrow> string \<Rightarrow> bytes \<Rightarrow> restoration" where
  "restore_file su source doc uri contents =
     (let filename = or_text (v_filename source) (doc_filename doc);
          mime = or_text (v_mime_type source) (or_text (Some (doc_mime_type doc)) ''application/octet-stream'');
          er = su_extract su contents mime filename;
          resolved = (if er_extraction_method er \<noteq> ''failed'' then Some (er_extracted_text er) else v_resolved_text source)
      in \<lparr>rn_filename = filename, rn_mime_type = mime, rn_storage_uri = uri, rn_size_bytes = int (length contents),
          rn_sha256 = su_sha su contents, rn_resolved_text = resolved,
          rn_body = restored_body resolved (er_extraction_method er) (er_page_count er) (er_error_reason er)\<rparr>)"

definition restore_text :: "surroundings \<Rightarrow> doc_version \<Rightarrow> document \<Rightarrow> matter \<Rightarrow> uuid \<Rightarrow> restoration" where
  "restore_text su source doc m user_id =
     (let contents = utf8 (or_text (v_resolved_text source) []); sha = su_sha su contents
      in \<lparr>rn_filename = text_filename (or_text (v_filename source) (doc_filename doc)) (v_version_number source),
          rn_mime_type = ''text/plain'', rn_storage_uri = uploaded_key user_id (m_id m) (doc_id doc) sha,
          rn_size_bytes = int (length contents), rn_sha256 = sha, rn_resolved_text = v_resolved_text source,
          rn_body = restored_body (v_resolved_text source) ''passthrough'' None None\<rparr>)"

definition restored_event :: "uuid \<Rightarrow> uuid \<Rightarrow> uuid \<Rightarrow> doc_version \<Rightarrow> doc_version \<Rightarrow> restoration \<Rightarrow> audit_event" where
  "restored_event actor mid did v source rn =
     doc_event ''document.version.restored'' actor mid ''document_editor'' ''document_version'' (v_id v)
       [(''document_id'', JStr did), (''restored_version_number'', JInt (v_version_number v)), (''source_version_id'', JStr (v_id source)),
        (''source_version_number'', JInt (v_version_number source)), (''filename'', JStr (rn_filename rn)), (''sha256'', JStr (rn_sha256 rn)),
        (''mime_type'', JStr (rn_mime_type rn)), (''size_bytes'', JInt (rn_size_bytes rn))]"

definition apply_restoration ::
  "uuid \<Rightarrow> doc_version \<Rightarrow> document \<Rightarrow> matter \<Rightarrow> string option \<Rightarrow> uuid \<Rightarrow> restoration \<Rightarrow> session \<Rightarrow> doc_version \<times> session" where
  "apply_restoration vid source doc m notes user_id rn s =
     (let v = \<lparr>v_id = vid, v_document_id = doc_id doc, v_version_number = next_version_number (doc_id doc) (working s),
            v_kind = VERSION_KIND_RESTORED, v_created_by_id = user_id,
            v_notes = Some (or_text notes (''Restored from v'' @ int_str (v_version_number source))),
            v_resolved_text = rn_resolved_text rn, v_storage_uri = Some (rn_storage_uri rn), v_filename = Some (rn_filename rn),
            v_mime_type = Some (rn_mime_type rn), v_size_bytes = Some (rn_size_bytes rn), v_sha256 = Some (rn_sha256 rn),
            v_resolved_json = v_resolved_json source\<rparr>;
          s1 = on_working (set_extracted (doc_id doc) (clock s) (rn_body rn))
            (on_working (point_at (doc_id doc) (rn_filename rn) (rn_mime_type rn) (rn_size_bytes rn)
                (or_text (Some (rn_sha256 rn)) (doc_sha256 doc)) (rn_storage_uri rn) (clock s) user_id)
              (on_working (add_version v) s))
      in (v, commit (audit_log (restored_event user_id (m_id m) (doc_id doc) v source rn) s1)))"

definition read_failure_event :: "surroundings \<Rightarrow> uuid \<Rightarrow> uuid \<Rightarrow> uuid \<Rightarrow> string \<Rightarrow> string \<Rightarrow> audit_event" where
  "read_failure_event su actor mid vid key code =
     doc_event ''storage.get_bytes.failed'' actor mid ''storage'' ''document_version'' vid
       [(''storage_key'', JStr key), (''backend'', JStr (su_backend su)), (''error_code'', JStr code), (''restore'', JBool True)]"

definition restore_version ::
  "surroundings \<Rightarrow> uuid \<Rightarrow> uuid \<Rightarrow> uuid \<Rightarrow> string option \<Rightarrow> uuid \<Rightarrow> world \<Rightarrow> (doc_error + doc_version) \<times> world" where
  "restore_version su new_id did vid notes user_id w =
     (case w of (s, store) \<Rightarrow>
      case load_owned_document did user_id (working s) of
        None \<Rightarrow> (Inl DocNotFound, w)
      | Some (doc, m) \<Rightarrow>
         (case find (\<lambda>v. v_id v = vid \<and> v_document_id v = doc_id doc) (doc_versions (working s)) of
            None \<Rightarrow> (Inl VersionNotFound, w)
          | Some source \<Rightarrow>
             (if or_text (v_storage_uri source) [] = [] \<and> or_text (v_resolved_text source) [] = [] then (Inl NothingToRestore, w)
              else if or_text (v_storage_uri source) [] \<noteq> [] then
                (let uri = or_text (v_storage_uri source) [] in
                 case su_get_error su uri of
                   Some code \<Rightarrow> (Inl OriginalUnavailable,
                     (rollback (audit_failure (read_failure_event su user_id (m_id m) (v_id source) uri code) s), store))
                 | None \<Rightarrow> (case store uri of
                      None \<Rightarrow> (Inl OriginalUnavailable, w)
                    | Some contents \<Rightarrow>
                        (case apply_restoration new_id source doc m notes user_id (restore_file su source doc uri contents) s of
                           (v, s1) \<Rightarrow> (Inr v, (s1, store)))))
              else
                (let rn = restore_text su source doc m user_id; key = rn_storage_uri rn in
                 case su_put_error su key of
                   Some code \<Rightarrow> (Inl (StorageWriteFailed key),
                     (rollback (audit_failure (write_failure_event su user_id (m_id m) ''document_version'' (v_id source) key code
                        [(''restore'', JBool True)]) s), store))
                 | None \<Rightarrow> (case apply_restoration new_id source doc m notes user_id rn s of
                      (v, s1) \<Rightarrow> (Inr v, (s1, store(key \<mapsto> utf8 (or_text (v_resolved_text source) [])))))))))"

section \<open>Editing by hand\<close>

definition saved_event :: "uuid \<Rightarrow> uuid \<Rightarrow> uuid \<Rightarrow> doc_version \<Rightarrow> string \<Rightarrow> json option \<Rightarrow> string \<Rightarrow> audit_event" where
  "saved_event actor mid did v t j source =
     doc_event ''document.version.saved'' actor mid ''document_editor'' ''document_version'' (v_id v)
       [(''document_id'', JStr did), (''version_number'', JInt (v_version_number v)), (''kind'', JStr (v_kind v)),
        (''char_count'', JInt (int (length t))), (''rich_json'', JBool (j \<noteq> None)), (''source'', JStr source)]"

definition create_user_edit_version ::
  "surroundings \<Rightarrow> uuid \<Rightarrow> document \<Rightarrow> matter \<Rightarrow> uuid \<Rightarrow> string \<Rightarrow> json option \<Rightarrow> string option \<Rightarrow> string \<Rightarrow> session
    \<Rightarrow> doc_version \<times> session" where
  "create_user_edit_version su vid doc m user_id t j notes source s =
     (let v = \<lparr>v_id = vid, v_document_id = doc_id doc, v_version_number = next_version_number (doc_id doc) (working s),
            v_kind = VERSION_KIND_USER_EDIT, v_created_by_id = user_id,
            v_notes = Some (or_text notes ''Edited in Legalise document editor''), v_resolved_text = Some t, v_storage_uri = None,
            v_filename = Some (doc_filename doc), v_mime_type = Some ''text/plain'', v_size_bytes = Some (int (length (utf8 t))),
            v_sha256 = Some (su_sha su (utf8 t)), v_resolved_json = j\<rparr>
      in (v, audit_log (saved_event user_id (m_id m) (doc_id doc) v t j source) (on_working (add_version v) s)))"

definition manual_version ::
  "surroundings \<Rightarrow> uuid \<Rightarrow> uuid \<Rightarrow> string \<Rightarrow> json option \<Rightarrow> string option \<Rightarrow> uuid \<Rightarrow> session \<Rightarrow> (doc_error + doc_version) \<times> session" where
  "manual_version su vid did t j notes user_id s =
     (case load_owned_document did user_id (working s) of
        None \<Rightarrow> (Inl DocNotFound, s)
      | Some (doc, m) \<Rightarrow> (case create_user_edit_version su vid doc m user_id t j notes ''manual'' s of (v, s1) \<Rightarrow> (Inr v, commit s1)))"

section \<open>The working draft\<close>

definition draft_of :: "uuid \<Rightarrow> db \<Rightarrow> working_draft option" where
  "draft_of did d = find (\<lambda>w. wd_document_id w = did) (working_drafts d)"

text \<open>Without a draft the latest text of the document is offered, under the counter 0.\<close>

definition latest_text_version :: "uuid \<Rightarrow> db \<Rightarrow> doc_version option" where
  "latest_text_version did d = latest_resolved did d"

definition get_draft :: "uuid \<Rightarrow> uuid \<Rightarrow> session \<Rightarrow> (doc_error + string \<times> int \<times> uuid option)" where
  "get_draft did user_id s =
     (case load_owned_document did user_id (working s) of
        None \<Rightarrow> Inl DocNotFound
      | Some (doc, m) \<Rightarrow> (case draft_of (doc_id doc) (working s) of
          Some w \<Rightarrow> Inr (wd_plain_text w, wd_version_counter w, wd_base_version_id w)
        | None \<Rightarrow> (case latest_text_version (doc_id doc) (working s) of
            Some v \<Rightarrow> Inr (or_text (v_resolved_text v) [], 0, Some (v_id v))
          | None \<Rightarrow> Inr (body_text (doc_id doc) (working s), 0, None))))"

record draft_upsert =
  du_plain_text :: string
  du_editor_json :: "json option"
  du_base_version_id :: "uuid option"
  du_client_id :: "string option"
  du_expected_version_counter :: "int option"

definition set_draft :: "working_draft \<Rightarrow> db \<Rightarrow> db" where
  "set_draft w d =
     (case draft_of (wd_document_id w) d of
        None \<Rightarrow> d\<lparr>working_drafts := working_drafts d @ [w]\<rparr>
      | Some _ \<Rightarrow> d\<lparr>working_drafts := update_where (\<lambda>x. wd_document_id x = wd_document_id w) (\<lambda>_. w) (working_drafts d)\<rparr>)"

definition put_draft :: "uuid \<Rightarrow> draft_upsert \<Rightarrow> uuid \<Rightarrow> session \<Rightarrow> (doc_error + working_draft) \<times> session" where
  "put_draft did u user_id s =
     (case load_owned_document did user_id (working s) of
        None \<Rightarrow> (Inl DocNotFound, s)
      | Some (doc, m) \<Rightarrow>
         (if (case du_base_version_id u of None \<Rightarrow> False
              | Some b \<Rightarrow> \<not> list_ex (\<lambda>v. v_id v = b \<and> v_document_id v = doc_id doc) (doc_versions (working s)))
          then (Inl InvalidBaseVersion, s)
          else
            (let new = (\<lambda>n. \<lparr>wd_document_id = doc_id doc, wd_updated_by_id = Some user_id, wd_updated_at = clock s,
                   wd_plain_text = du_plain_text u, wd_editor_json = du_editor_json u, wd_base_version_id = du_base_version_id u,
                   wd_version_counter = n, wd_client_id = du_client_id u\<rparr>)
             in case draft_of (doc_id doc) (working s) of
               None \<Rightarrow>
                 if du_expected_version_counter u \<notin> {None, Some 0} then (Inl (DraftConflict 0 None), s)
                 else (Inr (new 1), commit (on_working (set_draft (new 1)) s))
             | Some w \<Rightarrow>
                 if du_expected_version_counter u \<notin> {None, Some (wd_version_counter w)}
                 then (Inl (DraftConflict (wd_version_counter w) (wd_client_id w)), s)
                 else (Inr (new (wd_version_counter w + 1)), commit (on_working (set_draft (new (wd_version_counter w + 1))) s)))))"

definition drop_draft :: "uuid \<Rightarrow> db \<Rightarrow> db" where
  "drop_draft did d = d\<lparr>working_drafts := filter (\<lambda>w. wd_document_id w \<noteq> did) (working_drafts d)\<rparr>"

definition commit_draft ::
  "surroundings \<Rightarrow> uuid \<Rightarrow> uuid \<Rightarrow> string option \<Rightarrow> bool \<Rightarrow> int option \<Rightarrow> uuid \<Rightarrow> session \<Rightarrow> (doc_error + doc_version) \<times> session" where
  "commit_draft su vid did notes clear_draft expected user_id s =
     (case load_owned_document did user_id (working s) of
        None \<Rightarrow> (Inl DocNotFound, s)
      | Some (doc, m) \<Rightarrow> (case draft_of (doc_id doc) (working s) of
          None \<Rightarrow> (Inl DraftEmpty, s)
        | Some w \<Rightarrow>
            if py_strip (wd_plain_text w) = [] then (Inl DraftEmpty, s)
            else if expected \<notin> {None, Some (wd_version_counter w)} then (Inl (DraftConflict (wd_version_counter w) (wd_client_id w)), s)
            else (case create_user_edit_version su vid doc m user_id (wd_plain_text w) (wd_editor_json w)
                    (Some (or_text notes ''Saved working draft from Legalise document editor'')) ''working_draft'' s of
                (v, s1) \<Rightarrow> (Inr v, commit (if clear_draft then on_working (drop_draft (doc_id doc)) s1 else s1)))))"

section \<open>Deletion\<close>

text \<open>The row and what its foreign keys cascade to.\<close>

definition drop_document :: "uuid \<Rightarrow> db \<Rightarrow> db" where
  "drop_document did d =
     (let vids = map v_id (filter (\<lambda>v. v_document_id v = did) (doc_versions d)) in
      drop_draft did (drop_chunks did d)
        \<lparr>documents := filter (\<lambda>x. doc_id x \<noteq> did) (documents d),
         doc_bodies := filter (\<lambda>b. b_document_id b \<noteq> did) (doc_bodies d),
         doc_versions := filter (\<lambda>v. v_document_id v \<noteq> did) (doc_versions d),
         doc_edits := filter (\<lambda>e. e_version_id e \<notin> set vids) (doc_edits d),
         doc_comments := filter (\<lambda>c. cm_document_id c \<noteq> did) (doc_comments d)\<rparr>)"

definition delete_document :: "bool \<Rightarrow> uuid \<Rightarrow> uuid \<Rightarrow> world \<Rightarrow> (doc_error + unit) \<times> world" where
  "delete_document refused did user_id w =
     (case w of (s, store) \<Rightarrow>
      case load_owned_document did user_id (working s) of
        None \<Rightarrow> (Inl DocNotFound, w)
      | Some (doc, m) \<Rightarrow>
          if refused then (Inl StorageDeleteRefused, w)
          else (Inr (), (commit (on_working (drop_document (doc_id doc))
              (audit_log (doc_event ''document.deleted'' user_id (m_id m) [] ''document'' (doc_id doc)
                 [(''filename'', JStr (doc_filename doc)), (''sha256'', JStr (doc_sha256 doc))]) s)),
            delete_prefix (document_prefix user_id (m_id m) (doc_id doc)) store)))"

end
