(* ===== verification/DocumentHistory.thy ===== *)
theory DocumentHistory
  imports DocumentVersions
begin

text \<open>
  What the routes of \<open>DocumentVersions\<close> keep: the versions of a document are an append-only history, restoring
  brings a file back, the working draft changes hands by its counter.
\<close>

section \<open>What a request does to the versions and the store\<close>

lemma document_tables [simp, frame_simps]:
  "doc_versions (set_document did f d) = doc_versions d" "doc_versions (set_extracted did now er d) = doc_versions d"
  "doc_versions (point_at did fn mi n sh k t u d) = doc_versions d" "doc_versions (add_document x d) = doc_versions d"
  "doc_versions (set_draft w d) = doc_versions d" "doc_versions (drop_draft did d) = doc_versions d"
  "doc_versions (add_version v d) = doc_versions d @ [v]" "doc_versions (add_job j d) = doc_versions d"
  "doc_versions (set_job jid g d) = doc_versions d"
  by (simp_all add: set_document_def set_extracted_def point_at_def add_document_def set_draft_def drop_draft_def add_version_def
      add_job_def set_job_def split: option.split)

definition grows :: "db \<Rightarrow> db \<Rightarrow> bool" where
  "grows d d' \<longleftrightarrow> doc_versions d' = doc_versions d
     \<or> (\<exists>v. doc_versions d' = doc_versions d @ [v] \<and> v_version_number v = next_version_number (v_document_id v) d)"

definition puts :: "surroundings \<Rightarrow> object_store \<Rightarrow> object_store \<Rightarrow> bool" where
  "puts su store store' \<longleftrightarrow> (\<forall>k. store' k \<noteq> store k \<longrightarrow> (\<exists>pre c. k = pre @ CHR ''/'' # su_sha su c \<and> store' k = Some c))"

definition clean :: "session \<Rightarrow> bool" where
  "clean s \<longleftrightarrow> durable s = working s"

definition request_ok :: "surroundings \<Rightarrow> world \<Rightarrow> world \<Rightarrow> bool" where
  "request_ok su w w' \<longleftrightarrow> puts su (snd w) (snd w') \<and> (clean (fst w) \<longrightarrow> clean (fst w') \<and> grows (working (fst w)) (working (fst w')))"

lemma puts_refl [simp]: "puts su store store"
  by (simp add: puts_def)

lemma puts_upload: "puts su store (store(uploaded_key u m d (su_sha su c) \<mapsto> c))"
proof -
  have "uploaded_key u m d (su_sha su c) = (''users/'' @ u @ ''/matters/'' @ m @ ''/documents/'' @ d) @ CHR ''/'' # su_sha su c"
    by (simp add: uploaded_key_def)
  then show ?thesis unfolding puts_def by auto
qed

lemma grows_refl [simp]: "grows d d"
  by (simp add: grows_def)

lemma clean_ops [simp]:
  "clean (commit s)" "clean (rollback s)" "clean s \<Longrightarrow> clean (audit_failure e s)"
  by (auto simp: clean_def audit_failure_def)

lemma grows_same: "doc_versions d' = doc_versions d \<Longrightarrow> grows d d'"
  by (simp add: grows_def)

lemma grows_one:
  "doc_versions d' = doc_versions d @ [v] \<Longrightarrow> v_version_number v = next_version_number (v_document_id v) d \<Longrightarrow> grows d d'"
  by (auto simp: grows_def)

lemma failure_grows: "clean s \<Longrightarrow> grows (working s) (working (rollback (audit_failure e s)))"
  by (rule grows_same) (cases "bound s"; simp add: clean_def audit_failure_def)

lemma request_ok_refl [simp]: "request_ok su w w"
  by (simp add: request_ok_def)

lemma request_failure: "request_ok su (s, store) (rollback (audit_failure e s), store)"
  using failure_grows [of s e] by (simp add: request_ok_def del: session_ops)

lemma request_appends:
  assumes "doc_versions (working s') = doc_versions (working s) @ [v]"
    and "v_version_number v = next_version_number (v_document_id v) (working s)" and "clean s'" "puts su store store'"
  shows "request_ok su (s, store) (s', store')"
  using assms by (simp add: request_ok_def grows_one)

lemma apply_restoration_step:
  assumes "apply_restoration vid source doc m remark u rn s = (v, s')" and "puts su store store'"
  shows "request_ok su (s, store) (s', store')"
  by (rule request_appends [where v = v]) (use assms in \<open>auto simp: apply_restoration_def Let_def\<close>)

lemma replace_file_success:
  assumes "su_put_error su (uploaded_key u (m_id m) (doc_id doc) (su_sha su (up_contents f))) = None"
  shows "\<exists>s'. replace_file su vid doc m f mime remark u (s, store)
      = (Inr (replacement_version su vid doc m f mime remark u (working s)),
         (s', store(uploaded_key u (m_id m) (doc_id doc) (su_sha su (up_contents f)) \<mapsto> up_contents f)))
    \<and> clean s' \<and> doc_versions (working s') = doc_versions (working s) @ [replacement_version su vid doc m f mime remark u (working s)]"
  using assms by (simp add: replace_file_def Let_def)

lemma replace_file_step:
  assumes "replace_file su vid doc m f mime remark u (s, store) = (r, w')"
  shows "request_ok su (s, store) w'"
proof (cases "su_put_error su (uploaded_key u (m_id m) (doc_id doc) (su_sha su (up_contents f)))")
  case None
  let ?v = "replacement_version su vid doc m f mime remark u (working s)"
  have n: "v_version_number ?v = next_version_number (v_document_id ?v) (working s)" by (simp add: replacement_version_def Let_def)
  show ?thesis
    using assms replace_file_success [OF None, where vid = vid and mime = mime and remark = remark and s = s and store = store] n by (auto intro!: request_appends puts_upload)
next
  case (Some code)
  with assms show ?thesis by (auto simp: replace_file_def Let_def request_failure simp del: session_ops)
qed

lemma upload_version_step: "upload_version su vid did f remark u (s, store) = (r, w') \<Longrightarrow> request_ok su (s, store) w'"
  by (auto simp: upload_version_def dest: replace_file_step split: option.splits sum.splits)

lemma restore_text_key: "rn_storage_uri (restore_text su source doc m u)
    = uploaded_key u (m_id m) (doc_id doc) (su_sha su (utf8 (or_text (v_resolved_text source) [])))"
  by (simp add: restore_text_def Let_def)

lemma restore_version_step:
  assumes "restore_version su nid did vid remark u (s, store) = (r, w')"
  shows "request_ok su (s, store) w'"
proof -
  have restored: "request_ok su (s, store) (snd (apply_restoration nid source doc m remark u rn s), store')"
    if "puts su store store'" for source doc m rn store'
    using apply_restoration_step [OF _ that] by (metis prod.collapse)
  from assms show ?thesis
    unfolding restore_version_def prod.case
    by (auto simp: Let_def restore_text_key case_prod_unfold request_failure puts_upload simp del: session_ops
        split: option.splits if_splits intro!: restored)
qed

lemma create_user_edit_versions:
  assumes "create_user_edit_version su vid doc m u t j remark src s = (v, s')"
  shows "doc_versions (working s') = doc_versions (working s) @ [v] \<and> v_version_number v = next_version_number (v_document_id v) (working s)"
  using assms by (auto simp: create_user_edit_version_def Let_def)

lemma edit_step:
  assumes "create_user_edit_version su vid doc m u t j remark src s = (v, s1)" and "doc_versions (working s') = doc_versions (working s1)" "clean s'"
  shows "request_ok su (s, store) (s', store)"
  using create_user_edit_versions [OF assms(1)] assms(2,3) by (intro request_appends [where v = v]) simp_all

lemma manual_version_step: "manual_version su vid did t j remark u s = (r, s') \<Longrightarrow> request_ok su (s, store) (s', store)"
  by (auto simp: manual_version_def elim!: edit_step split: option.splits prod.splits)

lemma commit_draft_step: "commit_draft su vid did remark clr ex u s = (r, s') \<Longrightarrow> request_ok su (s, store) (s', store)"
  by (auto simp: commit_draft_def elim!: edit_step split: option.splits prod.splits if_splits)

lemma put_draft_step: "put_draft did q u s = (r, s') \<Longrightarrow> request_ok su (s, store) (s', store)"
  by (auto simp: put_draft_def Let_def request_ok_def intro!: grows_same split: option.splits if_splits)

lemma enqueue_session:
  assumes "enqueue_or_mark_failed enq j s = (r, s')" and "clean s"
  shows "clean s' \<and> doc_versions (working s') = doc_versions (working s)"
  using assms by (auto simp: enqueue_or_mark_failed_def Let_def commit_jobs_def update_status_def clean_def split: option.splits if_splits)

lemma create_job_versions: "create_job cap jid mid u k p s = (r, s') \<Longrightarrow> doc_versions (working s') = doc_versions (working s) \<and> durable s' = durable s"
  by (auto simp: create_job_def Let_def split: if_splits)

lemma document_rows_versions:
  "doc_versions (working (document_rows su vid doc contents key u s)) = doc_versions (working s) @ [first_version vid doc key u]"
  "durable (document_rows su vid doc contents key u s) = durable s"
  by (simp_all add: document_rows_def Let_def)

lemma queue_indexing_step:
  assumes "queue_indexing su jid u doc s = (r, s')"
  shows "clean s' \<and> (doc_versions (working s') = doc_versions (working s) \<or> working s' = durable s)"
proof (cases "create_job (lim_active_jobs (su_limits su)) jid (doc_matter_id doc) u JOB_KIND_INDEX (JObj [(''document_id'', JStr (doc_id doc))]) s")
  case (Pair j s1)
  note made = create_job_versions [OF Pair]
  show ?thesis
  proof (cases j)
    case (Inl e)
    with assms Pair made show ?thesis by (auto simp: queue_indexing_def)
  next
    case (Inr x)
    obtain q s2 where q: "enqueue_or_mark_failed (su_enqueue su) x (commit s1) = (q, s2)" by fastforce
    with assms Pair Inr have "s' = s2" by (auto simp: queue_indexing_def split: sum.splits)
    with enqueue_session [OF q] made show ?thesis by simp
  qed
qed

lemma first_document_fields [simp]:
  "doc_sha256 (first_document su did m f mime tag disc pref u now) = su_sha su (up_contents f)"
  "doc_id (first_document su did m f mime tag disc pref u now) = did"
  by (simp_all add: first_document_def)

lemma upload_document_step:
  assumes "upload_document su did vid jid slug f tag disc pref u (s, store) = (r, w')"
    and fresh: "did \<notin> v_document_id ` set (doc_versions (working s))"
  shows "request_ok su (s, store) w'"
proof (cases "resolve_owned_open_matter slug u (working s)")
  case None
  with assms(1) show ?thesis by (auto simp: upload_document_def)
next
  case (Some m)
  have one: "next_version_number did (working s) = 1"
  proof -
    have "filter (\<lambda>v. v_document_id v = did) (doc_versions (working s)) = []" using fresh by (auto simp: filter_empty_conv)
    then show ?thesis by (simp add: next_version_number_def max_version_def)
  qed
  show ?thesis
  proof (cases "check_upload su u (m_id m) f (working s)")
    case (Inl e)
    with assms(1) Some show ?thesis by (auto simp: upload_document_def split: if_splits)
  next
    case (Inr mime)
    let ?doc = "first_document su did m f mime tag disc pref u (clock s)"
    let ?s1 = "on_working (add_document ?doc) s" and ?key = "uploaded_key u (m_id m) did (su_sha su (up_contents f))"
    let ?rows = "document_rows su vid ?doc (up_contents f) ?key u ?s1"
    obtain q s2 where q: "queue_indexing su jid u ?doc ?rows = (q, s2)" by fastforce
    have ok: "request_ok su (s, store) (s2, store(?key \<mapsto> up_contents f))"
      using queue_indexing_step [OF q] puts_upload
    proof (elim conjE disjE, goal_cases)
      case 1
      then show ?case
        by (intro request_appends [where v = "first_version vid ?doc ?key u"])
          (simp_all add: document_rows_versions first_version_def one)
    next
      case 2
      then show ?case by (simp add: request_ok_def document_rows_versions grows_def clean_def)
    qed
    have fail: "request_ok su (s, store) (rollback (audit_failure e ?s1), store)" for e
      by (auto simp: request_ok_def grows_def clean_def audit_failure_def)
    show ?thesis
      using assms(1) Some Inr ok fail q by (auto simp: upload_document_def Let_def split: if_splits option.splits)
  qed
qed
section \<open>Histories\<close>

lemma next_cong: "doc_versions d' = doc_versions d \<Longrightarrow> next_version_number did d' = next_version_number did d"
  by (simp add: next_version_number_def max_version_def)

lemma grows_cong:
  assumes "grows d1 d2" and "doc_versions d1 = doc_versions d"
  shows "grows d d2"
  using assms(1) next_cong [OF assms(2)] unfolding grows_def assms(2) by simp

lemma audit_log_all_versions [simp]: "doc_versions (working (audit_log_all es s)) = doc_versions (working s)"
  by (induction es arbitrary: s) (simp_all add: audit_log_all_def)

lemma closing_number:
  "closing_version nid v doc actor d = (w, sts) \<Longrightarrow> v_version_number w = next_version_number (v_document_id w) d"
  by (auto simp: closing_version_def Let_def next_version_number_def split: prod.splits)

lemma maybe_close_grows:
  assumes "maybe_close_version nid v doc m actor s = (new, s')"
  shows "grows (working s) (working s') \<and> (new = None \<longrightarrow> doc_versions (working s') = doc_versions (working s))"
proof -
  obtain w sts where c: "closing_version nid v doc actor (working s) = (w, sts)" by fastforce
  have "s' = s \<or> new = Some w \<and> doc_versions (working s') = doc_versions (working s) @ [w]"
    using assms by (auto simp: maybe_close_version_def Let_def c split: if_splits)
  then show ?thesis using assms grows_one [OF _ closing_number [OF c]] by (auto simp: maybe_close_version_def Let_def c split: if_splits)
qed

lemma resolve_edit_grows:
  assumes "resolve_edit nid eid actor action s = (r, s')"
  shows "grows (working s) (working s')"
proof -
  have "s' = s \<or> (\<exists>v doc m new s2. doc_versions (working s2) = doc_versions (working s)
      \<and> maybe_close_version nid v doc m actor s2 = (new, s'))"
    using assms by (auto simp: resolve_edit_def Let_def split: if_splits option.splits prod.splits)
  then show ?thesis
  proof (elim disjE exE conjE)
    fix v doc m new s2
    assume same: "doc_versions (working s2) = doc_versions (working s)" and "maybe_close_version nid v doc m actor s2 = (new, s')"
    then have "grows (working s2) (working s')" using maybe_close_grows by blast
    then show ?thesis using same by (rule grows_cong)
  qed simp
qed

lemma add_next_grows:
  assumes "doc_versions d1 = doc_versions d" and "v_version_number v = next_version_number (v_document_id v) d1"
  shows "grows d (add_version v d1)"
  using assms next_cong [OF assms(1)] by (intro grows_one [where v = v]) simp_all

lemma resolve_bulk_grows:
  assumes "resolve_bulk nid vid actor action s = (r, s')"
  shows "grows (working s) (working s')"
proof (cases "matter_for_version vid (working s)")
  case None
  with assms show ?thesis by (auto simp: resolve_bulk_def split: if_splits)
next
  case (Some p)
  obtain v doc m where p: "p = (v, doc, m)" by (cases p)
  define s2 where "s2 = mark_all vid doc m actor (if action = ''accept_all'' then EDIT_STATUS_ACCEPTED else EDIT_STATUS_REJECTED) s"
  have s2: "doc_versions (working s2) = doc_versions (working s)" by (simp add: s2_def mark_all_def)
  obtain new s3 where close: "maybe_close_version nid v doc m actor s2 = (new, s3)" by fastforce
  have s3: "grows (working s) (working s3)" "new = None \<Longrightarrow> doc_versions (working s3) = doc_versions (working s)"
    using maybe_close_grows [OF close] grows_cong [OF _ s2] s2 by auto
  consider "s' = s" | "s' = s3"
    | w where "new = None" "s' = on_working (add_version w) s3" "v_version_number w = next_version_number (v_document_id w) (working s3)"
    using assms Some p close unfolding s2_def
    by (cases new; cases "latest_resolved (doc_id doc) (working s3)")
      (auto simp: resolve_bulk_def Let_def split: if_splits)
  then show ?thesis
  proof cases
    case 3
    with add_next_grows [OF s3(2)] show ?thesis by simp
  qed (use s3 in simp_all)
qed

text \<open>Requests in any order, on any document, by anyone; the clock runs between them.\<close>

inductive request :: "surroundings \<Rightarrow> world \<Rightarrow> world \<Rightarrow> bool" for su where
  new_document: "upload_document su did vid jid slug f tag disclosure pref u (s, store) = (r, w')
    \<Longrightarrow> did \<notin> v_document_id ` set (doc_versions (working s)) \<Longrightarrow> request su (s, store) w'"
| new_file: "upload_version su vid did f remark u (s, store) = (r, w') \<Longrightarrow> request su (s, store) w'"
| restoring: "restore_version su nid did vid remark u (s, store) = (r, w') \<Longrightarrow> request su (s, store) w'"
| by_hand: "manual_version su vid did t j remark u s = (r, s') \<Longrightarrow> request su (s, store) (s', store)"
| autosave: "put_draft did q u s = (r, s') \<Longrightarrow> request su (s, store) (s', store)"
| saving: "commit_draft su vid did remark clr expected u s = (r, s') \<Longrightarrow> request su (s, store) (s', store)"
| one_edit: "resolve_edit nid eid u action s = (Inr x, s') \<Longrightarrow> request su (s, store) (commit s', store)"
| all_edits: "resolve_bulk nid vid u action s = (Inr x, s') \<Longrightarrow> request su (s, store) (commit s', store)"
| tick: "request su (s, store) (s\<lparr>clock := t\<rparr>, store)"

lemma request_is_ok: "request su w w' \<Longrightarrow> request_ok su w w'"
proof (induction rule: request.induct)
  case (one_edit nid eid u action s x s' store)
  then show ?case using resolve_edit_grows by (simp add: request_ok_def)
next
  case (all_edits nid vid u action s x s' store)
  then show ?case using resolve_bulk_grows by (simp add: request_ok_def)
next
  case (tick s store t)
  then show ?case by (simp add: request_ok_def clean_def)
qed (blast intro: upload_document_step upload_version_step restore_version_step manual_version_step put_draft_step commit_draft_step)+

definition numbered :: "db \<Rightarrow> bool" where
  "numbered d \<longleftrightarrow> sorted_wrt (\<lambda>v w. v_document_id v = v_document_id w \<longrightarrow> v_version_number v < v_version_number w) (doc_versions d)"

lemma max_version_ge: "v \<in> set (doc_versions d) \<Longrightarrow> v_version_number v \<le> max_version (v_document_id v) d"
proof -
  assume v: "v \<in> set (doc_versions d)"
  let ?ns = "map v_version_number (filter (\<lambda>x. v_document_id x = v_document_id v) (doc_versions d))"
  have "v_version_number v \<in> set ?ns" using v by auto
  then show ?thesis
    unfolding max_version_def using max_by_ge [of "v_version_number v" "hd ?ns" "tl ?ns" id] by (cases ?ns) auto
qed

lemma grows_numbered: "grows d d' \<Longrightarrow> numbered d \<Longrightarrow> numbered d'"
  using max_version_ge by (fastforce simp: grows_def numbered_def sorted_wrt_append next_version_number_def)

lemma grows_extends: "grows d d' \<Longrightarrow> \<exists>vs. doc_versions d' = doc_versions d @ vs"
  by (auto simp: grows_def)

section \<open>Restoring\<close>

definition shown_file :: "uuid \<Rightarrow> db \<Rightarrow> (string \<times> string \<times> int \<times> string \<times> string option) option" where
  "shown_file did d = map_option (\<lambda>x. (doc_filename x, doc_mime_type x, doc_size_bytes x, doc_sha256 x, doc_storage_uri x))
     (find (\<lambda>x. doc_id x = did) (documents d))"

definition shown_body :: "uuid \<Rightarrow> db \<Rightarrow> (string \<times> string \<times> int option \<times> string option) option" where
  "shown_body did d = map_option (\<lambda>b. (b_extracted_text b, b_extraction_method b, b_page_count b, b_error_reason b))
     (extracted_body_for did d)"

lemma find_update_where:
  assumes "\<And>x. P (f x) = P x"
  shows "find P (update_where P f xs) = map_option f (find P xs)"
  by (induction xs) (simp_all add: assms)

lemma document_frame [simp, frame_simps]:
  "documents (add_version v d) = documents d" "documents (set_extracted did now er d) = documents d"
  "doc_bodies (add_version v d) = doc_bodies d" "doc_bodies (point_at did fn mi n sh k t u d) = doc_bodies d"
  "doc_chunks (add_version v d) = doc_chunks d" "doc_chunks (point_at did fn mi n sh k t u d) = doc_chunks d"
  "doc_chunks (set_extracted did now er d) = doc_chunks d"
  by (simp_all add: add_version_def set_extracted_def point_at_def set_document_def split: option.split)

lemma shown_file_point_at:
  assumes "find (\<lambda>x. doc_id x = did) (documents d) = Some x"
  shows "find (\<lambda>x. doc_id x = did) (documents (point_at did fn mi n sh k t u d)) = Some (x\<lparr>doc_filename := fn, doc_mime_type := mi,
    doc_size_bytes := n, doc_sha256 := sh, doc_storage_uri := Some k, doc_uploaded_at := t, doc_uploaded_by_id := u\<rparr>)"
  using assms by (simp add: point_at_def set_document_def find_update_where)

lemma body_after_set:
  "\<exists>b. extracted_body_for did (set_extracted did now er d) = Some b \<and> b_extracted_text b = er_extracted_text er
     \<and> b_extraction_method b = er_extraction_method er \<and> b_page_count b = er_page_count er \<and> b_error_reason b = er_error_reason er"
proof (cases "find (\<lambda>b. b_document_id b = did \<and> b_kind b = BODY_KIND_EXTRACTED) (doc_bodies d)")
  case None
  then show ?thesis by (simp add: extracted_body_for_def set_extracted_def body_of_def find_append)
next
  case (Some b)
  then show ?thesis by (simp add: extracted_body_for_def set_extracted_def body_of_def find_update_where)
qed

lemma shown_body_after_set:
  "shown_body did (set_extracted did now er d) = Some (er_extracted_text er, er_extraction_method er, er_page_count er, er_error_reason er)"
  using body_after_set [of did now er d] by (auto simp: shown_body_def)

lemma shown_cong: "doc_bodies d' = doc_bodies d \<Longrightarrow> shown_body did d' = shown_body did d"
  "documents d' = documents d \<Longrightarrow> shown_file did d' = shown_file did d"
  by (simp_all add: shown_body_def shown_file_def extracted_body_for_def body_of_def)

lemma owned_document:
  assumes "load_owned_document did u d = Some (doc, m)"
  shows "find (\<lambda>x. doc_id x = did) (documents d) = Some doc" and "doc_id doc = did"
  using assms by (auto simp: load_owned_document_def document_and_matter_def dest!: find_SomeD split: option.splits if_splits)

text \<open>What a replacement and a restoration show.\<close>

lemma replace_file_shows:
  assumes "replace_file su vid doc m f mime remark u (s, store) = (Inr v, (s', store'))"
    and "find (\<lambda>x. doc_id x = doc_id doc) (documents (working s)) = Some doc"
  shows "shown_file (doc_id doc) (working s') = Some (replacement_name f doc, mime, int (length (up_contents f)),
       su_sha su (up_contents f), v_storage_uri v)"
    and "shown_body (doc_id doc) (working s') = (let er = su_extract su (up_contents f) mime (replacement_name f doc)
       in Some (er_extracted_text er, er_extraction_method er, er_page_count er, er_error_reason er))"
proof -
  let ?er = "su_extract su (up_contents f) mime (replacement_name f doc)"
  let ?d = "set_extracted (doc_id doc) (clock s) ?er (point_at (doc_id doc) (replacement_name f doc) mime (int (length (up_contents f)))
      (su_sha su (up_contents f)) (uploaded_key u (m_id m) (doc_id doc) (su_sha su (up_contents f))) (clock s) u (add_version v (working s)))"
  have same: "doc_bodies (working s') = doc_bodies ?d" "documents (working s') = documents ?d"
    and key: "v_storage_uri v = Some (uploaded_key u (m_id m) (doc_id doc) (su_sha su (up_contents f)))"
    using assms(1) by (auto simp: replace_file_def Let_def replacement_version_def split: option.splits)
  show "shown_file (doc_id doc) (working s') = Some (replacement_name f doc, mime, int (length (up_contents f)),
       su_sha su (up_contents f), v_storage_uri v)"
    unfolding shown_cong(2) [OF same(2)] using shown_file_point_at [of "doc_id doc" "add_version v (working s)" doc] assms(2)
    by (simp add: shown_file_def key)
  show "shown_body (doc_id doc) (working s') = (let er = ?er
       in Some (er_extracted_text er, er_extraction_method er, er_page_count er, er_error_reason er))"
    unfolding shown_cong(1) [OF same(1)] by (simp add: shown_body_after_set Let_def)
qed

lemma apply_restoration_shows:
  assumes "apply_restoration nid source doc m remark u rn s = (v, s')" and "rn_sha256 rn \<noteq> []"
    and "find (\<lambda>x. doc_id x = doc_id doc) (documents (working s)) = Some doc"
  shows "shown_file (doc_id doc) (working s')
      = Some (rn_filename rn, rn_mime_type rn, rn_size_bytes rn, rn_sha256 rn, Some (rn_storage_uri rn))"
    and "shown_body (doc_id doc) (working s') = Some (er_extracted_text (rn_body rn), er_extraction_method (rn_body rn),
       er_page_count (rn_body rn), er_error_reason (rn_body rn))"
proof -
  let ?d = "set_extracted (doc_id doc) (clock s) (rn_body rn) (point_at (doc_id doc) (rn_filename rn) (rn_mime_type rn) (rn_size_bytes rn)
      (or_text (Some (rn_sha256 rn)) (doc_sha256 doc)) (rn_storage_uri rn) (clock s) u (add_version v (working s)))"
  have same: "doc_bodies (working s') = doc_bodies ?d" "documents (working s') = documents ?d"
    using assms(1) by (auto simp: apply_restoration_def Let_def)
  have sha: "or_text (Some (rn_sha256 rn)) (doc_sha256 doc) = rn_sha256 rn"
    using assms(2) by (cases "rn_sha256 rn") (simp_all add: or_text_def)
  show "shown_file (doc_id doc) (working s')
      = Some (rn_filename rn, rn_mime_type rn, rn_size_bytes rn, rn_sha256 rn, Some (rn_storage_uri rn))"
    unfolding shown_cong(2) [OF same(2)] using shown_file_point_at [of "doc_id doc" "add_version v (working s)" doc] assms(3)
    by (simp add: shown_file_def sha)
  show "shown_body (doc_id doc) (working s') = Some (er_extracted_text (rn_body rn), er_extraction_method (rn_body rn),
       er_page_count (rn_body rn), er_error_reason (rn_body rn))"
    unfolding shown_cong(1) [OF same(1)] by (simp add: shown_body_after_set)
qed

text \<open>The object under a key keeps the hash that ends the key.\<close>

definition hash_is_segment :: "surroundings \<Rightarrow> bool" where
  "hash_is_segment su \<longleftrightarrow> (\<forall>c. CHR ''/'' \<notin> set (su_sha su c) \<and> su_sha su c \<noteq> [])"

lemma last_segment:
  assumes "pre @ CHR ''/'' # h = pre' @ CHR ''/'' # h'" "CHR ''/'' \<notin> set h" "CHR ''/'' \<notin> set h'"
  shows "h = h'"
proof -
  have "rev h @ CHR ''/'' # rev pre = rev h' @ CHR ''/'' # rev pre'" using arg_cong [OF assms(1), of rev] by simp
  from split_prefix [OF _ _ this] assms(2,3) show ?thesis by simp
qed

lemma objects_stay:
  assumes "(request su)\<^sup>*\<^sup>* w w'" and "hash_is_segment su" and "snd w (pre @ CHR ''/'' # su_sha su b) = Some b"
  shows "\<exists>c. snd w' (pre @ CHR ''/'' # su_sha su b) = Some c \<and> su_sha su c = su_sha su b"
  using assms(1,3)
proof (induction rule: rtranclp_induct)
  case (step w1 w2)
  let ?k = "pre @ CHR ''/'' # su_sha su b"
  have "puts su (snd w1) (snd w2)" using request_is_ok [OF step.hyps(2)] by (simp add: request_ok_def)
  then have "snd w2 ?k = snd w1 ?k \<or> (\<exists>pre' c. ?k = pre' @ CHR ''/'' # su_sha su c \<and> snd w2 ?k = Some c)"
    by (auto simp: puts_def)
  moreover have "su_sha su b = su_sha su c" if "?k = pre' @ CHR ''/'' # su_sha su c" for pre' c
    using last_segment [OF that] assms(2) by (simp add: hash_is_segment_def)
  ultimately show ?case using step.IH [OF step.prems] by metis
qed simp

lemma upload_version_cases:
  assumes "upload_version su vid did f remark u (s, store) = (Inr v, w1)"
  obtains doc m mime where "load_owned_document did u (working s) = Some (doc, m)" "mime \<noteq> []"
    "replace_file su vid doc m f mime remark u (s, store) = (Inr v, w1)"
    "v = replacement_version su vid doc m f mime remark u (working s)"
    "su_put_error su (uploaded_key u (m_id m) (doc_id doc) (su_sha su (up_contents f))) = None"
proof -
  from assms obtain doc m mime where o: "load_owned_document did u (working s) = Some (doc, m)"
    and mime: "validate_upload_mime (up_content_type f) = Inr mime"
    and r: "replace_file su vid doc m f mime remark u (s, store) = (Inr v, w1)"
    by (auto simp: upload_version_def split: option.splits sum.splits)
  have "mime \<noteq> []" using mime by (auto simp: validate_upload_mime_def MIME_TO_FORMAT_def split: option.splits if_splits)
  moreover have "v = replacement_version su vid doc m f mime remark u (working s)"
    "su_put_error su (uploaded_key u (m_id m) (doc_id doc) (su_sha su (up_contents f))) = None"
    using r by (auto simp: replace_file_def Let_def split: option.splits)
  ultimately show thesis using that o r by blast
qed

lemma replacement_name_ne: "replacement_name f doc \<noteq> []"
  by (auto simp: replacement_name_def or_text_def split: option.splits list.splits)


lemma versions_persist:
  assumes "(request su)\<^sup>*\<^sup>* w w'" and "clean (fst w)"
  shows "\<exists>vs. doc_versions (working (fst w')) = doc_versions (working (fst w)) @ vs"
proof -
  have "clean (fst w') \<and> (\<exists>vs. doc_versions (working (fst w')) = doc_versions (working (fst w)) @ vs)"
    using assms
  proof (induction rule: rtranclp_induct)
    case (step w1 w2)
    then show ?case using request_is_ok [OF step.hyps(2)] grows_extends by (fastforce simp: request_ok_def)
  qed simp
  then show ?thesis by simp
qed

lemma find_fresh_version:
  assumes "vid \<notin> v_id ` set xs" "v_id v = vid" "v_document_id v = did"
  shows "find (\<lambda>x. v_id x = vid \<and> v_document_id x = did) (xs @ v # ys) = Some v"
  using assms by (induction xs) auto

lemma restore_version_success:
  assumes "load_owned_document did u (working s) = Some (doc, m)"
    and "find (\<lambda>v. v_id v = vid \<and> v_document_id v = did) (doc_versions (working s)) = Some source"
    and "v_storage_uri source = Some uri" "uri \<noteq> []" "su_get_error su uri = None" "store uri = Some contents"
  shows "restore_version su nid did vid remark u (s, store) = (case apply_restoration nid source doc m remark u
      (restore_file su source doc uri contents) s of (v, s') \<Rightarrow> (Inr v, (s', store)))"
  using assms owned_document(2) [OF assms(1)] or_text_Some [OF assms(4), of "[]"]
  by (simp add: restore_version_def Let_def)

lemma restored_file:
  assumes "v = replacement_version su vid doc0 m0 f mime remark u d" "mime \<noteq> []"
  shows "rn_filename (restore_file su v doc uri (up_contents f)) = replacement_name f doc0"
    and "rn_mime_type (restore_file su v doc uri (up_contents f)) = mime"
    and "rn_sha256 (restore_file su v doc uri (up_contents f)) = su_sha su (up_contents f)"
    and "rn_size_bytes (restore_file su v doc uri (up_contents f)) = int (length (up_contents f))"
    and "rn_storage_uri (restore_file su v doc uri (up_contents f)) = uri"
    and "v_resolved_text v = None \<or> (let er = su_extract su (up_contents f) mime (replacement_name f doc0);
       b = rn_body (restore_file su v doc uri (up_contents f))
     in er_extracted_text b = er_extracted_text er \<and> er_extraction_method b = er_extraction_method er
       \<and> er_page_count b = er_page_count er \<and> er_error_reason b = er_error_reason er)"
  using assms(2) unfolding assms(1)
  by (simp_all add: restore_file_def replacement_version_def Let_def or_text_Some replacement_name_ne restored_body_def)

text \<open>C28. Restoring a version brings its file back. A file is uploaded as a new version of a document; then
  come any requests at all, further uploads and restorations included. Whoever owns the document later and
  restores that version succeeds, if the store can be read, and the document again shows the same name, type,
  size, hash and object as right after the upload, and the same extracted text, method, pages and reason
  when the text could be extracted. The one exception is spelled out: another file with the same
  hash has meanwhile been written under the same key.\<close>

theorem restoring_brings_the_file_back:
  assumes up: "upload_version su vid did f remark u (s, store) = (Inr v, w1)"
    and fresh: "vid \<notin> v_id ` set (doc_versions (working s))" and "clean s" and hash: "hash_is_segment su"
    and run: "(request su)\<^sup>*\<^sup>* w1 (s2, store2)" and owned: "load_owned_document did u2 (working s2) \<noteq> None"
    and readable: "v_storage_uri v = Some uri" "su_get_error su uri = None"
    and again: "restore_version su nid did vid remark2 u2 (s2, store2) = (r, (s3, store3))"
  shows "(\<not> isl r \<and> shown_file did (working s3) = shown_file did (working (fst w1))
      \<and> (v_resolved_text v = None \<or> shown_body did (working s3) = shown_body did (working (fst w1))))
    \<or> (\<exists>c. c \<noteq> up_contents f \<and> su_sha su c = su_sha su (up_contents f) \<and> store2 uri = Some c)"
proof -
  obtain doc m mime where o: "load_owned_document did u (working s) = Some (doc, m)" and mime: "mime \<noteq> []"
    and rf: "replace_file su vid doc m f mime remark u (s, store) = (Inr v, w1)"
    and v: "v = replacement_version su vid doc m f mime remark u (working s)"
    and put: "su_put_error su (uploaded_key u (m_id m) (doc_id doc) (su_sha su (up_contents f))) = None"
    using upload_version_cases [OF up] by metis
  have vf: "v_id v = vid" "v_document_id v = did" using owned_document(2) [OF o] by (simp_all add: v replacement_version_def Let_def)
  have uri: "uri = uploaded_key u (m_id m) did (su_sha su (up_contents f))"
    using readable(1) owned_document(2) [OF o] by (simp add: v replacement_version_def Let_def)
  have "uri = (''users/'' @ u @ ''/matters/'' @ m_id m @ ''/documents/'' @ did) @ CHR ''/'' # su_sha su (up_contents f)"
    by (simp add: uri uploaded_key_def)
  then obtain pre where key: "uri = pre @ CHR ''/'' # su_sha su (up_contents f)" by blast
  then have ne: "uri \<noteq> []" by simp
  obtain s1 store1 where w1: "w1 = (s1, store1)" by fastforce
  have made: "store1 uri = Some (up_contents f)" "clean s1" "doc_versions (working s1) = doc_versions (working s) @ [v]"
    using replace_file_success [OF put, where vid = vid and mime = mime and remark = remark and s = s and store = store] rf w1 owned_document(2) [OF o]
    by (auto simp: uri v)
  obtain vs where vs: "doc_versions (working s2) = doc_versions (working s1) @ vs" using versions_persist [OF run] made(2) w1 by auto
  have source: "find (\<lambda>x. v_id x = vid \<and> v_document_id x = did) (doc_versions (working s2)) = Some v"
    using find_fresh_version [OF fresh vf, of vs] by (simp add: vs made(3))
  obtain c where c: "store2 uri = Some c" "su_sha su c = su_sha su (up_contents f)"
    using objects_stay [OF run hash, of pre "up_contents f"] made(1) w1 unfolding key by auto
  show ?thesis
  proof (cases "c = up_contents f")
    case True
    obtain doc2 m2 where o2: "load_owned_document did u2 (working s2) = Some (doc2, m2)" using owned by auto
    let ?rn = "restore_file su v doc2 uri (up_contents f)"
    obtain v' s' where ap: "apply_restoration nid v doc2 m2 remark2 u2 ?rn s2 = (v', s')" by fastforce
    have res: "r = Inr v'" "s3 = s'"
      using again restore_version_success [where store = store2, OF o2 source readable(1) ne readable(2) c(1)] ap True by auto
    have sha: "rn_sha256 ?rn \<noteq> []" using hash by (simp add: restored_file(3) [OF v mime] hash_is_segment_def)
    note d2 = owned_document [OF o2]
    note there = replace_file_shows [OF rf [unfolded w1]] and here = apply_restoration_shows [OF ap sha]
    show ?thesis
      using there here d2 owned_document [OF o] restored_file [OF v mime, of doc2 uri] res readable(1) w1
      by (auto simp: Let_def)
  qed (use c in blast)
qed

section \<open>What a search still finds\<close>

lemma searchable_cong:
  assumes "map (\<lambda>x. (doc_id x, doc_index_status x)) (documents d') = map (\<lambda>x. (doc_id x, doc_index_status x)) (documents d)"
  shows "searchable mid d' c = searchable mid d c"
proof -
  have ex: "list_ex (\<lambda>x. doc_id x = i \<and> doc_index_status x = st) xs \<longleftrightarrow> (i, st) \<in> set (map (\<lambda>x. (doc_id x, doc_index_status x)) xs)" for i st xs
    by (induction xs) auto
  show ?thesis unfolding searchable_def ex assms by (rule refl)
qed

lemma search_cong:
  assumes "map (\<lambda>x. (doc_id x, doc_index_status x)) (documents d') = map (\<lambda>x. (doc_id x, doc_index_status x)) (documents d)"
    and "doc_chunks d' = doc_chunks d"
  shows "search_documents share addf zerof embedder dist rank mid query k d' = search_documents share addf zerof embedder dist rank mid query k d"
  unfolding search_documents_def keyword_candidates_def vector_candidates_def assms(2) searchable_cong [OF assms(1)] by (rule refl)

lemma map_update_where: "(\<And>x. g (f x) = g x) \<Longrightarrow> map g (update_where P f xs) = map g xs"
  by (induction xs) simp_all

lemma point_at_status:
  "map (\<lambda>x. (doc_id x, doc_index_status x)) (documents (point_at did fn mi n sh k t u d))
     = map (\<lambda>x. (doc_id x, doc_index_status x)) (documents d)"
  by (simp add: point_at_def set_document_def map_update_where)

lemma body_text_shown: "body_text did d = (case shown_body did d of None \<Rightarrow> [] | Some (t, _) \<Rightarrow> t)"
  by (simp add: body_text_def shown_body_def split: option.split)

text \<open>C29. A replaced document is searched by its old text. After a file has been replaced, the text read
  for the document is that of the new file, but every search of every matter returns exactly what it
  returned before: the route neither drops the passages of the old file nor puts the document back
  into the queue of the indexer.\<close>

theorem replaced_files_are_searched_by_their_old_text:
  assumes "upload_version su vid did f remark u (s, store) = (Inr v, (s', store'))" and "v_resolved_text v = Some t"
  shows "body_text did (working s') = t
    \<and> search_documents share addf zerof embedder dist rank mid query k (working s')
        = search_documents share addf zerof embedder dist rank mid query k (working s)"
proof -
  obtain doc m mime where o: "load_owned_document did u (working s) = Some (doc, m)" and mime: "mime \<noteq> []"
    and rf: "replace_file su vid doc m f mime remark u (s, store) = (Inr v, (s', store'))"
    and v: "v = replacement_version su vid doc m f mime remark u (working s)"
    and put: "su_put_error su (uploaded_key u (m_id m) (doc_id doc) (su_sha su (up_contents f))) = None"
    using upload_version_cases [OF assms(1)] by metis
  note d = owned_document [OF o]
  have "body_text did (working s') = t"
    using replace_file_shows(2) [OF rf] d assms(2)
    by (auto simp: body_text_shown Let_def v replacement_version_def split: if_splits)
  moreover have "doc_chunks (working s') = doc_chunks (working s)"
    "map (\<lambda>x. (doc_id x, doc_index_status x)) (documents (working s')) = map (\<lambda>x. (doc_id x, doc_index_status x)) (documents (working s))"
    using rf put by (auto simp: replace_file_def Let_def point_at_status)
  ultimately show ?thesis using search_cong by blast
qed

section \<open>The working draft\<close>

lemma draft_tables [simp, frame_simps]:
  "working_drafts (set_document did f d) = working_drafts d" "working_drafts (set_extracted did now er d) = working_drafts d"
  "working_drafts (point_at did fn mi n sh k t u d) = working_drafts d" "working_drafts (add_document x d) = working_drafts d"
  "working_drafts (add_version v d) = working_drafts d" "working_drafts (add_job j d) = working_drafts d"
  "working_drafts (set_job jid g d) = working_drafts d" "working_drafts (resolve_where P st now actor d) = working_drafts d"
  by (simp_all add: set_document_def set_extracted_def point_at_def add_document_def add_version_def add_job_def set_job_def
      resolve_where_def split: option.split)

lemma audit_log_all_drafts [simp]: "working_drafts (working (audit_log_all es s)) = working_drafts (working s)"
  by (induction es arbitrary: s) (simp_all add: audit_log_all_def)

definition follows :: "uuid \<Rightarrow> db \<Rightarrow> db \<Rightarrow> bool" where
  "follows did d d' \<longleftrightarrow> draft_of did d' = draft_of did d \<or> draft_of did d = None \<or> draft_of did d' = None
     \<or> wd_version_counter (the (draft_of did d)) < wd_version_counter (the (draft_of did d'))"

definition draft_ok :: "uuid \<Rightarrow> session \<Rightarrow> session \<Rightarrow> bool" where
  "draft_ok did s s' \<longleftrightarrow> (clean s \<longrightarrow> clean s' \<and> follows did (working s) (working s'))"

lemma same_drafts: "working_drafts d' = working_drafts d \<Longrightarrow> follows did d d'"
  by (simp add: follows_def draft_of_def)

lemma draft_ok_refl [simp]: "draft_ok did s s"
  by (simp add: draft_ok_def follows_def)

lemma draft_ok_same: "clean s' \<Longrightarrow> working_drafts (working s') = working_drafts (working s) \<Longrightarrow> draft_ok did s s'"
  by (simp add: draft_ok_def same_drafts)

lemma draft_ok_failure: "draft_ok did s (rollback (audit_failure e (on_working g s)))" "draft_ok did s (rollback (audit_failure e s))"
  by (auto simp: draft_ok_def clean_def audit_failure_def follows_def draft_of_def)

lemma apply_restoration_drafts: "draft_ok did s (snd (apply_restoration nid source doc m remark u rn s))"
  by (rule draft_ok_same) (simp_all add: apply_restoration_def Let_def)

lemma replace_file_drafts:
  assumes "replace_file su vid doc m f mime remark u (s, store) = (r, (s', store'))"
  shows "draft_ok did s s'"
proof (cases "su_put_error su (uploaded_key u (m_id m) (doc_id doc) (su_sha su (up_contents f)))")
  case None
  with assms show ?thesis by (intro draft_ok_same) (auto simp: replace_file_def Let_def)
next
  case (Some code)
  with assms show ?thesis by (auto simp: replace_file_def Let_def draft_ok_failure simp del: session_ops)
qed

lemma upload_version_drafts: "upload_version su vid i f remark u (s, store) = (r, (s', store')) \<Longrightarrow> draft_ok did s s'"
  by (auto simp: upload_version_def dest: replace_file_drafts split: option.splits sum.splits)

lemma restore_version_drafts:
  assumes "restore_version su nid i vid remark u (s, store) = (r, (s', store'))"
  shows "draft_ok did s s'"
  using assms unfolding restore_version_def prod.case
  by (auto simp: Let_def case_prod_unfold draft_ok_failure apply_restoration_drafts simp del: session_ops split: option.splits if_splits)

lemma create_user_edit_drafts:
  "working_drafts (working (snd (create_user_edit_version su vid doc m u t j remark src s))) = working_drafts (working s)"
  by (simp add: create_user_edit_version_def Let_def)

lemma manual_version_drafts: "manual_version su vid i t j remark u s = (r, s') \<Longrightarrow> draft_ok did s s'"
  using create_user_edit_drafts
  by (auto simp: manual_version_def case_prod_unfold split: option.splits intro!: draft_ok_same)

lemma draft_of_drop: "draft_of did (drop_draft i d) = (if did = i then None else draft_of did d)"
proof -
  have filtered: "find (\<lambda>w. wd_document_id w = did) (filter (\<lambda>w. wd_document_id w \<noteq> i) ws)
      = (if did = i then None else find (\<lambda>w. wd_document_id w = did) ws)" for ws
    by (induction ws) auto
  show ?thesis using filtered [of "working_drafts d"] by (simp add: draft_of_def drop_draft_def)
qed

lemma draft_of_set: "draft_of did (set_draft w d) = (if did = wd_document_id w then Some w else draft_of did d)"
proof -
  have "find (\<lambda>x. wd_document_id x = did) (update_where (\<lambda>x. wd_document_id x = wd_document_id w) (\<lambda>_. w) ws)
      = (if did = wd_document_id w then map_option (\<lambda>_. w) (find (\<lambda>x. wd_document_id x = did) ws)
         else find (\<lambda>x. wd_document_id x = did) ws)" for ws
    by (induction ws) auto
  then show ?thesis by (auto simp: draft_of_def set_draft_def find_append split: option.splits)
qed

lemma commit_draft_shape:
  assumes "commit_draft su vid i remark clr ex u s = (r, s')"
  obtains "s' = s" | s1 where "working_drafts (working s1) = working_drafts (working s)" "s' = commit s1"
  | s1 j where "working_drafts (working s1) = working_drafts (working s)" "s' = commit (on_working (drop_draft j) s1)"
proof (cases "load_owned_document i u (working s)")
  case None
  with assms that(1) show thesis by (simp add: commit_draft_def)
next
  case (Some p)
  obtain doc m where p: "p = (doc, m)" by fastforce
  show thesis
  proof (cases "draft_of (doc_id doc) (working s)")
    case None
    with assms Some p that(1) show thesis by (simp add: commit_draft_def)
  next
    case (Some w)
    obtain v s1 where c: "create_user_edit_version su vid doc m u (wd_plain_text w) (wd_editor_json w)
        (Some (or_text remark ''Saved working draft from Legalise document editor'')) ''working_draft'' s = (v, s1)" by fastforce
    have "working_drafts (working s1) = working_drafts (working s)"
      using create_user_edit_drafts [of su vid doc m u "wd_plain_text w" "wd_editor_json w" _ "''working_draft''" s] c by (metis snd_conv)
    with assms Some \<open>load_owned_document i u (working s) = Some p\<close> p c that show thesis
      by (auto simp: commit_draft_def simp del: session_ops split: if_splits)
  qed
qed

lemma commit_draft_drafts:
  assumes "commit_draft su vid i remark clr ex u s = (r, s')"
  shows "draft_ok did s s'"
  using assms
proof (cases rule: commit_draft_shape)
  case (3 s1 j)
  then have "follows did (working s) (drop_draft j (working s1))" by (simp add: follows_def draft_of_drop) (simp add: draft_of_def)
  with 3 show ?thesis by (simp add: draft_ok_def)
qed (auto intro!: draft_ok_same)

lemma put_draft_drafts: "put_draft i q u s = (r, s') \<Longrightarrow> draft_ok did s s'"
  by (auto simp: put_draft_def Let_def draft_ok_def follows_def draft_of_set split: option.splits if_splits)

lemma maybe_close_drafts: "working_drafts (working (snd (maybe_close_version nid v doc m actor s))) = working_drafts (working s)"
  by (auto simp: maybe_close_version_def Let_def split: prod.split)

lemma resolve_edit_drafts: "working_drafts (working (snd (resolve_edit nid eid u action s))) = working_drafts (working s)"
  using maybe_close_drafts by (auto simp: resolve_edit_def Let_def case_prod_unfold split: option.splits)

lemma mark_all_drafts [simp]: "working_drafts (working (mark_all vid doc m actor st s)) = working_drafts (working s)"
  by (simp add: mark_all_def)

lemma resolve_bulk_drafts:
  assumes "resolve_bulk nid vid actor action s = (r, s')"
  shows "working_drafts (working s') = working_drafts (working s)"
proof (cases "matter_for_version vid (working s)")
  case None
  with assms show ?thesis by (auto simp: resolve_bulk_def split: if_splits)
next
  case (Some p)
  obtain v doc m where p: "p = (v, doc, m)" by (cases p)
  define s2 where "s2 = mark_all vid doc m actor (if action = ''accept_all'' then EDIT_STATUS_ACCEPTED else EDIT_STATUS_REJECTED) s"
  obtain new s3 where close: "maybe_close_version nid v doc m actor s2 = (new, s3)" by fastforce
  have "working_drafts (working s3) = working_drafts (working s)"
    using maybe_close_drafts [of nid v doc m actor s2] close by (simp add: s2_def)
  then show ?thesis
    using assms Some p close unfolding s2_def
    by (cases new; cases "latest_resolved (doc_id doc) (working s3)") (auto simp: resolve_bulk_def Let_def split: if_splits)
qed

lemma enqueue_drafts:
  assumes "enqueue_or_mark_failed enq j s = (r, s')" and "clean s"
  shows "working_drafts (working s') = working_drafts (working s)"
  using assms by (auto simp: enqueue_or_mark_failed_def Let_def commit_jobs_def update_status_def clean_def split: option.splits if_splits)

lemma create_job_drafts: "create_job cap jid mid u k p s = (r, s') \<Longrightarrow>
    working_drafts (working s') = working_drafts (working s) \<and> durable s' = durable s"
  by (auto simp: create_job_def Let_def split: if_splits)

lemma queue_indexing_drafts:
  assumes "queue_indexing su jid u doc s = (r, s')"
  shows "clean s' \<and> (working_drafts (working s') = working_drafts (working s) \<or> working s' = durable s)"
  using assms queue_indexing_step [OF assms] 
  by (auto simp: queue_indexing_def split: prod.splits sum.splits dest!: create_job_drafts enqueue_drafts)

lemma document_rows_drafts: "working_drafts (working (document_rows su vid doc contents key u s)) = working_drafts (working s)"
  by (simp add: document_rows_def Let_def)

lemma upload_document_drafts:
  assumes "upload_document su i vid jid slug f tag disc pref u (s, store) = (r, (s', store'))"
  shows "draft_ok did s s'"
proof -
  have q: "draft_ok did s s2" if "queue_indexing su jid u doc (document_rows su vid doc c key u (on_working (add_document x) s)) = (q, s2)"
    for doc c key x q s2
    using queue_indexing_drafts [OF that]
    by (auto simp: draft_ok_def clean_def document_rows_versions document_rows_drafts follows_def draft_of_def)
  show ?thesis
    using assms q
    by (auto simp: upload_document_def Let_def draft_ok_failure simp del: session_ops split: option.splits if_splits sum.splits prod.splits)
qed

lemma request_drafts: "request su w w' \<Longrightarrow> draft_ok did (fst w) (fst w')"
proof (induction rule: request.induct)
  case (one_edit nid eid u action s x s' store)
  then show ?case using resolve_edit_drafts [of nid eid u action s] by (auto intro!: draft_ok_same)
next
  case (all_edits nid vid u action s x s' store)
  then show ?case using resolve_bulk_drafts [of nid vid u action s "Inr x" s'] by (auto intro!: draft_ok_same)
next
  case (tick s store t)
  then show ?case by (simp add: draft_ok_def clean_def follows_def)
next
  case (new_document i vid jid slug f tag disclosure pref u s store r w')
  then show ?case using upload_document_drafts by (cases w') auto
next
  case (new_file vid i f remark u s store r w')
  then show ?case using upload_version_drafts by (cases w') auto
next
  case (restoring nid i vid remark u s store r w')
  then show ?case using restore_version_drafts by (cases w') auto
qed (auto intro: manual_version_drafts put_draft_drafts commit_draft_drafts)

text \<open>Requests during which the document always has a draft.\<close>

definition drafting :: "surroundings \<Rightarrow> uuid \<Rightarrow> world \<Rightarrow> world \<Rightarrow> bool" where
  "drafting su did w w' \<longleftrightarrow> request su w w' \<and> draft_of did (working (fst w')) \<noteq> None"

lemma drafting_counter:
  assumes "(drafting su did)\<^sup>*\<^sup>* w w'" and "clean (fst w)" and "draft_of did (working (fst w)) = Some a"
  shows "clean (fst w') \<and> (\<exists>b. draft_of did (working (fst w')) = Some b \<and> (b = a \<or> wd_version_counter a < wd_version_counter b))"
  using assms
proof (induction rule: rtranclp_induct)
  case (step w1 w2)
  then obtain b where b: "clean (fst w1)" "draft_of did (working (fst w1)) = Some b" "b = a \<or> wd_version_counter a < wd_version_counter b"
    by blast
  have "draft_ok did (fst w1) (fst w2)" "draft_of did (working (fst w2)) \<noteq> None"
    using step.hyps(2) request_drafts unfolding drafting_def by blast+
  then show ?case using b by (auto simp: draft_ok_def follows_def)
qed simp

lemma put_draft_success:
  assumes "put_draft did q u s = (Inr y, s')" and "draft_of did (working s) = Some b"
  shows "du_expected_version_counter q = None \<or> du_expected_version_counter q = Some (wd_version_counter b)"
proof (cases "load_owned_document did u (working s)")
  case (Some p)
  with assms owned_document(2) [of did u "working s" "fst p" "snd p"] show ?thesis
    by (auto simp: put_draft_def Let_def split: prod.splits if_splits)
qed (use assms in \<open>simp add: put_draft_def\<close>)

lemma get_draft_shows:
  assumes "get_draft did u s = Inr (t, n, b)" and "draft_of did (working s) = Some a"
  shows "wd_version_counter a = n \<and> wd_plain_text a = t"
proof (cases "load_owned_document did u (working s)")
  case (Some p)
  with assms owned_document(2) [of did u "working s" "fst p" "snd p"] show ?thesis
    by (auto simp: get_draft_def split: prod.splits)
qed (use assms in \<open>simp add: get_draft_def\<close>)


text \<open>
  Across a clearing commit the counter starts again at 1, and clearing is what a commit does unless it is
  told otherwise: a client that has read the first draft overwrites the first draft of the next round, unseen.
\<close>

theorem cleared_draft_is_overwritten:
  assumes "get_draft did u s = Inr (t, 1, b)"
    and "commit_draft su vid did remark True ex u1 s = (Inr v, s1)"
    and "put_draft did q u1 s1 = (Inr y, s2)"
    and "put_draft did stale u s2 = (r, s3)" and "load_owned_document did u (working s2) \<noteq> None"
    and "du_expected_version_counter stale = Some 1" and "du_base_version_id stale = None"
  shows "\<exists>z. r = Inr z \<and> draft_of did (working s2) = Some y \<and> draft_of did (working s3) = Some z \<and> wd_plain_text z = du_plain_text stale"
proof -
  have "draft_of did (working s1) = None"
  proof (cases "load_owned_document did u1 (working s)")
    case (Some p)
    with assms(2) owned_document(2) [of did u1 "working s" "fst p" "snd p"] show ?thesis
      by (auto simp: commit_draft_def draft_of_drop split: option.splits if_splits prod.splits)
  qed (use assms(2) in \<open>simp add: commit_draft_def\<close>)
  have y: "draft_of did (working s2) = Some y \<and> wd_version_counter y = 1"
  proof (cases "load_owned_document did u1 (working s1)")
    case (Some p)
    with assms(3) owned_document(2) [of did u1 "working s1" "fst p" "snd p"] \<open>draft_of did (working s1) = None\<close> show ?thesis
      by (auto simp: put_draft_def Let_def draft_of_set split: prod.splits if_splits)
  qed (use assms(3) in \<open>simp add: put_draft_def\<close>)
  obtain doc m where o: "load_owned_document did u (working s2) = Some (doc, m)" using assms(5) by fastforce
  from assms(4,6,7) y owned_document(2) [OF o] show ?thesis
    by (auto simp add: put_draft_def Let_def draft_of_set o)
qed

section \<open>Witnesses\<close>

definition filed_matter :: matter where
  "filed_matter = \<lparr>m_id = ''m'', m_slug = ''acme'', m_title = ''Acme'', m_status = ''open'', m_privilege_posture = ''A_cleared'',
     m_created_by_id = ''u'', m_retention_until = None, m_default_model_id = ''stub'',
     m_matter_type = ''employment_tribunal'', m_cause = None, m_case_theory = None,
     m_pivot_fact = None, m_facts = JObj [], m_opened_at = 0, m_closed_at = None\<rparr>"

definition filed_document :: document where
  "filed_document = \<lparr>doc_id = ''d'', doc_matter_id = ''m'', doc_index_status = ''indexed'', doc_indexed_at = Some 1, doc_filename = ''note.txt'',
     doc_mime_type = ''text/plain'', doc_size_bytes = 3, doc_sha256 = ''h'', doc_storage_uri = None, doc_uploaded_at = 0,
     doc_uploaded_by_id = ''u'', doc_tag = None, doc_from_disclosure = False,
     doc_disclosure_ref = None\<rparr>"

definition filed :: session where
  "filed = open_session (empty_db\<lparr>matters := [filed_matter], documents := [filed_document]\<rparr>) 5"

definition plain_surroundings :: surroundings where
  "plain_surroundings = \<lparr>su_sha = (\<lambda>c. CHR ''h'' # map (\<lambda>_. CHR ''0'') c),
     su_extract = (\<lambda>c _ _. \<lparr>er_extracted_text = c, er_extraction_method = ''passthrough'', er_char_count = int (length c),
       er_page_count = None, er_error_reason = None\<rparr>),
     su_backend = ''local'', su_put_error = (\<lambda>_. None), su_get_error = (\<lambda>_. None), su_enqueue = (\<lambda>_. None),
     su_limits = \<lparr>lim_matters_per_user = 9, lim_documents_per_matter = 9, lim_total_storage_bytes_per_user = 9000,
       lim_assistant_messages_per_day = 9, lim_workflow_runs_per_day = 9, lim_active_jobs = 9,
       lim_generated_artefacts_per_day = 9, lim_module_submissions_per_day = 9\<rparr>\<rparr>"

definition text_file :: "string \<Rightarrow> upload" where
  "text_file t = \<lparr>up_filename = Some ''note.txt'', up_content_type = Some ''text/plain'', up_contents = t\<rparr>"

definition after_first :: "(doc_error + doc_version) \<times> world" where
  "after_first = upload_version plain_surroundings ''v1'' ''d'' (text_file ''lease'') None ''u'' (filed, Map.empty)"

definition after_second :: "(doc_error + doc_version) \<times> world" where
  "after_second = upload_version plain_surroundings ''v2'' ''d'' (text_file ''sale'') None ''u'' (snd after_first)"

definition after_restoring :: "(doc_error + doc_version) \<times> world" where
  "after_restoring = restore_version plain_surroundings ''v3'' ''d'' ''v1'' None ''u'' (snd after_second)"

lemma filed_start: "clean filed" "numbered (working filed)" "v_id ` set (doc_versions (working filed)) = {}"
  by (simp_all add: filed_def open_session_def clean_def numbered_def empty_db_def)

lemma second_request: "request plain_surroundings (snd after_first) (snd after_second)"
  unfolding after_second_def by (metis new_file prod.collapse)

lemma first_request: "request plain_surroundings (filed, Map.empty) (snd after_first)"
  unfolding after_first_def by (metis new_file prod.collapse)

lemma plain_upload:
  assumes "load_owned_document ''d'' ''u'' (working s) = Some (doc, m)" and "t \<in> {''lease'', ''sale''}"
  shows "upload_version plain_surroundings vid ''d'' (text_file t) None ''u'' (s, store)
    = replace_file plain_surroundings vid doc m (text_file t) ''text/plain'' None ''u'' (s, store)"
proof -
  have "validate_upload_mime (Some ''text/plain'') = Inr ''text/plain''" by code_simp
  moreover have "validate_upload_magic_bytes ''text/plain'' t = Inr ()" "validate_upload_size t = Inr ()"
    using assms(2)
    by (auto simp: validate_upload_magic_bytes_def sniff_format_def MIME_TO_FORMAT_def magic_def Let_def codes_def
        validate_upload_size_def MAX_UPLOAD_BYTES_def)
  ultimately show ?thesis by (simp add: upload_version_def assms(1) text_file_def)
qed

lemma after_first_eq: "after_first
    = replace_file plain_surroundings ''v1'' filed_document filed_matter (text_file ''lease'') ''text/plain'' None ''u'' (filed, Map.empty)"
proof -
  have "load_owned_document ''d'' ''u'' (working filed) = Some (filed_document, filed_matter)" by code_simp
  then show ?thesis by (simp add: after_first_def plain_upload)
qed

definition shown_document :: document where
  "shown_document = fst (the (load_owned_document ''d'' ''u'' (working (fst (snd after_first)))))"

lemma after_second_eq: "after_second
    = replace_file plain_surroundings ''v2'' shown_document filed_matter (text_file ''sale'') ''text/plain'' None ''u'' (snd after_first)"
proof -
  have "map_option snd (load_owned_document ''d'' ''u'' (working (fst (snd after_first)))) = Some filed_matter"
    unfolding after_first_eq by code_simp
  then have "load_owned_document ''d'' ''u'' (working (fst (snd after_first))) = Some (shown_document, filed_matter)"
    by (auto simp: shown_document_def)
  then show ?thesis unfolding after_second_def by (metis plain_upload insertI1 insertI2 prod.collapse)
qed

lemma after_first_ok: "\<exists>v. fst after_first = Inr v \<and> v_resolved_text v = Some ''lease'' \<and> v_storage_uri v = Some ''users/u/matters/m/documents/d/h00000''"
proof -
  have "case fst after_first of Inl _ \<Rightarrow> False
     | Inr v \<Rightarrow> v_resolved_text v = Some ''lease'' \<and> v_storage_uri v = Some ''users/u/matters/m/documents/d/h00000''"
    unfolding after_first_eq by code_simp
  then show ?thesis by (auto split: sum.splits)
qed


theorem restoring_brings_the_file_back_witness:
  "shown_file ''d'' (working (fst (snd after_restoring))) = shown_file ''d'' (working (fst (snd after_first)))
   \<and> shown_file ''d'' (working (fst (snd after_second))) \<noteq> shown_file ''d'' (working (fst (snd after_first)))"
proof -
  obtain v where v: "fst after_first = Inr v" "v_resolved_text v = Some ''lease''"
    "v_storage_uri v = Some ''users/u/matters/m/documents/d/h00000''" using after_first_ok by blast
  have kept: "snd (snd after_second) ''users/u/matters/m/documents/d/h00000'' = Some ''lease''" unfolding after_second_eq shown_document_def after_first_eq by code_simp
  have owned: "load_owned_document ''d'' ''u'' (working (fst (snd after_second))) \<noteq> None" unfolding after_second_eq shown_document_def after_first_eq by code_simp
  have other: "shown_file ''d'' (working (fst (snd after_second))) \<noteq> shown_file ''d'' (working (fst (snd after_first)))" unfolding after_second_eq shown_document_def after_first_eq by code_simp
  have up: "upload_version plain_surroundings ''v1'' ''d'' (text_file ''lease'') None ''u'' (filed, Map.empty) = (Inr v, snd after_first)"
    using v(1) unfolding after_first_def [symmetric] by (metis prod.collapse)
  have run: "(request plain_surroundings)\<^sup>*\<^sup>* (snd after_first) (fst (snd after_second), snd (snd after_second))"
    using second_request by auto
  have again: "restore_version plain_surroundings ''v3'' ''d'' ''v1'' None ''u'' (fst (snd after_second), snd (snd after_second))
      = (fst after_restoring, (fst (snd after_restoring), snd (snd after_restoring)))" by (simp add: after_restoring_def)
  have hash: "hash_is_segment plain_surroundings" by (auto simp: hash_is_segment_def plain_surroundings_def)
  from restoring_brings_the_file_back [OF up _ filed_start(1) hash run owned v(3) _ again] kept other
  show ?thesis by (auto simp: filed_start plain_surroundings_def text_file_def)
qed

theorem replaced_files_are_searched_by_their_old_text_witness:
  "body_text ''d'' (working (fst (snd after_first))) = ''lease''"
proof -
  obtain v where v: "fst after_first = Inr v" "v_resolved_text v = Some ''lease''" using after_first_ok by blast
  have up: "upload_version plain_surroundings ''v1'' ''d'' (text_file ''lease'') None ''u'' (filed, Map.empty)
      = (Inr v, (fst (snd after_first), snd (snd after_first)))"
    using v(1) unfolding after_first_def [symmetric] by (metis prod.collapse)
  from replaced_files_are_searched_by_their_old_text [OF up v(2)] show ?thesis by blast
qed

definition autosave_of :: "string \<Rightarrow> int \<Rightarrow> draft_upsert" where
  "autosave_of t n = \<lparr>du_plain_text = t, du_editor_json = None, du_base_version_id = None, du_client_id = None,
     du_expected_version_counter = Some n\<rparr>"

definition one_draft :: "(doc_error + working_draft) \<times> session" where
  "one_draft = put_draft ''d'' (autosave_of ''first'' 0) ''u'' filed"

definition two_drafts :: "(doc_error + working_draft) \<times> session" where
  "two_drafts = put_draft ''d'' (autosave_of ''second'' 1) ''u'' (snd one_draft)"


end
