(* ===== verification/MatterContext.thy ===== *)
theory MatterContext
  imports Capabilities Lifecycle
begin

text \<open>
  The matter context store (\<open>app/core/matter_context\<close>) and its routes (\<open>app/api/matter_context.py\<close>): schemas
  registered under a namespace and a version, items of a matter bound to one of them, and supersession.
  The two calls of \<open>jsonschema\<close> are parameters: \<open>check_schema\<close> with the message of its error, \<open>iter_errors\<close>
  with the violations of a payload in the order in which it meets them.
\<close>

section \<open>Schemas\<close>

datatype schema_error =
    InvalidSchema string
  | NotADict json
  | SchemaNotFound
  | NeitherIdNorNamespace
  | AdminRequired

definition add_schema :: "context_schema \<Rightarrow> db \<Rightarrow> db" where
  "add_schema c d = d\<lparr>context_schemas := context_schemas d @ [c]\<rparr>"

definition validate_json_schema :: "(json \<Rightarrow> string option) \<Rightarrow> json \<Rightarrow> schema_error + unit" where
  "validate_json_schema check_schema j =
     (case j of JObj _ \<Rightarrow> (case check_schema j of Some msg \<Rightarrow> Inl (InvalidSchema msg) | None \<Rightarrow> Inr ())
      | _ \<Rightarrow> Inl (NotADict j))"

definition schema_at :: "string \<Rightarrow> string \<Rightarrow> db \<Rightarrow> context_schema option" where
  "schema_at namespace version d =
     find (\<lambda>c. cs_namespace c = namespace \<and> cs_version c = version) (context_schemas d)"

definition register_schema ::
  "(json \<Rightarrow> string option) \<Rightarrow> uuid \<Rightarrow> string \<Rightarrow> string \<Rightarrow> string \<Rightarrow> json \<Rightarrow> string option \<Rightarrow> session
    \<Rightarrow> (schema_error + context_schema) \<times> session" where
  "register_schema check_schema new_id namespace module_id version json_schema registered_by s =
     (case validate_json_schema check_schema json_schema of
        Inl e \<Rightarrow> (Inl e, s)
      | Inr _ \<Rightarrow> (case schema_at namespace version (working s) of
          Some existing \<Rightarrow> (Inr existing, s)
        | None \<Rightarrow>
            (let c = \<lparr>cs_id = new_id, cs_namespace = namespace, cs_module_id = module_id, cs_version = version,
                   cs_json_schema = json_schema, cs_registered_at = clock s,
                   cs_registered_by_module_id = Some (or_text registered_by module_id)\<rparr>
             in (Inr c, on_working (add_schema c) s))))"

text \<open>The most recently registered row; of several with the same instant PostgreSQL may return any, here the first.\<close>

definition latest_version_for_namespace :: "string \<Rightarrow> db \<Rightarrow> string option" where
  "latest_version_for_namespace namespace d =
     (case filter (\<lambda>c. cs_namespace c = namespace) (context_schemas d) of
        [] \<Rightarrow> None
      | c # cs \<Rightarrow> Some (cs_version (max_by cs_registered_at c cs)))"

definition load_schema :: "uuid option \<Rightarrow> string option \<Rightarrow> string option \<Rightarrow> db \<Rightarrow> schema_error + context_schema" where
  "load_schema schema_id namespace version d =
     (case schema_id of
        Some i \<Rightarrow> (case find (\<lambda>c. cs_id c = i) (context_schemas d) of None \<Rightarrow> Inl SchemaNotFound | Some c \<Rightarrow> Inr c)
      | None \<Rightarrow>
          (case or_text namespace [] of
             [] \<Rightarrow> Inl NeitherIdNorNamespace
           | ns \<Rightarrow> (case (case version of None \<Rightarrow> latest_version_for_namespace ns d | Some v \<Rightarrow> Some v) of
               None \<Rightarrow> Inl SchemaNotFound
             | Some v \<Rightarrow> (case schema_at ns v d of None \<Rightarrow> Inl SchemaNotFound | Some c \<Rightarrow> Inr c))))"

definition list_schemas :: "string option \<Rightarrow> string option \<Rightarrow> db \<Rightarrow> context_schema list" where
  "list_schemas namespace module_id d =
     sort_key cs_registered_at (filter (\<lambda>c. namespace \<in> {None, Some (cs_namespace c)} \<and> module_id \<in> {None, Some (cs_module_id c)})
       (context_schemas d))"

section \<open>Violations\<close>

text \<open>A path is a list of keys and indices; Python compares two of them element by element.\<close>

datatype path_part = PathIndex nat | PathKey string

instantiation path_part :: linorder
begin

fun less_eq_path_part :: "path_part \<Rightarrow> path_part \<Rightarrow> bool" where
  "less_eq_path_part (PathIndex i) (PathIndex j) \<longleftrightarrow> i \<le> j"
| "less_eq_path_part (PathIndex i) (PathKey t) \<longleftrightarrow> True"
| "less_eq_path_part (PathKey t) (PathIndex i) \<longleftrightarrow> False"
| "less_eq_path_part (PathKey t) (PathKey u) \<longleftrightarrow> t \<le> u"

definition less_path_part :: "path_part \<Rightarrow> path_part \<Rightarrow> bool" where
  "less_path_part p q \<longleftrightarrow> p \<le> q \<and> \<not> q \<le> p"

instance
proof
  fix p q r :: path_part
  show "p < q \<longleftrightarrow> p \<le> q \<and> \<not> q \<le> p" by (rule less_path_part_def)
  show "p \<le> p" by (cases p) simp_all
  show "p \<le> q \<Longrightarrow> q \<le> r \<Longrightarrow> p \<le> r" by (cases p; cases q; cases r) simp_all
  show "p \<le> q \<Longrightarrow> q \<le> p \<Longrightarrow> p = q" by (cases p; cases q) simp_all
  show "p \<le> q \<or> q \<le> p" by (cases p; cases q) auto
qed

end

record violation =
  vi_message :: string
  vi_path :: "path_part list"
  vi_validator :: string

primrec path_json :: "path_part \<Rightarrow> json" where
  "path_json (PathIndex i) = JInt (int i)"
| "path_json (PathKey t) = JStr t"

definition violation_json :: "violation \<Rightarrow> json" where
  "violation_json v = JObj [(''message'', JStr (vi_message v)), (''path'', JList (map path_json (vi_path v))),
     (''validator'', JStr (vi_validator v))]"

section \<open>Items\<close>

definition capability_read :: "string \<Rightarrow> string" where
  "capability_read namespace = ''matter.context.'' @ namespace @ ''.read''"

definition capability_write :: "string \<Rightarrow> string" where
  "capability_write namespace = ''matter.context.'' @ namespace @ ''.write''"

record item_request =
  iw_matter_id :: uuid
  iw_namespace :: string
  iw_payload :: json
  iw_user_id :: uuid
  iw_schema_version :: "string option"
  iw_source_type :: "string option"
  iw_source_id :: "string option"
  iw_created_by_module_id :: "string option"

datatype context_error =
    ContextBlocked phase1_error
  | ItemNotFound uuid
  | NamespaceEmpty
  | MatterNotOwned
  | MissingInput
  | UnsupportedAction string

definition context_check :: "string \<Rightarrow> string \<Rightarrow> uuid \<Rightarrow> uuid \<Rightarrow> capability_request" where
  "context_check cap block_action user mid =
     \<lparr>cq_user_id = user, cq_capability = cap, cq_primitive = ''matter_context'', cq_block_action = block_action,
      cq_plugin = ''core'', cq_skill = None, cq_actor_id = Some user, cq_matter_id = Some mid,
      cq_resource_type = Some ''matter_context_item'', cq_resource_id = None\<rparr>"

text \<open>The schema of a write, or the block of the write with the payload of its row.\<close>

definition schema_block :: "(string \<times> json) list \<Rightarrow> blocked_payload" where
  "schema_block gate_state = \<lparr>bp_reason = SCHEMA_VIOLATION, bp_denied_capability = None, bp_gate_state = Some (JObj gate_state)\<rparr>"

definition resolve_schema ::
  "string \<Rightarrow> string option \<Rightarrow> db \<Rightarrow> ((blocked_payload \<times> (string \<times> json) list) option) + context_schema" where
  "resolve_schema namespace schema_version d =
     (let missing = (schema_block [(''namespace'', JStr namespace), (''schema_version'', jstr_opt schema_version), (''error'', JStr ''schema_not_found'')],
            [(''namespace'', JStr namespace), (''schema_version'', jstr_opt schema_version)]);
          load = (\<lambda>v. case load_schema None (Some namespace) (Some v) d of
              Inr c \<Rightarrow> Inr c | Inl SchemaNotFound \<Rightarrow> Inl (Some missing) | Inl _ \<Rightarrow> Inl None)
      in case schema_version of
           Some v \<Rightarrow> load v
         | None \<Rightarrow> (case latest_version_for_namespace namespace d of
             None \<Rightarrow> Inl (Some (schema_block [(''namespace'', JStr namespace), (''error'', JStr ''no_schema_registered'')],
                [(''namespace'', JStr namespace)]))
           | Some v \<Rightarrow> load v))"

definition validation_block ::
  "(json \<Rightarrow> json \<Rightarrow> violation list) \<Rightarrow> string \<Rightarrow> context_schema \<Rightarrow> json \<Rightarrow> (blocked_payload \<times> (string \<times> json) list) option" where
  "validation_block iter_errors namespace c payload =
     (let errors = sort_key vi_path (iter_errors (cs_json_schema c) payload)
      in if errors = [] then None
         else Some (schema_block [(''namespace'', JStr namespace), (''schema_id'', JStr (cs_id c)), (''schema_version'', JStr (cs_version c)),
             (''errors'', JList (map violation_json errors))],
           [(''namespace'', JStr namespace), (''schema_version'', JStr (cs_version c))]))"

definition audit_context ::
  "string \<Rightarrow> item_request \<Rightarrow> string option \<Rightarrow> string option \<Rightarrow> (string \<times> json) list \<Rightarrow> blocked_payload option \<Rightarrow> session \<Rightarrow> session" where
  "audit_context action q cap res_id payload blocked =
     audit_phase1 action ''matter_context'' (Some (iw_user_id q)) (Some (iw_matter_id q)) (iw_created_by_module_id q) cap
       (Some ''matter_context_item'') res_id payload blocked"

definition add_item :: "context_item \<Rightarrow> db \<Rightarrow> db" where
  "add_item i d = d\<lparr>context_items := context_items d @ [i]\<rparr>"

definition new_item :: "uuid \<Rightarrow> item_request \<Rightarrow> context_schema \<Rightarrow> int \<Rightarrow> context_item" where
  "new_item iid q c now =
     \<lparr>ci_id = iid, ci_matter_id = iw_matter_id q, ci_namespace = iw_namespace q, ci_schema_id = cs_id c,
      ci_schema_version = cs_version c, ci_payload = iw_payload q, ci_source_type = iw_source_type q,
      ci_source_id = iw_source_id q, ci_created_by_user_id = Some (iw_user_id q),
      ci_created_by_module_id = iw_created_by_module_id q, ci_created_at = now, ci_superseded_by_id = None\<rparr>"

definition created_payload :: "item_request \<Rightarrow> context_schema \<Rightarrow> (string \<times> json) list" where
  "created_payload q c =
     [(''namespace'', JStr (iw_namespace q)), (''schema_id'', JStr (cs_id c)), (''schema_version'', JStr (cs_version c)),
      (''source_type'', jstr_opt (iw_source_type q)), (''source_id'', jstr_opt (iw_source_id q))]"

definition write_item ::
  "(json \<Rightarrow> json \<Rightarrow> violation list) \<Rightarrow> uuid \<Rightarrow> item_request \<Rightarrow> session \<Rightarrow> (context_error + context_item) \<times> session" where
  "write_item iter_errors iid q s =
     (let cap = capability_write (iw_namespace q);
          refuse = (\<lambda>b t. (Inl (ContextBlocked (Phase1Blocked b)),
            audit_context ''matter_context.write.blocked'' q (Some cap) None t (Some b) s))
      in case check_or_block (context_check cap ''matter_context.write.blocked'' (iw_user_id q) (iw_matter_id q)) s of
           (Inl e, s1) \<Rightarrow> (Inl (ContextBlocked e), s1)
         | (Inr _, s1) \<Rightarrow>
             (case resolve_schema (iw_namespace q) (iw_schema_version q) (working s) of
                Inl None \<Rightarrow> (Inl NamespaceEmpty, s)
              | Inl (Some (b, t)) \<Rightarrow> refuse b t
              | Inr c \<Rightarrow>
                  (case validation_block iter_errors (iw_namespace q) c (iw_payload q) of
                     Some (b, t) \<Rightarrow> refuse b t
                   | None \<Rightarrow>
                       (let i = new_item iid q c (clock s)
                        in (Inr i, audit_context ''matter_context.item.created'' q (Some cap) (Some iid) (created_payload q c) None
                              (on_working (add_item i) s))))))"

record item_query =
  iq_matter_id :: uuid
  iq_namespace :: string
  iq_user_id :: uuid
  iq_schema_version :: "string option"
  iq_source_type :: "string option"
  iq_include_superseded :: bool
  iq_limit :: nat

text \<open>Newest first; rows of one instant in any order, here the older one first.\<close>

definition matching_items :: "item_query \<Rightarrow> db \<Rightarrow> context_item list" where
  "matching_items q d =
     take (iq_limit q) (sort_key (\<lambda>i. - ci_created_at i)
       (filter (\<lambda>i. ci_matter_id i = iq_matter_id q \<and> ci_namespace i = iq_namespace q
          \<and> (iq_include_superseded q \<or> ci_superseded_by_id i = None)
          \<and> iq_schema_version q \<in> {None, Some (ci_schema_version i)}
          \<and> (iq_source_type q = None \<or> ci_source_type i = iq_source_type q)) (context_items d)))"

definition read_payload :: "item_query \<Rightarrow> nat \<Rightarrow> (string \<times> json) list" where
  "read_payload q n =
     [(''namespace'', JStr (iq_namespace q)),
      (''filters'', JObj [(''schema_version'', jstr_opt (iq_schema_version q)), (''source_type'', jstr_opt (iq_source_type q)),
         (''include_superseded'', JBool (iq_include_superseded q))]),
      (''result_count'', JInt (int n))]"

definition read_items :: "item_query \<Rightarrow> session \<Rightarrow> (context_error + context_item list) \<times> session" where
  "read_items q s =
     (let cap = capability_read (iq_namespace q)
      in case check_or_block (context_check cap ''matter_context.read.blocked'' (iq_user_id q) (iq_matter_id q)) s of
           (Inl e, s1) \<Rightarrow> (Inl (ContextBlocked e), s1)
         | (Inr _, s1) \<Rightarrow>
             (let items = matching_items q (working s1)
              in (Inr items, audit_phase1 ''matter_context.item.read'' ''matter_context'' (Some (iq_user_id q)) (Some (iq_matter_id q))
                    None (Some cap) (Some ''matter_context_item'') None (read_payload q (length items)) None s1)))"

definition load_item :: "uuid \<Rightarrow> uuid \<Rightarrow> db \<Rightarrow> context_item option" where
  "load_item mid iid d = find (\<lambda>i. ci_id i = iid \<and> ci_matter_id i = mid) (context_items d)"

text \<open>The replacement is written like any item, under the version of the old one unless told otherwise; then the old row points at it.\<close>

definition set_superseded :: "uuid \<Rightarrow> uuid \<Rightarrow> db \<Rightarrow> db" where
  "set_superseded iid new_id d =
     d\<lparr>context_items := update_where (\<lambda>i. ci_id i = iid) (\<lambda>i. i\<lparr>ci_superseded_by_id := Some new_id\<rparr>) (context_items d)\<rparr>"

definition supersede_item ::
  "(json \<Rightarrow> json \<Rightarrow> violation list) \<Rightarrow> uuid \<Rightarrow> uuid \<Rightarrow> string option \<Rightarrow> item_request \<Rightarrow> session
    \<Rightarrow> (context_error + context_item \<times> context_item) \<times> session" where
  "supersede_item iter_errors new_id iid reason q s =
     (case load_item (iw_matter_id q) iid (working s) of
        None \<Rightarrow> (Inl (ItemNotFound iid), s)
      | Some old \<Rightarrow>
          (case write_item iter_errors new_id (q\<lparr>iw_namespace := ci_namespace old,
                  iw_schema_version := Some (or_text (iw_schema_version q) (ci_schema_version old))\<rparr>) s of
             (Inl e, s1) \<Rightarrow> (Inl e, s1)
           | (Inr new, s1) \<Rightarrow>
               (Inr (old\<lparr>ci_superseded_by_id := Some (ci_id new)\<rparr>, new),
                audit_context ''matter_context.item.superseded'' q None (Some (ci_id old))
                  [(''namespace'', JStr (ci_namespace old)), (''superseded_by_id'', JStr (ci_id new)), (''reason'', jstr_opt reason)] None
                  (on_working (set_superseded (ci_id old) (ci_id new)) s1))))"

section \<open>Routes\<close>

text \<open>A blocked request is committed, so that its row in the log stays; any other refusal leaves nothing.\<close>

definition settle :: "(context_error + 'a) \<times> session \<Rightarrow> (context_error + 'a) \<times> session" where
  "settle p = (case p of (Inr x, s) \<Rightarrow> (Inr x, commit s)
     | (Inl (ContextBlocked b), s) \<Rightarrow> (Inl (ContextBlocked b), commit s)
     | (Inl e, s) \<Rightarrow> (Inl e, rollback s))"

definition register_schema_endpoint ::
  "(json \<Rightarrow> string option) \<Rightarrow> uuid \<Rightarrow> user \<Rightarrow> string \<Rightarrow> string \<Rightarrow> string \<Rightarrow> json \<Rightarrow> string option \<Rightarrow> session
    \<Rightarrow> (schema_error + context_schema) \<times> session" where
  "register_schema_endpoint check_schema new_id u namespace module_id version json_schema registered_by s =
     (if \<not> u_is_superuser u then (Inl AdminRequired, s)
      else case register_schema check_schema new_id namespace module_id version json_schema registered_by s of
          (Inl e, s1) \<Rightarrow> (Inl e, s1)
        | (Inr c, s1) \<Rightarrow> (Inr c, commit s1))"

definition write_item_endpoint ::
  "(json \<Rightarrow> json \<Rightarrow> violation list) \<Rightarrow> uuid \<Rightarrow> string \<Rightarrow> uuid \<Rightarrow> item_request \<Rightarrow> session \<Rightarrow> (context_error + context_item) \<times> session" where
  "write_item_endpoint iter_errors iid slug user q s =
     (case resolve_owned_open_matter slug user (working s) of
        None \<Rightarrow> (Inl MatterNotOwned, s)
      | Some m \<Rightarrow> settle (write_item iter_errors iid (q\<lparr>iw_matter_id := m_id m, iw_user_id := user\<rparr>) s))"

definition read_items_endpoint ::
  "string \<Rightarrow> uuid \<Rightarrow> item_query \<Rightarrow> session \<Rightarrow> (context_error + context_item list) \<times> session" where
  "read_items_endpoint slug user q s =
     (case resolve_owned_open_matter slug user (working s) of
        None \<Rightarrow> (Inl MatterNotOwned, s)
      | Some m \<Rightarrow> settle (read_items (q\<lparr>iq_matter_id := m_id m, iq_user_id := user\<rparr>) s))"

definition patch_item_endpoint ::
  "(json \<Rightarrow> json \<Rightarrow> violation list) \<Rightarrow> uuid \<Rightarrow> string \<Rightarrow> uuid \<Rightarrow> uuid \<Rightarrow> string \<Rightarrow> json option \<Rightarrow> string option \<Rightarrow> item_request \<Rightarrow> session
    \<Rightarrow> (context_error + context_item) \<times> session" where
  "patch_item_endpoint iter_errors new_id slug user iid action new_payload reason q s =
     (case resolve_owned_open_matter slug user (working s) of
        None \<Rightarrow> (Inl MatterNotOwned, s)
      | Some m \<Rightarrow>
          if action \<noteq> ''supersede'' then (Inl (UnsupportedAction action), s)
          else (case new_payload of
              None \<Rightarrow> (Inl MissingInput, s)
            | Some p \<Rightarrow>
                (case settle (supersede_item iter_errors new_id iid reason
                    (q\<lparr>iw_matter_id := m_id m, iw_user_id := user, iw_payload := p\<rparr>) s) of
                   (Inl e, s1) \<Rightarrow> (Inl e, s1)
                 | (Inr (old, new), s1) \<Rightarrow> (Inr new, s1))))"

section \<open>What a request does to the store\<close>

lemma context_tables [simp, frame_simps]:
  "context_schemas (add_item i d) = context_schemas d" "context_items (add_item i d) = context_items d @ [i]"
  "context_items (add_schema c d) = context_items d" "context_schemas (add_schema c d) = context_schemas d @ [c]"
  "context_schemas (set_superseded iid n d) = context_schemas d" "matters (set_superseded iid n d) = matters d"
  "matters (add_item i d) = matters d" "grants (set_superseded iid n d) = grants d" "grants (add_item i d) = grants d"
  by (simp_all add: add_item_def add_schema_def set_superseded_def)

lemma audit_context_session [simp]:
  "working (audit_context a q cap rid t b s) = add_event (stamp s (phase1_event a ''matter_context'' (Some (iw_user_id q))
      (Some (iw_matter_id q)) (iw_created_by_module_id q) cap (Some ''matter_context_item'') rid t b)) (working s)"
  "durable (audit_context a q cap rid t b s) = durable s" "clock (audit_context a q cap rid t b s) = clock s"
  "bound (audit_context a q cap rid t b s) = bound s"
  by (simp_all add: audit_context_def audit_phase1_def)

lemma context_check_frame:
  assumes "check_or_block q s = (r, s')"
  shows "context_items (working s') = context_items (working s)" "context_schemas (working s') = context_schemas (working s)"
  using audit_only_frame [OF check_or_block_audits [where q = q and s = s]] assms by simp_all

lemma context_check_cases:
  assumes "check_or_block q s = (r, s')"
  shows "r = Inr () \<and> s' = s \<or> (\<exists>e. r = Inl e)"
  using assms by (cases "request_granted q (working s)") (auto simp: check_or_block_pass check_or_block_deny)

lemma schema_at_Some: "schema_at ns v d = Some c \<Longrightarrow> c \<in> set (context_schemas d) \<and> cs_namespace c = ns \<and> cs_version c = v"
  by (auto simp: schema_at_def dest: find_SomeD)

lemma load_schema_namespace: "load_schema None (Some ns) (Some v) d
    = (if ns = [] then Inl NeitherIdNorNamespace else case schema_at ns v d of None \<Rightarrow> Inl SchemaNotFound | Some c \<Rightarrow> Inr c)"
  by (cases ns) (simp_all add: load_schema_def or_text_def)

lemma resolve_schema_row:
  assumes "resolve_schema ns v d = Inr c"
  shows "c \<in> set (context_schemas d) \<and> cs_namespace c = ns \<and> (v = None \<or> v = Some (cs_version c))"
  using assms by (auto simp: resolve_schema_def load_schema_namespace Let_def dest: schema_at_Some split: option.splits if_splits)

lemma validation_passes: "validation_block iter ns c p = None \<Longrightarrow> iter (cs_json_schema c) p = []"
  by (auto simp: validation_block_def Let_def split: if_splits) (metis set_empty set_sort)

text \<open>A write that succeeds appends one item under a registered schema it meets; any other leaves the tables.\<close>

lemma write_item_cases:
  assumes "write_item iter iid q s = (r, s')"
  obtains (written) c where "r = Inr (new_item iid q c (clock s))" "c \<in> set (context_schemas (working s))"
      "cs_namespace c = iw_namespace q" "iter (cs_json_schema c) (iw_payload q) = []"
      "iw_schema_version q = None \<or> iw_schema_version q = Some (cs_version c)"
      "context_items (working s') = context_items (working s) @ [new_item iid q c (clock s)]"
      "context_schemas (working s') = context_schemas (working s)"
      "request_granted (context_check (capability_write (iw_namespace q)) ''matter_context.write.blocked'' (iw_user_id q) (iw_matter_id q)) (working s)"
  | (refused) e where "r = Inl e" "context_items (working s') = context_items (working s)"
      "context_schemas (working s') = context_schemas (working s)" "(\<exists>b. e = ContextBlocked b) \<or> s' = s"
proof (cases "check_or_block (context_check (capability_write (iw_namespace q)) ''matter_context.write.blocked'' (iw_user_id q) (iw_matter_id q)) s")
  case (Pair g s1)
  note frame = context_check_frame [OF Pair]
  show thesis
  proof (cases g)
    case (Inl e)
    with assms Pair frame show thesis by (intro refused [of "ContextBlocked e"]) (auto simp: write_item_def Let_def)
  next
    case (Inr u)
    with context_check_cases [OF Pair] have s1: "s1 = s" by simp
    have granted: "request_granted (context_check (capability_write (iw_namespace q)) ''matter_context.write.blocked'' (iw_user_id q) (iw_matter_id q)) (working s)"
      using Pair Inr core_gate.gate_passes_iff by (metis fst_conv old.unit.exhaust)
    show thesis
    proof (cases "resolve_schema (iw_namespace q) (iw_schema_version q) (working s)")
      case (Inl b)
      with assms Pair Inr refused show thesis by (cases b) (auto simp: write_item_def Let_def split: prod.splits)
    next
      case (Inr c)
      note row = resolve_schema_row [OF Inr]
      show thesis
      proof (cases "validation_block iter (iw_namespace q) c (iw_payload q)")
        case None
        with assms Pair \<open>g = Inr u\<close> Inr have "r = Inr (new_item iid q c (clock s))"
          "context_items (working s') = context_items (working s) @ [new_item iid q c (clock s)]"
          "context_schemas (working s') = context_schemas (working s)"
          by (auto simp: write_item_def Let_def)
        then show thesis using written row validation_passes [OF None] granted by blast
      next
        case (Some b)
        with assms Pair \<open>g = Inr u\<close> Inr refused show thesis by (auto simp: write_item_def Let_def split: prod.splits)
      qed
    qed
  qed
qed

section \<open>The invariant of the store\<close>

definition meets_schema :: "(json \<Rightarrow> string option) \<Rightarrow> (json \<Rightarrow> json \<Rightarrow> violation list) \<Rightarrow> context_schema list \<Rightarrow> context_item \<Rightarrow> bool" where
  "meets_schema check_schema iter_errors cs i \<longleftrightarrow>
     (\<exists>c\<in>set cs. cs_id c = ci_schema_id i \<and> cs_namespace c = ci_namespace i \<and> cs_version c = ci_schema_version i
        \<and> check_schema (cs_json_schema c) = None \<and> iter_errors (cs_json_schema c) (ci_payload i) = [])"

text \<open>A pointer leads to a later row of the same matter and namespace.\<close>

primrec forward :: "context_item list \<Rightarrow> bool" where
  "forward [] \<longleftrightarrow> True"
| "forward (i # is) \<longleftrightarrow> (case ci_superseded_by_id i of None \<Rightarrow> True
     | Some n \<Rightarrow> (\<exists>j\<in>set is. ci_id j = n \<and> ci_matter_id j = ci_matter_id i \<and> ci_namespace j = ci_namespace i)) \<and> forward is"

definition context_ok :: "(json \<Rightarrow> string option) \<Rightarrow> (json \<Rightarrow> json \<Rightarrow> violation list) \<Rightarrow> db \<Rightarrow> bool" where
  "context_ok check_schema iter_errors d \<longleftrightarrow>
     distinct (map cs_id (context_schemas d)) \<and> distinct (map (\<lambda>c. (cs_namespace c, cs_version c)) (context_schemas d))
     \<and> (\<forall>c\<in>set (context_schemas d). check_schema (cs_json_schema c) = None)
     \<and> distinct (map ci_id (context_items d)) \<and> (\<forall>i\<in>set (context_items d). meets_schema check_schema iter_errors (context_schemas d) i)
     \<and> forward (context_items d)"

definition context_inv :: "(json \<Rightarrow> string option) \<Rightarrow> (json \<Rightarrow> json \<Rightarrow> violation list) \<Rightarrow> session \<Rightarrow> bool" where
  "context_inv check_schema iter_errors s \<longleftrightarrow> durable s = working s \<and> context_ok check_schema iter_errors (working s)"

lemma context_ok_cong:
  "context_schemas d' = context_schemas d \<Longrightarrow> context_items d' = context_items d \<Longrightarrow> context_ok chk iter d' = context_ok chk iter d"
  by (simp add: context_ok_def)

lemma forward_append: "forward is \<Longrightarrow> ci_superseded_by_id i = None \<Longrightarrow> forward (is @ [i])"
  by (induction "is") (auto split: option.splits)

lemma update_where_in: "x \<in> set xs \<Longrightarrow> (if P x then f x else x) \<in> set (update_where P f xs)"
  by (auto simp: set_update_where)

lemma forward_superseded:
  assumes "forward is" and "ci_superseded_by_id new = None" and "ci_id new \<noteq> iid"
    and "\<And>i. i \<in> set is \<Longrightarrow> ci_id i = iid \<Longrightarrow> ci_matter_id i = ci_matter_id new \<and> ci_namespace i = ci_namespace new"
  shows "forward (update_where (\<lambda>i. ci_id i = iid) (\<lambda>i. i\<lparr>ci_superseded_by_id := Some (ci_id new)\<rparr>) (is @ [new]))"
  using assms(1,4)
proof (induction "is")
  case Nil
  then show ?case using assms(2,3) by simp
next
  case (Cons i js)
  let ?u = "update_where (\<lambda>i. ci_id i = iid) (\<lambda>i. i\<lparr>ci_superseded_by_id := Some (ci_id new)\<rparr>)"
  have IH: "forward (?u (js @ [new]))" using Cons by simp
  have new: "new \<in> set (?u (js @ [new]))" using assms(3) by (auto simp: set_update_where)
  have kept: "\<exists>j'\<in>set (?u (js @ [new])). ci_id j' = ci_id j \<and> ci_matter_id j' = ci_matter_id j \<and> ci_namespace j' = ci_namespace j"
    if "j \<in> set js" for j
    using update_where_in [of j "js @ [new]" "\<lambda>i. ci_id i = iid" "\<lambda>i. i\<lparr>ci_superseded_by_id := Some (ci_id new)\<rparr>"] that
    by (intro bexI [where x = "if ci_id j = iid then j\<lparr>ci_superseded_by_id := Some (ci_id new)\<rparr> else j"]) auto
  show ?case
  proof (cases "ci_id i = iid")
    case True
    with Cons.prems(2) [of i] new IH show ?thesis by auto
  next
    case False
    with Cons.prems(1) kept IH show ?thesis by (fastforce split: option.splits)
  qed
qed

lemma meets_schema_mono: "meets_schema chk iter cs i \<Longrightarrow> set cs \<subseteq> set cs' \<Longrightarrow> meets_schema chk iter cs' i"
  by (auto simp: meets_schema_def)

lemma meets_schema_superseded [simp]: "meets_schema chk iter cs (i\<lparr>ci_superseded_by_id := n\<rparr>) = meets_schema chk iter cs i"
  by (simp add: meets_schema_def)

lemma written_item_ok:
  assumes ok: "context_ok chk iter (working s)" and "write_item iter iid q s = (r, s')"
    and fresh: "iid \<notin> ci_id ` set (context_items (working s))"
  shows "context_ok chk iter (working s')"
  using assms(2)
proof (cases rule: write_item_cases)
  case (written c)
  have "meets_schema chk iter (context_schemas (working s)) (new_item iid q c (clock s))"
    using ok written(2-4) by (auto simp: meets_schema_def new_item_def context_ok_def)
  then show ?thesis
    using ok fresh written(6,7) forward_append by (auto simp: context_ok_def new_item_def)
next
  case (refused e)
  then show ?thesis using ok context_ok_cong by blast
qed

lemma map_update_where_same: "(\<And>x. g (f x) = g x) \<Longrightarrow> map g (update_where P f xs) = map g xs"
  by (induction xs) simp_all

lemma superseded_ok:
  assumes ok: "context_ok chk iter (working s)" and r: "supersede_item iter nid iid reason q s = (r, s')"
    and fresh: "nid \<notin> ci_id ` set (context_items (working s))"
  shows "context_ok chk iter (working s') \<and> ((\<exists>e. r = Inl e \<and> ((\<exists>b. e = ContextBlocked b) \<or> s' = s)) \<or> (\<exists>x. r = Inr x))"
proof (cases "load_item (iw_matter_id q) iid (working s)")
  case None
  with r ok show ?thesis by (auto simp: supersede_item_def)
next
  case (Some old)
  let ?q = "q\<lparr>iw_namespace := ci_namespace old, iw_schema_version := Some (or_text (iw_schema_version q) (ci_schema_version old))\<rparr>"
  have old: "old \<in> set (context_items (working s))" "ci_id old = iid" "ci_matter_id old = iw_matter_id q"
    using Some by (auto simp: load_item_def dest: find_SomeD)
  obtain w s1 where w: "write_item iter nid ?q s = (w, s1)" by fastforce
  note ok1 = written_item_ok [OF ok w fresh]
  from w show ?thesis
  proof (cases rule: write_item_cases)
    case (written c)
    let ?new = "new_item nid ?q c (clock s)"
    have s': "context_items (working s') = update_where (\<lambda>i. ci_id i = iid) (\<lambda>i. i\<lparr>ci_superseded_by_id := Some (ci_id ?new)\<rparr>) (context_items (working s) @ [?new])"
      "context_schemas (working s') = context_schemas (working s1)" and r': "\<exists>x. r = Inr x"
      using r Some w written(1,6) old(2) by (auto simp: supersede_item_def set_superseded_def new_item_def)
    have same: "i = old" if "i \<in> set (context_items (working s))" "ci_id i = iid" for i
      using ok old that inj_onD [of ci_id "set (context_items (working s))" i old] by (simp add: context_ok_def distinct_map)
    have "forward (context_items (working s'))"
      unfolding s'(1)
    proof (rule forward_superseded)
      show "forward (context_items (working s))" using ok by (simp add: context_ok_def)
      show "ci_superseded_by_id ?new = None" by (simp add: new_item_def)
      show "ci_id ?new \<noteq> iid" using old fresh by (auto simp: new_item_def)
      show "ci_matter_id i = ci_matter_id ?new \<and> ci_namespace i = ci_namespace ?new"
        if "i \<in> set (context_items (working s))" "ci_id i = iid" for i
        using same [OF that] old(3) by (simp add: new_item_def)
    qed
    moreover have "distinct (map ci_id (context_items (working s')))"
      using ok1 written(6) by (simp add: s'(1) map_update_where_same context_ok_def)
    moreover have "\<forall>i\<in>set (context_items (working s')). meets_schema chk iter (context_schemas (working s')) i"
      using ok1 written(6) by (auto simp: s' context_ok_def set_update_where)
    ultimately show ?thesis using ok1 r' by (simp add: context_ok_def s'(2))
  next
    case (refused e)
    with r Some w ok1 show ?thesis by (auto simp: supersede_item_def)
  qed
qed
section \<open>Histories of requests\<close>

lemma settle_inv:
  assumes "durable s = working s" and "context_ok chk iter (working s)" and ok: "context_ok chk iter (working s1)"
    and "\<And>e. r = Inl e \<Longrightarrow> (\<exists>b. e = ContextBlocked b) \<or> s1 = s"
  shows "context_inv chk iter (snd (settle (r, s1)))"
  using assms by (auto simp: settle_def context_inv_def split: sum.split context_error.split)

lemma register_schema_ok:
  assumes "context_ok chk iter (working s)" and "register_schema chk nid ns mo v j by_id s = (r, s')"
    and "nid \<notin> cs_id ` set (context_schemas (working s))"
  shows "context_ok chk iter (working s') \<and> (s' = s \<or> (\<exists>c. r = Inr c))"
proof -
  have "(ns, v) \<notin> (\<lambda>c. (cs_namespace c, cs_version c)) ` set (context_schemas (working s))" if "schema_at ns v (working s) = None"
    using that by (auto simp: schema_at_def find_None_iff)
  moreover have "meets_schema chk iter cs i \<Longrightarrow> meets_schema chk iter (cs @ [c]) i" for cs i c by (auto simp: meets_schema_def)
  ultimately show ?thesis
    using assms by (auto simp: register_schema_def validate_json_schema_def context_ok_def Let_def split: json.splits option.splits)
qed

inductive context_step :: "(json \<Rightarrow> string option) \<Rightarrow> (json \<Rightarrow> json \<Rightarrow> violation list) \<Rightarrow> session \<Rightarrow> session \<Rightarrow> bool" for chk iter where
  registering: "register_schema_endpoint chk nid u ns mo v j by_id s = (r, s') \<Longrightarrow> nid \<notin> cs_id ` set (context_schemas (working s))
    \<Longrightarrow> context_step chk iter s s'"
| writing: "write_item_endpoint iter iid slug user q s = (r, s') \<Longrightarrow> iid \<notin> ci_id ` set (context_items (working s)) \<Longrightarrow> context_step chk iter s s'"
| reading: "read_items_endpoint slug user iq s = (r, s') \<Longrightarrow> context_step chk iter s s'"
| patching: "patch_item_endpoint iter nid slug user iid action p reason q s = (r, s') \<Longrightarrow> nid \<notin> ci_id ` set (context_items (working s))
    \<Longrightarrow> context_step chk iter s s'"
| waiting: "context_step chk iter s (s\<lparr>clock := t\<rparr>)"

lemma read_items_ok:
  assumes "context_ok chk iter (working s)" and "read_items q s = (r, s')"
  shows "context_ok chk iter (working s') \<and> (r = Inl e \<longrightarrow> (\<exists>b. e = ContextBlocked b))"
proof (cases "check_or_block (context_check (capability_read (iq_namespace q)) ''matter_context.read.blocked'' (iq_user_id q) (iq_matter_id q)) s")
  case (Pair g s1)
  have "context_ok chk iter (working s1)" using context_ok_cong [OF context_check_frame(2,1) [OF Pair]] assms(1) by simp
  moreover have "context_ok chk iter (add_event e d) = context_ok chk iter d" for e d by (rule context_ok_cong) simp_all
  ultimately show ?thesis using assms(2) Pair by (auto simp: read_items_def Let_def audit_phase1_def split: sum.splits)
qed

lemma context_step_inv:
  assumes "context_inv chk iter s" and "context_step chk iter s s'"
  shows "context_inv chk iter s'"
  using assms(2,1)
proof (induction rule: context_step.induct)
  case (registering nid u ns mo v j by_id s r s')
  obtain w s1 where w: "register_schema chk nid ns mo v j by_id s = (w, s1)" by fastforce
  note ok = register_schema_ok [OF _ w registering(2), of iter]
  show ?case
    using registering(1,3) w ok by (auto simp: register_schema_endpoint_def context_inv_def split: if_splits sum.splits)
next
  case (writing iid slug user q s r s')
  have "context_inv chk iter (snd (settle (write_item iter iid (q\<lparr>iw_matter_id := m, iw_user_id := user\<rparr>) s)))" for m
  proof -
    obtain w s1 where w: "write_item iter iid (q\<lparr>iw_matter_id := m, iw_user_id := user\<rparr>) s = (w, s1)" by fastforce
    have "(\<exists>b. e = ContextBlocked b) \<or> s1 = s" if "w = Inl e" for e using w that by (cases rule: write_item_cases) auto
    with writing(3) written_item_ok [OF _ w writing(2), of chk] w show ?thesis
      unfolding w by (intro settle_inv [of s]) (auto simp: context_inv_def)
  qed
  then show ?case using writing(1,3) by (auto simp: write_item_endpoint_def split: option.splits) (metis snd_conv)
next
  case (reading slug user iq s r s')
  have "context_inv chk iter (snd (settle (read_items q s)))" for q
  proof -
    obtain w s1 where w: "read_items q s = (w, s1)" by fastforce
    show ?thesis using read_items_ok [OF _ w] reading(2) unfolding w by (intro settle_inv [of s]) (auto simp: context_inv_def)
  qed
  then show ?case using reading by (auto simp: read_items_endpoint_def split: option.splits) (metis snd_conv)
next
  case (patching nid slug user iid action p reason q s r s')
  have "context_inv chk iter (snd (settle (supersede_item iter nid iid reason q' s)))" for q'
  proof -
    obtain w s1 where w: "supersede_item iter nid iid reason q' s = (w, s1)" by fastforce
    show ?thesis
      using superseded_ok [OF _ w patching(2), of chk] patching(3) unfolding w by (intro settle_inv [of s]) (auto simp: context_inv_def)
  qed
  then show ?case
    using patching(1,3) by (auto simp: patch_item_endpoint_def split: option.splits if_splits prod.splits sum.splits) (metis snd_conv)+
next
  case (waiting s t)
  then show ?case by (simp add: context_inv_def)
qed

interpretation context_life: invariant_system "context_step chk iter" "context_inv chk iter" for chk iter
  by unfold_locales (rule context_step_inv)

definition empty_store :: "session \<Rightarrow> bool" where
  "empty_store s \<longleftrightarrow> durable s = working s \<and> context_schemas (working s) = [] \<and> context_items (working s) = []"

lemma empty_store_inv: "empty_store s \<Longrightarrow> context_inv chk iter s"
  by (simp add: empty_store_def context_inv_def context_ok_def)

lemma filter_distinct_key: "distinct (map f xs) \<Longrightarrow> x \<in> set xs \<Longrightarrow> filter (\<lambda>y. f y = f x) xs = [x]"
proof (induction xs)
  case (Cons a xs)
  show ?case
  proof (cases "x = a")
    case True
    with Cons.prems show ?thesis by (auto simp: filter_empty_conv image_iff)
  next
    case False
    with Cons have "f a \<noteq> f x" by (auto simp: image_iff)
    with Cons False show ?thesis by simp
  qed
qed simp

text \<open>C31. Every stored item meets the schema it names. Whatever requests come - registrations, writes,
  supersessions, reads, refused ones among them - each committed item names exactly one registered
  schema, with its namespace and version; that schema passed the meta-schema, and the payload of
  the item has no violation under it. Schemas are never changed under their items.\<close>

theorem stored_items_meet_their_schema:
  assumes "empty_store s" and "(context_step check_schema iter_errors)\<^sup>*\<^sup>* s s'" and "i \<in> set (context_items (durable s'))"
  shows "\<exists>c. [c] = filter (\<lambda>c. cs_id c = ci_schema_id i) (context_schemas (durable s'))
    \<and> cs_namespace c = ci_namespace i \<and> cs_version c = ci_schema_version i
    \<and> check_schema (cs_json_schema c) = None \<and> iter_errors (cs_json_schema c) (ci_payload i) = []"
proof -
  have inv: "context_inv check_schema iter_errors s'"
    using context_life.reachable_inv [OF assms(2) empty_store_inv [OF assms(1)]] .
  then obtain c where c: "c \<in> set (context_schemas (durable s'))" "cs_id c = ci_schema_id i"
    "cs_namespace c = ci_namespace i" "cs_version c = ci_schema_version i"
    "check_schema (cs_json_schema c) = None" "iter_errors (cs_json_schema c) (ci_payload i) = []"
    using assms(3) unfolding context_inv_def context_ok_def meets_schema_def by metis
  have "distinct (map cs_id (context_schemas (durable s')))" using inv by (simp add: context_inv_def context_ok_def)
  from filter_distinct_key [OF this c(1)] have "[c] = filter (\<lambda>y. cs_id y = ci_schema_id i) (context_schemas (durable s'))"
    by (simp add: c(2))
  with c show ?thesis by blast
qed

section \<open>Supersession\<close>

definition replaced_by :: "db \<Rightarrow> context_item \<Rightarrow> context_item \<Rightarrow> bool" where
  "replaced_by d i j \<longleftrightarrow> i \<in> set (context_items d) \<and> j \<in> set (context_items d) \<and> ci_superseded_by_id i = Some (ci_id j)"

lemma forward_ends:
  assumes "forward is" and "i \<in> set is"
  shows "\<exists>j\<in>set is. (\<lambda>x y. x \<in> set is \<and> y \<in> set is \<and> ci_superseded_by_id x = Some (ci_id y))\<^sup>*\<^sup>* i j
    \<and> ci_superseded_by_id j = None \<and> ci_matter_id j = ci_matter_id i \<and> ci_namespace j = ci_namespace i"
  using assms
proof (induction "is" arbitrary: i)
  case (Cons k ks)
  let ?R = "\<lambda>xs x y. x \<in> set xs \<and> y \<in> set xs \<and> ci_superseded_by_id x = Some (ci_id y)"
  have mono: "(?R ks)\<^sup>*\<^sup>* x y \<Longrightarrow> (?R (k # ks))\<^sup>*\<^sup>* x y" for x y
    by (induction rule: rtranclp_induct) (auto intro: rtranclp.rtrancl_into_rtrancl)
  have tail: "\<exists>j\<in>set (k # ks). (?R (k # ks))\<^sup>*\<^sup>* x j \<and> ci_superseded_by_id j = None \<and> ci_matter_id j = ci_matter_id x \<and> ci_namespace j = ci_namespace x"
    if "x \<in> set ks" for x
    using Cons.IH [of x] Cons.prems(1) that mono by fastforce
  show ?case
  proof (cases "i \<in> set ks")
    case True
    then show ?thesis by (rule tail)
  next
    case False
    then have i: "i = k" using Cons.prems(2) by simp
    show ?thesis
    proof (cases "ci_superseded_by_id k")
      case None
      then show ?thesis using i by auto
    next
      case (Some n)
      then obtain j where j: "j \<in> set ks" "ci_id j = n" "ci_matter_id j = ci_matter_id k" "ci_namespace j = ci_namespace k"
        using Cons.prems(1) by auto
      obtain l where l: "l \<in> set (k # ks)" "(?R (k # ks))\<^sup>*\<^sup>* j l" "ci_superseded_by_id l = None"
        "ci_matter_id l = ci_matter_id j" "ci_namespace l = ci_namespace j" using tail [OF j(1)] by blast
      have "(?R (k # ks)) k j" using j Some by simp
      then have "(?R (k # ks))\<^sup>*\<^sup>* k l" using l(2) by (rule converse_rtranclp_into_rtranclp)
      with l j i show ?thesis by (intro bexI [where x = l]) auto
    qed
  qed
qed simp


lemma supersede_item_success:
  assumes "supersede_item iter nid iid reason q s = (Inr (old, new), s')"
  obtains i where "load_item (iw_matter_id q) iid (working s) = Some i" "old = i\<lparr>ci_superseded_by_id := Some nid\<rparr>"
    "ci_id new = nid" "ci_superseded_by_id new = None" "ci_matter_id new = ci_matter_id i" "ci_namespace new = ci_namespace i"
    "context_items (working s') = update_where (\<lambda>i. ci_id i = iid) (\<lambda>i. i\<lparr>ci_superseded_by_id := Some nid\<rparr>) (context_items (working s) @ [new])"
proof (cases "load_item (iw_matter_id q) iid (working s)")
  case None
  with assms show thesis by (simp add: supersede_item_def)
next
  case (Some i)
  let ?q = "q\<lparr>iw_namespace := ci_namespace i, iw_schema_version := Some (or_text (iw_schema_version q) (ci_schema_version i))\<rparr>"
  have i: "ci_id i = iid" "ci_matter_id i = iw_matter_id q" using Some by (auto simp: load_item_def dest: find_SomeD)
  obtain w s1 where w: "write_item iter nid ?q s = (w, s1)" by fastforce
  from w show thesis
  proof (cases rule: write_item_cases)
    case (written c)
    with assms Some w i have "old = i\<lparr>ci_superseded_by_id := Some nid\<rparr>" "new = new_item nid ?q c (clock s)"
      "context_items (working s') = update_where (\<lambda>i. ci_id i = iid) (\<lambda>i. i\<lparr>ci_superseded_by_id := Some nid\<rparr>) (context_items (working s) @ [new])"
      by (auto simp: supersede_item_def set_superseded_def new_item_def)
    then show thesis using that [OF Some] i by (simp add: new_item_def)
  next
    case (refused e)
    with assms Some w show thesis by (simp add: supersede_item_def)
  qed
qed

lemma forward_targets: "forward is \<Longrightarrow> i \<in> set is \<Longrightarrow> ci_superseded_by_id i = Some n \<Longrightarrow> n \<in> ci_id ` set is"
  by (induction "is") (auto split: option.splits)

text \<open>An item can be replaced twice. Nothing asks whether an item is still live: superseding one that
  has been superseded succeeds like the first time and turns its pointer to the second replacement.
  Both replacements are live afterwards, and nothing points at the first any more.\<close>

theorem superseding_twice_forks:
  assumes "context_ok chk iter (working s)"
    and one: "supersede_item iter n1 iid reason1 q1 s = (Inr (old1, new1), s1)"
    and two: "supersede_item iter n2 iid reason2 q2 s1 = (Inr (old2, new2), s2)"
    and fresh: "n1 \<notin> ci_id ` set (context_items (working s))" "n2 \<notin> ci_id ` set (context_items (working s1))"
  shows "ci_superseded_by_id old2 = Some n2 \<and> {new1, new2} \<subseteq> set (context_items (working s2))
    \<and> ci_superseded_by_id new1 = None \<and> ci_superseded_by_id new2 = None \<and> ci_matter_id new1 = ci_matter_id new2
    \<and> ci_namespace new1 = ci_namespace new2 \<and> [i\<leftarrow>context_items (working s2). ci_superseded_by_id i = Some n1] = []"
proof -
  from one obtain i where i: "load_item (iw_matter_id q1) iid (working s) = Some i" "ci_id new1 = n1" "ci_superseded_by_id new1 = None"
    "ci_matter_id new1 = ci_matter_id i" "ci_namespace new1 = ci_namespace i"
    "context_items (working s1) = update_where (\<lambda>i. ci_id i = iid) (\<lambda>i. i\<lparr>ci_superseded_by_id := Some n1\<rparr>) (context_items (working s) @ [new1])"
    by (rule supersede_item_success)
  from two obtain j where j: "load_item (iw_matter_id q2) iid (working s1) = Some j" "old2 = j\<lparr>ci_superseded_by_id := Some n2\<rparr>"
    "ci_id new2 = n2" "ci_superseded_by_id new2 = None" "ci_matter_id new2 = ci_matter_id j" "ci_namespace new2 = ci_namespace j"
    "context_items (working s2) = update_where (\<lambda>i. ci_id i = iid) (\<lambda>i. i\<lparr>ci_superseded_by_id := Some n2\<rparr>) (context_items (working s1) @ [new2])"
    by (rule supersede_item_success)
  have ids: "ci_id i = iid" "i \<in> set (context_items (working s))" "ci_id j = iid" "j \<in> set (context_items (working s1))"
    using i(1) j(1) by (auto simp: load_item_def dest: find_SomeD)
  then have n1: "n1 \<noteq> iid" using fresh(1) by auto
  have only: "x = i" if "x \<in> set (context_items (working s))" "ci_id x = iid" for x
    using assms(1) that ids(1,2) inj_onD [of ci_id "set (context_items (working s))" x i] by (simp add: context_ok_def distinct_map)
  have ji: "j = i\<lparr>ci_superseded_by_id := Some n1\<rparr>"
    using ids(3,4) only i(2,6) n1 by (auto simp: set_update_where)
  have n2: "n2 \<noteq> iid" "n2 \<noteq> n1" using fresh(2) ids(3,4) i(2,6) n1 by (auto simp: set_update_where)
  have none: "ci_superseded_by_id x \<noteq> Some n1" if "x \<in> set (context_items (working s))" for x
    using forward_targets [OF _ that] fresh(1) assms(1) by (auto simp: context_ok_def)
  have mid: "new1 \<in> set (context_items (working s1))" "ci_superseded_by_id x \<noteq> Some n1 \<or> ci_id x = iid"
    if "x \<in> set (context_items (working s1))" for x
    using that none i(2,3) n1 unfolding i(6) by (auto simp: set_update_where)
  have "ci_superseded_by_id x \<noteq> Some n1" if "x \<in> set (context_items (working s2))" for x
    using that mid(2) n2(2) j(4) unfolding j(7) by (auto simp: set_update_where)
  then have "[i\<leftarrow>context_items (working s2). ci_superseded_by_id i = Some n1] = []" by (simp add: filter_empty_conv)
  moreover have "new1 \<in> set (context_items (working s2))" "new2 \<in> set (context_items (working s2))"
    using mid(1) [OF ids(4)] i(2) j(3) n1 n2(1) unfolding j(7) by (auto simp: set_update_where)
  ultimately show ?thesis using i(3-5) j(2,4-6) ji by simp
qed
section \<open>Witnesses\<close>

definition context_start :: session where
  "context_start = open_session (empty_db\<lparr>matters := [\<lparr>m_id = ''m'', m_slug = ''acme'', m_title = ''Acme'', m_status = ''open'',
       m_privilege_posture = ''A_cleared'', m_created_by_id = ''u'', m_retention_until = None, m_default_model_id = ''stub'',
     m_matter_type = ''employment_tribunal'', m_cause = None, m_case_theory = None,
     m_pivot_fact = None, m_facts = JObj [], m_opened_at = 0, m_closed_at = None\<rparr>],
     grants := [\<lparr>g_id = ''g'', g_user_id = ''u'', g_plugin = ''core'', g_skill = ''matter_context'',
       g_capability = ''matter.context.facts.write'', g_granted_by_user_id = None, g_capability_version = None, g_granted_at_module_version = None, g_permissions_snapshot = None, g_scope_type = ''workspace'', g_scope_id = None\<rparr>]\<rparr>) 3"

definition fact :: "string \<Rightarrow> item_request" where
  "fact t = \<lparr>iw_matter_id = ''m'', iw_namespace = ''facts'', iw_payload = JObj [(''fact'', JStr t)], iw_user_id = ''u'', iw_schema_version = None,
     iw_source_type = None, iw_source_id = None, iw_created_by_module_id = None\<rparr>"

definition any_schema :: "json \<Rightarrow> string option" where "any_schema j = None"
definition no_violation :: "json \<Rightarrow> json \<Rightarrow> violation list" where "no_violation c p = []"

definition registered :: "(schema_error + context_schema) \<times> session" where
  "registered = register_schema_endpoint any_schema ''s1'' \<lparr>u_id = ''u'', u_is_superuser = True\<rparr> ''facts'' ''core'' ''1.0.0'' (JObj []) None context_start"

definition noted :: "(context_error + context_item) \<times> session" where
  "noted = write_item_endpoint no_violation ''i1'' ''acme'' ''u'' (fact ''a'') (snd registered)"

definition replaced :: "(context_error + context_item) \<times> session" where
  "replaced = patch_item_endpoint no_violation ''i2'' ''acme'' ''u'' ''i1'' ''supersede'' (Some (JObj [])) None (fact ''b'') (snd noted)"

lemma replaced_items: "map (\<lambda>i. (ci_id i, ci_superseded_by_id i)) (context_items (durable (snd replaced))) = [(''i1'', Some ''i2''), (''i2'', None)]"
  by code_simp

lemma replaced_run: "empty_store context_start" "(context_step any_schema no_violation)\<^sup>*\<^sup>* context_start (snd replaced)"
  and noted_run: "(context_step any_schema no_violation)\<^sup>*\<^sup>* context_start (snd noted)"
proof -
  show "empty_store context_start" by (simp add: empty_store_def context_start_def open_session_def empty_db_def)
  have "cs_id ` set (context_schemas (working context_start)) = {}"
    by (simp add: context_start_def open_session_def empty_db_def)
  then have "context_step any_schema no_violation context_start (snd registered)"
    unfolding registered_def by (intro registering [OF prod.collapse [symmetric]]) simp
  moreover have "context_items (working (snd registered)) = []" by (simp add: registered_def) code_simp
  then have "context_step any_schema no_violation (snd registered) (snd noted)"
    unfolding noted_def by (intro writing [OF prod.collapse [symmetric]]) simp
  ultimately show noted: "(context_step any_schema no_violation)\<^sup>*\<^sup>* context_start (snd noted)"
    by (meson converse_rtranclp_into_rtranclp rtranclp.rtrancl_refl)
  have "map ci_id (context_items (working (snd noted))) = [''i1'']" by code_simp
  then have "ci_id ` set (context_items (working (snd noted))) = {''i1''}" by (metis list.set_map list.simps(15) empty_set)
  then have "context_step any_schema no_violation (snd noted) (snd replaced)"
    unfolding replaced_def by (intro patching [OF prod.collapse [symmetric]]) simp
  with noted show "(context_step any_schema no_violation)\<^sup>*\<^sup>* context_start (snd replaced)"
    by (rule rtranclp.rtrancl_into_rtrancl)
qed

theorem stored_items_meet_their_schema_witness:
  "\<exists>(i :: context_item) c. ci_id i = ''i2'' \<and> [c] = filter (\<lambda>c. cs_id c = ci_schema_id i) (context_schemas (durable (snd replaced)))"
proof -
  have "\<exists>i\<in>set (context_items (durable (snd replaced))). ci_id i = ''i2''" by code_simp
  then obtain i where "i \<in> set (context_items (durable (snd replaced)))" "ci_id i = ''i2''" by blast
  note i = this
  from stored_items_meet_their_schema [OF replaced_run i(1)]
  obtain c where "[c] = filter (\<lambda>c. cs_id c = ci_schema_id i) (context_schemas (durable (snd replaced)))" by (elim exE conjE)
  with i(2) show ?thesis by (intro exI [where x = i] exI [where x = c]) simp
qed


lemma succeeded: "\<not> isl (fst p) \<Longrightarrow> \<exists>x. p = (Inr x, snd p)"
  by (cases p; cases "fst p") auto

definition twice :: "(context_error + context_item \<times> context_item) \<times> session" where
  "twice = supersede_item no_violation ''i2'' ''i1'' None (fact ''b'') (snd noted)"

definition thrice :: "(context_error + context_item \<times> context_item) \<times> session" where
  "thrice = supersede_item no_violation ''i3'' ''i1'' None (fact ''c'') (snd twice)"

theorem superseding_twice_forks_witness:
  "map (\<lambda>i. (ci_id i, ci_superseded_by_id i)) (context_items (working (snd thrice))) = [(''i1'', Some ''i3''), (''i2'', None), (''i3'', None)]
   \<and> ci_superseded_by_id (fst (projr (fst thrice))) = Some ''i3''"
proof -
  have rows: "map (\<lambda>i. (ci_id i, ci_superseded_by_id i)) (context_items (working (snd thrice))) = [(''i1'', Some ''i3''), (''i2'', None), (''i3'', None)]"
    by code_simp
  have ok: "\<not> isl (fst twice)" "\<not> isl (fst thrice)" by code_simp+
  have ids: "ci_id ` set (context_items (working (snd noted))) = {''i1''}" "ci_id ` set (context_items (working (snd twice))) = {''i1'', ''i2''}"
    by code_simp+
  obtain o1 n1 where one: "supersede_item no_violation ''i2'' ''i1'' None (fact ''b'') (snd noted) = (Inr (o1, n1), snd twice)"
    using succeeded [OF ok(1)] unfolding twice_def by auto
  obtain o2 n2 where o2: "fst thrice = Inr (o2, n2)" using ok(2) by (cases "fst thrice") auto
  then have two: "supersede_item no_violation ''i3'' ''i1'' None (fact ''c'') (snd twice) = (Inr (o2, n2), snd thrice)"
    by (simp add: thrice_def prod_eq_iff)
  have "context_inv any_schema no_violation (snd noted)"
    using context_life.reachable_inv [OF noted_run empty_store_inv] replaced_run(1) by blast
  then have "context_ok any_schema no_violation (working (snd noted))" by (simp add: context_inv_def)
  from superseding_twice_forks [OF this one two] ids have "ci_superseded_by_id o2 = Some ''i3''" by simp
  then show ?thesis using rows o2 by simp
qed

end
