(* ===== verification/Chronology.thy ===== *)
theory Chronology
  imports DocumentHistory ModelGateway
begin

text \<open>
  The chronology of a matter (\<open>app/modules/chronology\<close>): dated events proposed by a model from the
  documents, accepted or rejected by the solicitor, and shown behind the gate of CPR 31.22. An event
  is tainted if one of the documents it names came from disclosure; this is derived at every read. What
  lies outside is a record: the hash, the providers and keys of the gateway, \<open>json.loads\<close>, the
  parser of identifiers, and the ellipsis, which is beyond the first 256 code points.
\<close>

section \<open>Surroundings of a model call\<close>

record model_env =
  me_sha :: "string \<Rightarrow> string"
  me_settings :: gateway_settings
  me_providers :: providers
  me_keys :: user_keys
  me_latency :: int
  me_loads :: "string \<Rightarrow> json option"
  me_parse_uuid :: "string \<Rightarrow> uuid option"
  me_ellipsis :: string

definition ask :: "model_env \<Rightarrow> model_request \<Rightarrow> session \<Rightarrow> (gateway_error + model_result) \<times> session" where
  "ask env q s = (case gateway_call (me_sha env) (me_settings env) (me_providers env) (me_keys env) (me_latency env) q s of
     (r, _, s1) \<Rightarrow> (r, s1))"

definition truncate_text :: "string \<Rightarrow> string \<Rightarrow> int \<Rightarrow> string" where
  "truncate_text ellipsis t budget =
     (if budget \<le> 0 then [] else if int (length t) \<le> budget then t
      else py_rstrip (take (nat budget) t) @ ellipsis)"

section \<open>Events and their sources\<close>

definition STATUS_PROPOSED :: string where "STATUS_PROPOSED = ''proposed''"
definition STATUS_ACCEPTED :: string where "STATUS_ACCEPTED = ''accepted''"
definition STATUS_REJECTED :: string where "STATUS_REJECTED = ''rejected''"

definition REDACTED_DESCRIPTION :: string where
  "REDACTED_DESCRIPTION = ''[withheld pending CPR 31.22 acknowledgement]''"

definition load_chronology :: "uuid \<Rightarrow> db \<Rightarrow> chron_event list" where
  "load_chronology mid d = sort_key ev_event_date (filter (\<lambda>e. ev_matter_id e = mid) (chron_events d))"

text \<open>The documents of an event that still exist, whichever matter they belong to.\<close>

definition source_docs :: "chron_event \<Rightarrow> db \<Rightarrow> document list" where
  "source_docs e d = List.map_filter (\<lambda>i. find (\<lambda>x. doc_id x = i) (documents d)) (ev_source_doc_ids e)"

definition event_is_tainted :: "chron_event \<Rightarrow> db \<Rightarrow> bool" where
  "event_is_tainted e d = list_ex doc_from_disclosure (source_docs e d)"

record event_view =
  vw_id :: uuid
  vw_event_date :: date
  vw_description :: string
  vw_significance :: int
  vw_source_doc_ids :: "uuid list"
  vw_source_doc_filenames :: "string list"
  vw_priv_flag :: bool
  vw_status :: string
  vw_from_disclosure :: bool
  vw_proceedings_refs :: "string list"
  vw_created_at :: int
  vw_redacted :: bool

definition event_to_read :: "chron_event \<Rightarrow> db \<Rightarrow> bool \<Rightarrow> event_view" where
  "event_to_read e d redact_tainted =
     (let docs = source_docs e d; from_disclosure = list_ex doc_from_disclosure docs;
          withheld = redact_tainted \<and> from_disclosure
      in \<lparr>vw_id = ev_id e, vw_event_date = ev_event_date e,
          vw_description = (if withheld then REDACTED_DESCRIPTION else ev_description e),
          vw_significance = ev_significance e, vw_source_doc_ids = ev_source_doc_ids e,
          vw_source_doc_filenames = (if withheld then [] else map doc_filename docs),
          vw_priv_flag = ev_priv_flag e, vw_status = ev_status e, vw_from_disclosure = from_disclosure,
          vw_proceedings_refs = (if withheld then []
            else List.map_filter (\<lambda>x. case doc_disclosure_ref x of Some (c # cs) \<Rightarrow> Some (c # cs) | _ \<Rightarrow> None) docs),
          vw_created_at = ev_created_at e, vw_redacted = withheld\<rparr>)"

section \<open>The gate\<close>

record gate_view =
  ga_required :: bool
  ga_confirmed :: bool
  ga_confirmed_at :: "int option"
  ga_tainted_event_count :: nat

definition confirmations :: "uuid \<Rightarrow> uuid \<Rightarrow> db \<Rightarrow> int list" where
  "confirmations mid actor d = map ae_timestamp
     (filter (\<lambda>r. ae_matter_id r = Some mid \<and> ae_actor_id r = Some actor \<and> ae_action r = ''chronology.gate.confirmed'')
        (audit_rows d))"

definition latest :: "int list \<Rightarrow> int option" where
  "latest ts = (case ts of [] \<Rightarrow> None | t # ts \<Rightarrow> Some (foldl max t ts))"

definition gate_state :: "matter \<Rightarrow> uuid \<Rightarrow> nat \<Rightarrow> db \<Rightarrow> gate_view" where
  "gate_state m actor tainted_count d =
     (let confirmed_at = (if 0 < tainted_count then latest (confirmations (m_id m) actor d) else None)
      in \<lparr>ga_required = 0 < tainted_count, ga_confirmed = confirmed_at \<noteq> None,
          ga_confirmed_at = confirmed_at, ga_tainted_event_count = tainted_count\<rparr>)"

datatype chron_error =
    ChronMatterNotFound
  | AcknowledgementRequired
  | EventNotFound uuid
  | BuildRaised gateway_error

record chronology_response =
  ch_matter_slug :: string
  ch_events :: "event_view list"
  ch_gate :: gate_view
  ch_statement_of_facts :: "event_view list"

definition tainted_count :: "chron_event list \<Rightarrow> db \<Rightarrow> nat" where
  "tainted_count es d = length (filter (\<lambda>e. event_is_tainted e d) es)"

definition get_chronology :: "string \<Rightarrow> uuid \<Rightarrow> db \<Rightarrow> chron_error + chronology_response" where
  "get_chronology slug user_id d =
     (case resolve_owned_open_matter slug user_id d of
        None \<Rightarrow> Inl ChronMatterNotFound
      | Some m \<Rightarrow>
          (let events = load_chronology (m_id m) d;
               gate = gate_state m user_id (tainted_count events d) d;
               redact = ga_required gate \<and> \<not> ga_confirmed gate;
               reads = map (\<lambda>e. event_to_read e d redact) events
           in Inr \<lparr>ch_matter_slug = m_slug m, ch_events = reads, ch_gate = gate,
                ch_statement_of_facts = filter (\<lambda>r. \<not> vw_priv_flag r) reads\<rparr>))"

definition confirm_gate :: "string \<Rightarrow> string \<Rightarrow> uuid \<Rightarrow> session \<Rightarrow> (chron_error + gate_view) \<times> session" where
  "confirm_gate slug acknowledgement user_id s =
     (case resolve_owned_open_matter slug user_id (working s) of
        None \<Rightarrow> (Inl ChronMatterNotFound, s)
      | Some m \<Rightarrow>
          if py_strip acknowledgement = [] then (Inl AcknowledgementRequired, s)
          else (let s1 = commit (audit_log (doc_event ''chronology.gate.confirmed'' user_id (m_id m) ''chronology'' ''chronology'' (m_slug m)
                      [(''acknowledgement'', JStr (py_strip acknowledgement)), (''rule'', JStr ''CPR 31.22(1)'')]) s)
                in (Inr (gate_state m user_id (tainted_count (load_chronology (m_id m) (working s1)) (working s1)) (working s1)), s1)))"

text \<open>Accepting and rejecting.\<close>

definition set_event :: "uuid \<Rightarrow> (chron_event \<Rightarrow> chron_event) \<Rightarrow> db \<Rightarrow> db" where
  "set_event eid f d = d\<lparr>chron_events := update_where (\<lambda>e. ev_id e = eid) f (chron_events d)\<rparr>"

definition set_event_status :: "matter \<Rightarrow> uuid \<Rightarrow> uuid \<Rightarrow> string \<Rightarrow> string \<Rightarrow> session \<Rightarrow> (chron_error + event_view) \<times> session" where
  "set_event_status m user_id eid new_status action s =
     (case find (\<lambda>e. ev_id e = eid \<and> ev_matter_id e = m_id m) (chron_events (working s)) of
        None \<Rightarrow> (Inl (EventNotFound eid), s)
      | Some e0 \<Rightarrow>
          (let e = e0\<lparr>ev_status := new_status\<rparr>;
               s1 = commit (audit_log (doc_event action user_id (m_id m) ''chronology'' ''chronology_event'' eid
                      [(''status'', JStr new_status)]) (on_working (set_event eid (ev_status_update (\<lambda>_. new_status))) s));
               gate_required = event_is_tainted e (working s1);
               confirmed_at = (if gate_required then ga_confirmed_at (gate_state m user_id 1 (working s1)) else None)
           in (Inr (event_to_read e (working s1) (gate_required \<and> confirmed_at = None)), s1)))"

definition accept_event :: "string \<Rightarrow> uuid \<Rightarrow> uuid \<Rightarrow> session \<Rightarrow> (chron_error + event_view) \<times> session" where
  "accept_event slug eid user_id s =
     (case resolve_owned_open_matter slug user_id (working s) of
        None \<Rightarrow> (Inl ChronMatterNotFound, s)
      | Some m \<Rightarrow> set_event_status m user_id eid STATUS_ACCEPTED ''chronology.event.accepted'' s)"

definition reject_event :: "string \<Rightarrow> uuid \<Rightarrow> uuid \<Rightarrow> session \<Rightarrow> (chron_error + event_view) \<times> session" where
  "reject_event slug eid user_id s =
     (case resolve_owned_open_matter slug user_id (working s) of
        None \<Rightarrow> (Inl ChronMatterNotFound, s)
      | Some m \<Rightarrow> set_event_status m user_id eid STATUS_REJECTED ''chronology.event.rejected'' s)"

section \<open>Dates\<close>

text \<open>\<open>date.fromisoformat\<close> of Python 3.12: the forms \<open>YYYY-MM-DD\<close>, \<open>YYYYMMDD\<close>, \<open>YYYY-Www[-D]\<close> and \<open>YYYYWww[D]\<close>. As
  in the library, the fields are read from the left of a text of 7, 8 or 10 characters, and what follows them is
  not looked at.\<close>

fun digits :: "nat \<Rightarrow> nat \<Rightarrow> string \<Rightarrow> (nat \<times> string) option" where
  "digits 0 v s = Some (v, s)"
| "digits (Suc n) v [] = None"
| "digits (Suc n) v (c # cs) =
     (let k = (of_char c :: nat) in if 48 \<le> k \<and> k \<le> 57 then digits n (10 * v + (k - 48)) cs else None)"

definition dash :: "bool \<Rightarrow> string \<Rightarrow> string option" where
  "dash separated s = (if \<not> separated then Some s
     else case s of [] \<Rightarrow> None | c # cs \<Rightarrow> if c = CHR ''-'' then Some cs else None)"

definition is_leap :: "int \<Rightarrow> bool" where
  "is_leap y \<longleftrightarrow> y mod 4 = 0 \<and> (y mod 100 \<noteq> 0 \<or> y mod 400 = 0)"

definition month_lengths :: "int \<Rightarrow> int list" where
  "month_lengths y = [31, if is_leap y then 29 else 28, 31, 30, 31, 30, 31, 31, 30, 31, 30, 31]"

definition check_date :: "int \<Rightarrow> int \<Rightarrow> int \<Rightarrow> date option" where
  "check_date y m d = (if 1 \<le> y \<and> y \<le> 9999 \<and> 1 \<le> m \<and> m \<le> 12 \<and> 1 \<le> d \<and> d \<le> month_lengths y ! nat (m - 1)
     then Some (y, m, d) else None)"

definition days_before_year :: "int \<Rightarrow> int" where
  "days_before_year y = 365 * (y - 1) + (y - 1) div 4 - (y - 1) div 100 + (y - 1) div 400"

fun month_and_day :: "int \<Rightarrow> int list \<Rightarrow> int \<Rightarrow> int \<times> int" where
  "month_and_day m [] k = (m, k)"
| "month_and_day m (l # ls) k = (if k \<le> l then (m, k) else month_and_day (m + 1) ls (k - l))"

text \<open>The \<open>k\<close>-th day of a year, which may lie in the year before or after.\<close>

definition day_of_year :: "int \<Rightarrow> int \<Rightarrow> date option" where
  "day_of_year y k =
     (let len = (\<lambda>y. if is_leap y then 366 else 365 :: int);
          y' = (if k < 1 then y - 1 else if len y < k then y + 1 else y);
          k' = (if k < 1 then k + len (y - 1) else if len y < k then k - len y else k)
      in case month_and_day 1 (month_lengths y') k' of (m, d) \<Rightarrow> check_date y' m d)"

definition iso_week_date :: "int \<Rightarrow> int \<Rightarrow> int \<Rightarrow> date option" where
  "iso_week_date y w d =
     (let first = days_before_year y + 1; weekday = (first + 6) mod 7;
          long_year = (weekday = 3 \<or> weekday = 2 \<and> is_leap y);
          monday = 1 - weekday + (if 3 < weekday then 7 else 0)
      in if 1 \<le> y \<and> y \<le> 9999 \<and> 1 \<le> w \<and> (w \<le> 52 \<or> w = 53 \<and> long_year) \<and> 1 \<le> d \<and> d \<le> 7
         then day_of_year y (monday + 7 * (w - 1) + (d - 1)) else None)"

definition date_fromisoformat :: "string \<Rightarrow> date option" where
  "date_fromisoformat s =
     (if length s \<noteq> 7 \<and> length s \<noteq> 8 \<and> length s \<noteq> 10 then None
      else case digits 4 0 s of None \<Rightarrow> None | Some (y, r) \<Rightarrow>
        (let separated = (case r of [] \<Rightarrow> False | c # _ \<Rightarrow> c = CHR ''-''); r = (if separated then tl r else r) in
         if r \<noteq> [] \<and> hd r = CHR ''W'' then
           (case digits 2 0 (tl r) of None \<Rightarrow> None | Some (w, r) \<Rightarrow>
              if r = [] then iso_week_date (int y) (int w) 1
              else case dash separated r of None \<Rightarrow> None | Some r \<Rightarrow>
                (case digits 1 0 r of None \<Rightarrow> None | Some (d, _) \<Rightarrow> iso_week_date (int y) (int w) (int d)))
         else case digits 2 0 r of None \<Rightarrow> None | Some (m, r) \<Rightarrow>
           (case dash separated r of None \<Rightarrow> None | Some r \<Rightarrow>
             (case digits 2 0 r of None \<Rightarrow> None | Some (d, _) \<Rightarrow> check_date (int y) (int m) (int d)))))"

section \<open>Building from the documents\<close>

definition PER_DOCUMENT_CHAR_BUDGET :: int where "PER_DOCUMENT_CHAR_BUDGET = 12000"
definition MAX_DOCUMENTS :: nat where "MAX_DOCUMENTS = 40"
definition DEFAULT_SIGNIFICANCE :: int where "DEFAULT_SIGNIFICANCE = 3"

definition load_documents_with_bodies :: "string \<Rightarrow> uuid \<Rightarrow> db \<Rightarrow> (document \<times> string) list" where
  "load_documents_with_bodies ellipsis mid d =
     List.map_filter (\<lambda>x. let t = body_text (doc_id x) d in
         if py_strip t = [] then None else Some (x, truncate_text ellipsis t PER_DOCUMENT_CHAR_BUDGET))
       (take MAX_DOCUMENTS (sort_key (\<lambda>x. - doc_uploaded_at x) (filter (\<lambda>x. doc_matter_id x = mid) (documents d))))"

definition build_prompt :: "(document \<times> string) list \<Rightarrow> string" where
  "build_prompt docs = py_join newline ([''## Documents'', '''']
     @ concat (map (\<lambda>(x, t). [''[doc:'' @ doc_id x @ ''] '' @ doc_filename x, t, '''']) docs)
     @ [''Extract the chronology now. Return JSON only matching the documented shape.''])"

record proposed_raw =
  pe_event_date :: "string option"
  pe_description :: "string option"
  pe_source_document_id :: "string option"

text \<open>A field \<open>str | None = None\<close>: absent or null, a text, or invalid.\<close>

definition optional_text :: "string \<Rightarrow> json \<Rightarrow> string option option" where
  "optional_text k j = (case jget k j of None \<Rightarrow> Some None | Some JNull \<Rightarrow> Some None | Some (JStr t) \<Rightarrow> Some (Some t) | _ \<Rightarrow> None)"

definition validate_event :: "json \<Rightarrow> proposed_raw option" where
  "validate_event j =
     (case j of
        JObj _ \<Rightarrow> (case (optional_text ''event_date'' j, optional_text ''description'' j, optional_text ''source_document_id'' j) of
            (Some d, Some t, Some i) \<Rightarrow> Some \<lparr>pe_event_date = d, pe_description = t, pe_source_document_id = i\<rparr>
          | _ \<Rightarrow> None)
      | _ \<Rightarrow> None)"

definition validate_envelope :: "json \<Rightarrow> proposed_raw list option" where
  "validate_envelope j =
     (case jget ''events'' j of None \<Rightarrow> Some [] | Some (JList xs) \<Rightarrow> those (map validate_event xs) | _ \<Rightarrow> None)"

type_synonym coerced = "date \<times> string \<times> uuid option"

definition coerce_event :: "(string \<Rightarrow> uuid option) \<Rightarrow> uuid list \<Rightarrow> proposed_raw \<Rightarrow> coerced option" where
  "coerce_event parse_uuid known raw =
     (case (or_text (pe_event_date raw) [], or_text (pe_description raw) []) of (when, what) \<Rightarrow>
        if when = [] \<or> what = [] \<or> py_strip what = [] then None
        else (case date_fromisoformat (py_strip when) of
            None \<Rightarrow> None
          | Some dt \<Rightarrow>
              (let source = or_text (pe_source_document_id raw) [];
                   candidate = (if source = [] then None else parse_uuid (py_strip source))
               in Some (dt, py_strip what, (case candidate of None \<Rightarrow> None | Some i \<Rightarrow> if i \<in> set known then Some i else None)))))"

definition coerce_events :: "(string \<Rightarrow> uuid option) \<Rightarrow> uuid list \<Rightarrow> proposed_raw list \<Rightarrow> coerced list" where
  "coerce_events parse_uuid known raws = List.map_filter (coerce_event parse_uuid known) raws"

definition event_key :: "date \<Rightarrow> string \<Rightarrow> date \<times> string" where
  "event_key dt what = (dt, py_lower (py_join '' '' (py_split what)))"

text \<open>The proposals that are new, and how many were not.\<close>

fun keep_new :: "(date \<times> string) set \<Rightarrow> coerced list \<Rightarrow> coerced list \<times> nat" where
  "keep_new seen [] = ([], 0)"
| "keep_new seen ((dt, what, src) # cs) =
     (if event_key dt what \<in> seen then (case keep_new seen cs of (ks, n) \<Rightarrow> (ks, Suc n))
      else (case keep_new (insert (event_key dt what) seen) cs of (ks, n) \<Rightarrow> ((dt, what, src) # ks, n)))"

definition proposed_event :: "uuid \<Rightarrow> uuid \<Rightarrow> int \<Rightarrow> uuid \<Rightarrow> coerced \<Rightarrow> chron_event" where
  "proposed_event mid actor now i c =
     (case c of (dt, what, src) \<Rightarrow>
        \<lparr>ev_id = i, ev_matter_id = mid, ev_event_date = dt, ev_description = what, ev_significance = DEFAULT_SIGNIFICANCE,
         ev_source_doc_ids = (case src of None \<Rightarrow> [] | Some x \<Rightarrow> [x]), ev_priv_flag = False, ev_status = STATUS_PROPOSED,
         ev_created_at = now, ev_created_by_id = actor\<rparr>)"

record build_result =
  bu_events :: "chron_event list"
  bu_document_count :: nat
  bu_parse_failed :: bool
  bu_error :: "string option"
  bu_duplicates_skipped :: nat

definition empty_build :: "nat \<Rightarrow> build_result" where
  "empty_build n = \<lparr>bu_events = [], bu_document_count = n, bu_parse_failed = False, bu_error = None, bu_duplicates_skipped = 0\<rparr>"

definition add_events :: "chron_event list \<Rightarrow> db \<Rightarrow> db" where
  "add_events es d = d\<lparr>chron_events := chron_events d @ es\<rparr>"

text \<open>The exceptions the build swallows, by the name it records.\<close>

definition swallowed :: "gateway_error \<Rightarrow> string option" where
  "swallowed e = (case e of KeyMissing _ \<Rightarrow> Some ''ProviderKeyMissing'' | UpstreamFailed _ \<Rightarrow> Some ''ProviderUpstreamError''
     | PrivilegePaused \<Rightarrow> Some ''PrivilegePaused'' | MatterMissing \<Rightarrow> Some ''PrivilegePaused'' | _ \<Rightarrow> None)"

definition existing_keys :: "uuid \<Rightarrow> db \<Rightarrow> (date \<times> string) set" where
  "existing_keys mid d = set (map (\<lambda>e. event_key (ev_event_date e) (ev_description e))
     (filter (\<lambda>e. ev_matter_id e = mid) (chron_events d)))"

text \<open>What becomes of the reply; the identifiers of the new rows are drawn from a sequence.\<close>

definition propose_events ::
  "model_env \<Rightarrow> (nat \<Rightarrow> uuid) \<Rightarrow> matter \<Rightarrow> uuid \<Rightarrow> (document \<times> string) list \<Rightarrow> string \<Rightarrow> session \<Rightarrow> build_result \<times> session" where
  "propose_events env new_id m actor docs reply s =
     (case parse_model_json (me_loads env) validate_envelope reply of
        Inl _ \<Rightarrow> ((empty_build (length docs))\<lparr>bu_parse_failed := True\<rparr>, s)
      | Inr raws \<Rightarrow>
          (case keep_new (existing_keys (m_id m) (working s)) (coerce_events (me_parse_uuid env) (map (doc_id \<circ> fst) docs) raws) of
             (kept, duplicates) \<Rightarrow>
               (let created = map (\<lambda>(i, c). proposed_event (m_id m) actor (clock s) (new_id i) c) (enumerate 0 kept)
                in ((empty_build (length docs))\<lparr>bu_events := created, bu_duplicates_skipped := duplicates\<rparr>,
                    on_working (add_events created) s))))"

definition build_request :: "string \<Rightarrow> matter \<Rightarrow> uuid \<Rightarrow> posture \<Rightarrow> (document \<times> string) list \<Rightarrow> model_request" where
  "build_request system m actor p docs =
     \<lparr>mq_matter_id = Some (m_id m), mq_actor_id = Some actor, mq_prompt = build_prompt docs, mq_model = Some (m_default_model_id m),
      mq_posture = Some p, mq_system = Some system, mq_max_tokens = None, mq_resource_type = Some ''chronology'',
      mq_resource_id = Some (m_slug m), mq_payload = [(''stage'', JStr ''chronology.build''), (''module'', JStr ''chronology'')],
      mq_caller_module = Some ''chronology'', mq_streams = False\<rparr>"

definition build_chronology ::
  "model_env \<Rightarrow> string \<Rightarrow> (nat \<Rightarrow> uuid) \<Rightarrow> matter \<Rightarrow> uuid \<Rightarrow> session \<Rightarrow> (gateway_error + build_result) \<times> session" where
  "build_chronology env system new_id m actor s =
     (let docs = load_documents_with_bodies (me_ellipsis env) (m_id m) (working s) in
      if docs = [] then (Inr (empty_build 0), s)
      else case parse_posture (m_privilege_posture m) of
          None \<Rightarrow> (Inl UnknownPosture, s)
        | Some p \<Rightarrow> (case ask env (build_request system m actor p docs) s of
            (Inl e, s1) \<Rightarrow> (case swallowed e of
                Some name \<Rightarrow> (Inr ((empty_build (length docs))\<lparr>bu_error := Some name\<rparr>), s1)
              | None \<Rightarrow> (Inl e, s1))
          | (Inr r, s1) \<Rightarrow> (case propose_events env new_id m actor docs (mr_text r) s1 of (b, s2) \<Rightarrow> (Inr b, s2))))"

record build_response =
  br_matter_slug :: string
  br_proposed :: "event_view list"
  br_document_count :: nat
  br_duplicates_skipped :: nat
  br_parse_failed :: bool
  br_error :: "string option"

text \<open>The route: an exception that is not swallowed ends the request and its transaction.\<close>

definition build ::
  "model_env \<Rightarrow> string \<Rightarrow> (nat \<Rightarrow> uuid) \<Rightarrow> string \<Rightarrow> uuid \<Rightarrow> session \<Rightarrow> (chron_error + build_response) \<times> session" where
  "build env system new_id slug user_id s =
     (case resolve_owned_open_matter slug user_id (working s) of
        None \<Rightarrow> (Inl ChronMatterNotFound, s)
      | Some m \<Rightarrow> (case build_chronology env system new_id m user_id s of
          (Inl e, s1) \<Rightarrow> (Inl (BuildRaised e), rollback s1)
        | (Inr b, s1) \<Rightarrow>
            (let s2 = commit (audit_log (doc_event ''chronology.build'' user_id (m_id m) ''chronology'' ''chronology'' (m_slug m)
                   [(''document_count'', JInt (int (bu_document_count b))), (''proposed_count'', JInt (int (length (bu_events b)))),
                    (''parse_failed'', JBool (bu_parse_failed b)), (''error'', jstr_opt (bu_error b)),
                    (''default_model_id'', JStr (m_default_model_id m))]) s1);
                 tainted = tainted_count (bu_events b) (working s2);
                 gate = gate_state m user_id tainted (working s2)
             in (Inr \<lparr>br_matter_slug = m_slug m,
                   br_proposed = map (\<lambda>e. event_to_read e (working s2) (0 < tainted \<and> \<not> ga_confirmed gate)) (bu_events b),
                   br_document_count = bu_document_count b, br_duplicates_skipped = bu_duplicates_skipped b,
                   br_parse_failed = bu_parse_failed b, br_error = bu_error b\<rparr>, s2))))"

section \<open>What the gate withholds\<close>

lemma insort_key_all2:
  assumes "list_all2 Q xs ys" "Q x y" and same: "\<And>a b. Q a b \<Longrightarrow> k a = k b"
  shows "list_all2 Q (insort_key k x xs) (insort_key k y ys)"
  using assms(1)
proof (induction rule: list_all2_induct)
  case Nil
  with assms(2) show ?case by simp
next
  case (Cons a as b bs)
  with same [OF \<open>Q a b\<close>] same [OF assms(2)] assms(2) show ?case by simp
qed

lemma sort_key_all2:
  assumes "list_all2 Q xs ys" and "\<And>a b. Q a b \<Longrightarrow> k a = k b"
  shows "list_all2 Q (sort_key k xs) (sort_key k ys)"
  using assms(1)
proof (induction rule: list_all2_induct)
  case (Cons a as b bs)
  then show ?case by (simp add: sort_key_def insort_key_all2 assms(2))
qed simp

lemma filter_all2:
  assumes "list_all2 Q xs ys" and "\<And>a b. Q a b \<Longrightarrow> P a = P' b"
  shows "list_all2 Q (filter P xs) (filter P' ys)"
  using assms(1) by (induction rule: list_all2_induct) (simp_all add: assms(2))

text \<open>Two databases that differ in nothing but what the gate hides: descriptions of tainted events, and
  the names and the references of disclosed documents.\<close>

definition same_document :: "document \<Rightarrow> document \<Rightarrow> bool" where
  "same_document x y \<longleftrightarrow> doc_id y = doc_id x \<and> doc_from_disclosure y = doc_from_disclosure x
     \<and> (doc_from_disclosure x \<or> doc_filename y = doc_filename x \<and> doc_disclosure_ref y = doc_disclosure_ref x)"

definition same_event :: "db \<Rightarrow> chron_event \<Rightarrow> chron_event \<Rightarrow> bool" where
  "same_event d e f \<longleftrightarrow> f = (if event_is_tainted e d then e\<lparr>ev_description := ev_description f\<rparr> else e)"

definition same_but_for_disclosure :: "db \<Rightarrow> db \<Rightarrow> bool" where
  "same_but_for_disclosure d d' \<longleftrightarrow> matters d' = matters d \<and> audit_rows d' = audit_rows d
     \<and> list_all2 same_document (documents d) (documents d')
     \<and> list_all2 (same_event d) (chron_events d) (chron_events d')"

lemma find_same_document:
  assumes "list_all2 same_document xs ys"
  shows "rel_option same_document (find (\<lambda>x. doc_id x = i) xs) (find (\<lambda>x. doc_id x = i) ys)"
  using assms by (induction rule: list_all2_induct) (simp_all add: same_document_def)

lemma source_docs_same:
  assumes docs: "list_all2 same_document (documents d) (documents d')" and ids: "ev_source_doc_ids f = ev_source_doc_ids e"
  shows "list_all2 same_document (source_docs e d) (source_docs f d')"
proof -
  have "list_all2 same_document (List.map_filter (\<lambda>i. find (\<lambda>x. doc_id x = i) (documents d)) is)
      (List.map_filter (\<lambda>i. find (\<lambda>x. doc_id x = i) (documents d')) is)" for "is"
  proof (induction "is")
    case (Cons i "is")
    with find_same_document [OF docs, of i] show ?case
      by (cases rule: option.rel_cases) (simp_all add: List.map_filter_simps)
  qed (simp add: List.map_filter_simps)
  then show ?thesis by (simp add: source_docs_def ids)
qed

lemma same_event_fields:
  assumes "same_event d e f"
  shows "ev_source_doc_ids f = ev_source_doc_ids e" "ev_event_date f = ev_event_date e" "ev_matter_id f = ev_matter_id e"
    "ev_id f = ev_id e" "ev_significance f = ev_significance e" "ev_priv_flag f = ev_priv_flag e" "ev_status f = ev_status e"
    "ev_created_at f = ev_created_at e" "\<not> event_is_tainted e d \<Longrightarrow> f = e"
  using assms by (simp_all add: same_event_def split: if_splits) (metis chron_event.select_convs chron_event.surjective chron_event.update_convs)+

lemma disclosure_same: "list_all2 same_document xs ys \<Longrightarrow> list_ex doc_from_disclosure ys = list_ex doc_from_disclosure xs"
  by (induction rule: list_all2_induct) (simp_all add: same_document_def)

lemma undisclosed_same:
  assumes "list_all2 same_document xs ys" "\<not> list_ex doc_from_disclosure xs"
  shows "map doc_filename ys = map doc_filename xs"
    "List.map_filter (\<lambda>x. case doc_disclosure_ref x of Some (c # cs) \<Rightarrow> Some (c # cs) | _ \<Rightarrow> None) ys
     = List.map_filter (\<lambda>x. case doc_disclosure_ref x of Some (c # cs) \<Rightarrow> Some (c # cs) | _ \<Rightarrow> None) xs"
  using assms by (induction rule: list_all2_induct)
    (simp_all add: same_document_def List.map_filter_simps split: option.splits list.splits)

lemma view_same:
  assumes d: "list_all2 same_document (documents d) (documents d')" and e: "same_event d e f"
    and "redact \<or> \<not> event_is_tainted e d"
  shows "event_to_read f d' redact = event_to_read e d redact"
proof -
  have docs: "list_all2 same_document (source_docs e d) (source_docs f d')"
    by (rule source_docs_same [OF d same_event_fields(1) [OF e]])
  show ?thesis
  proof (cases "event_is_tainted e d")
    case True
    with assms(3) have "redact" "list_ex doc_from_disclosure (source_docs e d)" by (simp_all add: event_is_tainted_def)
    with docs show ?thesis by (simp add: event_to_read_def disclosure_same same_event_fields [OF e])
  next
    case False
    then have "\<not> list_ex doc_from_disclosure (source_docs e d)" by (simp add: event_is_tainted_def)
    with docs same_event_fields(9) [OF e False] show ?thesis
      by (simp add: event_to_read_def Let_def disclosure_same undisclosed_same)
  qed
qed

lemma tainted_same:
  assumes "list_all2 same_document (documents d) (documents d')" "same_event d e f"
  shows "event_is_tainted f d' = event_is_tainted e d"
  using source_docs_same [OF assms(1) same_event_fields(1) [OF assms(2)]]
  by (simp add: event_is_tainted_def disclosure_same)

lemma chronology_same:
  assumes "same_but_for_disclosure d d'"
  shows "list_all2 (same_event d) (load_chronology mid d) (load_chronology mid d')"
  unfolding load_chronology_def
  by (rule sort_key_all2 [OF filter_all2])
    (use assms in \<open>auto simp: same_but_for_disclosure_def same_event_fields\<close>)

lemma tainted_count_same:
  assumes "list_all2 (same_event d) es fs" "list_all2 same_document (documents d) (documents d')"
  shows "tainted_count fs d' = tainted_count es d"
  using assms(1) by (induction rule: list_all2_induct) (simp_all add: tainted_count_def tainted_same [OF assms(2)])

lemma views_same:
  assumes "list_all2 (same_event d) es fs" "list_all2 same_document (documents d) (documents d')"
    and "redact \<or> tainted_count es d = 0"
  shows "map (\<lambda>e. event_to_read e d' redact) fs = map (\<lambda>e. event_to_read e d redact) es"
  using assms(1,3)
proof (induction rule: list_all2_induct)
  case (Cons e es f fs)
  then have "redact \<or> \<not> event_is_tainted e d" "redact \<or> tainted_count es d = 0" by (auto simp: tainted_count_def split: if_splits)
  with Cons view_same [OF assms(2) \<open>same_event d e f\<close>] show ?case by simp
qed simp

text \<open>C33. The gate of CPR 31.22 withholds at the server. To a user who has not acknowledged the undertaking for the
  matter, the answer of the chronology route is a function of what the gate leaves open: two databases that
  differ in the descriptions of tainted events and in the names and references of disclosed documents give the
  same answer, in the chronology, in the statement of facts and in the state of the gate.\<close>

theorem unacknowledged_detail_is_withheld:
  assumes "same_but_for_disclosure d d'"
    and "case resolve_owned_open_matter slug user_id d of None \<Rightarrow> True | Some m \<Rightarrow> confirmations (m_id m) user_id d = []"
  shows "get_chronology slug user_id d' = get_chronology slug user_id d"
proof (cases "resolve_owned_open_matter slug user_id d")
  case None
  with assms(1) show ?thesis by (simp add: get_chronology_def same_but_for_disclosure_def resolve_owned_open_matter_def)
next
  case (Some m)
  let ?es = "load_chronology (m_id m) d" and ?fs = "load_chronology (m_id m) d'"
  have docs: "list_all2 same_document (documents d) (documents d')" and rows: "audit_rows d' = audit_rows d"
    and m': "resolve_owned_open_matter slug user_id d' = Some m"
    using assms(1) Some by (simp_all add: same_but_for_disclosure_def resolve_owned_open_matter_def)
  have events: "list_all2 (same_event d) ?es ?fs" by (rule chronology_same [OF assms(1)])
  have count: "tainted_count ?fs d' = tainted_count ?es d" by (rule tainted_count_same [OF events docs])
  have gate: "gate_state m user_id n d' = gate_state m user_id n d" for n
    by (simp add: gate_state_def confirmations_def rows)
  define gate where "gate = gate_state m user_id (tainted_count ?es d) d"
  define redact where "redact = (ga_required gate \<and> \<not> ga_confirmed gate)"
  have "redact \<or> tainted_count ?es d = 0"
    using assms(2) Some by (auto simp: redact_def gate_def gate_state_def Let_def latest_def)
  from views_same [OF events docs this] show ?thesis
    by (simp add: get_chronology_def Some m' Let_def count gate flip: gate_def redact_def)
qed

section \<open>What a build proposes\<close>

definition coerced_key :: "coerced \<Rightarrow> date \<times> string" where
  "coerced_key c = event_key (fst c) (fst (snd c))"

lemma keep_new_Cons:
  "keep_new seen (c # cs) =
     (if coerced_key c \<in> seen then (case keep_new seen cs of (ks, n) \<Rightarrow> (ks, Suc n))
      else (case keep_new (insert (coerced_key c) seen) cs of (ks, n) \<Rightarrow> (c # ks, n)))"
  by (cases c) (simp add: coerced_key_def)

lemma keep_new_fresh:
  "keep_new seen cs = (ks, n) \<Longrightarrow>
     distinct (map coerced_key ks) \<and> set ks \<subseteq> set cs \<and> coerced_key ` set ks \<inter> seen = {} \<and> length cs = length ks + n"
proof (induction cs arbitrary: seen ks n)
  case (Cons c cs)
  show ?case
  proof (cases "coerced_key c \<in> seen")
    case True
    with Cons.prems obtain n' where k: "keep_new seen cs = (ks, n')" and n: "n = Suc n'"
      by (auto simp: keep_new_Cons split: prod.splits)
    from Cons.IH [OF k] n show ?thesis by auto
  next
    case False
    with Cons.prems obtain ks' where k: "keep_new (insert (coerced_key c) seen) cs = (ks', n)" and ks: "ks = c # ks'"
      by (auto simp: keep_new_Cons split: prod.splits)
    from Cons.IH [OF k] ks False show ?thesis by auto
  qed
qed simp

lemma coerced_source:
  assumes "(dt, what, Some i) \<in> set (coerce_events parse known raws)"
  shows "i \<in> set known"
  using assms by (auto simp: coerce_events_def map_filter_def coerce_event_def Let_def split: if_splits option.splits)

lemma known_documents:
  assumes "x \<in> fst ` set (load_documents_with_bodies ell mid d)"
  shows "x \<in> set (documents d) \<and> doc_matter_id x = mid \<and> py_strip (body_text (doc_id x) d) \<noteq> []"
  using assms
  by (auto simp: load_documents_with_bodies_def map_filter_def Let_def split: if_splits dest!: in_set_takeD)

text \<open>A batch of proposals: each is a new event of the matter, attributed to a document of the matter that was
  read, or to none.\<close>

definition fresh_proposals :: "uuid \<Rightarrow> uuid \<Rightarrow> db \<Rightarrow> chron_event list \<Rightarrow> bool" where
  "fresh_proposals mid actor d es \<longleftrightarrow>
     distinct (map (\<lambda>e. event_key (ev_event_date e) (ev_description e)) es)
     \<and> list_all (\<lambda>e. event_key (ev_event_date e) (ev_description e) \<notin> existing_keys mid d
          \<and> ev_matter_id e = mid \<and> ev_status e = STATUS_PROPOSED \<and> ev_created_by_id e = actor
          \<and> list_all (\<lambda>i. list_ex (\<lambda>x. doc_id x = i \<and> doc_matter_id x = mid \<and> py_strip (body_text i d) \<noteq> []) (documents d))
              (ev_source_doc_ids e)) es"

lemma proposed_keys:
  "map (\<lambda>e. event_key (ev_event_date e) (ev_description e)) (map (\<lambda>(i, c). proposed_event mid actor now (new_id i) c) (enumerate n ks))
     = map coerced_key ks"
  by (induction ks arbitrary: n) (simp_all add: proposed_event_def coerced_key_def split: prod.split)

lemma propose_events_fresh:
  assumes "propose_events env new_id m actor docs reply s = (b, s')"
    and docs: "docs = load_documents_with_bodies ell (m_id m) (working s)"
  shows "fresh_proposals (m_id m) actor (working s) (bu_events b) \<and> s' = on_working (add_events (bu_events b)) s"
proof (cases "parse_model_json (me_loads env) validate_envelope reply")
  case (Inl e)
  with assms(1) show ?thesis
    by (auto simp: propose_events_def empty_build_def fresh_proposals_def on_working_def add_events_def)
next
  case (Inr raws)
  let ?cs = "coerce_events (me_parse_uuid env) (map (doc_id \<circ> fst) docs) raws"
  obtain ks n where k: "keep_new (existing_keys (m_id m) (working s)) ?cs = (ks, n)" by fastforce
  define es where "es = map (\<lambda>(i, c). proposed_event (m_id m) actor (clock s) (new_id i) c) (enumerate 0 ks)"
  have b: "bu_events b = es" and s': "s' = on_working (add_events es) s"
    using assms(1) Inr k by (auto simp: propose_events_def empty_build_def es_def Let_def)
  have one: "event_key (ev_event_date e) (ev_description e) \<notin> existing_keys (m_id m) (working s)
      \<and> ev_matter_id e = m_id m \<and> ev_status e = STATUS_PROPOSED \<and> ev_created_by_id e = actor
      \<and> list_all (\<lambda>i. list_ex (\<lambda>x. doc_id x = i \<and> doc_matter_id x = m_id m \<and> py_strip (body_text i (working s)) \<noteq> [])
          (documents (working s))) (ev_source_doc_ids e)" if "e \<in> set es" for e
  proof -
    from that obtain i dt what src where c: "(dt, what, src) \<in> set ks" and e: "e = proposed_event (m_id m) actor (clock s) (new_id i) (dt, what, src)"
      by (auto simp: es_def in_set_enumerate_eq) (metis nth_mem surj_pair)
    have "coerced_key (dt, what, src) \<notin> existing_keys (m_id m) (working s)" and mem: "(dt, what, src) \<in> set ?cs"
      using keep_new_fresh [OF k] c by auto
    then have new: "event_key dt what \<notin> existing_keys (m_id m) (working s)" by (simp add: coerced_key_def)
    have "list_ex (\<lambda>x. doc_id x = j \<and> doc_matter_id x = m_id m \<and> py_strip (body_text j (working s)) \<noteq> []) (documents (working s))"
      if "src = Some j" for j
    proof -
      from coerced_source mem that obtain x where "x \<in> fst ` set docs" "j = doc_id x" by fastforce
      with known_documents docs show ?thesis by (fastforce simp: list_ex_iff)
    qed
    with new show ?thesis by (cases src) (simp_all add: e proposed_event_def)
  qed
  have "distinct (map (\<lambda>e. event_key (ev_event_date e) (ev_description e)) es)"
    unfolding es_def proposed_keys using keep_new_fresh [OF k] by blast
  with one show ?thesis by (simp add: b s' fresh_proposals_def list_all_iff)
qed

text \<open>A call that is not made for a plugin only adds rows to the log.\<close>

lemma ask_audit_only:
  assumes "ask env q s = (r, s')" and "attribution q = None"
  shows "audit_only (working s) (working s') \<and> audit_only (durable s) (durable s') \<and> bound s' = bound s \<and> clock s' = clock s"
proof -
  have "audit_only (durable s) (durable (audit_failure e s))" for e
    by (cases "bound s") (simp_all add: audit_failure_def)
  then show ?thesis
    using assms by (auto simp: ask_def gateway_call_def dispatch_call_def Let_def
        split: sum.splits prod.splits if_splits option.splits provider_outcome.splits)
qed

lemma build_request_unattributed [simp]: "attribution (build_request system m actor p docs) = None"
  by (simp add: attribution_def build_request_def)

lemma fresh_proposals_audit_only:
  assumes "audit_only d d'"
  shows "fresh_proposals mid actor d' es = fresh_proposals mid actor d es"
    "load_documents_with_bodies ell mid d' = load_documents_with_bodies ell mid d"
proof -
  note frame = audit_only_frame [OF assms]
  have body: "body_text i d' = body_text i d" for i
    by (simp add: body_text_def extracted_body_for_def body_of_def frame)
  show "fresh_proposals mid actor d' es = fresh_proposals mid actor d es"
    by (simp add: fresh_proposals_def existing_keys_def frame body)
  show "load_documents_with_bodies ell mid d' = load_documents_with_bodies ell mid d"
    by (simp add: load_documents_with_bodies_def frame body)
qed

lemma fresh_none [simp]: "fresh_proposals mid actor d []"
  by (simp add: fresh_proposals_def)

lemma add_events_simps [simp, frame_simps]:
  "chron_events (add_events es d) = chron_events d @ es" "documents (add_events es d) = documents d"
  "matters (add_events es d) = matters d" "audit_rows (add_events es d) = audit_rows d"
  by (simp_all add: add_events_def)

lemma build_chronology_cases:
  assumes "build_chronology env system new_id m actor s = (r, s1)"
  shows "audit_only (durable s) (durable s1)"
    "r = Inr b \<Longrightarrow> fresh_proposals (m_id m) actor (working s) (bu_events b)
       \<and> chron_events (working s1) = chron_events (working s) @ bu_events b"
proof -
  let ?docs = "load_documents_with_bodies (me_ellipsis env) (m_id m) (working s)"
  have "audit_only (durable s) (durable s1)
    \<and> (r = Inr b \<longrightarrow> fresh_proposals (m_id m) actor (working s) (bu_events b)
       \<and> chron_events (working s1) = chron_events (working s) @ bu_events b)"
  proof (cases "?docs = [] \<or> parse_posture (m_privilege_posture m) = None")
    case True
    with assms show ?thesis by (auto simp: build_chronology_def Let_def empty_build_def split: if_splits)
  next
    case False
    then obtain p where p: "parse_posture (m_privilege_posture m) = Some p" and docs: "?docs \<noteq> []" by auto
    obtain a s2 where a: "ask env (build_request system m actor p ?docs) s = (a, s2)" by fastforce
    note only = ask_audit_only [OF a build_request_unattributed]
    have frame: "chron_events (working s2) = chron_events (working s)"
      by (rule audit_only_frame(22)) (use only in simp)
    show ?thesis
    proof (cases a)
      case (Inl e)
      with assms p docs a only frame show ?thesis
        by (cases "swallowed e") (auto simp: build_chronology_def Let_def empty_build_def)
    next
      case (Inr res)
      obtain b' s3 where b': "propose_events env new_id m actor ?docs (mr_text res) s2 = (b', s3)" by fastforce
      have "?docs = load_documents_with_bodies (me_ellipsis env) (m_id m) (working s2)"
        using fresh_proposals_audit_only(2) only by metis
      from propose_events_fresh [OF b' this] fresh_proposals_audit_only(1) only
      have "fresh_proposals (m_id m) actor (working s) (bu_events b')" and s3: "s3 = on_working (add_events (bu_events b')) s2"
        by blast+
      with assms p docs a Inr b' only frame show ?thesis by (auto simp: build_chronology_def Let_def)
    qed
  qed
  then show "audit_only (durable s) (durable s1)"
    "r = Inr b \<Longrightarrow> fresh_proposals (m_id m) actor (working s) (bu_events b)
       \<and> chron_events (working s1) = chron_events (working s) @ bu_events b"
    by simp_all
qed


section \<open>Deleting a source\<close>

text \<open>C35. The sources of an event are not a foreign key. When a disclosed document is deleted the events made from
  it keep their words and lose their taint: the route shows an event that had no other source in full, to
  a user who never acknowledged the undertaking.\<close>

theorem deleting_the_source_lifts_the_gate:
  assumes "delete_document refused did actor (s, store) = (Inr (), (s', store'))"
    and "e \<in> set (chron_events (working s))" "ev_matter_id e = m_id m" "set (ev_source_doc_ids e) \<subseteq> {did}"
    and "resolve_owned_open_matter slug user_id (working s) = Some m"
  shows "\<exists>resp. get_chronology slug user_id (durable s') = Inr resp
    \<and> (\<exists>x \<in> set (ch_events resp). vw_id x = ev_id e \<and> vw_description x = ev_description e \<and> \<not> vw_redacted x)"
proof -
  from assms(1) obtain doc n where owned: "load_owned_document did actor (working s) = Some (doc, n)"
    and s': "durable s' = drop_document (doc_id doc) (add_event
        (stamp s (doc_event ''document.deleted'' actor (m_id n) [] ''document'' (doc_id doc)
           [(''filename'', JStr (doc_filename doc)), (''sha256'', JStr (doc_sha256 doc))])) (working s))"
    by (auto simp: delete_document_def split: option.splits if_splits)
  have did: "doc_id doc = did"
    using owned_document(2) [OF owned] by simp
  have d: "matters (durable s') = matters (working s)" "chron_events (durable s') = chron_events (working s)"
    "documents (durable s') = filter (\<lambda>x. doc_id x \<noteq> did) (documents (working s))"
    by (simp_all add: s' did drop_document_def drop_draft_def drop_chunks_def Let_def)
  have none: "find (\<lambda>x. doc_id x = did) (filter (\<lambda>x. doc_id x \<noteq> did) xs) = None" for xs
    by (induction xs) simp_all
  have "List.map_filter (\<lambda>i. find (\<lambda>x. doc_id x = i) (documents (durable s'))) is = []" if "set is \<subseteq> {did}" for "is"
    using that by (induction "is") (simp_all add: List.map_filter_simps d none)
  then have "source_docs e (durable s') = []" using assms(4) by (simp add: source_docs_def)
  then have v: "vw_description (event_to_read e (durable s') r) = ev_description e \<and> \<not> vw_redacted (event_to_read e (durable s') r)
      \<and> vw_id (event_to_read e (durable s') r) = ev_id e" for r
    by (simp add: event_to_read_def)
  have m: "resolve_owned_open_matter slug user_id (durable s') = Some m"
    using assms(5) by (simp add: resolve_owned_open_matter_def d)
  have "e \<in> set (load_chronology (m_id m) (durable s'))"
    using assms(2,3) by (simp add: load_chronology_def d)
  with v m show ?thesis by (auto simp: get_chronology_def Let_def)
qed

section \<open>Samples\<close>

text \<open>A matter with a disclosed letter, its event, and an event without source; and a build whose reply repeats one.\<close>

definition sample_letter :: "string \<Rightarrow> document" where
  "sample_letter filename = \<lparr>doc_id = ''d'', doc_matter_id = ''m'', doc_index_status = ''indexed'', doc_indexed_at = None,
     doc_filename = filename, doc_mime_type = ''text/plain'', doc_size_bytes = 1, doc_sha256 = ''h'', doc_storage_uri = None,
     doc_uploaded_at = 1, doc_uploaded_by_id = ''u'', doc_tag = None, doc_from_disclosure = True, doc_disclosure_ref = Some ''ref''\<rparr>"

definition sample_event :: "uuid \<Rightarrow> string \<Rightarrow> uuid list \<Rightarrow> chron_event" where
  "sample_event i what srcs = \<lparr>ev_id = i, ev_matter_id = ''m'', ev_event_date = (2024, 5, 1), ev_description = what,
     ev_significance = 3, ev_source_doc_ids = srcs, ev_priv_flag = False, ev_status = ''accepted'', ev_created_at = 2, ev_created_by_id = ''u''\<rparr>"

definition sample_case :: "string \<Rightarrow> string \<Rightarrow> db" where
  "sample_case filename what = empty_db
     \<lparr>matters := [\<lparr>m_id = ''m'', m_slug = ''m'', m_title = ''t'', m_status = ''open'',
        m_privilege_posture = ''B_mixed'', m_created_by_id = ''u'', m_retention_until = None, m_default_model_id = ''stub-echo'',
        m_matter_type = ''employment_tribunal'', m_cause = None, m_case_theory = None,
        m_pivot_fact = None, m_facts = JObj [], m_opened_at = 0, m_closed_at = None\<rparr>],
      documents := [sample_letter filename],
      doc_bodies := [\<lparr>b_document_id = ''d'', b_kind = ''extracted'', b_extracted_text = ''letter'', b_extraction_method = ''text'', b_extracted_at = 1,
        b_char_count = 6, b_page_count = None, b_error_reason = None, b_mapping = None, b_engine = None, b_anonymised_at = None\<rparr>],
      chron_events := [sample_event ''e1'' what [''d''], sample_event ''e2'' ''Hearing'' []]\<rparr>"

text \<open>A model whose reply, whatever the text, is read as two proposals of which the first is known.\<close>

definition sample_env :: model_env where
  "sample_env = \<lparr>me_sha = rev, me_settings = \<lparr>gs_default_model = ''stub-echo'', gs_environment = ''production'', gs_allow_server_key_fallback = False\<rparr>,
     me_providers = new_gateway [], me_keys = (\<lambda>u n. None), me_latency = 1,
     me_loads = (\<lambda>t. Some (JObj [(''events'', JList [
        JObj [(''event_date'', JStr ''20240501''), (''description'', JStr ''  hearing '')],
        JObj [(''event_date'', JStr ''2024-W19-2''), (''description'', JStr ''Letter sent''), (''source_document_id'', JStr ''d'')]])])),
     me_parse_uuid = Some, me_ellipsis = ''...''\<rparr>"

lemma date_samples:
  "date_fromisoformat ''2024-05-07'' = Some (2024, 5, 7)" "date_fromisoformat ''20240229'' = Some (2024, 2, 29)"
  "date_fromisoformat ''2024-W19-2'' = Some (2024, 5, 7)" "date_fromisoformat ''2020W537'' = Some (2021, 1, 3)"
  "date_fromisoformat ''2023-02-29'' = None" "date_fromisoformat ''2024-5-7'' = None" "date_fromisoformat ''2024-05'' = None"
  by code_simp+

lemma unacknowledged_detail_is_withheld_witness:
  "get_chronology ''m'' ''u'' (sample_case ''secret.txt'' ''Secret'') = get_chronology ''m'' ''u'' (sample_case ''letter.txt'' ''Dismissed'')"
proof -
  have "same_but_for_disclosure (sample_case ''letter.txt'' ''Dismissed'') (sample_case ''secret.txt'' ''Secret'')"
    by code_simp
  moreover have "case resolve_owned_open_matter ''m'' ''u'' (sample_case ''letter.txt'' ''Dismissed'') of None \<Rightarrow> True
      | Some m \<Rightarrow> confirmations (m_id m) ''u'' (sample_case ''letter.txt'' ''Dismissed'') = []"
    by code_simp
  ultimately show ?thesis by (rule unacknowledged_detail_is_withheld)
qed

lemma sample_build:
  "fst (build sample_env [] (\<lambda>i. ''e3'') ''m'' ''u'' (open_session (sample_case ''letter.txt'' ''Dismissed'') 9))
   = Inr \<lparr>br_matter_slug = ''m'', br_proposed = [\<lparr>vw_id = ''e3'', vw_event_date = (2024, 5, 7), vw_description = REDACTED_DESCRIPTION,
       vw_significance = 3, vw_source_doc_ids = [''d''], vw_source_doc_filenames = [], vw_priv_flag = False, vw_status = ''proposed'',
       vw_from_disclosure = True, vw_proceedings_refs = [], vw_created_at = 9, vw_redacted = True\<rparr>],
     br_document_count = 1, br_duplicates_skipped = 1, br_parse_failed = False, br_error = None\<rparr>"
  by code_simp


lemma deleting_the_source_lifts_the_gate_witness:
  "\<exists>resp s' store'. delete_document False ''d'' ''u'' (open_session (sample_case ''letter.txt'' ''Dismissed'') 9, \<lambda>k. None) = (Inr (), (s', store'))
     \<and> get_chronology ''m'' ''u'' (durable s') = Inr resp
     \<and> (\<exists>x \<in> set (ch_events resp). vw_id x = ''e1'' \<and> vw_description x = ''Dismissed'' \<and> \<not> vw_redacted x)"
proof -
  let ?s = "open_session (sample_case ''letter.txt'' ''Dismissed'') 9"
  have "fst (delete_document False ''d'' ''u'' (?s, \<lambda>k. None)) = Inr ()" by code_simp
  then obtain s' store' where run: "delete_document False ''d'' ''u'' (?s, \<lambda>k. None) = (Inr (), (s', store'))"
    by (metis prod.collapse)
  obtain m where m: "resolve_owned_open_matter ''m'' ''u'' (working ?s) = Some m" and id: "m_id m = ''m''"
    by (simp add: resolve_owned_open_matter_def open_session_def sample_case_def STATUS_ARCHIVED_def)
  have "sample_event ''e1'' ''Dismissed'' [''d''] \<in> set (chron_events (working ?s))"
    by (simp add: open_session_def sample_case_def)
  from deleting_the_source_lifts_the_gate [OF run this _ _ m] run id show ?thesis by (auto simp: sample_event_def)
qed

end
