(* ===== verification/AssistantContext.thy ===== *)
theory AssistantContext
  imports Chronology AuditChain
begin

text \<open>
  What one turn of the assistant puts before the model (\<open>app/modules/assistant/pipeline.py\<close>): the loaders of the
  history, the chronology, the documents, the outputs and the tools of a matter, the texts they are rendered to, the prompt
  with its budget, and the answers given without a model. What lies outside is a record of arguments: the retrieval
  backends, the system prompt, the three characters beyond the first 256 code points (with the ellipsis of the
  model's surroundings), the installed modules with the check of their entry points, and the runtime that runs a tool.
\<close>

section \<open>Surroundings\<close>

record module_row =
  mo_id :: uuid
  mo_module_id :: string
  mo_version :: string
  mo_manifest :: json
  mo_enabled :: bool
  mo_installed_at :: int

record tool_spec =
  ts_module_id :: string
  ts_capability_id :: string
  ts_label :: string
  ts_description :: string
  ts_args_schema :: json
  ts_declaration :: json
  ts_installed_module :: module_row

datatype tool_failure =
    ToolProviderError gateway_error
  | ToolCapabilityDenied
  | ToolPostureBlocked bool
  | ToolPhase1Blocked
  | ToolAdviceDenied
  | ToolInvalid string
  | ToolCrashed

record 'f assistant_env =
  as_model :: model_env
  as_system :: string
  as_em_dash :: string
  as_arrow :: string
  as_share :: "nat \<Rightarrow> 'f"
  as_add :: "'f \<Rightarrow> 'f \<Rightarrow> 'f"
  as_zero :: 'f
  as_embed_query :: "string \<Rightarrow> string + vector"
  as_distance :: "(vector \<Rightarrow> vector \<Rightarrow> 'f) option"
  as_ts_rank :: "string \<Rightarrow> string \<Rightarrow> 'f option"
  as_score :: "'f \<Rightarrow> json"
  as_modules :: "module_row list"
  as_entrypoint_ok :: "json \<Rightarrow> bool"
  as_dispatch :: "matter \<Rightarrow> tool_spec \<Rightarrow> (string \<times> json) list \<Rightarrow> uuid \<Rightarrow> uuid \<Rightarrow> session \<Rightarrow> (tool_failure + json) \<times> session"
  as_context_token_budget :: int
  as_matter_token_budget :: int

definition ellipsis :: "'f assistant_env \<Rightarrow> string" where
  "ellipsis env = me_ellipsis (as_model env)"

definition truncated :: "'f assistant_env \<Rightarrow> string \<Rightarrow> int \<Rightarrow> string" where
  "truncated env t budget = truncate_text (ellipsis env) t budget"

definition search_matter :: "('f :: linorder) assistant_env \<Rightarrow> uuid \<Rightarrow> string \<Rightarrow> int \<Rightarrow> db \<Rightarrow> 'f hit list" where
  "search_matter env = search_documents (as_share env) (as_add env) (as_zero env) (as_embed_query env) (as_distance env) (as_ts_rank env)"

section \<open>Budgets\<close>

definition CHARS_PER_TOKEN :: int where "CHARS_PER_TOKEN = 4"
definition HISTORY_MESSAGE_LIMIT :: nat where "HISTORY_MESSAGE_LIMIT = 20"
definition CHRONOLOGY_EVENT_LIMIT :: nat where "CHRONOLOGY_EVENT_LIMIT = 12"
definition RETRIEVAL_K :: int where "RETRIEVAL_K = 8"
definition ASSISTANT_MAX_TOKENS :: int where "ASSISTANT_MAX_TOKENS = 8192"
definition DOCUMENT_INDEX_LIMIT :: nat where "DOCUMENT_INDEX_LIMIT = 80"
definition OUTPUT_SUMMARY_LIMIT :: nat where "OUTPUT_SUMMARY_LIMIT = 12"
definition ROLLING_SUMMARY_CHAR_BUDGET :: int where "ROLLING_SUMMARY_CHAR_BUDGET = 1500 * CHARS_PER_TOKEN"
definition SOURCE_SNIPPET_CHARS :: int where "SOURCE_SNIPPET_CHARS = 240"
definition INVOKABLE_KINDS :: "string list" where "INVOKABLE_KINDS = [''skill'', ''tool'', ''workflow'']"
definition ROLE_USER :: string where "ROLE_USER = ''user''"
definition ROLE_ASSISTANT :: string where "ROLE_ASSISTANT = ''assistant''"

section \<open>Loading\<close>

text \<open>The messages of a thread in the order of their creation; the newest ones are the last.\<close>

definition thread_messages :: "uuid \<Rightarrow> db \<Rightarrow> assistant_message list" where
  "thread_messages tid d = sort_key am_created_at (filter (\<lambda>m. am_thread_id m = Some tid) (assistant_messages d))"

definition thread_message_count :: "uuid \<Rightarrow> db \<Rightarrow> nat" where
  "thread_message_count tid d = length (filter (\<lambda>m. am_thread_id m = Some tid) (assistant_messages d))"

definition load_history :: "uuid \<Rightarrow> nat \<Rightarrow> db \<Rightarrow> assistant_message list" where
  "load_history tid limit d = rev (take limit (rev (thread_messages tid d)))"

text \<open>The turns that left the window: the oldest ones.\<close>

definition older_turns :: "uuid \<Rightarrow> db \<Rightarrow> assistant_message list" where
  "older_turns tid d = take (thread_message_count tid d - HISTORY_MESSAGE_LIMIT) (thread_messages tid d)"

definition THREAD_TITLE_WORD_LIMIT :: nat where "THREAD_TITLE_WORD_LIMIT = 6"
definition THREAD_TITLE_CHAR_LIMIT :: nat where "THREAD_TITLE_CHAR_LIMIT = 80"

definition derive_thread_title :: "string \<Rightarrow> string \<Rightarrow> string" where
  "derive_thread_title ell content =
     (let ws = py_split content; title = py_join '' '' (take THREAD_TITLE_WORD_LIMIT ws) in
      if ws = [] then ''New chat''
      else if THREAD_TITLE_CHAR_LIMIT < length title then py_rstrip (take THREAD_TITLE_CHAR_LIMIT title) @ ell
      else title)"

definition chronology_head :: "uuid \<Rightarrow> db \<Rightarrow> chron_event list" where
  "chronology_head mid d = take CHRONOLOGY_EVENT_LIMIT (load_chronology mid d)"

definition chronology_total :: "uuid \<Rightarrow> db \<Rightarrow> nat" where
  "chronology_total mid d = length (filter (\<lambda>e. ev_matter_id e = mid) (chron_events d))"

definition load_selected_snippets :: "'f assistant_env \<Rightarrow> uuid \<Rightarrow> uuid list \<Rightarrow> db \<Rightarrow> (document \<times> string) list" where
  "load_selected_snippets env mid selected d =
     map (\<lambda>x. (x, truncated env (body_text (doc_id x) d) PER_DOCUMENT_CHAR_BUDGET))
       (filter (\<lambda>x. doc_matter_id x = mid \<and> doc_id x \<in> set selected) (documents d))"

text \<open>The keys of a dictionary filled by \<open>setdefault\<close>: each once, in the order they are first met.\<close>

fun first_seen :: "'a list \<Rightarrow> 'a list \<Rightarrow> 'a list" where
  "first_seen seen [] = []"
| "first_seen seen (x # xs) = (if x \<in> set seen then first_seen seen xs else x # first_seen (x # seen) xs)"

definition document_passages :: "'f assistant_env \<Rightarrow> uuid \<Rightarrow> 'f hit list \<Rightarrow> string" where
  "document_passages env did hits =
     truncated env (py_join (newline @ ellipsis env @ newline)
       (filter (\<lambda>t. t \<noteq> []) (map h_text (sort_key h_chunk_index (filter (\<lambda>h. h_document_id h = did) hits)))))
       PER_DOCUMENT_CHAR_BUDGET"

definition load_retrieved_snippets :: "('f :: linorder) assistant_env \<Rightarrow> uuid \<Rightarrow> string \<Rightarrow> int \<Rightarrow> db \<Rightarrow> (document \<times> string) list \<times> 'f hit list" where
  "load_retrieved_snippets env mid query k d =
     (let hits = search_matter env mid query k d in
      (List.map_filter (\<lambda>did. map_option (\<lambda>x. (x, document_passages env did hits))
           (find (\<lambda>x. doc_matter_id x = mid \<and> doc_id x = did) (documents d)))
         (first_seen [] (map h_document_id hits)), hits))"

record source =
  so_document_id :: string
  so_title :: string
  so_snippet :: string
  so_char_start :: nat
  so_char_end :: nat
  so_score :: json

definition build_sources :: "'f assistant_env \<Rightarrow> (document \<times> string) list \<Rightarrow> 'f hit list \<Rightarrow> source list" where
  "build_sources env snippets hits =
     List.map_filter (\<lambda>h. case find (\<lambda>(x, _). doc_id x = h_document_id h) snippets of
         None \<Rightarrow> None
       | Some (x, _) \<Rightarrow> Some \<lparr>so_document_id = h_document_id h, so_title = doc_filename x,
           so_snippet = truncated env (h_text h) SOURCE_SNIPPET_CHARS, so_char_start = h_char_start h,
           so_char_end = h_char_end h, so_score = as_score env (h_score h)\<rparr>) hits"

text \<open>The record of a search is committed on its own, with the hash of the query.\<close>

definition audit_retrieval_search :: "'f assistant_env \<Rightarrow> uuid \<Rightarrow> uuid \<Rightarrow> string \<Rightarrow> int \<Rightarrow> 'f hit list \<Rightarrow> session \<Rightarrow> session" where
  "audit_retrieval_search env actor mid query k hits s =
     audit_failure ((doc_event ''retrieval.search'' actor mid ''assistant'' ''matter'' mid
       [(''source'', JStr ''retrieval''), (''query_char_len'', JInt (int (length query))), (''k'', JInt k),
        (''hit_count'', JInt (int (length hits))), (''document_ids'', JList (map JStr (sort (remdups (map h_document_id hits)))))])
       \<lparr>ae_prompt_hash := Some (me_sha (as_model env) query)\<rparr>) s"

definition load_document_index :: "uuid \<Rightarrow> nat \<Rightarrow> db \<Rightarrow> document list \<times> nat" where
  "load_document_index mid limit d =
     (let docs = filter (\<lambda>x. doc_matter_id x = mid) (documents d)
      in (take limit (sort_key (\<lambda>x. - doc_uploaded_at x) docs), length docs))"

definition load_output_summary :: "uuid \<Rightarrow> nat \<Rightarrow> db \<Rightarrow> (artifact \<times> string) list" where
  "load_output_summary mid limit d =
     (let arts = take limit (sort_key (\<lambda>a. - a_created_at a) (filter (\<lambda>a. a_matter_id a = mid) (artifacts d)));
          rows = sort_key (\<lambda>r. - s_signed_at r) (filter (\<lambda>r. s_matter_id r = mid) (signoffs d))
      in map (\<lambda>a. (a, case find (\<lambda>r. s_artifact_id r = a_id a) rows of None \<Rightarrow> ''awaiting sign-off'' | Some r \<Rightarrow> s_decision r)) arts)"

section \<open>Tools\<close>

definition text_value :: "json \<Rightarrow> string option" where
  "text_value v = (case v of JStr t \<Rightarrow> if py_strip t = [] then None else Some t | _ \<Rightarrow> None)"

definition list_text :: "json \<Rightarrow> string list" where
  "list_text v = (case v of JList xs \<Rightarrow> only_strings xs | _ \<Rightarrow> [])"

text \<open>A text of the capability's \<open>ui\<close>, else of the manifest.\<close>

definition ui_text :: "string \<Rightarrow> json \<Rightarrow> string option" where
  "ui_text k capability = (case jget0 ''ui'' capability of JObj kvs \<Rightarrow> text_value (jget0 k (JObj kvs)) | _ \<Rightarrow> None)"

definition cap_label :: "json \<Rightarrow> json \<Rightarrow> string" where
  "cap_label capability manifest =
     (case ui_text ''label'' capability of Some t \<Rightarrow> t
      | None \<Rightarrow> (case text_value (jget0 ''name'' manifest) of Some t \<Rightarrow> t
        | None \<Rightarrow> (case text_value (jget0 ''id'' capability) of Some t \<Rightarrow> t | None \<Rightarrow> ''Skill'')))"

definition cap_description :: "json \<Rightarrow> json \<Rightarrow> string" where
  "cap_description capability manifest =
     (case ui_text ''description'' capability of Some t \<Rightarrow> t
      | None \<Rightarrow> (case text_value (jget0 ''description'' manifest) of Some t \<Rightarrow> t | None \<Rightarrow> []))"

definition tool_of :: "module_row \<Rightarrow> json \<Rightarrow> json \<Rightarrow> tool_spec option" where
  "tool_of row manifest raw =
     (case (raw, text_value (jget0 ''id'' raw)) of
        (JObj _, Some cid) \<Rightarrow>
          if or_text (text_value (jget0 ''scope'' raw)) ''workspace'' \<noteq> ''matter''
             \<or> or_text (text_value (jget0 ''kind'' raw)) ''skill'' \<notin> set INVOKABLE_KINDS then None
          else Some \<lparr>ts_module_id = mo_module_id row, ts_capability_id = cid, ts_label = cap_label raw manifest,
            ts_description = cap_description raw manifest,
            ts_args_schema = (case jget0 ''args_schema'' raw of JObj kvs \<Rightarrow> JObj kvs | _ \<Rightarrow> JObj []),
            ts_declaration = raw, ts_installed_module = row\<rparr>
      | _ \<Rightarrow> None)"

definition module_tools :: "(json \<Rightarrow> bool) \<Rightarrow> module_row \<Rightarrow> tool_spec list" where
  "module_tools entrypoint_ok row =
     (let manifest = (if py_truthy (mo_manifest row) then mo_manifest row else JObj []) in
      if \<not> entrypoint_ok manifest then []
      else case jget0 ''capabilities'' manifest of JList raws \<Rightarrow> List.map_filter (tool_of row manifest) raws | _ \<Rightarrow> [])"

text \<open>The newest enabled row of each module; later identifiers first among equal instants.\<close>

definition latest_modules :: "module_row list \<Rightarrow> module_row list" where
  "latest_modules rows =
     (let ordered = sort_key mo_module_id (sort_key (\<lambda>r. - mo_installed_at r) (rev (sort_key mo_id (filter mo_enabled rows))))
      in List.map_filter (\<lambda>i. find (\<lambda>r. mo_module_id r = i) ordered) (first_seen [] (map mo_module_id ordered)))"

definition load_assistant_tools :: "'f assistant_env \<Rightarrow> tool_spec list" where
  "load_assistant_tools env =
     sort_key (\<lambda>t. (py_lower (ts_label t), ts_module_id t, ts_capability_id t))
       (concat (map (module_tools (as_entrypoint_ok env)) (latest_modules (as_modules env))))"

section \<open>Rendering\<close>

definition iso_date :: "date \<Rightarrow> string" where
  "iso_date dt = (case dt of (y, m, d) \<Rightarrow> pad 4 y @ ''-'' @ pad 2 m @ ''-'' @ pad 2 d)"

definition date_part :: "int \<Rightarrow> string" where
  "date_part t = iso_date (civil_from_days (t div 86400000000))"

text \<open>\<open>datetime.isoformat\<close> of an instant in UTC: microseconds only if there are any.\<close>

definition iso_instant :: "int \<Rightarrow> string" where
  "iso_instant t =
     (let r = t mod 86400000000 in
      date_part t @ ''T'' @ pad 2 (r div 3600000000) @ '':'' @ pad 2 (r div 60000000 mod 60) @ '':'' @ pad 2 (r div 1000000 mod 60)
        @ (if r mod 1000000 = 0 then [] else ''.'' @ pad 6 (r mod 1000000)) @ ''+00:00'')"

text \<open>\<open>json.dumps(j, sort_keys=True)\<close> with the default separators.\<close>

primrec json_text :: "json \<Rightarrow> string" where
  "json_text JNull = ''null''"
| "json_text (JBool b) = (if b then ''true'' else ''false'')"
| "json_text (JInt i) = int_str i"
| "json_text (JStr s) = json_string True s"
| "json_text (JList xs) = ''['' @ py_join '', '' (map json_text xs) @ '']''"
| "json_text (JObj kvs) = ''{'' @ py_join '', ''
     (map (\<lambda>(k, v). json_string True k @ '': '' @ v) (sort_key fst (map (map_prod id json_text) kvs))) @ ''}''"

definition format_history :: "assistant_message list \<Rightarrow> string" where
  "format_history history =
     (if history = [] then ''(no prior turns)''
      else py_join newline (map (\<lambda>m. (if am_role m = ROLE_USER then ''User'' else ''Assistant'') @ '': '' @ am_content m) history))"

definition nonempty_line :: "string \<Rightarrow> string option \<Rightarrow> string list" where
  "nonempty_line label v = (case v of Some (c # cs) \<Rightarrow> [label @ '': '' @ c # cs] | _ \<Rightarrow> [])"

definition format_matter_facts :: "matter \<Rightarrow> string" where
  "format_matter_facts m =
     (let fact_text = (\<lambda>k. py_strip (py_str (jget_or k (JStr []) (m_facts m)))) in
      py_join newline
       ([''Title: '' @ m_title m, ''Type: '' @ m_matter_type m, ''Status: '' @ m_status m,
         ''Privilege posture: '' @ m_privilege_posture m, ''Opened: '' @ iso_instant (m_opened_at m)]
        @ nonempty_line ''Cause'' (m_cause m)
        @ (case m_retention_until m of None \<Rightarrow> [] | Some dt \<Rightarrow> [''Retention until: '' @ iso_date dt])
        @ (case m_facts m of JObj _ \<Rightarrow> nonempty_line ''Client'' (Some (fact_text ''client''))
             @ nonempty_line ''Counterparty'' (Some (fact_text ''counterparty'')) | _ \<Rightarrow> [])
        @ nonempty_line ''Case theory'' (m_case_theory m)
        @ nonempty_line ''Pivot fact'' (m_pivot_fact m)))"

definition event_line :: "chron_event \<Rightarrow> string" where
  "event_line e = ''[chron:'' @ ev_id e @ ''] '' @ iso_date (ev_event_date e) @ '' - '' @ ev_description e"

definition format_chronology :: "chron_event list \<Rightarrow> nat \<Rightarrow> string" where
  "format_chronology events n_total =
     (if events = [] then ''(no chronology events)''
      else py_join newline (map event_line events
        @ (if length events < n_total
           then [''(showing '' @ nat_str (length events) @ '' of '' @ nat_str n_total
                 @ '' events; ask to open the chronology for the rest)''] else [])))"

definition document_line :: "document \<Rightarrow> string" where
  "document_line x = py_join '' '' ([''[doc:'' @ doc_id x @ '']'', date_part (doc_uploaded_at x), doc_filename x]
     @ (case doc_tag x of Some (c # cs) \<Rightarrow> [''('' @ (c # cs) @ '')''] | _ \<Rightarrow> [])
     @ (if doc_from_disclosure x then [''[disclosure]''] else []))"

definition format_document_index :: "'f assistant_env \<Rightarrow> document list \<Rightarrow> nat \<Rightarrow> string" where
  "format_document_index env docs n_total =
     (if docs = [] then ''(no documents uploaded)''
      else nat_str n_total @ '' document(s) in this matter. Titles only '' @ as_em_dash env @ '' not contents.''
        @ (if length docs < n_total
           then '' Showing the '' @ nat_str (length docs) @ '' most recent by upload date; ask to open or attach others by id.'' else [])
        @ newline @ py_join newline (map document_line docs))"

definition format_outputs :: "(artifact \<times> string) list \<Rightarrow> string" where
  "format_outputs outputs =
     (if outputs = [] then ''(no generated outputs yet)''
      else py_join newline (map (\<lambda>(a, decision). a_kind a @ '' ('' @ date_part (a_created_at a) @ ''): '' @ decision) outputs))"

definition format_documents :: "(document \<times> string) list \<Rightarrow> string" where
  "format_documents snippets =
     (if snippets = [] then ''(no documents)''
      else py_join (newline @ newline) (map (\<lambda>(x, t). ''[doc:'' @ doc_id x @ ''] '' @ doc_filename x @ newline
        @ (if t = [] then ''(no extracted body)'' else t)) snippets))"

definition format_tool :: "tool_spec \<Rightarrow> string" where
  "format_tool t =
     (let reads = list_text (jget0 ''reads'' (ts_declaration t)); writes = list_text (jget0 ''writes'' (ts_declaration t)) in
      py_join newline ([''- label: '' @ ts_label t, ''  module_id: '' @ ts_module_id t, ''  capability_id: '' @ ts_capability_id t]
        @ (if ts_description t = [] then [] else [''  description: '' @ ts_description t])
        @ (if reads = [] then [] else [''  reads: '' @ py_join '', '' reads])
        @ (if writes = [] then [] else [''  writes: '' @ py_join '', '' writes])
        @ [''  args_schema: '' @ json_text (ts_args_schema t)]))"

definition format_tools :: "tool_spec list \<Rightarrow> string" where
  "format_tools tools =
     (if tools = [] then ''(no installed Legalise tools are runnable from chat)'' else py_join newline (map format_tool tools))"

section \<open>The prompt\<close>

definition RETRIEVED_DOCS_NOTE :: string where
  "RETRIEVED_DOCS_NOTE = ''Passages retrieved as most relevant to the new user message, searched across the whole matter. '' @
     ''Only indexed documents are searchable; documents still pending or failed indexing are not shown here.''"

definition SELECTED_DOCS_NOTE :: string where
  "SELECTED_DOCS_NOTE = ''Full extracted text of the documents the user attached.''"

record context_parts =
  cp_matter :: matter
  cp_history :: "assistant_message list"
  cp_events :: "chron_event list"
  cp_chronology_total :: nat
  cp_document_index :: "document list"
  cp_document_total :: nat
  cp_outputs :: "(artifact \<times> string) list"
  cp_snippets :: "(document \<times> string) list"
  cp_retrieval_used :: bool
  cp_tools :: "tool_spec list"
  cp_rolling_summary :: "string option"

text \<open>Everything before the history, in the order of the sections.\<close>

definition context_sections :: "'f assistant_env \<Rightarrow> context_parts \<Rightarrow> string list" where
  "context_sections env c =
     [''## Matter'', format_matter_facts (cp_matter c), [],
       ''## Document index'', format_document_index env (cp_document_index c) (cp_document_total c), [],
       ''## Chronology'', format_chronology (cp_events c) (cp_chronology_total c), [],
       ''## Outputs'', format_outputs (cp_outputs c), [],
       ''## Documents'', (if cp_retrieval_used c then RETRIEVED_DOCS_NOTE else SELECTED_DOCS_NOTE), format_documents (cp_snippets c), [],
       ''## Tools'', format_tools (cp_tools c)]
      @ (case cp_rolling_summary c of
           Some (x # xs) \<Rightarrow> [[], ''## Summary of earlier conversation'', truncated env (x # xs) ROLLING_SUMMARY_CHAR_BUDGET]
         | _ \<Rightarrow> [])
      @ [[], ''## Conversation so far'']"

definition context_text :: "'f assistant_env \<Rightarrow> context_parts \<Rightarrow> string" where
  "context_text env c = py_join newline (context_sections env c @ [format_history (cp_history c)])"

definition prompt_tail :: "string \<Rightarrow> string" where
  "prompt_tail user_content = py_join newline
     [[], ''## New user message'', user_content, [], ''Respond with JSON only matching the documented envelope.'']"

definition assemble_prompt :: "'f assistant_env \<Rightarrow> context_parts \<Rightarrow> string \<Rightarrow> int \<Rightarrow> string" where
  "assemble_prompt env c user_content token_budget =
     truncated env (context_text env c) (max 1 token_budget * CHARS_PER_TOKEN) @ prompt_tail user_content"

section \<open>Answers without a model\<close>

definition word_char :: "char \<Rightarrow> bool" where
  "word_char c \<longleftrightarrow> (let n = (of_char c :: nat) in 48 \<le> n \<and> n \<le> 57 \<or> 65 \<le> n \<and> n \<le> 90 \<or> n = 95 \<or> 97 \<le> n \<and> n \<le> 122
     \<or> n \<in> {170, 178, 179, 181, 185, 186, 188, 189, 190} \<or> 192 \<le> n \<and> n \<noteq> 215 \<and> n \<noteq> 247)"

definition SUMMARY_WORDS :: "string list" where
  "SUMMARY_WORDS = [''summarise'', ''summarize'', ''summary'', ''sum up'', ''brief'']"

text \<open>One of the words between word boundaries; the flag tells whether a word character comes before.\<close>

fun word_found :: "string list \<Rightarrow> bool \<Rightarrow> string \<Rightarrow> bool" where
  "word_found ws before [] = False"
| "word_found ws before (c # cs) =
     (\<not> before \<and> list_ex (\<lambda>w. starts_with w (c # cs) \<and> (case drop (length w) (c # cs) of [] \<Rightarrow> True | x # _ \<Rightarrow> \<not> word_char x)) ws
      \<or> word_found ws (word_char c) cs)"

definition looks_like_summary_request :: "string \<Rightarrow> bool" where
  "looks_like_summary_request content = word_found SUMMARY_WORDS False (py_lower content)"

text \<open>Sentences of a text whose white space is collapsed: a space after a full stop, exclamation or question mark ends one.\<close>

fun sentences :: "string \<Rightarrow> string \<Rightarrow> string list" where
  "sentences acc [] = [rev acc]"
| "sentences acc (c # cs) =
     (if c = CHR '' '' \<and> acc \<noteq> [] \<and> hd acc \<in> {CHR ''.'', CHR ''!'', CHR ''?''} then rev acc # sentences [] cs
      else sentences (c # acc) cs)"

definition sentence_chunks :: "string \<Rightarrow> string list" where
  "sentence_chunks t =
     (let compact = py_join '' '' (py_split t) in
      if compact = [] then [] else filter (\<lambda>x. x \<noteq> []) (map py_strip (sentences [] compact)))"

definition document_summary_content :: "'f assistant_env \<Rightarrow> document \<Rightarrow> string \<Rightarrow> string" where
  "document_summary_content env x t =
     (case sentence_chunks t of
        [] \<Rightarrow> ''I couldn'' @ [CHR 0x27] @ ''t find extracted text for '' @ doc_filename x
          @ ''. Open the document to inspect the original file. [doc:'' @ doc_id x @ '']''
      | lead # rest \<Rightarrow> py_join newline
          ([''Summary of '' @ doc_filename x @ '':'', [], ''- '' @ lead @ '' [doc:'' @ doc_id x @ '']'']
           @ map (\<lambda>t. ''- '' @ t) (take 3 rest)
           @ [[], ''Extract of the opening text, generated without a model. Add an API key in Settings ''
                @ as_arrow env @ '' API Keys for real summaries.'']))"

definition FILENAME_STOPWORDS :: "string list" where
  "FILENAME_STOPWORDS = [''the'', ''a'', ''an'', ''of'', ''and'', ''doc'', ''docx'', ''pdf'', ''txt'']"

definition token_char :: "char \<Rightarrow> bool" where
  "token_char c \<longleftrightarrow> (let n = (of_char c :: nat) in 48 \<le> n \<and> n \<le> 57 \<or> 97 \<le> n \<and> n \<le> 122)"

fun tokens_aux :: "string \<Rightarrow> string \<Rightarrow> string list" where
  "tokens_aux acc [] = [rev acc]"
| "tokens_aux acc (c # cs) = (if token_char c then tokens_aux (c # acc) cs else rev acc # tokens_aux [] cs)"

definition long_tokens :: "string \<Rightarrow> string set" where
  "long_tokens t = set (filter (\<lambda>w. 2 < length w) (tokens_aux [] (py_lower t)))"

definition name_tokens :: "document \<Rightarrow> string set" where
  "name_tokens x = (long_tokens (doc_filename x) - set FILENAME_STOPWORDS)
     \<union> (case doc_tag x of None \<Rightarrow> {} | Some t \<Rightarrow> long_tokens t)"

definition match_requested_document :: "string \<Rightarrow> (document \<times> string) list \<Rightarrow> (document \<times> string) option" where
  "match_requested_document content snippets =
     (case snippets of [] \<Rightarrow> None | [s] \<Rightarrow> Some s
      | _ \<Rightarrow>
        (let request = long_tokens content - set FILENAME_STOPWORDS;
             scored = sort_key (\<lambda>p. - int (fst p)) (map (\<lambda>s. (card (request \<inter> name_tokens (fst s)), s)) snippets);
             best = fst (hd scored)
         in if best = 0 \<or> fst (scored ! 1) = best then None else Some (snd (hd scored))))"

record suggested_action =
  sa_type :: string
  sa_label :: string
  sa_params :: "(string \<times> string) list"

definition open_document :: "uuid \<Rightarrow> suggested_action" where
  "open_document did = \<lparr>sa_type = ''view_document'', sa_label = ''Open document'', sa_params = [(''document_id'', did)]\<rparr>"

definition maybe_deterministic_document_summary ::
  "'f assistant_env \<Rightarrow> string \<Rightarrow> (document \<times> string) list \<Rightarrow> (string \<times> suggested_action list) option" where
  "maybe_deterministic_document_summary env content snippets =
     (if snippets = [] \<or> \<not> looks_like_summary_request content then None
      else case match_requested_document content snippets of
          None \<Rightarrow> None
        | Some (x, t) \<Rightarrow> Some (document_summary_content env x t, [open_document (doc_id x)]))"

definition keyless_retrieval_answer :: "'f assistant_env \<Rightarrow> source list \<Rightarrow> (string \<times> suggested_action list) option" where
  "keyless_retrieval_answer env sources =
     (case sources of [] \<Rightarrow> None
      | shown # _ \<Rightarrow>
        (let doc_count = card (set (map so_document_id sources)); q = [CHR 0x27] in
         Some (''No model key is configured, so I can'' @ q @ ''t write an answer that reasons over the matter. '' @
             ''Below are the passages most relevant to your question '' @ as_em_dash env @ '' '' @ nat_str (length sources) @ '' from ''
             @ nat_str doc_count @ '' '' @ (if doc_count = 1 then ''document'' else ''documents'') @ '', retrieved from this matter'' @ q
             @ ''s own documents. Review them directly, or add a model key in Settings '' @ as_arrow env
             @ '' API Keys to get a written answer.'',
           [open_document (so_document_id shown)])))"

end
