(* ===== verification/AssistantTurn.thy ===== *)
theory AssistantTurn
  imports AssistantContext
begin

text \<open>
  One turn of the assistant and its routes (\<open>app/modules/assistant/pipeline.py\<close>, \<open>router.py\<close>, \<open>schemas.py\<close>): the
  spend guard, the call of the gateway, the answers without a key, one tool call and the second call it leads to, the
  rows and audit rows of the turn, the rolling summary, threads, and saving a reply as a draft. The events that
  are streamed to the browser are left out; the rows are the same with and without them.
\<close>

section \<open>The envelope\<close>

record tool_call =
  tc_module_id :: string
  tc_capability_id :: string
  tc_args :: "(string \<times> json) list"

definition ACTION_TYPES :: "string list" where
  "ACTION_TYPES = [''view_document'', ''view_audit'', ''view_chronology'', ''anonymise_document'']"

definition string_value :: "json \<Rightarrow> string option" where
  "string_value j = (case j of JStr t \<Rightarrow> Some t | _ \<Rightarrow> None)"

text \<open>A field with a default: absent, or valid.\<close>

definition field_or :: "string \<Rightarrow> 'a \<Rightarrow> (json \<Rightarrow> 'a option) \<Rightarrow> json \<Rightarrow> 'a option" where
  "field_or k dflt valid j = (case jget k j of None \<Rightarrow> Some dflt | Some v \<Rightarrow> valid v)"

definition string_dict :: "json \<Rightarrow> (string \<times> string) list option" where
  "string_dict j = (case j of JObj kvs \<Rightarrow> those (map (\<lambda>(k, v). map_option (Pair k) (string_value v)) kvs) | _ \<Rightarrow> None)"

definition validate_action :: "json \<Rightarrow> suggested_action option" where
  "validate_action j =
     (case j of
        JObj _ \<Rightarrow>
          (case (string_value (jget0 ''type'' j), string_value (jget0 ''label'' j), field_or ''params'' [] string_dict j) of
             (Some t, Some l, Some ps) \<Rightarrow>
               if t \<in> set ACTION_TYPES then Some \<lparr>sa_type = t, sa_label = l, sa_params = ps\<rparr> else None
           | _ \<Rightarrow> None)
      | _ \<Rightarrow> None)"

definition short_name :: "json \<Rightarrow> string option" where
  "short_name j = (case j of JStr t \<Rightarrow> if 1 \<le> length t \<and> length t \<le> 128 then Some t else None | _ \<Rightarrow> None)"

definition validate_tool_call :: "json \<Rightarrow> tool_call option" where
  "validate_tool_call j =
     (case j of
        JObj _ \<Rightarrow>
          (case (short_name (jget0 ''module_id'' j), short_name (jget0 ''capability_id'' j),
                 field_or ''args'' [] (\<lambda>v. case v of JObj kvs \<Rightarrow> Some kvs | _ \<Rightarrow> None) j) of
             (Some m, Some c, Some args) \<Rightarrow> Some \<lparr>tc_module_id = m, tc_capability_id = c, tc_args = args\<rparr>
           | _ \<Rightarrow> None)
      | _ \<Rightarrow> None)"

definition valid_list :: "(json \<Rightarrow> 'a option) \<Rightarrow> json \<Rightarrow> 'a list option" where
  "valid_list valid j = (case j of JList xs \<Rightarrow> those (map valid xs) | _ \<Rightarrow> None)"

record envelope =
  en_content :: string
  en_actions :: "suggested_action list"
  en_tool_calls :: "tool_call list"

definition validate_response :: "json \<Rightarrow> envelope option" where
  "validate_response j =
     (case (string_value (jget0 ''content'' j), field_or ''suggested_actions'' [] (valid_list validate_action) j,
            field_or ''tool_calls'' [] (valid_list validate_tool_call) j) of
        (Some t, Some as, Some cs) \<Rightarrow>
          if length cs \<le> 1 then Some \<lparr>en_content = t, en_actions = as, en_tool_calls = cs\<rparr> else None
      | _ \<Rightarrow> None)"

section \<open>Rows\<close>

record turn_request =
  rq_content :: string
  rq_selected :: "uuid list"
  rq_thread_id :: "uuid option"

record turn_ids =
  ti_thread :: uuid
  ti_user :: uuid
  ti_assistant :: uuid
  ti_invocation :: uuid

text \<open>Which call a row reports: the model, the hashes and the tokens.\<close>

record provenance =
  pv_model_used :: string
  pv_prompt_hash :: "string option"
  pv_response_hash :: "string option"
  pv_token_count :: int

definition no_call :: "string \<Rightarrow> provenance" where
  "no_call model = \<lparr>pv_model_used = model, pv_prompt_hash = None, pv_response_hash = None, pv_token_count = 0\<rparr>"

definition of_call :: "model_result \<Rightarrow> provenance" where
  "of_call r = \<lparr>pv_model_used = mr_model_used r, pv_prompt_hash = Some (mr_prompt_hash r),
     pv_response_hash = Some (mr_response_hash r), pv_token_count = mr_token_count r\<rparr>"

definition action_json :: "suggested_action \<Rightarrow> json" where
  "action_json a = JObj [(''type'', JStr (sa_type a)), (''label'', JStr (sa_label a)),
     (''params'', JObj (map (\<lambda>(k, v). (k, JStr v)) (sa_params a)))]"

definition source_json :: "source \<Rightarrow> json" where
  "source_json x = JObj [(''document_id'', JStr (so_document_id x)), (''title'', JStr (so_title x)), (''snippet'', JStr (so_snippet x)),
     (''char_start'', JInt (int (so_char_start x))), (''char_end'', JInt (int (so_char_end x))), (''score'', so_score x)]"

definition user_row :: "uuid \<Rightarrow> uuid \<Rightarrow> uuid \<Rightarrow> uuid \<Rightarrow> string \<Rightarrow> int \<Rightarrow> assistant_message" where
  "user_row i mid tid actor content now =
     \<lparr>am_id = i, am_matter_id = mid, am_thread_id = Some tid, am_actor_id = actor, am_role = ROLE_USER, am_content = content,
      am_suggested_actions = JList [], am_sources = JList [], am_model_used = None, am_prompt_hash = None,
      am_response_hash = None, am_token_count = None, am_created_at = now\<rparr>"

definition assistant_row ::
  "uuid \<Rightarrow> uuid \<Rightarrow> uuid \<Rightarrow> uuid \<Rightarrow> string \<Rightarrow> suggested_action list \<Rightarrow> source list \<Rightarrow> provenance \<Rightarrow> int \<Rightarrow> assistant_message" where
  "assistant_row i mid tid actor content actions sources p now =
     \<lparr>am_id = i, am_matter_id = mid, am_thread_id = Some tid, am_actor_id = actor, am_role = ROLE_ASSISTANT, am_content = content,
      am_suggested_actions = JList (map action_json actions), am_sources = JList (map source_json sources),
      am_model_used = Some (pv_model_used p), am_prompt_hash = pv_prompt_hash p, am_response_hash = pv_response_hash p,
      am_token_count = Some (pv_token_count p), am_created_at = now\<rparr>"

definition add_message :: "assistant_message \<Rightarrow> db \<Rightarrow> db" where
  "add_message m d = d\<lparr>assistant_messages := assistant_messages d @ [m]\<rparr>"

text \<open>\<open>coalesce(sum(token_count), 0)\<close> over the matter.\<close>

definition matter_token_usage :: "uuid \<Rightarrow> db \<Rightarrow> int" where
  "matter_token_usage mid d = sum_list (map (\<lambda>m. case am_token_count m of None \<Rightarrow> 0 | Some n \<Rightarrow> n)
     (filter (\<lambda>m. am_matter_id m = mid) (assistant_messages d)))"

type_synonym turn_rows = "assistant_message \<times> assistant_message"

section \<open>The spend guard\<close>

definition refuse_turn :: "'f assistant_env \<Rightarrow> turn_ids \<Rightarrow> uuid \<Rightarrow> uuid \<Rightarrow> uuid \<Rightarrow> string \<Rightarrow> int \<Rightarrow> session \<Rightarrow> turn_rows \<times> session" where
  "refuse_turn env ids mid tid actor content used s =
     (let u = user_row (ti_user ids) mid tid actor content (clock s);
          a = assistant_row (ti_assistant ids) mid tid actor
            (''This matter has reached its configured token budget ('' @ int_str used @ '' tokens used of ''
              @ int_str (as_matter_token_budget env) @ ''). Continue in a new matter, or ask whoever runs this workspace to raise LEGALISE_MATTER_TOKEN_BUDGET.'')
            [] [] (no_call ''budget-guard'') (clock s)
      in ((u, a), commit (audit_log (doc_event ''assistant.budget.exceeded'' actor mid ''assistant'' ''assistant_message'' (am_id a)
            [(''used'', JInt used), (''budget'', JInt (as_matter_token_budget env))])
            (on_working (add_message a) (on_working (add_message u) s)))))"

section \<open>Gathering the context\<close>

record gathered =
  ga_parts :: context_parts
  ga_sources :: "source list"
  ga_thread_summary :: "string option"

definition gather :: "('f :: linorder) assistant_env \<Rightarrow> matter \<Rightarrow> uuid \<Rightarrow> uuid \<Rightarrow> turn_request \<Rightarrow> session \<Rightarrow> gathered \<times> session" where
  "gather env m actor tid rq s =
     (let d = working s; mid = m_id m; retrieval = (rq_selected rq = []);
          found = (if retrieval then load_retrieved_snippets env mid (rq_content rq) RETRIEVAL_K d
                   else (load_selected_snippets env mid (rq_selected rq) d, []));
          s1 = (if retrieval then audit_retrieval_search env actor mid (rq_content rq) RETRIEVAL_K (snd found) s else s);
          summary = (case find (\<lambda>t. th_id t = tid) (assistant_threads d) of None \<Rightarrow> None | Some t \<Rightarrow> th_rolling_summary t);
          index = load_document_index mid DOCUMENT_INDEX_LIMIT d
      in (\<lparr>ga_parts = \<lparr>cp_matter = m, cp_history = load_history tid HISTORY_MESSAGE_LIMIT d, cp_events = chronology_head mid d,
             cp_chronology_total = chronology_total mid d, cp_document_index = fst index, cp_document_total = snd index,
             cp_outputs = load_output_summary mid OUTPUT_SUMMARY_LIMIT d, cp_snippets = fst found, cp_retrieval_used = retrieval,
             cp_tools = load_assistant_tools env,
             cp_rolling_summary = (if HISTORY_MESSAGE_LIMIT < thread_message_count tid d then summary else None)\<rparr>,
           ga_sources = build_sources env (fst found) (snd found), ga_thread_summary = summary\<rparr>, s1))"

definition assistant_call :: "'f assistant_env \<Rightarrow> matter \<Rightarrow> uuid \<Rightarrow> posture \<Rightarrow> uuid \<Rightarrow> string \<Rightarrow> (string \<times> json) list \<Rightarrow> model_request" where
  "assistant_call env m actor p user_message_id prompt payload =
     \<lparr>mq_matter_id = Some (m_id m), mq_actor_id = Some actor, mq_prompt = prompt, mq_model = Some (m_default_model_id m),
      mq_posture = Some p, mq_system = Some (as_system env), mq_max_tokens = Some ASSISTANT_MAX_TOKENS,
      mq_resource_type = Some ''assistant_message'', mq_resource_id = Some user_message_id, mq_payload = payload,
      mq_caller_module = Some ''assistant'', mq_streams = False\<rparr>"

section \<open>The reply\<close>

record reply =
  re_content :: string
  re_actions :: "suggested_action list"
  re_tool_calls :: "tool_call list"
  re_parse_failed :: bool

definition apostrophe :: string where "apostrophe = [CHR 0x27]"

definition read_reply :: "'f assistant_env \<Rightarrow> matter \<Rightarrow> string \<Rightarrow> reply" where
  "read_reply env m reply_text =
     (if m_default_model_id m = ''stub-echo'' then
        \<lparr>re_content = reply_text @ newline @ newline @ ''Demo model '' @ as_em_dash env
           @ '' this echoes your message back; it does not reason. Pick a real model in the matter'' @ apostrophe
           @ ''s settings to chat about the matter.'', re_actions = [], re_tool_calls = [], re_parse_failed = False\<rparr>
      else case parse_model_json (me_loads (as_model env)) validate_response reply_text of
          Inr e \<Rightarrow> \<lparr>re_content = en_content e, re_actions = en_actions e, re_tool_calls = en_tool_calls e, re_parse_failed = False\<rparr>
        | Inl _ \<Rightarrow> \<lparr>re_content = ''I couldn'' @ apostrophe @ ''t structure that response. Try rephrasing your message, ''
              @ ''or check the model settings on this matter.'', re_actions = [], re_tool_calls = [], re_parse_failed = True\<rparr>)"

section \<open>The tool\<close>

definition normalise_tool_args :: "tool_call \<Rightarrow> turn_request \<Rightarrow> (string \<times> json) list" where
  "normalise_tool_args call rq =
     (let args = tc_args call; ks = map fst args;
          args1 = (if rq_selected rq \<noteq> [] \<and> ''document_ids'' \<notin> set ks \<and> ''document_id'' \<notin> set ks
                   then args @ [(''document_ids'', JList (map JStr (rq_selected rq)))] else args)
      in if ''input'' \<notin> set ks \<and> ''question'' \<notin> set ks then args1 @ [(''input'', JStr (rq_content rq))] else args1)"

text \<open>\<open>_tool_index\<close>: of two tools under one pair of names the later one stays.\<close>

definition find_tool :: "tool_spec list \<Rightarrow> tool_call \<Rightarrow> tool_spec option" where
  "find_tool tools call = find (\<lambda>t. ts_module_id t = tc_module_id call \<and> ts_capability_id t = tc_capability_id call) (rev tools)"

definition dispatch_assistant_tool ::
  "'f assistant_env \<Rightarrow> matter \<Rightarrow> uuid \<Rightarrow> turn_request \<Rightarrow> tool_call \<Rightarrow> tool_spec list \<Rightarrow> uuid \<Rightarrow> session \<Rightarrow> (tool_failure + json) \<times> session" where
  "dispatch_assistant_tool env m actor rq call tools invocation s =
     (case find_tool tools call of
        None \<Rightarrow> (Inl (ToolInvalid (''tool is not installed or not chat-runnable: '' @ tc_module_id call @ ''/'' @ tc_capability_id call)), s)
      | Some t \<Rightarrow> as_dispatch env m t (normalise_tool_args call rq) actor invocation s)"

text \<open>The exceptions the router turns into an answer of its own; the gateway reports a missing matter as a pause.\<close>

definition provider_http :: "gateway_error \<Rightarrow> bool" where
  "provider_http e = (case e of PrivilegePaused \<Rightarrow> True | MatterMissing \<Rightarrow> True | KeyMissing _ \<Rightarrow> True | UpstreamFailed _ \<Rightarrow> True | _ \<Rightarrow> False)"

definition tool_failure_message :: "matter \<Rightarrow> tool_failure \<Rightarrow> string" where
  "tool_failure_message m e =
     (let could = ''I couldn'' @ apostrophe @ ''t run that skill'' in
      case e of
        ToolCapabilityDenied \<Rightarrow> could @ '': this matter doesn'' @ apostrophe @ ''t grant it the permission it needs. Check Activity for the failed run.''
      | ToolPostureBlocked True \<Rightarrow> could @ '': AI is paused on this matter. Resume AI from the matter'' @ apostrophe @ ''s Overview first.''
      | ToolPostureBlocked False \<Rightarrow> could @ '': your role doesn'' @ apostrophe @ ''t allow skill runs on this matter.''
      | ToolPhase1Blocked \<Rightarrow> could @ '': a workspace safety check blocked it. Check Activity for the failed run.''
      | ToolAdviceDenied \<Rightarrow> could @ '': it goes beyond what this workspace may advise on. Check Activity for the failed run.''
      | ToolInvalid msg \<Rightarrow> could @ '': '' @ msg
      | ToolProviderError (ModelDenied _) \<Rightarrow> could @ '': this matter doesn'' @ apostrophe @ ''t grant it the permission it needs. Check Activity for the failed run.''
      | ToolProviderError UnknownPosture \<Rightarrow> could @ '': '' @ repr_str (m_privilege_posture m) @ '' is not a valid PrivilegePosture''
      | _ \<Rightarrow> could @ ''. Check Activity for the failed run.'')"

definition final_tool_prompt :: "string \<Rightarrow> tool_call \<Rightarrow> uuid \<Rightarrow> json \<Rightarrow> string" where
  "final_tool_prompt original call invocation result = py_join newline
     [original, [], ''## Tool result'',
      json_text (JObj [(''module_id'', JStr (tc_module_id call)), (''capability_id'', JStr (tc_capability_id call)),
        (''invocation_id'', JStr invocation), (''result'', result)]),
      [],
      ''Write the final assistant reply as JSON only. Do not request another tool. '' @
      ''Mention the useful result and include a suggested action to view Activity when the run produced an invocation_id.'']"

definition view_activity :: "(string \<times> string) list \<Rightarrow> suggested_action" where
  "view_activity ps = \<lparr>sa_type = ''view_audit'', sa_label = ''Open Activity'', sa_params = ps\<rparr>"

text \<open>What becomes of a turn whose reply asks for a tool: the tool runs, and a second call writes the answer. A
  failure of either is answered in the chat, unless it is one of a provider.\<close>

record turn_outcome =
  oc_content :: string
  oc_actions :: "suggested_action list"
  oc_provenance :: provenance
  oc_invocation :: "uuid option"
  oc_tool_result :: "json option"
  oc_tool_failed :: bool

definition plain_outcome :: "reply \<Rightarrow> model_result \<Rightarrow> turn_outcome" where
  "plain_outcome rep r = \<lparr>oc_content = re_content rep, oc_actions = re_actions rep, oc_provenance = of_call r,
     oc_invocation = None, oc_tool_result = None, oc_tool_failed = False\<rparr>"

definition failed_outcome :: "matter \<Rightarrow> tool_failure \<Rightarrow> model_result \<Rightarrow> uuid option \<Rightarrow> json option \<Rightarrow> turn_outcome" where
  "failed_outcome m e r invocation res =
     \<lparr>oc_content = tool_failure_message m e, oc_actions = [view_activity []], oc_provenance = of_call r,
      oc_invocation = invocation, oc_tool_result = res, oc_tool_failed = True\<rparr>"

definition final_outcome :: "'f assistant_env \<Rightarrow> uuid \<Rightarrow> json \<Rightarrow> model_result \<Rightarrow> turn_outcome" where
  "final_outcome env invocation res r =
     (case parse_model_json (me_loads (as_model env)) validate_response (mr_text r) of
        Inr e \<Rightarrow> \<lparr>oc_content = en_content e, oc_actions = en_actions e, oc_provenance = of_call r,
          oc_invocation = Some invocation, oc_tool_result = Some res, oc_tool_failed = False\<rparr>
      | Inl _ \<Rightarrow> \<lparr>oc_content = ''The skill ran, but I couldn'' @ apostrophe @ ''t structure the final reply. Open Activity to inspect the run.'',
          oc_actions = [view_activity [(''invocation_id'', invocation)]], oc_provenance = of_call r,
          oc_invocation = Some invocation, oc_tool_result = Some res, oc_tool_failed = False\<rparr>)"

definition final_payload :: "tool_call \<Rightarrow> uuid \<Rightarrow> (string \<times> json) list" where
  "final_payload call invocation = [(''stage'', JStr ''assistant.final''), (''module'', JStr ''assistant''),
     (''tool_module_id'', JStr (tc_module_id call)), (''tool_capability_id'', JStr (tc_capability_id call)),
     (''tool_invocation_id'', JStr invocation)]"

definition tool_stage ::
  "'f assistant_env \<Rightarrow> turn_ids \<Rightarrow> matter \<Rightarrow> uuid \<Rightarrow> posture \<Rightarrow> turn_request \<Rightarrow> tool_spec list \<Rightarrow> string \<Rightarrow> tool_call \<Rightarrow> model_result
    \<Rightarrow> session \<Rightarrow> (gateway_error + turn_outcome) \<times> session" where
  "tool_stage env ids m actor p rq tools prompt call r0 s =
     (let i = ti_invocation ids in
      case dispatch_assistant_tool env m actor rq call tools i s of
        (Inl e, s1) \<Rightarrow>
          (case e of ToolProviderError g \<Rightarrow> if provider_http g then (Inl g, s1) else (Inr (failed_outcome m e r0 None None), s1)
           | _ \<Rightarrow> (Inr (failed_outcome m e r0 None None), s1))
      | (Inr res, s1) \<Rightarrow>
          (case ask (as_model env) (assistant_call env m actor p (ti_user ids) (final_tool_prompt prompt call i res) (final_payload call i)) s1 of
             (Inl g, s2) \<Rightarrow> if provider_http g then (Inl g, s2)
               else (Inr (failed_outcome m (ToolProviderError g) r0 (Some i) (Some res)), s2)
           | (Inr r, s2) \<Rightarrow> (Inr (final_outcome env i res r), s2)))"

section \<open>Keeping a turn\<close>

definition message_event :: "'f assistant_env \<Rightarrow> uuid \<Rightarrow> uuid \<Rightarrow> uuid \<Rightarrow> turn_request \<Rightarrow> nat \<Rightarrow> nat \<Rightarrow> (string \<times> json) list \<Rightarrow> audit_event" where
  "message_event env actor mid aid rq action_count history_count extra =
     doc_event ''module.assistant.message'' actor mid ''assistant'' ''assistant_message'' aid
       ([(''suggested_action_count'', JInt (int action_count)), (''history_message_count'', JInt (int history_count)),
         (''context_token_budget'', JInt (as_context_token_budget env)), (''selected_document_count'', JInt (int (length (rq_selected rq))))] @ extra)"

definition keep_reply :: "assistant_message \<Rightarrow> audit_event \<Rightarrow> session \<Rightarrow> session" where
  "keep_reply a e s = commit (audit_log e (on_working (add_message a) s))"

record keyless_answer =
  ka_content :: string
  ka_actions :: "suggested_action list"
  ka_sources :: "source list"
  ka_kind :: string
  ka_model_used :: string

definition answer_without_key :: "'f assistant_env \<Rightarrow> gathered \<Rightarrow> string \<Rightarrow> keyless_answer" where
  "answer_without_key env g content =
     (case maybe_deterministic_document_summary env content (cp_snippets (ga_parts g)) of
        Some (t, as) \<Rightarrow> \<lparr>ka_content = t, ka_actions = as, ka_sources = [], ka_kind = ''document_summary'', ka_model_used = ''deterministic-summary''\<rparr>
      | None \<Rightarrow>
          (case keyless_retrieval_answer env (ga_sources g) of
             Some (t, as) \<Rightarrow> \<lparr>ka_content = t, ka_actions = as, ka_sources = ga_sources g, ka_kind = ''keyless_retrieval'',
               ka_model_used = ''deterministic-summary''\<rparr>
           | None \<Rightarrow> \<lparr>ka_content = ''No model key is configured, so I can'' @ apostrophe @ ''t write an answer, and this matter has no indexed ''
                 @ ''passages relevant to your question to show instead. Your message is saved. Add a model key in Settings ''
                 @ as_arrow env @ '' API Keys to get a written answer.'',
               ka_actions = [], ka_sources = [], ka_kind = ''no_model'', ka_model_used = ''no-model''\<rparr>))"

definition keyless_turn ::
  "'f assistant_env \<Rightarrow> turn_ids \<Rightarrow> matter \<Rightarrow> uuid \<Rightarrow> uuid \<Rightarrow> turn_request \<Rightarrow> gathered \<Rightarrow> session \<Rightarrow> assistant_message \<times> session" where
  "keyless_turn env ids m actor tid rq g s =
     (let k = answer_without_key env g (rq_content rq);
          a = assistant_row (ti_assistant ids) (m_id m) tid actor (ka_content k) (ka_actions k) (ka_sources k) (no_call (ka_model_used k)) (clock s)
      in (a, keep_reply a (message_event env actor (m_id m) (am_id a) rq (length (ka_actions k)) (length (cp_history (ga_parts g)))
               [(''parse_failed'', JBool False), (''deterministic'', JStr (ka_kind k))]) s))"

text \<open>The rolling summary, after the turn is committed; whatever goes wrong here leaves the turn alone.\<close>

definition SUMMARY_SYSTEM_PROMPT :: "'f assistant_env \<Rightarrow> string" where
  "SUMMARY_SYSTEM_PROMPT env =
     ''You maintain a running summary of a UK legal-matter chat thread. Fold the prior summary and the older turns below into one concise, '' @
     ''factual summary of what the conversation has established so far '' @ as_em_dash env @ '' decisions, facts found, documents discussed, '' @
     ''and open questions. Plain English, terse, no preamble. Return the summary text only, not JSON.''"

definition summary_prompt :: "string option \<Rightarrow> assistant_message list \<Rightarrow> string" where
  "summary_prompt prior older = py_join newline
     ((case prior of Some (c # cs) \<Rightarrow> [''## Prior summary'', c # cs, []] | _ \<Rightarrow> [])
      @ [''## Older turns now leaving the window'', format_history older])"

definition summary_call :: "'f assistant_env \<Rightarrow> matter \<Rightarrow> uuid \<Rightarrow> uuid \<Rightarrow> posture \<Rightarrow> string \<Rightarrow> model_request" where
  "summary_call env m actor tid p prompt =
     \<lparr>mq_matter_id = Some (m_id m), mq_actor_id = Some actor, mq_prompt = prompt, mq_model = Some (m_default_model_id m),
      mq_posture = Some p, mq_system = Some (SUMMARY_SYSTEM_PROMPT env), mq_max_tokens = None, mq_resource_type = Some ''assistant_thread'',
      mq_resource_id = Some tid, mq_payload = [(''stage'', JStr ''assistant.summary''), (''module'', JStr ''assistant'')],
      mq_caller_module = Some ''assistant'', mq_streams = False\<rparr>"

definition set_thread :: "uuid \<Rightarrow> (assistant_thread \<Rightarrow> assistant_thread) \<Rightarrow> db \<Rightarrow> db" where
  "set_thread tid f d = d\<lparr>assistant_threads := update_where (\<lambda>t. th_id t = tid) f (assistant_threads d)\<rparr>"

definition store_summary :: "matter \<Rightarrow> uuid \<Rightarrow> uuid \<Rightarrow> string option \<Rightarrow> nat \<Rightarrow> string \<Rightarrow> model_result \<Rightarrow> session \<Rightarrow> session" where
  "store_summary m actor tid prior older_count summary r s =
     commit (audit_log ((doc_event ''assistant.summary.updated'' actor (m_id m) ''assistant'' ''assistant_thread'' tid
          [(''older_turn_count'', JInt (int older_count)), (''had_prior_summary'', JBool (or_text prior [] \<noteq> []))])
          \<lparr>ae_token_count := Some (mr_token_count r)\<rparr>)
       (on_working (set_thread tid (\<lambda>t. t\<lparr>th_rolling_summary := Some summary, th_summary_updated_at := Some (clock s)\<rparr>)) s))"

definition refresh_rolling_summary ::
  "'f assistant_env \<Rightarrow> matter \<Rightarrow> uuid \<Rightarrow> uuid \<Rightarrow> string option \<Rightarrow> session \<Rightarrow> session" where
  "refresh_rolling_summary env m actor tid prior s =
     (let older = older_turns tid (working s) in
      if thread_message_count tid (working s) \<le> HISTORY_MESSAGE_LIMIT \<or> older = [] then s
      else case parse_posture (m_privilege_posture m) of
          None \<Rightarrow> s
        | Some p \<Rightarrow>
            (case ask (as_model env) (summary_call env m actor tid p (summary_prompt prior older)) s of
               (Inl _, s1) \<Rightarrow> s1
             | (Inr r, s1) \<Rightarrow>
                 (let summary = truncated env (mr_text r) ROLLING_SUMMARY_CHAR_BUDGET in
                  if summary = [] then s1 else store_summary m actor tid prior (length older) summary r s1)))"

definition keyed_turn ::
  "'f assistant_env \<Rightarrow> turn_ids \<Rightarrow> matter \<Rightarrow> uuid \<Rightarrow> uuid \<Rightarrow> posture \<Rightarrow> turn_request \<Rightarrow> gathered \<Rightarrow> string \<Rightarrow> model_result
    \<Rightarrow> session \<Rightarrow> (gateway_error + assistant_message) \<times> session" where
  "keyed_turn env ids m actor tid p rq g prompt r s =
     (let rep = read_reply env m (mr_text r) in
      case (case re_tool_calls rep of
              call # _ \<Rightarrow> if re_parse_failed rep then (Inr (plain_outcome rep r), s)
                else tool_stage env ids m actor p rq (cp_tools (ga_parts g)) prompt call r s
            | [] \<Rightarrow> (Inr (plain_outcome rep r), s)) of
        (Inl e, s1) \<Rightarrow> (Inl e, s1)
      | (Inr oc, s1) \<Rightarrow>
          (let a = assistant_row (ti_assistant ids) (m_id m) tid actor (oc_content oc) (oc_actions oc) (ga_sources g) (oc_provenance oc) (clock s1);
               s2 = keep_reply a (message_event env actor (m_id m) (am_id a) rq (length (oc_actions oc)) (length (cp_history (ga_parts g)))
                 [(''parse_failed'', JBool (re_parse_failed rep)), (''tool_call_count'', JInt (int (length (re_tool_calls rep)))),
                  (''tool_invocation_id'', jstr_opt (oc_invocation oc)),
                  (''tool_result'', (case oc_tool_result oc of None \<Rightarrow> JNull | Some j \<Rightarrow> j)), (''tool_failed'', JBool (oc_tool_failed oc))]) s1
           in (Inr a, refresh_rolling_summary env m actor tid (ga_thread_summary g) s2)))"

definition run_assistant_turn ::
  "('f :: linorder) assistant_env \<Rightarrow> turn_ids \<Rightarrow> matter \<Rightarrow> uuid \<Rightarrow> uuid \<Rightarrow> turn_request \<Rightarrow> session \<Rightarrow> (gateway_error + turn_rows) \<times> session" where
  "run_assistant_turn env ids m actor tid rq s =
     (let used = matter_token_usage (m_id m) (working s) in
      if 0 < as_matter_token_budget env \<and> as_matter_token_budget env \<le> used
      then (case refuse_turn env ids (m_id m) tid actor (rq_content rq) used s of (rows, s') \<Rightarrow> (Inr rows, s'))
      else case gather env m actor tid rq s of (g, s1) \<Rightarrow>
        (let prompt = assemble_prompt env (ga_parts g) (rq_content rq) (as_context_token_budget env);
             u = user_row (ti_user ids) (m_id m) tid actor (rq_content rq) (clock s1);
             s2 = on_working (add_message u) s1
         in case parse_posture (m_privilege_posture m) of
             None \<Rightarrow> (Inl UnknownPosture, s2)
           | Some p \<Rightarrow>
               (case ask (as_model env) (assistant_call env m actor p (am_id u) prompt [(''stage'', JStr ''assistant''), (''module'', JStr ''assistant'')]) s2 of
                  (Inl (KeyMissing _), s3) \<Rightarrow> (case keyless_turn env ids m actor tid rq g s3 of (a, s4) \<Rightarrow> (Inr (u, a), s4))
                | (Inl e, s3) \<Rightarrow> (Inl e, s3)
                | (Inr r, s3) \<Rightarrow>
                    (case keyed_turn env ids m actor tid p rq g prompt r s3 of
                       (Inl e, s4) \<Rightarrow> (Inl e, s4)
                     | (Inr a, s4) \<Rightarrow> (Inr (u, a), s4)))))"

section \<open>The routes\<close>

datatype assistant_error =
    AssistantMatterNotFound
  | AssistantLimit limit_exceeded
  | ThreadNotFound
  | ProviderFailed gateway_error
  | TurnRaised gateway_error
  | MessageNotFound
  | NotAnAssistantReply
  | DraftNotStored string

definition validate_thread :: "matter \<Rightarrow> uuid \<Rightarrow> db \<Rightarrow> assistant_thread option" where
  "validate_thread m tid d = find (\<lambda>t. th_id t = tid \<and> th_matter_id t = m_id m) (assistant_threads d)"

definition new_thread :: "uuid \<Rightarrow> matter \<Rightarrow> uuid \<Rightarrow> string option \<Rightarrow> int \<Rightarrow> assistant_thread" where
  "new_thread tid m user_id title now = \<lparr>th_id = tid, th_matter_id = m_id m, th_title = title, th_rolling_summary = None,
     th_summary_updated_at = None, th_created_at = now, th_created_by_id = Some user_id\<rparr>"

definition add_thread :: "assistant_thread \<Rightarrow> db \<Rightarrow> db" where
  "add_thread t d = d\<lparr>assistant_threads := assistant_threads d @ [t]\<rparr>"

definition open_thread :: "uuid \<Rightarrow> matter \<Rightarrow> uuid \<Rightarrow> string option \<Rightarrow> session \<Rightarrow> session" where
  "open_thread tid m user_id title s =
     audit_log (doc_event ''assistant.thread.created'' user_id (m_id m) ''assistant'' ''assistant_thread'' tid
         [(''has_title'', JBool (title \<noteq> None))])
       (on_working (add_thread (new_thread tid m user_id title (clock s))) s)"

definition resolve_or_create_thread ::
  "'f assistant_env \<Rightarrow> uuid \<Rightarrow> matter \<Rightarrow> uuid \<Rightarrow> turn_request \<Rightarrow> session \<Rightarrow> (assistant_error + uuid) \<times> session" where
  "resolve_or_create_thread env new_id m user_id rq s =
     (case rq_thread_id rq of
        Some tid \<Rightarrow> (case validate_thread m tid (working s) of None \<Rightarrow> (Inl ThreadNotFound, s) | Some t \<Rightarrow> (Inr (th_id t), s))
      | None \<Rightarrow> (Inr new_id, open_thread new_id m user_id (Some (derive_thread_title (ellipsis env) (rq_content rq))) s))"

text \<open>The thread is committed before the turn; what the turn leaves uncommitted ends with the request.\<close>

definition post_message ::
  "('f :: linorder) assistant_env \<Rightarrow> limits \<Rightarrow> turn_ids \<Rightarrow> string \<Rightarrow> turn_request \<Rightarrow> uuid \<Rightarrow> session
    \<Rightarrow> (assistant_error + turn_rows \<times> uuid) \<times> session" where
  "post_message env lim ids slug rq user_id s =
     (case resolve_owned_open_matter slug user_id (working s) of
        None \<Rightarrow> (Inl AssistantMatterNotFound, s)
      | Some m \<Rightarrow> (case check_assistant_message lim user_id s of
          Inl e \<Rightarrow> (Inl (AssistantLimit e), s)
        | Inr _ \<Rightarrow> (case resolve_or_create_thread env (ti_thread ids) m user_id rq s of
            (Inl e, s1) \<Rightarrow> (Inl e, s1)
          | (Inr tid, s1) \<Rightarrow> (case run_assistant_turn env ids m user_id tid rq (commit s1) of
              (Inl e, s2) \<Rightarrow> (Inl (if provider_http e then ProviderFailed e else TurnRaised e), rollback s2)
            | (Inr rows, s2) \<Rightarrow> (Inr (rows, tid), rollback s2)))))"

definition create_thread :: "uuid \<Rightarrow> string \<Rightarrow> string option \<Rightarrow> uuid \<Rightarrow> session \<Rightarrow> (assistant_error + uuid) \<times> session" where
  "create_thread tid slug title user_id s =
     (case resolve_owned_open_matter slug user_id (working s) of
        None \<Rightarrow> (Inl AssistantMatterNotFound, s)
      | Some m \<Rightarrow> (Inr tid, commit (open_thread tid m user_id (or_none (or_text title [])) s)))"

record thread_view =
  tv_id :: uuid
  tv_title :: "string option"
  tv_created_at :: int
  tv_message_count :: nat
  tv_last_message_at :: "int option"

definition thread_to_view :: "uuid \<Rightarrow> db \<Rightarrow> assistant_thread \<Rightarrow> thread_view" where
  "thread_to_view mid d t =
     (let ms = filter (\<lambda>m. am_matter_id m = mid \<and> am_thread_id m = Some (th_id t)) (assistant_messages d)
      in \<lparr>tv_id = th_id t, tv_title = th_title t, tv_created_at = th_created_at t, tv_message_count = length ms,
          tv_last_message_at = latest (map am_created_at ms)\<rparr>)"

definition activity_key :: "thread_view \<Rightarrow> bool \<times> int \<times> int" where
  "activity_key v = (tv_last_message_at v \<noteq> None, (case tv_last_message_at v of None \<Rightarrow> tv_created_at v | Some t \<Rightarrow> t), tv_created_at v)"

definition list_threads :: "string \<Rightarrow> uuid \<Rightarrow> db \<Rightarrow> assistant_error + thread_view list" where
  "list_threads slug user_id d =
     (case resolve_owned_open_matter slug user_id d of
        None \<Rightarrow> Inl AssistantMatterNotFound
      | Some m \<Rightarrow> Inr (rev (sort_key activity_key (rev (map (thread_to_view (m_id m) d)
            (filter (\<lambda>t. th_matter_id t = m_id m) (assistant_threads d)))))))"

definition list_thread_messages :: "string \<Rightarrow> uuid \<Rightarrow> uuid \<Rightarrow> db \<Rightarrow> assistant_error + assistant_message list" where
  "list_thread_messages slug tid user_id d =
     (case resolve_owned_open_matter slug user_id d of
        None \<Rightarrow> Inl AssistantMatterNotFound
      | Some m \<Rightarrow> (case validate_thread m tid d of None \<Rightarrow> Inl ThreadNotFound | Some t \<Rightarrow> Inr (thread_messages tid d)))"

definition latest_thread_id :: "uuid \<Rightarrow> db \<Rightarrow> uuid option" where
  "latest_thread_id mid d =
     (case rev (sort_key am_created_at (filter (\<lambda>m. am_matter_id m = mid) (assistant_messages d))) of
        [] \<Rightarrow> None | m # _ \<Rightarrow> am_thread_id m)"

definition list_messages :: "string \<Rightarrow> uuid \<Rightarrow> db \<Rightarrow> assistant_error + assistant_message list" where
  "list_messages slug user_id d =
     (case resolve_owned_open_matter slug user_id d of
        None \<Rightarrow> Inl AssistantMatterNotFound
      | Some m \<Rightarrow> (case latest_thread_id (m_id m) d of None \<Rightarrow> Inr [] | Some tid \<Rightarrow> Inr (thread_messages tid d)))"

section \<open>Saving a reply as a draft\<close>

text \<open>\<open>json.dumps(payload, indent=2, sort_keys=True, ensure_ascii=False)\<close>; the number is the current indentation.\<close>

definition line_at :: "nat \<Rightarrow> string" where
  "line_at n = newline @ replicate n CHR '' ''"

primrec json_pretty :: "json \<Rightarrow> nat \<Rightarrow> string" where
  "json_pretty JNull n = ''null''"
| "json_pretty (JBool b) n = (if b then ''true'' else ''false'')"
| "json_pretty (JInt i) n = int_str i"
| "json_pretty (JStr s) n = json_string False s"
| "json_pretty (JList xs) n = (if xs = [] then ''[]''
     else ''['' @ line_at (n + 2) @ py_join ('','' @ line_at (n + 2)) (map (\<lambda>f. f (n + 2)) (map json_pretty xs)) @ line_at n @ '']'')"
| "json_pretty (JObj kvs) n = (if kvs = [] then ''{}''
     else ''{'' @ line_at (n + 2) @ py_join ('','' @ line_at (n + 2))
         (map (\<lambda>(k, f). json_string False k @ '': '' @ f (n + 2)) (sort_key fst (map (map_prod id json_pretty) kvs))) @ line_at n @ ''}'')"

definition serialise :: "json \<Rightarrow> bytes" where
  "serialise payload = utf8 (json_pretty payload 0)"

definition add_artifact_row :: "artifact \<Rightarrow> db \<Rightarrow> db" where
  "add_artifact_row a d = d\<lparr>artifacts := artifacts d @ [a]\<rparr>"

text \<open>\<open>write_artifact\<close>: the object first, then the row; the caller commits.\<close>

definition write_artifact ::
  "surroundings \<Rightarrow> uuid \<Rightarrow> matter \<Rightarrow> string \<Rightarrow> string \<Rightarrow> uuid \<Rightarrow> string \<Rightarrow> json \<Rightarrow> uuid option \<Rightarrow> world \<Rightarrow> (string + artifact) \<times> world" where
  "write_artifact su aid m cap_id module_id invocation kind payload actor w =
     (case w of (s, store) \<Rightarrow>
      (let key = artifact_key (m_created_by_id m) (m_id m) aid cap_id kind in
       case su_put_error su key of
         Some code \<Rightarrow> (Inl code, w)
       | None \<Rightarrow>
          (let a = \<lparr>a_id = aid, a_matter_id = m_id m, a_module_id = module_id, a_capability_id = cap_id, a_invocation_id = invocation,
                 a_kind = kind, a_storage_path = key, a_created_by_id = actor, a_created_at = clock s, a_size_bytes = int (length (serialise payload))\<rparr>
           in (Inr a, (on_working (add_artifact_row a) s, store(key \<mapsto> serialise payload))))))"

definition CHAT_DRAFT_KIND :: string where "CHAT_DRAFT_KIND = ''chat_draft''"
definition SAVE_DRAFT_MODULE_ID :: string where "SAVE_DRAFT_MODULE_ID = ''assistant''"
definition SAVE_DRAFT_CAPABILITY_ID :: string where "SAVE_DRAFT_CAPABILITY_ID = ''assistant.save_draft''"

definition dict_rows :: "json \<Rightarrow> json list" where
  "dict_rows j = (case j of JList xs \<Rightarrow> filter (\<lambda>x. case x of JObj _ \<Rightarrow> True | _ \<Rightarrow> False) xs | _ \<Rightarrow> [])"

definition source_anchor :: "nat \<Rightarrow> json \<Rightarrow> json" where
  "source_anchor i x = JObj [(''id'', JStr (''src-'' @ nat_str (Suc i))), (''source_type'', JStr ''document''),
     (''document_id'', jget0 ''document_id'' x), (''filename'', jget0 ''title'' x), (''label'', jget0 ''title'' x), (''quote'', jget0 ''snippet'' x)]"

definition draft_payload :: "assistant_message \<Rightarrow> json" where
  "draft_payload r =
     (let sources = dict_rows (am_sources r) in
      JObj [(''output'', JStr (am_content r)), (''model_id'', jstr_opt (am_model_used r)), (''saved_from'', JStr ''assistant_message''),
        (''source_message_id'', JStr (am_id r)), (''thread_id'', jstr_opt (am_thread_id r)), (''prompt_hash'', jstr_opt (am_prompt_hash r)),
        (''response_hash'', jstr_opt (am_response_hash r)), (''sources'', JList sources),
        (''source_anchors'', JList (map (\<lambda>(i, x). source_anchor i x) (enumerate 0 sources)))])"

definition save_message_as_draft ::
  "surroundings \<Rightarrow> uuid \<Rightarrow> string \<Rightarrow> uuid \<Rightarrow> uuid \<Rightarrow> world \<Rightarrow> (assistant_error + artifact \<times> bool) \<times> world" where
  "save_message_as_draft su aid slug message_id user_id w =
     (case w of (s, store) \<Rightarrow>
      case resolve_owned_open_matter slug user_id (working s) of
        None \<Rightarrow> (Inl AssistantMatterNotFound, w)
      | Some m \<Rightarrow> (case find (\<lambda>r. am_id r = message_id \<and> am_matter_id r = m_id m) (assistant_messages (working s)) of
          None \<Rightarrow> (Inl MessageNotFound, w)
        | Some r \<Rightarrow>
            if am_role r \<noteq> ROLE_ASSISTANT then (Inl NotAnAssistantReply, w)
            else (case find (\<lambda>a. a_invocation_id a = am_id r \<and> a_kind a = CHAT_DRAFT_KIND \<and> a_matter_id a = m_id m) (artifacts (working s)) of
                Some a \<Rightarrow> (Inr (a, True), w)
              | None \<Rightarrow> (case write_artifact su aid m SAVE_DRAFT_CAPABILITY_ID SAVE_DRAFT_MODULE_ID (am_id r) CHAT_DRAFT_KIND (draft_payload r) (Some user_id) w of
                    (Inl code, w1) \<Rightarrow> (Inl (DraftNotStored code), (rollback (fst w1), snd w1))
                  | (Inr a, (s1, store1)) \<Rightarrow>
                      (Inr (a, False), (commit (audit_log (doc_event ''assistant.draft.saved'' user_id (m_id m) SAVE_DRAFT_MODULE_ID ''matter_artifact'' (a_id a)
                         [(''source_message_id'', JStr (am_id r)), (''thread_id'', jstr_opt (am_thread_id r)), (''model_used'', jstr_opt (am_model_used r)),
                          (''prompt_hash'', jstr_opt (am_prompt_hash r)), (''response_hash'', jstr_opt (am_response_hash r)),
                          (''source_count'', JInt (case am_sources r of JList xs \<Rightarrow> int (length xs) | _ \<Rightarrow> 0)), (''kind'', JStr CHAT_DRAFT_KIND)]) s1), store1))))))"

section \<open>The prompt and its budget\<close>

lemma truncated_prefix:
  "0 < budget \<Longrightarrow> \<exists>pre. (\<exists>post. t = pre @ post) \<and> (truncated env t budget = pre \<or> truncated env t budget = pre @ ellipsis env)
     \<and> int (length pre) \<le> budget"
proof -
  assume pos: "0 < budget"
  show ?thesis
  proof (cases "int (length t) \<le> budget")
    case True
    with pos show ?thesis by (intro exI [of _ t]) (simp add: truncated_def truncate_text_def)
  next
    case False
    let ?cut = "take (nat budget) t"
    have "\<exists>sp. ?cut = py_rstrip ?cut @ sp"
    proof -
      have "rev ?cut = takeWhile py_isspace (rev ?cut) @ dropWhile py_isspace (rev ?cut)" by simp
      then have "?cut = rev (dropWhile py_isspace (rev ?cut)) @ rev (takeWhile py_isspace (rev ?cut))"
        by (metis rev_append rev_rev_ident)
      then show ?thesis unfolding py_rstrip_def py_lstrip_def by blast
    qed
    then obtain sp where sp: "?cut = py_rstrip ?cut @ sp" by blast
    have "length (py_rstrip ?cut) \<le> length ?cut" by (subst (2) sp) simp
    moreover have "t = py_rstrip ?cut @ (sp @ drop (nat budget) t)"
      using sp by (metis append.assoc append_take_drop_id)
    ultimately show ?thesis
      using False pos by (intro exI [of _ "py_rstrip ?cut"]) (auto simp: truncated_def truncate_text_def)
  qed
qed


lemma join_append:
  "xs \<noteq> [] \<Longrightarrow> ys \<noteq> [] \<Longrightarrow> py_join sep (xs @ ys) = py_join sep xs @ sep @ py_join sep ys"
proof (induction sep xs rule: py_join.induct)
  case (2 sep x)
  then show ?case by (cases ys) auto
qed auto

lemma join_snoc: "xs \<noteq> [] \<Longrightarrow> py_join sep (xs @ [y]) = py_join sep xs @ sep @ y"
  by (simp add: join_append)

lemma join_member: "x \<in> set xs \<Longrightarrow> \<exists>pre post. py_join sep xs = pre @ x @ post"
proof (induction sep xs rule: py_join.induct)
  case (3 sep a b zs)
  show ?case
  proof (cases "x = a")
    case True
    then show ?thesis by (metis append_Nil py_join.simps(3))
  next
    case False
    with 3 obtain pre post where "py_join sep (b # zs) = pre @ x @ post" by auto
    then have "py_join sep (a # b # zs) = (a @ sep @ pre) @ x @ post" by simp
    then show ?thesis by blast
  qed
qed (auto intro: exI [of _ "[]"])

text \<open>What truncation cuts is the end of the context, and the end of the context are the newest turns: when the context
  without the last message fills the budget, the prompt does not depend on what that message said.\<close>

lemma context_ends_with_history:
  "context_text env (c\<lparr>cp_history := h\<rparr>) = py_join newline (context_sections env c) @ newline @ format_history h"
proof -
  have "context_sections env (c\<lparr>cp_history := h\<rparr>) = context_sections env c" "context_sections env c \<noteq> []"
    by (simp_all add: context_sections_def)
  then show ?thesis by (simp add: context_text_def join_snoc)
qed

lemma format_history_snoc:
  "h \<noteq> [] \<Longrightarrow> format_history (h @ [m])
     = format_history h @ newline @ (if am_role m = ROLE_USER then ''User'' else ''Assistant'') @ '': '' @ am_content m"
  by (simp add: format_history_def join_snoc)

lemma truncated_cong:
  assumes "int (length t) \<ge> budget" "0 < budget"
  shows "truncated env (t @ x # xs) budget = py_rstrip (take (nat budget) t) @ ellipsis env"
  using assms by (simp add: truncated_def truncate_text_def)

theorem overflow_drops_the_newest_turn:
  assumes "h \<noteq> []" and "4 * max 1 token_budget \<le> int (length (context_text env (c\<lparr>cp_history := h\<rparr>)))"
  shows "assemble_prompt env (c\<lparr>cp_history := h @ [m]\<rparr>) user_content token_budget
       = assemble_prompt env (c\<lparr>cp_history := h @ [m']\<rparr>) user_content token_budget"
proof -
  let ?t = "context_text env (c\<lparr>cp_history := h\<rparr>)"
  have more_text: "\<exists>xs. context_text env (c\<lparr>cp_history := h @ [m]\<rparr>) = ?t @ CHR 0x0A # xs" for m
    using assms(1) by (simp add: context_ends_with_history format_history_snoc newline_def)
  have "truncated env (context_text env (c\<lparr>cp_history := h @ [m]\<rparr>)) (max 1 token_budget * CHARS_PER_TOKEN)
      = py_rstrip (take (nat (max 1 token_budget * CHARS_PER_TOKEN)) ?t) @ ellipsis env" for m
  proof -
    obtain xs where "context_text env (c\<lparr>cp_history := h @ [m]\<rparr>) = ?t @ CHR 0x0A # xs" using more_text by blast
    then show ?thesis using assms(2) by (simp only:) (rule truncated_cong, simp_all add: CHARS_PER_TOKEN_def)
  qed
  then show ?thesis by (simp add: assemble_prompt_def)
qed

section \<open>What a turn keeps\<close>

lemma ask_messages:
  assumes "ask env q s = (r, s')" "attribution q = None"
  shows "assistant_messages (working s') = assistant_messages (working s)" "assistant_messages (durable s') = assistant_messages (durable s)"
    "assistant_threads (working s') = assistant_threads (working s)"
  using ask_audit_only [OF assms] audit_only_frame(21,20) by blast+

lemma unattributed [simp]:
  "attribution (assistant_call env m actor p i prompt [(''stage'', a), (''module'', b)]) = None"
  "attribution (assistant_call env m actor p i prompt (final_payload call j)) = None"
  "attribution (summary_call env m actor tid p prompt) = None"
  by (simp_all add: attribution_def assistant_call_def final_payload_def summary_call_def)

lemma message_simps [simp, frame_simps]:
  "assistant_messages (add_message m d) = assistant_messages d @ [m]" "assistant_threads (add_message m d) = assistant_threads d"
  "assistant_messages (set_thread tid f d) = assistant_messages d" "assistant_messages (add_thread t d) = assistant_messages d"
  "matters (add_message m d) = matters d" "matters (add_thread t d) = matters d"
  by (simp_all add: add_message_def set_thread_def add_thread_def)

lemma audit_failure_messages [simp]:
  "assistant_messages (working (audit_failure e s)) = assistant_messages (working s)"
  "assistant_messages (durable (audit_failure e s)) = assistant_messages (durable s)"
  by (simp_all add: audit_failure_def)

lemma keep_reply_messages [simp]:
  "assistant_messages (working (keep_reply a e s)) = assistant_messages (working s) @ [a]"
  "assistant_messages (durable (keep_reply a e s)) = assistant_messages (working s) @ [a]"
  by (simp_all add: keep_reply_def)

lemma refresh_messages:
  assumes "assistant_messages (durable s) = assistant_messages (working s)"
  shows "assistant_messages (working (refresh_rolling_summary env m actor tid prior s)) = assistant_messages (working s)"
    "assistant_messages (durable (refresh_rolling_summary env m actor tid prior s)) = assistant_messages (working s)"
proof -
  have "assistant_messages (working (refresh_rolling_summary env m actor tid prior s)) = assistant_messages (working s)
    \<and> assistant_messages (durable (refresh_rolling_summary env m actor tid prior s)) = assistant_messages (working s)"
  proof (cases "parse_posture (m_privilege_posture m)")
    case None
    then show ?thesis using assms by (simp add: refresh_rolling_summary_def Let_def)
  next
    case (Some p)
    let ?q = "summary_call env m actor tid p (summary_prompt prior (older_turns tid (working s)))"
    obtain a s1 where a: "ask (as_model env) ?q s = (a, s1)" by fastforce
    note kept = ask_messages [OF a unattributed(3)]
    show ?thesis using assms Some a kept
      by (cases a) (auto simp: refresh_rolling_summary_def store_summary_def Let_def)
  qed
  then show "assistant_messages (working (refresh_rolling_summary env m actor tid prior s)) = assistant_messages (working s)"
    "assistant_messages (durable (refresh_rolling_summary env m actor tid prior s)) = assistant_messages (working s)"
    by simp_all
qed

text \<open>Between the question and the reply nothing but a tool may commit.\<close>

definition messages_kept :: "session \<Rightarrow> session \<Rightarrow> bool" where
  "messages_kept s s' \<longleftrightarrow> assistant_messages (working s') = assistant_messages (working s)
     \<and> (assistant_messages (durable s') = assistant_messages (durable s) \<or> assistant_messages (durable s') = assistant_messages (working s))"

lemma messages_kept_refl [simp]: "messages_kept s s"
  by (simp add: messages_kept_def)

lemma ask_keeps: "ask env q s1 = (r, s2) \<Longrightarrow> attribution q = None \<Longrightarrow> messages_kept s s1 \<Longrightarrow> messages_kept s s2"
  using ask_messages by (fastforce simp: messages_kept_def)

lemma tool_stage_keeps:
  assumes tools_keep: "\<And>m t args actor i s r s'. as_dispatch env m t args actor i s = (r, s') \<Longrightarrow> messages_kept s s'"
    and run: "tool_stage env ids m actor p rq tools prompt call r0 s = (r, s')"
  shows "messages_kept s s'"
proof -
  obtain a s1 where a: "dispatch_assistant_tool env m actor rq call tools (ti_invocation ids) s = (a, s1)" by fastforce
  have s1: "messages_kept s s1"
    using a tools_keep by (auto simp: dispatch_assistant_tool_def split: option.splits)
  show ?thesis
  proof (cases a)
    case (Inl e)
    with run a s1 show ?thesis by (auto simp: tool_stage_def Let_def split: tool_failure.splits if_splits)
  next
    case (Inr res)
    let ?q = "assistant_call env m actor p (ti_user ids) (final_tool_prompt prompt call (ti_invocation ids) res) (final_payload call (ti_invocation ids))"
    obtain b s2 where b: "ask (as_model env) ?q s1 = (b, s2)" by fastforce
    have "s' = s2" using run a Inr b by (auto simp: tool_stage_def Let_def split: sum.splits if_splits)
    with ask_keeps [OF b unattributed(2) s1] show ?thesis by simp
  qed
qed

lemma keyed_turn_keeps:
  assumes tools_keep: "\<And>m t args actor i s r s'. as_dispatch env m t args actor i s = (r, s') \<Longrightarrow> messages_kept s s'"
    and run: "keyed_turn env ids m actor tid p rq g prompt res s = (r, s')"
  shows "case r of Inl e \<Rightarrow> messages_kept s s'
    | Inr a \<Rightarrow> assistant_messages (durable s') = assistant_messages (working s) @ [a]
        \<and> am_role a = ROLE_ASSISTANT \<and> am_thread_id a = Some tid \<and> am_matter_id a = m_id m"
proof -
  let ?rep = "read_reply env m (mr_text res)"
  define stage where "stage = (case re_tool_calls ?rep of
              call # _ \<Rightarrow> if re_parse_failed ?rep then (Inr (plain_outcome ?rep res), s)
                else tool_stage env ids m actor p rq (cp_tools (ga_parts g)) prompt call res s
            | [] \<Rightarrow> (Inr (plain_outcome ?rep res), s))"
  obtain o1 s1 where st: "stage = (o1, s1)" by fastforce
  have kept: "messages_kept s s1"
    using st tool_stage_keeps [OF tools_keep] by (auto simp: stage_def split: list.splits if_splits)
  show ?thesis
  proof (cases o1)
    case (Inl e)
    with run st kept show ?thesis by (auto simp: keyed_turn_def Let_def simp flip: stage_def)
  next
    case (Inr oc)
    define a where "a = assistant_row (ti_assistant ids) (m_id m) tid actor (oc_content oc) (oc_actions oc) (ga_sources g) (oc_provenance oc) (clock s1)"
    obtain e where s': "s' = refresh_rolling_summary env m actor tid (ga_thread_summary g) (keep_reply a e s1)" and r: "r = Inr a"
      using run st Inr by (auto simp: keyed_turn_def Let_def a_def simp flip: stage_def)
    have "assistant_messages (durable s') = assistant_messages (working s1) @ [a]"
      unfolding s' by (subst refresh_messages(2)) simp_all
    with kept r show ?thesis by (simp add: messages_kept_def) (simp add: a_def assistant_row_def)
  qed
qed

lemma keyless_turn_keeps:
  assumes "keyless_turn env ids m actor tid rq g s = (a, s')"
  shows "assistant_messages (durable s') = assistant_messages (working s) @ [a]
    \<and> am_role a = ROLE_ASSISTANT \<and> am_thread_id a = Some tid \<and> am_matter_id a = m_id m"
  using assms by (auto simp: keyless_turn_def Let_def assistant_row_def)

lemma gather_keeps: "gather env m actor tid rq s = (g, s') \<Longrightarrow>
  assistant_messages (working s') = assistant_messages (working s) \<and> assistant_messages (durable s') = assistant_messages (durable s)"
  by (auto simp: gather_def Let_def audit_retrieval_search_def split: if_splits)

definition question_of :: "turn_request \<Rightarrow> matter \<Rightarrow> uuid \<Rightarrow> uuid \<Rightarrow> assistant_message \<Rightarrow> bool" where
  "question_of rq m actor tid u \<longleftrightarrow> am_role u = ROLE_USER \<and> am_content u = rq_content rq \<and> am_actor_id u = actor
     \<and> am_thread_id u = Some tid \<and> am_matter_id u = m_id m"

lemma run_turn_keeps:
  assumes tools_keep: "\<And>m t args actor i s r s'. as_dispatch env m t args actor i s = (r, s') \<Longrightarrow> messages_kept s s'"
    and fresh: "assistant_messages (durable s) = assistant_messages (working s)"
    and run: "run_assistant_turn env ids m actor tid rq s = (r, s')"
  shows "case r of
      Inr (u, a) \<Rightarrow> assistant_messages (durable s') = assistant_messages (working s) @ [u, a] \<and> question_of rq m actor tid u
        \<and> am_role a = ROLE_ASSISTANT \<and> am_thread_id a = Some tid \<and> am_matter_id a = m_id m
    | Inl e \<Rightarrow> \<exists>u. question_of rq m actor tid u
        \<and> assistant_messages (durable s') \<in> {assistant_messages (working s), assistant_messages (working s) @ [u]}"
proof (cases "0 < as_matter_token_budget env \<and> as_matter_token_budget env \<le> matter_token_usage (m_id m) (working s)")
  case True
  with run show ?thesis
    by (auto simp: run_assistant_turn_def refuse_turn_def Let_def question_of_def user_row_def assistant_row_def)
next
  case within: False
  obtain g s1 where g: "gather env m actor tid rq s = (g, s1)" by fastforce
  define u where "u = user_row (ti_user ids) (m_id m) tid actor (rq_content rq) (clock s1)"
  define s2 where "s2 = on_working (add_message u) s1"
  have u: "question_of rq m actor tid u" by (simp add: u_def user_row_def question_of_def)
  have w2: "assistant_messages (working s2) = assistant_messages (working s) @ [u]"
    and d2: "assistant_messages (durable s2) = assistant_messages (working s)"
    using gather_keeps [OF g] fresh by (simp_all add: s2_def)
  define prompt where "prompt = assemble_prompt env (ga_parts g) (rq_content rq) (as_context_token_budget env)"
  show ?thesis
  proof (cases "parse_posture (m_privilege_posture m)")
    case None
    with run within g u d2 show ?thesis by (auto simp: run_assistant_turn_def Let_def simp flip: u_def s2_def prompt_def)
  next
    case (Some p)
    let ?q = "assistant_call env m actor p (am_id u) prompt [(''stage'', JStr ''assistant''), (''module'', JStr ''assistant'')]"
    obtain b s3 where b: "ask (as_model env) ?q s2 = (b, s3)" by fastforce
    note m3 = ask_messages(1,2) [OF b unattributed(1)]
    show ?thesis
    proof (cases b)
      case (Inl e)
      show ?thesis
      proof (cases "\<exists>n. e = KeyMissing n")
        case True
        obtain a s4 where a: "keyless_turn env ids m actor tid rq g s3 = (a, s4)" by fastforce
        have "r = Inr (u, a)" "s' = s4"
          using run within g Some b Inl True a by (auto simp: run_assistant_turn_def Let_def simp flip: u_def s2_def prompt_def)
        with keyless_turn_keeps [OF a] m3 w2 u show ?thesis by simp
      next
        case False
        then have "r = Inl e" "s' = s3"
          using run within g Some b Inl
          by (cases e; simp add: run_assistant_turn_def Let_def flip: u_def s2_def prompt_def)+
        with m3 d2 u show ?thesis by auto
      qed
    next
      case (Inr res)
      obtain c s4 where c: "keyed_turn env ids m actor tid p rq g prompt res s3 = (c, s4)" by fastforce
      have kept: "case c of Inl e \<Rightarrow> messages_kept s3 s4
          | Inr a \<Rightarrow> assistant_messages (durable s4) = assistant_messages (working s3) @ [a]
              \<and> am_role a = ROLE_ASSISTANT \<and> am_thread_id a = Some tid \<and> am_matter_id a = m_id m"
        by (rule keyed_turn_keeps [OF tools_keep c])
      show ?thesis
      proof (cases c)
        case (Inl e)
        have "r = Inl e" "s' = s4"
          using run within g Some b Inr c Inl by (simp_all add: run_assistant_turn_def Let_def flip: u_def s2_def prompt_def)
        with kept Inl m3 w2 d2 u show ?thesis by (auto simp: messages_kept_def)
      next
        case (Inr a)
        have "r = Inr (u, a)" "s' = s4"
          using run within g Some b \<open>b = Inr res\<close> c Inr by (simp_all add: run_assistant_turn_def Let_def flip: u_def s2_def prompt_def)
        with kept Inr m3 w2 u show ?thesis by simp
      qed
    qed
  qed
qed


section \<open>The memory of a thread\<close>

lemma length_thread_messages: "length (thread_messages tid d) = thread_message_count tid d"
  by (simp add: thread_messages_def thread_message_count_def)

text \<open>The window and what left it make up the thread.\<close>

lemma history_completes_older: "older_turns tid d @ load_history tid HISTORY_MESSAGE_LIMIT d = thread_messages tid d"
proof -
  have "rev (take n (rev xs)) = drop (length xs - n) xs" for n and xs :: "assistant_message list"
    by (simp add: rev_take)
  then show ?thesis by (simp add: older_turns_def load_history_def length_thread_messages)
qed

lemma find_set_thread:
  "find (\<lambda>t. th_id t = tid) (update_where (\<lambda>t. th_id t = tid) f ts) = map_option f (find (\<lambda>t. th_id t = tid) ts)"
  if "\<And>t. th_id (f t) = th_id t"
  using that by (induction ts) simp_all

text \<open>C38. Nothing of a long thread is lost without a trace: when a turn has refreshed the summary, the model was asked to
  fold exactly those turns that the window of the next turn does not hold, and the next turn gets the summary
  with the window; the two make up the thread in order.\<close>

theorem memory_covers_the_thread:
  assumes "HISTORY_MESSAGE_LIMIT < thread_message_count tid (working s)"
    and "parse_posture (m_privilege_posture m) = Some p"
    and "ask (as_model env) (summary_call env m actor tid p (summary_prompt prior (older_turns tid (working s)))) s = (Inr r, s1)"
    and "truncated env (mr_text r) ROLLING_SUMMARY_CHAR_BUDGET \<noteq> []"
    and "find (\<lambda>t. th_id t = tid) (assistant_threads (working s)) = Some t"
    and "gather env m actor tid rq (refresh_rolling_summary env m actor tid prior s) = (g, s2)"
  shows "older_turns tid (working s) @ cp_history (ga_parts g) = thread_messages tid (working s)
    \<and> cp_rolling_summary (ga_parts g) = Some (truncated env (mr_text r) ROLLING_SUMMARY_CHAR_BUDGET)"
proof -
  let ?sum = "truncated env (mr_text r) ROLLING_SUMMARY_CHAR_BUDGET" and ?s' = "refresh_rolling_summary env m actor tid prior s"
  have "length (older_turns tid (working s)) = thread_message_count tid (working s) - HISTORY_MESSAGE_LIMIT"
    by (simp add: older_turns_def length_thread_messages)
  with assms(1) have "older_turns tid (working s) \<noteq> []" by auto
  then have s': "?s' = store_summary m actor tid prior (length (older_turns tid (working s))) ?sum r s1"
    using assms(1-4) by (simp add: refresh_rolling_summary_def Let_def)
  note kept = ask_messages [OF assms(3) unattributed(3)]
  have messages: "assistant_messages (working ?s') = assistant_messages (working s)"
    unfolding s' by (simp add: store_summary_def kept)
  have threads: "assistant_threads (working ?s') = update_where (\<lambda>t. th_id t = tid)
      (\<lambda>t. t\<lparr>th_rolling_summary := Some ?sum, th_summary_updated_at := Some (clock s1)\<rparr>) (assistant_threads (working s))"
    unfolding s' by (simp add: store_summary_def set_thread_def kept)
  have history: "load_history tid HISTORY_MESSAGE_LIMIT (working ?s') = load_history tid HISTORY_MESSAGE_LIMIT (working s)"
    and count: "thread_message_count tid (working ?s') = thread_message_count tid (working s)"
    by (simp_all add: load_history_def thread_messages_def thread_message_count_def messages)
  have "find (\<lambda>t. th_id t = tid) (assistant_threads (working ?s'))
      = Some (t\<lparr>th_rolling_summary := Some ?sum, th_summary_updated_at := Some (clock s1)\<rparr>)"
    unfolding threads by (subst find_set_thread) (simp_all add: assms(5))
  then have "cp_history (ga_parts g) = load_history tid HISTORY_MESSAGE_LIMIT (working s)
      \<and> cp_rolling_summary (ga_parts g) = Some ?sum"
    using assms(1,6) by (auto simp: gather_def Let_def history count)
  then show ?thesis by (simp add: history_completes_older)
qed

section \<open>The chronology in the prompt\<close>

text \<open>C39. The gate of the chronology does not stand before the assistant: whatever the taint and the status of an event
  among the first of a matter, and whether or not the user has acknowledged the undertaking, its description is in
  the context of every turn.\<close>

theorem gated_events_reach_the_model:
  assumes "gather env m actor tid rq s = (g, s')" and "e \<in> set (chronology_head (m_id m) (working s))"
  shows "\<exists>pre post. context_text env (ga_parts g) = pre @ ev_description e @ post"
proof -
  have events: "cp_events (ga_parts g) = chronology_head (m_id m) (working s)"
    using assms(1) by (auto simp: gather_def Let_def)
  let ?ch = "format_chronology (cp_events (ga_parts g)) (cp_chronology_total (ga_parts g))"
  have "cp_events (ga_parts g) \<noteq> []" "event_line e \<in> set (map event_line (cp_events (ga_parts g)))"
    using assms(2) events by auto
  then obtain a b where "?ch = a @ event_line e @ b"
    using join_member [of "event_line e"] unfolding format_chronology_def by fastforce
  then have "\<exists>a b. ?ch = a @ ev_description e @ b" unfolding event_line_def by (metis append.assoc)
  moreover have "?ch \<in> set (context_sections env (ga_parts g) @ [format_history (cp_history (ga_parts g))])"
    by (simp add: context_sections_def)
  then obtain c d where "context_text env (ga_parts g) = c @ ?ch @ d"
    unfolding context_text_def using join_member by blast
  ultimately show ?thesis by (metis append.assoc)
qed

section \<open>The spend guard\<close>

text \<open>C40. When the recorded tokens of the matter have reached the budget, a turn is the same whatever model, retrieval, tools
  and runtime there are: none of them is called.\<close>

theorem exhausted_budgets_call_nothing:
  assumes "0 < as_matter_token_budget env" and "as_matter_token_budget env \<le> matter_token_usage (m_id m) (working s)"
    and "as_matter_token_budget env' = as_matter_token_budget env"
  shows "run_assistant_turn env' ids m actor tid rq s = run_assistant_turn env ids m actor tid rq s
    \<and> audit_rows (durable (snd (run_assistant_turn env ids m actor tid rq s))) =
        audit_rows (working s) @ [stamp s (doc_event ''assistant.budget.exceeded'' actor (m_id m) ''assistant'' ''assistant_message'' (ti_assistant ids)
          [(''used'', JInt (matter_token_usage (m_id m) (working s))), (''budget'', JInt (as_matter_token_budget env))])]"
  using assms
  by (auto simp: run_assistant_turn_def refuse_turn_def Let_def assistant_row_def add_message_def stamp_def)

section \<open>A draft is saved once\<close>

lemma write_artifact_cases:
  assumes "write_artifact su aid m cap_id module_id invocation kind payload actor (s, store) = (Inr a, (s1, store1))"
  shows "a_invocation_id a = invocation" "a_kind a = kind" "a_matter_id a = m_id m" "a_id a = aid" "s1 = on_working (add_artifact_row a) s"
  using assms by (auto simp: write_artifact_def Let_def split: option.splits)

lemma saving_again_returns_the_draft:
  assumes "save_message_as_draft su aid slug mid user_id (s, store) = (Inr (a, known), w')"
  shows "save_message_as_draft su aid' slug mid user_id w' = (Inr (a, True), w')"
proof -
  from assms obtain m r where m: "resolve_owned_open_matter slug user_id (working s) = Some m"
    and r: "find (\<lambda>r. am_id r = mid \<and> am_matter_id r = m_id m) (assistant_messages (working s)) = Some r"
    and role: "am_role r = ROLE_ASSISTANT"
    by (auto simp: save_message_as_draft_def split: option.splits if_splits)
  let ?P = "\<lambda>a. a_invocation_id a = am_id r \<and> a_kind a = CHAT_DRAFT_KIND \<and> a_matter_id a = m_id m"
  show ?thesis
  proof (cases "find ?P (artifacts (working s))")
    case (Some x)
    with assms m r role show ?thesis by (auto simp: save_message_as_draft_def)
  next
    case None
    obtain y w1 where y: "write_artifact su aid m SAVE_DRAFT_CAPABILITY_ID SAVE_DRAFT_MODULE_ID (am_id r) CHAT_DRAFT_KIND (draft_payload r)
        (Some user_id) (s, store) = (y, w1)" by (metis surj_pair)
    from assms m r role None y obtain s1 store1 where ya: "y = Inr a" and w1: "w1 = (s1, store1)"
      by (cases y; cases w1) (auto simp: save_message_as_draft_def)
    note wa = write_artifact_cases [OF y [unfolded ya w1]]
    obtain e where w': "w' = (commit (audit_log e s1), store1)"
      using assms m r role None y ya w1 by (auto simp: save_message_as_draft_def)
    have d: "working (fst w') = add_event (stamp s1 e) (add_artifact_row a (working s))"
      by (simp add: w' wa(5))
    have "find ?P (artifacts (working (fst w'))) = Some a"
      using None wa by (simp add: d add_artifact_row_def find_append)
    moreover have "resolve_owned_open_matter slug user_id (working (fst w')) = Some m"
      using m by (simp add: d add_artifact_row_def resolve_owned_open_matter_def)
    moreover have "find (\<lambda>r. am_id r = mid \<and> am_matter_id r = m_id m) (assistant_messages (working (fst w'))) = Some r"
      using r by (simp add: d add_artifact_row_def)
    ultimately show ?thesis using role by (cases w') (simp add: save_message_as_draft_def)
  qed
qed

section \<open>What a turn with a tool costs\<close>

text \<open>The reply of a turn that ran a tool reports the second call only: the tokens of the first call, and
  those of the calls the tool made, are in the log and in no message, so the spend guard does not see them.\<close>

lemma tool_turns_record_the_last_call:
  assumes "tool_stage env ids m actor p rq tools prompt call r0 s = (Inr oc, s')" and "\<not> oc_tool_failed oc"
  shows "\<exists>q s1 r. ask (as_model env) q s1 = (Inr r, s') \<and> oc_provenance oc = of_call r"
  using assms
  by (fastforce simp: tool_stage_def Let_def failed_outcome_def final_outcome_def
      split: sum.splits prod.splits tool_failure.splits if_splits)

section \<open>Samples\<close>

text \<open>A linear evaluation of lengths.\<close>

primrec int_length :: "'a list \<Rightarrow> int" where
  "int_length [] = 0"
| "int_length (x # xs) = 1 + int_length xs"

lemma int_length_unfold [code_unfold]: "int (length xs) = int_length xs"
  by (induction xs) simp_all

definition chat_env :: "string option \<Rightarrow> (tool_failure + json) \<Rightarrow> int \<Rightarrow> int assistant_env" where
  "chat_env key result budget =
     \<lparr>as_model = sample_env\<lparr>me_loads := (\<lambda>t. if t = ''final'' then Some (JObj [(''content'', JStr ''Done.'')]) else
         Some (JObj [(''content'', JStr ''Running.''), (''tool_calls'', JList [JObj [(''module_id'', JStr ''mod''), (''capability_id'', JStr ''cap'')]])])),
        me_providers := new_gateway (register_provider \<lparr>pv_name = ''anthropic'', pv_default_model = None,
          pv_call = (\<lambda>args. Replied \<lparr>pr_text = (if take 2 (rev (ca_prompt args)) = ''.d'' then ''final'' else ''tool''), pr_tokens_in = 30, pr_tokens_out = 10,
             pr_served_model = None, pr_upstream = None\<rparr>)\<rparr> []),
        me_keys := (\<lambda>u n. key)\<rparr>,
      as_system = ''system'', as_em_dash = ''-'', as_arrow = ''>'', as_share = (\<lambda>n. 60 - int n), as_add = (+), as_zero = 0,
      as_embed_query = (\<lambda>q. Inl ''down''), as_distance = None, as_ts_rank = (\<lambda>q t. None), as_score = JInt,
      as_modules = [\<lparr>mo_id = ''i'', mo_module_id = ''mod'', mo_version = ''1'', mo_manifest = JObj [(''name'', JStr ''Mod''),
         (''capabilities'', JList [JObj [(''id'', JStr ''cap''), (''scope'', JStr ''matter'')]])], mo_enabled = True, mo_installed_at = 1\<rparr>],
      as_entrypoint_ok = (\<lambda>m. True), as_dispatch = (\<lambda>m t args actor i s. (result, s)),
      as_context_token_budget = 12000, as_matter_token_budget = budget\<rparr>"

definition chat_matter :: "string \<Rightarrow> db" where
  "chat_matter model = (sample_case ''letter.txt'' ''Dismissed'')\<lparr>matters := map (\<lambda>m. m\<lparr>m_default_model_id := model\<rparr>) (matters (sample_case ''letter.txt'' ''Dismissed''))\<rparr>"

definition chat_ids :: turn_ids where
  "chat_ids = \<lparr>ti_thread = ''th'', ti_user = ''q1'', ti_assistant = ''a1'', ti_invocation = ''i1''\<rparr>"

definition chat_request :: turn_request where
  "chat_request = \<lparr>rq_content = ''What happened?'', rq_selected = [], rq_thread_id = None\<rparr>"

definition chat_limits :: limits where
  "chat_limits = \<lparr>lim_matters_per_user = 9, lim_documents_per_matter = 9, lim_total_storage_bytes_per_user = 9,
     lim_assistant_messages_per_day = 9, lim_workflow_runs_per_day = 9, lim_active_jobs = 9, lim_generated_artefacts_per_day = 9,
     lim_module_submissions_per_day = 9\<rparr>"

definition chat_thread :: "nat \<Rightarrow> db" where
  "chat_thread n = (chat_matter ''stub-echo'')
     \<lparr>assistant_threads := [new_thread ''th'' (hd (matters (chat_matter ''stub-echo''))) ''u'' None 1],
      assistant_messages := map (\<lambda>i. user_row (nat_str i) ''m'' ''th'' ''u'' (nat_str i) (int i)) [0..<n]\<rparr>"

text \<open>Without a key the gateway refuses whatever the prompt is.\<close>

lemma keyless_ask:
  assumes "m_default_model_id m = ''claude-x''" "matters (working s) = [m]" "parse_posture (m_privilege_posture m) = Some p" "p \<noteq> C_PAUSED"
  shows "\<exists>s'. ask (as_model (chat_env None res b)) (assistant_call (chat_env None res b) m actor p i prompt
     [(''stage'', x), (''module'', y)]) s = (Inl (KeyMissing ''anthropic''), s')"
proof -
  let ?q = "assistant_call (chat_env None res b) m actor p i prompt [(''stage'', x), (''module'', y)]" and ?e = "as_model (chat_env None res b)"
  have "effective_posture ?q (working s) = Inr p" using assms(2,3) by (simp add: effective_posture_def assistant_call_def)
  moreover have "requested_model gs ?q = ''claude-x''" for gs using assms(1) by (simp add: requested_model_def assistant_call_def)
  moreover have "pv_name (select_provider (me_providers ?e) ''claude-x'' p) = ''anthropic''"
    by (simp add: chat_env_def select_provider_def provider_for_model_def new_gateway_def register_provider_def)
  moreover have "resolve_key gs (me_keys ?e) q ''anthropic'' = Inl ()" if "gs_environment gs = ''production''" for gs q
    using that by (auto simp: resolve_key_def KEYED_PROVIDERS_def DEV_ENVIRONMENTS_def chat_env_def split: option.splits)
  moreover have "gs_environment (me_settings ?e) = ''production''" by (simp add: chat_env_def sample_env_def)
  ultimately show ?thesis using assms(4) by (simp add: ask_def gateway_call_def dispatch_call_def Let_def)
qed

lemma keyless_turns_succeed:
  assumes "as_matter_token_budget env = 0" "parse_posture (m_privilege_posture m) = Some p"
    and "\<And>prompt i x y s1. matters (working s1) = matters (working s) \<Longrightarrow>
       \<exists>s'. ask (as_model env) (assistant_call env m actor p i prompt [(''stage'', x), (''module'', y)]) s1 = (Inl (KeyMissing n), s')"
  shows "\<not> isl (fst (run_assistant_turn env ids m actor tid rq s))"
proof -
  obtain g s1 where g: "gather env m actor tid rq s = (g, s1)" by fastforce
  then have "matters (working s1) = matters (working s)"
    by (auto simp: gather_def Let_def audit_retrieval_search_def split: if_splits)
  then have same: "matters (working (on_working (add_message u) s1)) = matters (working s)" for u by simp
  define u where "u = user_row (ti_user ids) (m_id m) tid actor (rq_content rq) (clock s1)"
  define prompt where "prompt = assemble_prompt env (ga_parts g) (rq_content rq) (as_context_token_budget env)"
  obtain s3 where "ask (as_model env) (assistant_call env m actor p (am_id u) prompt [(''stage'', JStr ''assistant''), (''module'', JStr ''assistant'')])
      (on_working (add_message u) s1) = (Inl (KeyMissing n), s3)"
    using assms(3) [OF same] by blast
  with assms(1,2) g show ?thesis
    by (cases "keyless_turn env ids m actor tid rq g s3") (simp add: run_assistant_turn_def Let_def flip: u_def prompt_def)
qed

abbreviation run_chat :: "(assistant_error + turn_rows \<times> uuid) \<times> session" where
  "run_chat \<equiv> post_message (chat_env None (Inl ToolCrashed) 0) chat_limits chat_ids ''m'' chat_request ''u'' (open_session (chat_matter ''claude-x'') 9)"

lemma run_chat_succeeds: "\<not> isl (fst run_chat)"
proof -
  let ?env = "chat_env None (Inl ToolCrashed) 0" and ?s = "open_session (chat_matter ''claude-x'') 9"
  define m where "m = hd (matters (chat_matter ''claude-x''))"
  have ms: "matters (chat_matter ''claude-x'') = [m]" by (simp add: m_def chat_matter_def sample_case_def)
  have fields: "m_default_model_id m = ''claude-x''" "m_slug m = ''m''" "m_created_by_id m = ''u''" "m_status m = ''open''"
    "m_privilege_posture m = ''B_mixed''"
    by (simp_all add: m_def chat_matter_def sample_case_def)
  have p: "parse_posture (m_privilege_posture m) = Some B_MIXED" by (simp add: fields parse_posture_def)
  have found: "resolve_owned_open_matter ''m'' ''u'' (working ?s) = Some m"
    by (simp add: open_session_def resolve_owned_open_matter_def ms fields STATUS_ARCHIVED_def)
  have limit: "\<not> isl (check_assistant_message chat_limits ''u'' ?s)" by code_simp
  define s1 where "s1 = snd (resolve_or_create_thread ?env ''th'' m ''u'' chat_request ?s)"
  have thread: "resolve_or_create_thread ?env (ti_thread chat_ids) m ''u'' chat_request ?s = (Inr ''th'', s1)"
    by (simp add: s1_def resolve_or_create_thread_def chat_ids_def chat_request_def)
  have s1: "matters (working (commit s1)) = [m]"
    by (simp add: s1_def resolve_or_create_thread_def chat_request_def open_thread_def ms open_session_def)
  have "\<not> isl (fst (run_assistant_turn ?env chat_ids m ''u'' ''th'' chat_request (commit s1)))"
  proof (rule keyless_turns_succeed [OF _ p])
    show "as_matter_token_budget ?env = 0" by (simp add: chat_env_def)
    show "\<exists>s'. ask (as_model ?env) (assistant_call ?env m ''u'' B_MIXED i prompt [(''stage'', x), (''module'', y)]) s2
        = (Inl (KeyMissing ''anthropic''), s')" if "matters (working s2) = matters (working (commit s1))" for prompt i x y s2
      using keyless_ask [OF fields(1) _ p] that s1 by simp
  qed
  with found limit thread show ?thesis
    by (cases "check_assistant_message chat_limits ''u'' ?s") (auto simp: post_message_def split: prod.splits sum.splits)
qed


lemma memory_covers_the_thread_witness:
  "\<exists>s1 r. ask (as_model (chat_env None (Inl ToolCrashed) 0)) (summary_call (chat_env None (Inl ToolCrashed) 0) (hd (matters (chat_thread 21))) ''u'' ''th'' B_MIXED
       (summary_prompt None (older_turns ''th'' (chat_thread 21)))) (open_session (chat_thread 21) 9) = (Inr r, s1)
     \<and> cp_rolling_summary (ga_parts (fst (gather (chat_env None (Inl ToolCrashed) 0) (hd (matters (chat_thread 21))) ''u'' ''th'' chat_request
         (refresh_rolling_summary (chat_env None (Inl ToolCrashed) 0) (hd (matters (chat_thread 21))) ''u'' ''th'' None (open_session (chat_thread 21) 9)))))
       = Some (truncated (chat_env None (Inl ToolCrashed) 0) (mr_text r) ROLLING_SUMMARY_CHAR_BUDGET)"
proof -
  let ?env = "chat_env None (Inl ToolCrashed) 0" and ?m = "hd (matters (chat_thread 21))" and ?s = "open_session (chat_thread 21) 9"
  let ?ask = "ask (as_model ?env) (summary_call ?env ?m ''u'' ''th'' B_MIXED (summary_prompt None (older_turns ''th'' (working ?s)))) ?s"
  have w: "working ?s = chat_thread 21" by (simp add: open_session_def)
  have ok: "\<not> isl (fst ?ask)" "truncated ?env (mr_text (projr (fst ?ask))) ROLLING_SUMMARY_CHAR_BUDGET \<noteq> []" by code_simp+
  then obtain r s1 where a: "?ask = (Inr r, s1)" by (cases ?ask; cases "fst ?ask") auto
  have sum: "truncated ?env (mr_text r) ROLLING_SUMMARY_CHAR_BUDGET \<noteq> []" using ok(2) unfolding a by simp
  have n: "HISTORY_MESSAGE_LIMIT < thread_message_count ''th'' (working ?s)" by code_simp
  have p: "parse_posture (m_privilege_posture ?m) = Some B_MIXED" by code_simp
  have t: "find (\<lambda>t. th_id t = ''th'') (assistant_threads (working ?s)) = Some (new_thread ''th'' (hd (matters (chat_matter ''stub-echo''))) ''u'' None 1)"
    by (simp add: open_session_def chat_thread_def new_thread_def)
  obtain g s2 where g: "gather ?env ?m ''u'' ''th'' chat_request (refresh_rolling_summary ?env ?m ''u'' ''th'' None ?s) = (g, s2)" by fastforce
  from memory_covers_the_thread [OF n p a sum t g] a show ?thesis by (simp add: g w)
qed

lemma gated_events_reach_the_model_witness:
  "(\<exists>pre post. context_text (chat_env None (Inl ToolCrashed) 0) (ga_parts (fst (gather (chat_env None (Inl ToolCrashed) 0) (hd (matters (chat_thread 0)))
        ''u'' ''th'' chat_request (open_session (chat_thread 0) 9)))) = pre @ ''Dismissed'' @ post)
   \<and> (case get_chronology ''m'' ''u'' (chat_thread 0) of Inl e \<Rightarrow> False
      | Inr resp \<Rightarrow> map vw_description (ch_events resp) = [REDACTED_DESCRIPTION, ''Hearing''])"
proof -
  let ?env = "chat_env None (Inl ToolCrashed) 0" and ?m = "hd (matters (chat_thread 0))" and ?s = "open_session (chat_thread 0) 9"
  obtain g s' where g: "gather ?env ?m ''u'' ''th'' chat_request ?s = (g, s')" by fastforce
  have "sample_event ''e1'' ''Dismissed'' [''d''] \<in> set (chronology_head (m_id ?m) (working ?s))" by code_simp
  from gated_events_reach_the_model [OF g this]
  have "\<exists>pre post. context_text ?env (ga_parts g) = pre @ ''Dismissed'' @ post" by (simp add: sample_event_def)
  moreover have "case get_chronology ''m'' ''u'' (chat_thread 0) of Inl e \<Rightarrow> False
      | Inr resp \<Rightarrow> map vw_description (ch_events resp) = [REDACTED_DESCRIPTION, ''Hearing'']" by code_simp
  ultimately show ?thesis by (simp add: g)
qed

lemma exhausted_budgets_call_nothing_witness:
  "run_assistant_turn (chat_env (Some ''k'') (Inr JNull) 0\<lparr>as_matter_token_budget := 3\<rparr>) chat_ids (hd (matters (chat_thread 0))) ''u'' ''th'' chat_request
     (open_session ((chat_thread 0)\<lparr>assistant_messages := [assistant_row ''x'' ''m'' ''th'' ''u'' ''y'' [] [] ((no_call ''z'')\<lparr>pv_token_count := 3\<rparr>) 1]\<rparr>) 9)
   = run_assistant_turn (chat_env None (Inl ToolCrashed) 3) chat_ids (hd (matters (chat_thread 0))) ''u'' ''th'' chat_request
     (open_session ((chat_thread 0)\<lparr>assistant_messages := [assistant_row ''x'' ''m'' ''th'' ''u'' ''y'' [] [] ((no_call ''z'')\<lparr>pv_token_count := 3\<rparr>) 1]\<rparr>) 9)"
proof -
  let ?s = "open_session ((chat_thread 0)\<lparr>assistant_messages := [assistant_row ''x'' ''m'' ''th'' ''u'' ''y'' [] [] ((no_call ''z'')\<lparr>pv_token_count := 3\<rparr>) 1]\<rparr>) 9"
  have "0 < as_matter_token_budget (chat_env None (Inl ToolCrashed) 3)"
    "as_matter_token_budget (chat_env None (Inl ToolCrashed) 3) \<le> matter_token_usage (m_id (hd (matters (chat_thread 0)))) (working ?s)"
    by code_simp+
  from exhausted_budgets_call_nothing [OF this, of "chat_env (Some ''k'') (Inr JNull) 0\<lparr>as_matter_token_budget := 3\<rparr>"]
  show ?thesis by (simp add: chat_env_def)
qed

end
