(* ===== verification/Spec2Isabelle.thy ===== *)
theory Spec2Isabelle
  imports ExportVerifier StateMachine TrustCeremony GrantsLifecycle Reviews Signoff EditResolver RateLimit Worker Anonymisation EnvelopeStream ModelGateway DependencyResolver DocumentHistory MatterContext AssistantTurn
begin

text \<open>
  A verification library for the backend of Legalise (\<open>src/backend/app\<close>), a workspace in which
  lawyers and third-party modules work on the documents of a matter under gates, audit and sign-off.
  All paths below are under \<open>src/backend\<close>.

  The parts and how they interact. Every service function takes a request session, writes rows and
  audit rows into its transaction and lets the route commit; denials are committed on a connection
  of their own. A module is installed through the trust ceremony, gets grants of capabilities, and
  every later act of it passes the capability gate, the posture gate, the advice-boundary gate and
  the transitions of its state machines. What it produces is stored as artifacts, reviewed and
  signed off; what it proposes for a document is a version with tracked changes. Documents are
  extracted, cut into chunks, indexed and searched, and can be anonymised. Long work runs as
  durable jobs in a worker. The end of a matter is a tombstone, by the user or by the retention
  sweep. Under all of it lies the audit log, chained by hashes in the database, exported with the
  matter and checked by a stand-alone verifier.

  Theories, in the order of their dependencies:
  \<^item> \<open>Prelude\<close>: strings, decimal numerals, JSON values with \<open>json.dumps\<close>, \<open>str\<close> and \<open>repr\<close>,
    dictionaries, length-prefixed fields, and the generic lemmas about them.
  \<^item> \<open>Database\<close>: the rows of \<open>app/models\<close>, the database as a record of tables, the session as its
    committed and pending databases, \<open>audit.log\<close> and \<open>audit_failure\<close> (\<open>app/core/api.py\<close>).
  \<^item> \<open>AuditChain\<close>: \<open>app/core/audit_chain.py\<close> and the trigger and backfill of
    \<open>alembic/versions/0030_audit_hash_chain.py\<close>. The trigger's chain verifies without issue; a head
    hash determines every hashed field of the log before it, or exhibits a collision of the hash.
  \<^item> \<open>ExportVerifier\<close>: the chain in the export (\<open>app/core/exports.py\<close>) and
    \<open>app/core/export_chain_verifier.py\<close>. An export passes; an accepted file is pinned by its head.
  \<^item> \<open>Capabilities\<close>: \<open>app/core/capabilities.py\<close>, the grant table, and the gate of
    \<open>app/core/phase1_runtime\<close>, with the capability grammar as a parser and its inverse. The locale
    of a gate states the contract of a check (permit or leave a committed denial) that the
    capability and posture gates both provide.
  \<^item> \<open>AdviceBoundary\<close>: \<open>app/core/advice_boundary\<close> and \<open>app/core/posture_gate.py\<close>. Each gate is
    equivalent to a declarative permission; the tiers an output reaches were supervised.
  \<^item> \<open>StateMachine\<close>: \<open>app/core/state_machine\<close>. Instances walk their definitions, the history
    records the walk, and completed transitions held every capability and passed every gate.
  \<^item> \<open>TrustCeremony\<close>: \<open>app/core/trust_ceremony.py\<close>, \<open>publishers.py\<close>, \<open>signing.py\<close>. No module is
    enabled that was not taken through every review its path requires; the steps that suffice.
  \<^item> \<open>GrantsLifecycle\<close>: \<open>app/core/grants_lifecycle.py\<close>. An update is silent exactly when it asks for
    no more in any dimension, and silent updates compose.
  \<^item> \<open>Artifacts\<close>, \<open>CanonicalJson\<close>, \<open>Reviews\<close>, \<open>Signoff\<close>: \<open>app/core/matter_artifacts.py\<close>, the keys
    of \<open>storage.py\<close>, \<open>reviews.py\<close>, \<open>signoff.py\<close>. Canonical JSON is decodable, so a signature pins the
    output up to the order of keys; decisions are separated from authors, logged and final once
    committed, but a session with an old copy of the row can overwrite one.
  \<^item> \<open>EditResolver\<close>: \<open>app/modules/document_edit/resolver.py\<close>. The text of a closed version does not
    depend on the order in which its edits were resolved; accepting on an older version is lost.
  \<^item> \<open>Chunking\<close>, \<open>Indexing\<close>: \<open>app/core/chunking.py\<close>, \<open>indexing.py\<close>, \<open>retrieval.py\<close>. Chunks cover
    the text within their size, stored rows rebuild it, a search stays in its matter.
  \<^item> \<open>RateLimit\<close>: \<open>app/core/rate_limit.py\<close>. At most the limit in any window of an hour.
  \<^item> \<open>Jobs\<close>, \<open>Lifecycle\<close>, \<open>Worker\<close>: \<open>app/core/jobs.py\<close>, \<open>matter_lifecycle.py\<close>,
    \<open>matter_access.py\<close>, \<open>app/tools/retention_sweep.py\<close>, \<open>app/worker.py\<close> and \<open>delete_prefix\<close> of both
    storage backends, which interpret one locale of a prefix store. Deletion is complete or fails
    closed, except for objects the store refuses to delete; sweeps get to every expired matter
    unless one is stuck; job rows are well formed, bounded per user, and runs end.
  \<^item> \<open>StructuredOutput\<close>, \<open>Anonymisation\<close>: \<open>app/core/structured_output.py\<close> and
    \<open>app/modules/anonymisation\<close>. A redaction can be undone with its mapping, tokens keep their
    originals over all runs that find something, and a run whose fallback fails loses both.
  \<^item> \<open>Uploads\<close>, \<open>DocumentVersions\<close>, \<open>DocumentHistory\<close>: \<open>app/core/document_uploads.py\<close>, \<open>limits.py\<close>, the upload
    route of \<open>app/api/matters.py\<close>, and of \<open>app/api/document_routes\<close> \<open>body_versions.py\<close> (replacing, restoring,
    saving by hand), \<open>working_draft.py\<close>, \<open>crud.py\<close> and the helpers in \<open>common.py\<close>. The history of versions is
    append-only under any requests, a restored version shows its file again, a counter guards the
    draft until it is cleared; the passages of a replaced file stay in the index.
  \<^item> \<open>ModelGateway\<close>: \<open>app/core/model_gateway.py\<close>, calls and tools. A prompt leaves only under an open
    posture, a grant and an allowed key; every outcome is on the record, and the one that is not is named.
  \<^item> \<open>DependencyResolver\<close>: \<open>app/core/dependency_resolver.py\<close>. The depth-first search ends and finds a cycle
    exactly if there is one; a manifest is satisfied exactly if its requirements are.
  \<^item> \<open>MatterContext\<close>: \<open>app/core/matter_context\<close> and \<open>app/api/matter_context.py\<close>. Every stored item meets the schema it
    names; chains of replacements end in a live item; an item replaced twice leaves two.
  \<^item> \<open>EnvelopeStream\<close>: the display of a reply while it streams (\<open>app/modules/assistant/pipeline.py\<close>).
    The deltas add up to the content whatever the chunks; a signed escape breaks the decoder.

  Parameters, which stand for code outside the repository: the hash (SHA-256; no property of it is
  assumed, the theorems exhibit a collision instead), the signature primitives, \<open>json.loads\<close> and
  schema validation, PostgreSQL's JSON text, the parser of \<open>ipaddress\<close>, the replies of the object
  store, the embedding backend, the distance and rank of PostgreSQL and the addition of floats, the
  Presidio analyser, the extraction of text from files, the network clients of the model vendors, the decrypted keys of users. In the
  pipelines the call of the gateway and the building of the export archive are parameters too.

  Assumptions of the model. A transaction runs alone (the code takes row and advisory locks where it
  relies on this; where it does not, as for a stale copy of a review, the model has the copy).
  Commits succeed, except where a text is longer than its column. A text is over the first 256 code
  points. Instants are microseconds, durations in the speed flag twentieths of a second.

  Bounds. No definition runs on fuel: the loops of chunking, embedding, canonical rendering and
  parsing recurse on a measure, the searches for the next occurrence on the code's own limit.

  Not modelled: the routers beyond the routes named above, the model providers, the rest of the
  assistant, chronology and edit-proposal pipelines, the
  registry, sandbox and MCP host, authentication, mail and encryption, seeds and command-line tools,
  and the frontend. The manifest gives the reason for each.
\<close>

end
